(* ===== verification/Prelude.thy ===== *)
theory Prelude
  imports Complex_Main "HOL-Library.Sublist"
begin

text \<open>
  Shared vocabulary of the development: the Python string, list and dictionary operations
  the modelled modules use, the wire values and the operations of the external key-value
  service (Redis) they call, and the rule collections the component proofs share.

  Text is \<open>string\<close> (a list of characters); the operations below follow Python's on ASCII
  text.  Python's floats are exact rationals (\<open>rat\<close>): rounding is not modelled.
\<close>

named_theorems fail_open \<open>what an operation returns when the external service raises\<close>
named_theorems frame \<open>fields an operation leaves unchanged\<close>

type_synonym exn = string

section \<open>Python strings\<close>

definition lower_char :: "char \<Rightarrow> char" where
  "lower_char c =
     (let n = of_char c :: nat in if 65 \<le> n \<and> n \<le> 90 then char_of (n + 32) else c)"

definition upper_char :: "char \<Rightarrow> char" where
  "upper_char c =
     (let n = of_char c :: nat in if 97 \<le> n \<and> n \<le> 122 then char_of (n - 32) else c)"

definition py_lower :: "string \<Rightarrow> string" where
  "py_lower s = map lower_char s"

definition py_upper :: "string \<Rightarrow> string" where
  "py_upper s = map upper_char s"

definition is_space :: "char \<Rightarrow> bool" where
  "is_space c = (let n = of_char c :: nat in 9 \<le> n \<and> n \<le> 13 \<or> 28 \<le> n \<and> n \<le> 32)"

definition py_strip :: "string \<Rightarrow> string" where
  "py_strip s = rev (dropWhile is_space (rev (dropWhile is_space s)))"

fun contains :: "'a list \<Rightarrow> 'a list \<Rightarrow> bool" where
  "contains needle [] = (needle = [])"
| "contains needle (c # cs) = (prefix needle (c # cs) \<or> contains needle cs)"

fun split_char :: "char \<Rightarrow> string \<Rightarrow> string list" where
  "split_char d [] = [[]]"
| "split_char d (c # cs) =
     (if c = d then [] # split_char d cs
      else (case split_char d cs of [] \<Rightarrow> [[c]] | w # ws \<Rightarrow> (c # w) # ws))"

fun words_acc :: "string \<Rightarrow> string \<Rightarrow> string list" where
  "words_acc acc [] = (if acc = [] then [] else [rev acc])"
| "words_acc acc (c # cs) =
     (if is_space c then (if acc = [] then words_acc [] cs else rev acc # words_acc [] cs)
      else words_acc (c # acc) cs)"

definition py_split :: "string \<Rightarrow> string list" where
  "py_split s = words_acc [] s"

fun py_join :: "string \<Rightarrow> string list \<Rightarrow> string" where
  "py_join sep [] = []"
| "py_join sep [x] = x"
| "py_join sep (x # y # ys) = x @ sep @ py_join sep (y # ys)"

definition char_nl :: char where
  "char_nl = CHR 0x0A"

definition nl :: string where
  "nl = [CHR 0x0A]"

definition is_line_break :: "char \<Rightarrow> bool" where
  "is_line_break c = (let n = of_char c :: nat in 10 \<le> n \<and> n \<le> 13 \<or> 28 \<le> n \<and> n \<le> 30)"

fun lines_acc :: "string \<Rightarrow> string \<Rightarrow> string list" where
  "lines_acc acc [] = (if acc = [] then [] else [rev acc])"
| "lines_acc acc [c] = (if is_line_break c then [rev acc] else [rev (c # acc)])"
| "lines_acc acc (c # d # cs) =
     (if c = CHR 0x0D \<and> d = CHR 0x0A then rev acc # lines_acc [] cs
      else if is_line_break c then rev acc # lines_acc [] (d # cs)
      else lines_acc (c # acc) (d # cs))"

definition py_splitlines :: "string \<Rightarrow> string list" where
  "py_splitlines s = lines_acc [] s"

fun digits_rev :: "nat \<Rightarrow> string" where
  "digits_rev n = (if n < 10 then [char_of (48 + n)] else char_of (48 + n mod 10) # digits_rev (n div 10))"

declare digits_rev.simps [simp del]

definition show_nat :: "nat \<Rightarrow> string" where
  "show_nat n = rev (digits_rev n)"

definition show_int :: "int \<Rightarrow> string" where
  "show_int i = (if i < 0 then CHR ''-'' # show_nat (nat (- i)) else show_nat (nat i))"

lemma map_sum_Inr_ex: "map_sum id g x = Inr y \<longleftrightarrow> (\<exists>z. x = Inr z \<and> y = g z)"
  by (cases x) auto

lemma contains_iff_sublist: "contains xs ys = sublist xs ys"
  by (induction ys) (auto simp: sublist_Cons_right)

lemma contains_refl [simp]: "contains xs xs"
  by (simp add: contains_iff_sublist)

lemma contains_append: "contains xs (ys @ xs @ zs)"
  by (simp add: contains_iff_sublist)

lemma length_py_strip_le: "length (py_strip s) \<le> length s"
proof -
  have "length (py_strip s) \<le> length (dropWhile is_space s)"
    using length_dropWhile_le [of is_space "rev (dropWhile is_space s)"] by (simp add: py_strip_def)
  also have "\<dots> \<le> length s" by (rule length_dropWhile_le)
  finally show ?thesis .
qed

section \<open>Dictionaries in insertion order\<close>

fun dict_get :: "('k \<times> 'v) list \<Rightarrow> 'k \<Rightarrow> 'v option" where
  "dict_get [] k = None"
| "dict_get ((k', v) # d) k = (if k' = k then Some v else dict_get d k)"

fun dict_set :: "('k \<times> 'v) list \<Rightarrow> 'k \<Rightarrow> 'v \<Rightarrow> ('k \<times> 'v) list" where
  "dict_set [] k v = [(k, v)]"
| "dict_set ((k', v') # d) k v = (if k' = k then (k, v) # d else (k', v') # dict_set d k v)"

definition dict_del :: "('k \<times> 'v) list \<Rightarrow> 'k \<Rightarrow> ('k \<times> 'v) list" where
  "dict_del d k = filter (\<lambda>p. fst p \<noteq> k) d"

lemma dict_get_set [simp]: "dict_get (dict_set d k v) k' = (if k' = k then Some v else dict_get d k')"
  by (induction d k v rule: dict_set.induct) auto

lemma dict_get_del [simp]: "dict_get (dict_del d k) k' = (if k' = k then None else dict_get d k')"
  by (induction d) (auto simp: dict_del_def)

lemma dict_get_map_of: "dict_get d = map_of d"
proof
  fix k
  show "dict_get d k = map_of d k" by (induction d) auto
qed

section \<open>The key-value service\<close>

text \<open>
  Values on the wire: a decoded text, or the text of a number, which is kept as the number
  because the code only ever writes \<open>str(n)\<close> and reads it back with \<open>int\<close> or
  \<open>float\<close>.
\<close>

datatype rval = RText string | RInt int | RFloat rat

definition wire_int :: "rval \<Rightarrow> int option" where
  "wire_int v = (case v of RInt n \<Rightarrow> Some n | _ \<Rightarrow> None)"

definition wire_float :: "rval \<Rightarrow> rat option" where
  "wire_float v = (case v of RInt n \<Rightarrow> Some (of_int n) | RFloat x \<Rightarrow> Some x | RText _ \<Rightarrow> None)"

text \<open>
  The service itself is not part of the program: its calls are the fields of a record of
  operations, each taking the service's state \<open>'s\<close> and returning either the exception it
  raised or its reply, with the next state.
\<close>

text \<open>
  A Lua script runs inside the service, in one atomic step, on the value of one key: from that
  value it computes a reply (or an error) and the key's next value.
\<close>

type_synonym script = "rval option \<Rightarrow> (exn + rval list) \<times> rval option"

record 's redis_ops =
  rd_get :: "string \<Rightarrow> 's \<Rightarrow> (exn + rval option) \<times> 's"
  rd_set :: "string \<Rightarrow> rval \<Rightarrow> 's \<Rightarrow> (exn + unit) \<times> 's"
  rd_setex :: "string \<Rightarrow> int \<Rightarrow> rval \<Rightarrow> 's \<Rightarrow> (exn + unit) \<times> 's"
  rd_set_nx :: "string \<Rightarrow> int \<Rightarrow> rval \<Rightarrow> 's \<Rightarrow> (exn + bool) \<times> 's"
  rd_incrby :: "string \<Rightarrow> int \<Rightarrow> 's \<Rightarrow> (exn + int) \<times> 's"
  rd_expire :: "string \<Rightarrow> int \<Rightarrow> 's \<Rightarrow> (exn + unit) \<times> 's"
  rd_incr_expire :: "string \<Rightarrow> int \<Rightarrow> 's \<Rightarrow> (exn + int) \<times> 's"
  rd_del :: "string \<Rightarrow> 's \<Rightarrow> (exn + unit) \<times> 's"
  rd_eval :: "script \<Rightarrow> string \<Rightarrow> 's \<Rightarrow> (exn + rval list) \<times> 's"

text \<open>Every call raises: the service is down.\<close>

definition redis_down :: "'s redis_ops \<Rightarrow> bool" where
  "redis_down r \<longleftrightarrow>
     (\<forall>k s. isl (fst (rd_get r k s))) \<and> (\<forall>k v s. isl (fst (rd_set r k v s))) \<and>
     (\<forall>k t v s. isl (fst (rd_setex r k t v s))) \<and> (\<forall>k t v s. isl (fst (rd_set_nx r k t v s))) \<and>
     (\<forall>k n s. isl (fst (rd_incrby r k n s))) \<and> (\<forall>k t s. isl (fst (rd_expire r k t s))) \<and>
     (\<forall>k t s. isl (fst (rd_incr_expire r k t s))) \<and> (\<forall>k s. isl (fst (rd_del r k s))) \<and>
     (\<forall>f k s. isl (fst (rd_eval r f k s)))"

text \<open>
  The service is up and behaves as its documentation says, read through the view
  \<open>look s k\<close> of what a GET of \<open>k\<close> answers in state \<open>s\<close>.
\<close>

definition redis_laws :: "'s redis_ops \<Rightarrow> ('s \<Rightarrow> string \<Rightarrow> rval option) \<Rightarrow> bool" where
  "redis_laws r look \<longleftrightarrow>
     (\<forall>k s. rd_get r k s = (Inr (look s k), s)) \<and>
     (\<forall>k v s. fst (rd_set r k v s) = Inr () \<and> look (snd (rd_set r k v s)) = (look s)(k \<mapsto> v)) \<and>
     (\<forall>k t v s. fst (rd_setex r k t v s) = Inr () \<and> look (snd (rd_setex r k t v s)) = (look s)(k \<mapsto> v)) \<and>
     (\<forall>k t v s. fst (rd_set_nx r k t v s) = Inr (look s k = None) \<and>
        look (snd (rd_set_nx r k t v s)) = (if look s k = None then (look s)(k \<mapsto> v) else look s)) \<and>
     (\<forall>k n s c. (case look s k of None \<Rightarrow> c = 0 | Some v \<Rightarrow> wire_int v = Some c) \<longrightarrow>
        fst (rd_incrby r k n s) = Inr (c + n) \<and> look (snd (rd_incrby r k n s)) = (look s)(k \<mapsto> RInt (c + n))) \<and>
     (\<forall>k t s. fst (rd_expire r k t s) = Inr () \<and> look (snd (rd_expire r k t s)) = look s) \<and>
     (\<forall>k t s c. (case look s k of None \<Rightarrow> c = 0 | Some v \<Rightarrow> wire_int v = Some c) \<longrightarrow>
        fst (rd_incr_expire r k t s) = Inr (c + 1) \<and> look (snd (rd_incr_expire r k t s)) = (look s)(k \<mapsto> RInt (c + 1))) \<and>
     (\<forall>k s. fst (rd_del r k s) = Inr () \<and> look (snd (rd_del r k s)) = (look s)(k := None)) \<and>
     (\<forall>f k s. fst (rd_eval r f k s) = fst (f (look s k)) \<and>
        look (snd (rd_eval r f k s)) = (look s)(k := snd (f (look s k))))"

text \<open>A concrete service for evaluating the model: a map with no expiry, and one that is down.\<close>

definition map_redis :: "(string \<Rightarrow> rval option) redis_ops" where
  "map_redis =
     \<lparr>rd_get = (\<lambda>k s. (Inr (s k), s)),
      rd_set = (\<lambda>k v s. (Inr (), s(k \<mapsto> v))),
      rd_setex = (\<lambda>k t v s. (Inr (), s(k \<mapsto> v))),
      rd_set_nx = (\<lambda>k t v s. if s k = None then (Inr True, s(k \<mapsto> v)) else (Inr False, s)),
      rd_incrby = (\<lambda>k n s.
        (case (case s k of None \<Rightarrow> Some 0 | Some v \<Rightarrow> wire_int v) of
           None \<Rightarrow> (Inl ''value is not an integer'', s)
         | Some c \<Rightarrow> (Inr (c + n), s(k \<mapsto> RInt (c + n))))),
      rd_expire = (\<lambda>k t s. (Inr (), s)),
      rd_incr_expire = (\<lambda>k t s.
        (case (case s k of None \<Rightarrow> Some 0 | Some v \<Rightarrow> wire_int v) of
           None \<Rightarrow> (Inl ''value is not an integer'', s)
         | Some c \<Rightarrow> (Inr (c + 1), s(k \<mapsto> RInt (c + 1))))),
      rd_del = (\<lambda>k s. (Inr (), s(k := None))),
      rd_eval = (\<lambda>f k s. (fst (f (s k)), s(k := snd (f (s k)))))\<rparr>"

definition dead_redis :: "unit redis_ops" where
  "dead_redis =
     \<lparr>rd_get = (\<lambda>k s. (Inl ''down'', s)), rd_set = (\<lambda>k v s. (Inl ''down'', s)),
      rd_setex = (\<lambda>k t v s. (Inl ''down'', s)), rd_set_nx = (\<lambda>k t v s. (Inl ''down'', s)),
      rd_incrby = (\<lambda>k n s. (Inl ''down'', s)), rd_expire = (\<lambda>k t s. (Inl ''down'', s)),
      rd_incr_expire = (\<lambda>k t s. (Inl ''down'', s)), rd_del = (\<lambda>k s. (Inl ''down'', s)),
      rd_eval = (\<lambda>f k s. (Inl ''down'', s))\<rparr>"

lemma map_redis_laws: "redis_laws map_redis (\<lambda>s. s)"
  by (auto simp: redis_laws_def map_redis_def split: option.splits)

lemma dead_redis_down: "redis_down dead_redis"
  by (simp add: redis_down_def dead_redis_def)

lemma redis_downD:
  assumes "redis_down r"
  shows "\<exists>e s'. rd_get r k s = (Inl e, s')" "\<exists>e s'. rd_setex r k t v s = (Inl e, s')"
    "\<exists>e s'. rd_incrby r k n s = (Inl e, s')" "\<exists>e s'. rd_expire r k t s = (Inl e, s')"
    "\<exists>e s'. rd_incr_expire r k t s = (Inl e, s')" "\<exists>e s'. rd_del r k s = (Inl e, s')"
    "\<exists>e s'. rd_set r k v s = (Inl e, s')" "\<exists>e s'. rd_set_nx r k t v s = (Inl e, s')"
    "\<exists>e s'. rd_eval r f k s = (Inl e, s')"
  using assms unfolding redis_down_def isl_def by (metis prod.collapse)+

lemma redis_lawsD:
  assumes "redis_laws r look"
  shows redis_get_law: "rd_get r k s = (Inr (look s k), s)"
    and redis_set_law: "fst (rd_set r k v s) = Inr ()" "look (snd (rd_set r k v s)) = (look s)(k \<mapsto> v)"
    and redis_setex_law: "fst (rd_setex r k t v s) = Inr ()"
      "look (snd (rd_setex r k t v s)) = (look s)(k \<mapsto> v)"
    and redis_set_nx_law: "fst (rd_set_nx r k t v s) = Inr (look s k = None)"
      "look (snd (rd_set_nx r k t v s)) = (if look s k = None then (look s)(k \<mapsto> v) else look s)"
    and redis_expire_law: "fst (rd_expire r k t s) = Inr ()" "look (snd (rd_expire r k t s)) = look s"
    and redis_del_law: "fst (rd_del r k s) = Inr ()" "look (snd (rd_del r k s)) = (look s)(k := None)"
    and redis_eval_law: "fst (rd_eval r f k s) = fst (f (look s k))"
      "look (snd (rd_eval r f k s)) = (look s)(k := snd (f (look s k)))"
  using assms by (simp_all add: redis_laws_def)

lemma redis_incrby_law:
  assumes "redis_laws r look" and "case look s k of None \<Rightarrow> c = 0 | Some v \<Rightarrow> wire_int v = Some c"
  shows "fst (rd_incrby r k n s) = Inr (c + n)"
    and "look (snd (rd_incrby r k n s)) = (look s)(k \<mapsto> RInt (c + n))"
  using assms unfolding redis_laws_def by blast+

lemma redis_incr_expire_law:
  assumes "redis_laws r look" and "case look s k of None \<Rightarrow> c = 0 | Some v \<Rightarrow> wire_int v = Some c"
  shows "fst (rd_incr_expire r k t s) = Inr (c + 1)"
    and "look (snd (rd_incr_expire r k t s)) = (look s)(k \<mapsto> RInt (c + 1))"
  using assms unfolding redis_laws_def by blast+

end
