(* ===== verification/Json.thy ===== *)
theory Json
  imports Prelude
begin

text \<open>
  JSON values as the code's \<open>json.loads\<close> and \<open>json.dumps\<close> (default separators) see them.  An
  object keeps its keys in insertion order; a number with a fraction or an exponent keeps its
  text.  The parser takes fuel; \<open>json_loads\<close> gives it twice the length of the text plus one,
  which \<open>parse_value_enough\<close> shows to be enough.
\<close>

datatype json =
    JNull
  | JBool bool
  | JInt int
  | JReal string
  | JStr string
  | JList "json list"
  | JObj "(string \<times> json) list"

text \<open>Python's truth value: the empty and the zero values are false.\<close>

fun json_truthy :: "json \<Rightarrow> bool" where
  "json_truthy JNull = False"
| "json_truthy (JBool b) = b"
| "json_truthy (JInt n) = (n \<noteq> 0)"
| "json_truthy (JReal s) = (\<exists>c \<in> set (takeWhile (\<lambda>c. c \<noteq> CHR ''e'' \<and> c \<noteq> CHR ''E'') s).
     c \<noteq> CHR ''0'' \<and> c \<noteq> CHR ''.'' \<and> c \<noteq> CHR ''-'')"
| "json_truthy (JStr s) = (s \<noteq> [])"
| "json_truthy (JList xs) = (xs \<noteq> [])"
| "json_truthy (JObj ms) = (ms \<noteq> [])"

section \<open>Printing\<close>

definition hex_digit :: "nat \<Rightarrow> char" where
  "hex_digit n = (if n < 10 then char_of (48 + n) else char_of (87 + n))"

definition escape_char :: "char \<Rightarrow> string" where
  "escape_char c =
     (let n = of_char c :: nat
      in if c = CHR 0x22 then [CHR 0x5C, CHR 0x22]
         else if c = CHR 0x5C then [CHR 0x5C, CHR 0x5C]
         else if n = 10 then [CHR 0x5C, CHR ''n'']
         else if n = 13 then [CHR 0x5C, CHR ''r'']
         else if n = 9 then [CHR 0x5C, CHR ''t'']
         else if n = 8 then [CHR 0x5C, CHR ''b'']
         else if n = 12 then [CHR 0x5C, CHR ''f'']
         else if n < 32 \<or> 126 < n then CHR 0x5C # ''u00'' @ [hex_digit (n div 16), hex_digit (n mod 16)]
         else [c])"

definition dump_str :: "string \<Rightarrow> string" where
  "dump_str s = CHR 0x22 # concat (map escape_char s) @ [CHR 0x22]"

fun json_dumps :: "json \<Rightarrow> string" where
  "json_dumps JNull = ''null''"
| "json_dumps (JBool b) = (if b then ''true'' else ''false'')"
| "json_dumps (JInt n) = show_int n"
| "json_dumps (JReal s) = s"
| "json_dumps (JStr s) = dump_str s"
| "json_dumps (JList xs) = CHR ''['' # py_join '', '' (map json_dumps xs) @ [CHR '']'']"
| "json_dumps (JObj ms) =
     CHR ''{'' # py_join '', '' (map (\<lambda>(k, v). dump_str k @ '': '' @ json_dumps v) ms) @ [CHR ''}'']"

section \<open>Parsing\<close>

definition is_json_ws :: "char \<Rightarrow> bool" where
  "is_json_ws c \<longleftrightarrow> c = CHR 0x20 \<or> c = CHR 0x09 \<or> c = CHR 0x0A \<or> c = CHR 0x0D"

definition skip_ws :: "string \<Rightarrow> string" where
  "skip_ws s = dropWhile is_json_ws s"

definition hex_val :: "char \<Rightarrow> nat option" where
  "hex_val c =
     (let n = of_char c :: nat
      in if 48 \<le> n \<and> n \<le> 57 then Some (n - 48)
         else if 97 \<le> n \<and> n \<le> 102 then Some (n - 87)
         else if 65 \<le> n \<and> n \<le> 70 then Some (n - 55)
         else None)"

definition simple_escape :: "char \<Rightarrow> char option" where
  "simple_escape c =
     (if c = CHR 0x22 \<or> c = CHR 0x5C \<or> c = CHR ''/'' then Some c
      else if c = CHR ''n'' then Some (CHR 0x0A)
      else if c = CHR ''t'' then Some (CHR 0x09)
      else if c = CHR ''r'' then Some (CHR 0x0D)
      else if c = CHR ''b'' then Some (CHR 0x08)
      else if c = CHR ''f'' then Some (CHR 0x0C)
      else None)"

text \<open>
  The text after an opening quote: the string and what follows its closing quote.  An escape
  \<open>\u00XY\<close> is the character of that code; code points of 256 and more are outside the text model.
\<close>

fun parse_str :: "string \<Rightarrow> (string \<times> string) option" where
  "parse_str [] = None"
| "parse_str (c # cs) =
     (if c = CHR 0x22 then Some ([], cs)
      else if c = CHR 0x5C then
        (case cs of
           [] \<Rightarrow> None
         | e # es \<Rightarrow>
             if e = CHR ''u'' then
               (case es of
                  a # b # x # y # rest \<Rightarrow>
                    (case (hex_val a, hex_val b, hex_val x, hex_val y) of
                       (Some 0, Some 0, Some h, Some l) \<Rightarrow>
                         (case parse_str rest of
                            None \<Rightarrow> None | Some (s, r) \<Rightarrow> Some (char_of (16 * h + l) # s, r))
                     | _ \<Rightarrow> None)
                | _ \<Rightarrow> None)
             else (case simple_escape e of
                     None \<Rightarrow> None
                   | Some d \<Rightarrow> (case parse_str es of None \<Rightarrow> None | Some (s, r) \<Rightarrow> Some (d # s, r))))
      else if (of_char c :: nat) < 32 then None
      else (case parse_str cs of None \<Rightarrow> None | Some (s, r) \<Rightarrow> Some (c # s, r)))"

definition is_digit :: "char \<Rightarrow> bool" where
  "is_digit c = (let n = of_char c :: nat in 48 \<le> n \<and> n \<le> 57)"

definition read_nat :: "string \<Rightarrow> nat" where
  "read_nat ds = foldl (\<lambda>a d. 10 * a + (of_char d - 48)) 0 ds"

text \<open>
  A number: sign, integer part without leading zeros, optional fraction and exponent.
\<close>

definition parse_frac :: "string \<Rightarrow> string \<times> string" where
  "parse_frac s =
     (case s of
        c # cs \<Rightarrow>
          (if c = CHR ''.'' \<and> takeWhile is_digit cs \<noteq> []
           then (c # takeWhile is_digit cs, dropWhile is_digit cs) else ([], s))
      | [] \<Rightarrow> ([], s))"

definition parse_exp :: "string \<Rightarrow> string \<times> string" where
  "parse_exp s =
     (case s of
        c # cs \<Rightarrow>
          (if c = CHR ''e'' \<or> c = CHR ''E'' then
             (let (sg, ds) = (case cs of
                    d # ds \<Rightarrow> if d = CHR ''+'' \<or> d = CHR ''-'' then ([d], ds) else ([], cs)
                  | [] \<Rightarrow> ([], cs))
              in if takeWhile is_digit ds \<noteq> []
                 then (c # sg @ takeWhile is_digit ds, dropWhile is_digit ds) else ([], s))
           else ([], s))
      | [] \<Rightarrow> ([], s))"

definition parse_int_part :: "string \<Rightarrow> (string \<times> string) option" where
  "parse_int_part s =
     (case s of
        c # cs \<Rightarrow>
          (if c = CHR ''0'' then Some ([c], cs)
           else if is_digit c then Some (takeWhile is_digit s, dropWhile is_digit s)
           else None)
      | [] \<Rightarrow> None)"

definition parse_number :: "string \<Rightarrow> (json \<times> string) option" where
  "parse_number s =
     (let (sg, body) = (case s of c # cs \<Rightarrow> if c = CHR ''-'' then ([c], cs) else ([], s) | [] \<Rightarrow> ([], s))
      in case parse_int_part body of
           None \<Rightarrow> None
         | Some (ds, r1) \<Rightarrow>
             (let (fr, r2) = parse_frac r1; (ex, r3) = parse_exp r2
              in if fr = [] \<and> ex = []
                 then Some (JInt (if sg = [] then int (read_nat ds) else - int (read_nat ds)), r3)
                 else Some (JReal (sg @ ds @ fr @ ex), r3)))"

definition parse_literal :: "string \<Rightarrow> (json \<times> string) option" where
  "parse_literal s =
     (if prefix ''null'' s then Some (JNull, drop 4 s)
      else if prefix ''true'' s then Some (JBool True, drop 4 s)
      else if prefix ''false'' s then Some (JBool False, drop 5 s)
      else if prefix ''NaN'' s then Some (JReal ''NaN'', drop 3 s)
      else if prefix ''Infinity'' s then Some (JReal ''Infinity'', drop 8 s)
      else if prefix ''-Infinity'' s then Some (JReal ''-Infinity'', drop 9 s)
      else parse_number s)"

fun parse_value :: "nat \<Rightarrow> string \<Rightarrow> (json \<times> string) option"
and parse_elems :: "nat \<Rightarrow> string \<Rightarrow> (json list \<times> string) option"
and parse_members :: "nat \<Rightarrow> (string \<times> json) list \<Rightarrow> string \<Rightarrow> ((string \<times> json) list \<times> string) option" where
  "parse_value 0 s = None"
| "parse_value (Suc n) s =
     (case s of
        [] \<Rightarrow> None
      | c # cs \<Rightarrow>
          if c = CHR 0x22 then (case parse_str cs of None \<Rightarrow> None | Some (t, r) \<Rightarrow> Some (JStr t, r))
          else if c = CHR ''['' then
            (case skip_ws cs of
               [] \<Rightarrow> None
             | d # ds \<Rightarrow>
                 if d = CHR '']'' then Some (JList [], ds)
                 else (case parse_elems n (d # ds) of None \<Rightarrow> None | Some (xs, r) \<Rightarrow> Some (JList xs, r)))
          else if c = CHR ''{'' then
            (case skip_ws cs of
               [] \<Rightarrow> None
             | d # ds \<Rightarrow>
                 if d = CHR ''}'' then Some (JObj [], ds)
                 else (case parse_members n [] (d # ds) of None \<Rightarrow> None | Some (ms, r) \<Rightarrow> Some (JObj ms, r)))
          else parse_literal s)"
| "parse_elems 0 s = None"
| "parse_elems (Suc n) s =
     (case parse_value n s of
        None \<Rightarrow> None
      | Some (x, r) \<Rightarrow>
          (case skip_ws r of
             [] \<Rightarrow> None
           | c # cs \<Rightarrow>
               if c = CHR '']'' then Some ([x], cs)
               else if c = CHR '','' then
                 (case parse_elems n (skip_ws cs) of None \<Rightarrow> None | Some (xs, r') \<Rightarrow> Some (x # xs, r'))
               else None))"
| "parse_members 0 acc s = None"
| "parse_members (Suc n) acc s =
     (case s of
        [] \<Rightarrow> None
      | q # qs \<Rightarrow>
          if q \<noteq> CHR 0x22 then None
          else (case parse_str qs of
                  None \<Rightarrow> None
                | Some (k, r) \<Rightarrow>
                    (case skip_ws r of
                       [] \<Rightarrow> None
                     | c # cs \<Rightarrow>
                         if c \<noteq> CHR '':'' then None
                         else (case parse_value n (skip_ws cs) of
                                 None \<Rightarrow> None
                               | Some (v, r2) \<Rightarrow>
                                   (case skip_ws r2 of
                                      [] \<Rightarrow> None
                                    | d # ds \<Rightarrow>
                                        if d = CHR ''}'' then Some (dict_set acc k v, ds)
                                        else if d = CHR '','' then
                                          parse_members n (dict_set acc k v) (skip_ws ds)
                                        else None)))))"

text \<open>\<open>json.loads\<close>; None is the JSONDecodeError.\<close>

definition json_loads :: "string \<Rightarrow> json option" where
  "json_loads s =
     (case parse_value (2 * length s + 1) (skip_ws s) of
        None \<Rightarrow> None
      | Some (v, r) \<Rightarrow> if skip_ws r = [] then Some v else None)"

section \<open>Enough fuel\<close>

lemma length_skip_ws: "length (skip_ws s) \<le> length s"
  by (simp add: skip_ws_def length_dropWhile_le)

lemma parse_str_shorter: "parse_str s = Some (t, r) \<Longrightarrow> length r < length s"
  by (induction s arbitrary: t r rule: parse_str.induct)
    (auto split: if_splits list.splits option.splits nat.splits prod.splits, fastforce+)

lemma length_frac_exp:
  "parse_frac s = (f, r) \<Longrightarrow> length r \<le> length s"
  "parse_exp s = (f, r) \<Longrightarrow> length r \<le> length s"
proof -
  have d: "length (dropWhile is_digit cs) \<le> length cs" for cs by (rule length_dropWhile_le)
  show "parse_frac s = (f, r) \<Longrightarrow> length r \<le> length s"
    using d by (auto simp: parse_frac_def le_SucI split: list.splits if_splits)
  show "parse_exp s = (f, r) \<Longrightarrow> length r \<le> length s"
    using d by (auto simp: parse_exp_def Let_def le_SucI split: list.splits if_splits prod.splits)
qed

lemma parse_int_part_shorter: "parse_int_part s = Some (ds, r) \<Longrightarrow> length r < length s"
  by (auto simp: parse_int_part_def less_Suc_eq_le length_dropWhile_le split: list.splits if_splits)

lemma parse_number_shorter: "parse_number s = Some (v, r) \<Longrightarrow> length r < length s"
proof -
  assume a: "parse_number s = Some (v, r)"
  obtain sg body where b: "(case s of c # cs \<Rightarrow> if c = CHR ''-'' then ([c], cs) else ([], s) | [] \<Rightarrow> ([], s)) = (sg, body)"
    by fastforce
  then have lb: "length body \<le> length s" by (auto split: list.splits if_splits)
  from a b obtain ds r1 where i: "parse_int_part body = Some (ds, r1)"
    by (auto simp: parse_number_def split: option.splits)
  obtain fr r2 where f: "parse_frac r1 = (fr, r2)" by fastforce
  obtain ex r3 where e: "parse_exp r2 = (ex, r3)" by fastforce
  have "r = r3" using a b i f e by (auto simp: parse_number_def Let_def split: if_splits)
  then have "length r = length r3" by simp
  with lb parse_int_part_shorter [OF i] length_frac_exp(1) [OF f] length_frac_exp(2) [OF e]
  show ?thesis by linarith
qed

lemma parse_literal_shorter: "parse_literal s = Some (v, r) \<Longrightarrow> length r < length s"
proof -
  have p: "prefix w s \<Longrightarrow> w \<noteq> [] \<Longrightarrow> length (drop (length w) s) < length s" for w
    by (auto simp: prefix_def)
  show "parse_literal s = Some (v, r) \<Longrightarrow> length r < length s"
    using p [of "''null''"] p [of "''true''"] p [of "''false''"] p [of "''NaN''"] p [of "''Infinity''"]
      p [of "''-Infinity''"] parse_number_shorter [of s v r]
    by (auto simp: parse_literal_def split: if_splits)
qed

lemma parse_shorter:
  "parse_value n s = Some (v, r) \<Longrightarrow> length r < length s"
  "parse_elems n s = Some (vs, r) \<Longrightarrow> length r < length s"
  "parse_members n acc s = Some (ms, r) \<Longrightarrow> length r < length s"
proof (induction n s and n s and n acc s arbitrary: v r and vs r and ms r
    rule: parse_value_parse_elems_parse_members.induct)
  case (2 n s)
  show ?case
  proof (cases s)
    case (Cons c cs)
    from "2.prems" Cons length_skip_ws [of cs] show ?thesis
      using "2.IH" parse_str_shorter parse_literal_shorter
      by (auto split: if_splits option.splits list.splits prod.splits) fastforce+
  qed (use "2.prems" in simp)
next
  case (4 n s)
  then obtain x r1 where x: "parse_value n s = Some (x, r1)"
    by (auto split: option.splits)
  have l1: "length r1 < length s" by (rule "4.IH"(1) [OF x])
  obtain c cs where c: "skip_ws r1 = c # cs" using "4.prems" x by (auto split: list.splits)
  have l2: "length (c # cs) \<le> length r1" using length_skip_ws [of r1] c by simp
  show ?case
  proof (cases "c = CHR '']''")
    case True
    with "4.prems" x c l1 l2 show ?thesis by auto
  next
    case False
    with "4.prems" x c obtain xs where e: "c = CHR '',''" "parse_elems n (skip_ws cs) = Some (xs, r)"
      by (auto split: if_splits option.splits)
    have "length r < length (skip_ws cs)"
      using "4.IH"(2) [OF x refl c False e(1,2)] .
    with length_skip_ws [of cs] l1 l2 show ?thesis by simp
  qed
next
  case (6 n acc s)
  then obtain qs where q: "s = CHR 0x22 # qs" by (auto split: list.splits if_splits)
  with "6.prems" obtain k r1 where k: "parse_str qs = Some (k, r1)" by (auto split: option.splits)
  obtain cs where c: "skip_ws r1 = CHR '':'' # cs" using "6.prems" q k by (auto split: list.splits if_splits)
  with "6.prems" q k obtain v r2 where v: "parse_value n (skip_ws cs) = Some (v, r2)"
    by (auto split: option.splits)
  obtain d ds where d: "skip_ws r2 = d # ds" using "6.prems" q k c v by (auto split: list.splits)
  have l: "length r1 < length qs" "length (skip_ws r1) \<le> length r1" "length (skip_ws r2) \<le> length r2"
    "length (skip_ws cs) \<le> length cs" "length (skip_ws ds) \<le> length ds"
    using parse_str_shorter [OF k] length_skip_ws by simp_all
  have lv: "length r2 < length (skip_ws cs)"
    using "6.IH"(1) v q k c by auto
  show ?case
  proof (cases "d = CHR ''}''")
    case True
    with "6.prems" q k c v d l lv show ?thesis by auto
  next
    case False
    with "6.prems" q k c v d have e: "d = CHR '',''"
      "parse_members n (dict_set acc k v) (skip_ws ds) = Some (ms, r)"
      by (auto split: if_splits)
    have "length r < length (skip_ws ds)" using "6.IH"(2) q k c v d False e by auto
    with l lv c d q show ?thesis by simp
  qed
qed simp_all

lemma skip_ws_less: "skip_ws r = c # cs \<Longrightarrow> length cs < length r"
  using length_skip_ws [of r] by simp

lemma parse_fuel:
  "2 * length s \<le> n \<Longrightarrow> 2 * length s \<le> m \<Longrightarrow> parse_value n s = parse_value m s"
  "2 * length s < n \<Longrightarrow> 2 * length s < m \<Longrightarrow> parse_elems n s = parse_elems m s"
  "2 * length s < n \<Longrightarrow> 2 * length s < m \<Longrightarrow> parse_members n acc s = parse_members m acc s"
proof (induction n s and n s and n acc s arbitrary: m and m and m
    rule: parse_value_parse_elems_parse_members.induct)
  case (1 s)
  then show ?case by (cases m) auto
next
  case (2 n s)
  show ?case
  proof (cases s)
    case Nil
    then show ?thesis by (cases m) auto
  next
    case (Cons c cs)
    then obtain k where m: "m = Suc k" using "2.prems" by (cases m) auto
    have e: "parse_elems n (d # ds) = parse_elems k (d # ds)"
      if "c = CHR ''[''" "skip_ws cs = d # ds" "d \<noteq> CHR '']''" for d ds
      using "2.IH"(1) [OF Cons _ that(1,2,3), of k] that(1) "2.prems" skip_ws_less [OF that(2)] Cons m by simp
    have f: "parse_members n [] (d # ds) = parse_members k [] (d # ds)"
      if "c = CHR ''{''" "skip_ws cs = d # ds" "d \<noteq> CHR ''}''" for d ds
      using "2.IH"(2) [OF Cons _ _ that(1,2,3), of k] that(1) "2.prems" skip_ws_less [OF that(2)] Cons m by simp
    show ?thesis using e f unfolding m Cons by (auto split: list.splits)
  qed
next
  case (4 n s)
  obtain k where m: "m = Suc k" using "4.prems"(2) by (cases m) auto
  have v: "parse_value n s = parse_value k s" using "4.IH"(1) [of k] "4.prems" m by simp
  have e: "parse_elems n (skip_ws cs) = parse_elems k (skip_ws cs)"
    if "parse_value n s = Some (x, r)" "skip_ws r = c # cs" "c \<noteq> CHR '']''" "c = CHR '',''" for x r c cs
    using "4.IH"(2) [OF that(1) refl that(2,3,4), of k] "4.prems" m parse_shorter(1) [OF that(1)] skip_ws_less [OF that(2)] length_skip_ws [of cs]
    by simp
  show ?case
  proof (cases "parse_value n s")
    case None
    with v m show ?thesis by simp
  next
    case (Some a)
    then obtain x r where p: "parse_value n s = Some (x, r)" by (cases a) simp
    with v have p': "parse_value k s = Some (x, r)" by simp
    show ?thesis
    proof (cases "skip_ws r")
      case (Cons c cs)
      then show ?thesis unfolding m using p p' e [OF p Cons] by simp
    qed (simp add: m p p')
  qed
next
  case (6 n acc s)
  obtain k where m: "m = Suc k" using "6.prems"(2) by (cases m) auto
  show ?case
  proof (cases s)
    case (Cons q qs)
    show ?thesis
    proof (cases "q = CHR 0x22 \<and> parse_str qs \<noteq> None")
      case True
      then obtain key r where kk: "q = CHR 0x22" "parse_str qs = Some (key, r)" by auto
      have lr: "length r < length qs" by (rule parse_str_shorter [OF kk(2)])
      show ?thesis
      proof (cases "skip_ws r")
        case (Cons c cs)
        show ?thesis
        proof (cases "c = CHR '':''")
          case True
          have l: "length (skip_ws cs) < length s"
            using lr skip_ws_less [OF Cons] length_skip_ws [of cs] \<open>s = q # qs\<close> by simp
          have "\<not> q \<noteq> CHR 0x22" "\<not> c \<noteq> CHR '':''" using kk True by auto
          note ih = "6.IH"(1) [OF \<open>s = q # qs\<close> this(1) kk(2) refl Cons this(2)]
          have v: "parse_value n (skip_ws cs) = parse_value k (skip_ws cs)"
            using ih [of k] "6.prems" m l by simp
          have e: "parse_members n (dict_set acc key x) (skip_ws ds) = parse_members k (dict_set acc key x) (skip_ws ds)"
            if "parse_value n (skip_ws cs) = Some (x, r2)" "skip_ws r2 = d # ds" "d \<noteq> CHR ''}''" "d = CHR '',''" for x r2 d ds
            using "6.IH"(2) [OF \<open>s = q # qs\<close> _ kk(2) refl Cons _ that(1) refl that(2,3,4), of k] kk(1) True
              "6.prems" m l parse_shorter(1) [OF that(1)] skip_ws_less [OF that(2)] length_skip_ws [of ds]
            by simp
          show ?thesis
          proof (cases "parse_value n (skip_ws cs)")
            case None
            with v show ?thesis unfolding m using kk Cons True \<open>s = q # qs\<close> by simp
          next
            case (Some a)
            then obtain x r2 where p: "parse_value n (skip_ws cs) = Some (x, r2)" by (cases a) simp
            with v have p': "parse_value k (skip_ws cs) = Some (x, r2)" by simp
            show ?thesis
            proof (cases "skip_ws r2")
              case Nil
              then show ?thesis unfolding m using kk \<open>skip_ws r = c # cs\<close> True \<open>s = q # qs\<close> p p' by simp
            next
              case c: (Cons d ds)
              then show ?thesis unfolding m using kk \<open>skip_ws r = c # cs\<close> True \<open>s = q # qs\<close> p p' e [OF p c] by simp
            qed
          qed
        qed (use m kk Cons \<open>s = q # qs\<close> in simp)
      qed (use m kk \<open>s = q # qs\<close> in simp)
    next
      case False
      then show ?thesis unfolding m using \<open>s = q # qs\<close> by (cases "parse_str qs") auto
    qed
  qed (use m in simp)
qed auto

lemma parse_value_enough: "2 * length s + 1 \<le> n \<Longrightarrow> parse_value n s = parse_value (2 * length s + 1) s"
  by (rule parse_fuel(1)) auto

end
