(* ===== verification/JsonRoundtrip.thy ===== *)
theory JsonRoundtrip
  imports Json
begin

text \<open>
  \<open>json.loads\<close> undoes \<open>json.dumps\<close>.  The values are those that a Python program can hold: the
  keys of an object are distinct and the text of a float is one the parser reads as that float.
\<close>

fun wf_json :: "json \<Rightarrow> bool" where
  "wf_json (JReal s) = (parse_literal s = Some (JReal s, []))"
| "wf_json (JList xs) = (\<forall>x \<in> set xs. wf_json x)"
| "wf_json (JObj ms) = (distinct (map fst ms) \<and> (\<forall>p \<in> set ms. wf_json (snd p)))"
| "wf_json _ = True"

text \<open>What may follow a value inside a document.\<close>

definition delimited :: "string \<Rightarrow> bool" where
  "delimited r \<longleftrightarrow> r = [] \<or> hd r \<in> {CHR '','', CHR '']'', CHR ''}''}"

lemma delimited_simps [simp]: "delimited []" "delimited (CHR '','' # r)" "delimited (CHR '']'' # r)"
    "delimited (CHR ''}'' # r)"
  by (simp_all add: delimited_def)

section \<open>Strings\<close>

lemma hex_val_digit [simp]: "n < 16 \<Longrightarrow> hex_val (hex_digit n) = Some n"
  by (simp add: hex_val_def hex_digit_def Let_def)

lemma hex_val_0 [simp]: "hex_val (CHR ''0'') = Some 0"
  by (simp add: hex_val_def)

lemma parse_str_escape:
  "parse_str (escape_char c @ r) = map_option (\<lambda>(s, r'). (c # s, r')) (parse_str r)"
proof -
  have m: "of_char c div 16 < (16::nat)" "of_char c mod 16 < (16::nat)"
    using nat_of_char_less_256 [of c] by (auto intro: less_mult_imp_div_less)
  have e: "16 * (of_char c div 16) + of_char c mod 16 = (of_char c :: nat)" by simp
  note n = of_char_eq_iff [of c "CHR 0x0A", where 'a = nat] of_char_eq_iff [of c "CHR 0x0D", where 'a = nat]
    of_char_eq_iff [of c "CHR 0x09", where 'a = nat] of_char_eq_iff [of c "CHR 0x08", where 'a = nat]
    of_char_eq_iff [of c "CHR 0x0C", where 'a = nat]
  show ?thesis
    using n m e
    by (auto simp: escape_char_def Let_def simple_escape_def split: option.splits)
qed

lemma parse_str_dump: "parse_str (concat (map escape_char s) @ CHR 0x22 # r) = Some (s, r)"
  by (induction s) (simp_all add: parse_str_escape)

section \<open>Numbers and literals\<close>

lemma delimited_not_digit: "delimited r \<Longrightarrow> takeWhile is_digit r = [] \<and> dropWhile is_digit r = r"
  by (cases r) (auto simp: delimited_def is_digit_def)

lemma digits_append:
  assumes "delimited r"
  shows "takeWhile is_digit (s @ r) = takeWhile is_digit s" "dropWhile is_digit (s @ r) = dropWhile is_digit s @ r"
  using delimited_not_digit [OF assms] by (induction s) auto

lemma frac_append:
  assumes "delimited r" shows "parse_frac (s @ r) = (fst (parse_frac s), snd (parse_frac s) @ r)"
proof (cases s)
  case Nil
  then show ?thesis using assms by (cases r) (auto simp: parse_frac_def delimited_def)
qed (auto simp: parse_frac_def digits_append [OF assms])

lemma exp_append:
  assumes "delimited r" shows "parse_exp (s @ r) = (fst (parse_exp s), snd (parse_exp s) @ r)"
proof (cases s)
  case Nil
  then show ?thesis using assms by (cases r) (auto simp: parse_exp_def delimited_def)
next
  case s: (Cons c cs)
  show ?thesis
  proof (cases cs)
    case Nil
    with s show ?thesis using assms delimited_not_digit [OF assms]
      by (cases r) (auto simp: parse_exp_def delimited_def)
  qed (auto simp: s parse_exp_def Let_def digits_append [OF assms])
qed

lemma int_part_append:
  "delimited r \<Longrightarrow> parse_int_part s = Some (ds, q) \<Longrightarrow> parse_int_part (s @ r) = Some (ds, q @ r)"
  by (cases s) (auto simp: parse_int_part_def digits_append split: if_splits)

lemma number_append:
  assumes d: "delimited r" and p: "parse_number s = Some (v, q)"
  shows "parse_number (s @ r) = Some (v, q @ r)"
proof -
  obtain c cs where s: "s = c # cs" using p by (cases s) (auto simp: parse_number_def parse_int_part_def)
  obtain sg body where b: "(if c = CHR ''-'' then ([c], cs) else ([], c # cs)) = (sg, body)" by fastforce
  then have b': "(if c = CHR ''-'' then ([c], cs @ r) else ([], c # cs @ r)) = (sg, body @ r)"
    by (auto split: if_splits)
  from p b obtain ds q1 where i: "parse_int_part body = Some (ds, q1)"
    by (auto simp: parse_number_def s split: option.splits)
  obtain fr q2 where f: "parse_frac q1 = (fr, q2)" by fastforce
  obtain ex q3 where e: "parse_exp q2 = (ex, q3)" by fastforce
  note n = int_part_append [OF d i] frac_append [OF d, of q1] exp_append [OF d, of q2]
  show ?thesis using p b b' i f e n unfolding s
    by (auto simp: parse_number_def Let_def split: if_splits)
qed

lemma prefix_append_delimited:
  assumes "delimited r" "prefix w (s @ r)" "set w \<inter> {CHR '','', CHR '']'', CHR ''}''} = {}"
  shows "prefix w s"
proof -
  from assms(2) have "prefix w s \<or> (\<exists>t. w = s @ t \<and> prefix t r \<and> t \<noteq> [])"
    by (cases "w = s") (auto simp: prefix_append)
  then consider "prefix w s" | t where "w = s @ t" "prefix t r" "t \<noteq> []" by blast
  then show ?thesis
  proof cases
    case 2
    then have "hd r = hd t" "r \<noteq> []" by (auto simp: prefix_def)
    with 2 assms(1,3) show ?thesis by (cases t) (auto simp: delimited_def)
  qed
qed

lemma literal_append:
  assumes d: "delimited r" and p: "parse_literal s = Some (v, q)"
  shows "parse_literal (s @ r) = Some (v, q @ r)"
proof -
  have pre: "prefix w (s @ r) \<longleftrightarrow> prefix w s" if "set w \<inter> {CHR '','', CHR '']'', CHR ''}''} = {}" for w
    using prefix_append_delimited [OF d _ that] prefix_prefix by blast
  have w: "prefix ''null'' (s @ r) = prefix ''null'' s" "prefix ''true'' (s @ r) = prefix ''true'' s"
    "prefix ''false'' (s @ r) = prefix ''false'' s" "prefix ''NaN'' (s @ r) = prefix ''NaN'' s"
    "prefix ''Infinity'' (s @ r) = prefix ''Infinity'' s" "prefix ''-Infinity'' (s @ r) = prefix ''-Infinity'' s"
    by (rule pre, simp)+
  have x: "prefix ''null'' s \<Longrightarrow> drop 4 (s @ r) = drop 4 s @ r" "prefix ''true'' s \<Longrightarrow> drop 4 (s @ r) = drop 4 s @ r"
    "prefix ''false'' s \<Longrightarrow> drop 5 (s @ r) = drop 5 s @ r" "prefix ''NaN'' s \<Longrightarrow> drop 3 (s @ r) = drop 3 s @ r"
    "prefix ''Infinity'' s \<Longrightarrow> drop 8 (s @ r) = drop 8 s @ r" "prefix ''-Infinity'' s \<Longrightarrow> drop 9 (s @ r) = drop 9 s @ r"
    by (auto simp: prefix_def)
  show ?thesis
    using p x number_append [OF d, of s v q] unfolding parse_literal_def w by (simp only: if_True if_False simp_thms option.inject prod.inject split: if_splits)
qed

lemma number_head: "parse_number (c # cs) = Some x \<Longrightarrow> c = CHR ''-'' \<or> is_digit c"
  by (auto simp: parse_number_def parse_int_part_def is_digit_def split: if_splits)

lemma literal_head:
  assumes "parse_literal s = Some (v, q)"
  shows "\<exists>c cs. s = c # cs \<and> c \<notin> {CHR 0x22, CHR ''['', CHR ''{'', CHR '']'', CHR ''}''} \<and> \<not> is_json_ws c"
proof -
  have "prefix ''null'' s \<or> prefix ''true'' s \<or> prefix ''false'' s \<or> prefix ''NaN'' s \<or> prefix ''Infinity'' s \<or>
      prefix ''-Infinity'' s \<or> parse_literal s = parse_number s"
    by (simp add: parse_literal_def)
  then consider "prefix ''null'' s" | "prefix ''true'' s" | "prefix ''false'' s" | "prefix ''NaN'' s" |
      "prefix ''Infinity'' s" | "prefix ''-Infinity'' s" | "parse_number s = Some (v, q)"
    using assms by argo
  then show ?thesis
  proof cases
    case 7
    then obtain c cs where s: "s = c # cs"
      by (cases s) (auto simp: parse_number_def parse_int_part_def)
    from 7 have "c = CHR ''-'' \<or> is_digit c" unfolding s by (rule number_head)
    then show ?thesis by (auto simp: s is_json_ws_def is_digit_def)
  qed (auto simp: prefix_def is_json_ws_def)
qed

section \<open>Integers\<close>

lemma digits_rev_step: "digits_rev n = (if n < 10 then [char_of (48 + n)] else char_of (48 + n mod 10) # digits_rev (n div 10))"
  by (rule digits_rev.simps)

lemma digits_are_digits: "list_all is_digit (digits_rev n)"
proof (induction n rule: digits_rev.induct)
  case (1 n)
  have "is_digit (char_of (48 + k))" if "k < 10" for k :: nat
    using that by (simp add: is_digit_def)
  with 1 show ?case by (subst digits_rev_step) simp
qed

lemma read_nat_snoc: "read_nat (ds @ [d]) = 10 * read_nat ds + (of_char d - 48)"
  by (simp add: read_nat_def)

lemma read_show_nat [simp]: "read_nat (show_nat n) = n"
  unfolding show_nat_def
proof (induction n rule: digits_rev.induct)
  case (1 n)
  have "of_char (char_of (48 + k) :: char) = 48 + k" if "k < 10" for k :: nat
    using that by simp
  with 1 show ?case by (subst digits_rev_step) (auto simp: read_nat_snoc, simp add: read_nat_def)
qed

lemma show_nat_head: "n \<noteq> 0 \<Longrightarrow> \<exists>c cs. show_nat n = c # cs \<and> c \<noteq> CHR ''0''"
  unfolding show_nat_def
proof (induction n rule: digits_rev.induct)
  case (1 n)
  show ?case
  proof (cases "n < 10")
    case True
    have "char_of (48 + n) \<noteq> CHR ''0''"
    proof
      assume "char_of (48 + n) = CHR ''0''"
      then have "of_char (char_of (48 + n) :: char) = (48 :: nat)" by simp
      with True 1 show False by simp
    qed
    with True show ?thesis by (subst digits_rev_step) simp
  next
    case False
    then obtain c cs where "rev (digits_rev (n div 10)) = c # cs" "c \<noteq> CHR ''0''" using 1 by (auto simp: div_greater_zero_iff)
    with False show ?thesis by (subst digits_rev_step) simp
  qed
qed

lemma show_nat_digits: "list_all is_digit (show_nat n)" "show_nat n \<noteq> []"
  using digits_are_digits [of n] digits_rev_step [of n] by (auto simp: show_nat_def)

lemma int_part_show_nat: "parse_int_part (show_nat n) = Some (show_nat n, [])"
proof (cases "n = 0")
  case True
  have "show_nat 0 = ''0''" by code_simp
  with True show ?thesis by (simp add: parse_int_part_def)
next
  case False
  then obtain c cs where c: "show_nat n = c # cs" "c \<noteq> CHR ''0''" using show_nat_head by blast
  with show_nat_digits [of n] show ?thesis
    by (auto simp: parse_int_part_def list_all_iff takeWhile_eq_all_conv dropWhile_eq_Nil_conv)
qed

lemma parse_show_int: "parse_literal (show_int n) = Some (JInt n, [])"
proof -
  have z: "parse_frac [] = ([], [])" "parse_exp [] = ([], [])" by (simp_all add: parse_frac_def parse_exp_def)
  obtain c cs where c: "show_nat (nat n) = c # cs" "is_digit c"
    using show_nat_digits [of "nat n"] by (cases "show_nat (nat n)") auto
  obtain d ds where d: "show_nat (nat (- n)) = d # ds" "is_digit d"
    using show_nat_digits [of "nat (- n)"] by (cases "show_nat (nat (- n))") auto
  have ne: "c \<noteq> CHR ''-''" "c \<noteq> CHR ''n''" "c \<noteq> CHR ''t''" "c \<noteq> CHR ''f''" "c \<noteq> CHR ''N''" "c \<noteq> CHR ''I''" "d \<noteq> CHR ''I''"
    using c(2) d(2) by (auto simp: is_digit_def)
  show ?thesis
    using int_part_show_nat [of "nat n"] int_part_show_nat [of "nat (- n)"] read_show_nat [of "nat n"] read_show_nat [of "nat (- n)"] c d ne z
    by (auto simp: parse_literal_def parse_number_def show_int_def)
qed


section \<open>Documents\<close>

lemma dumps_head:
  "wf_json v \<Longrightarrow> \<exists>c cs. json_dumps v = c # cs \<and> c \<noteq> CHR '']'' \<and> c \<noteq> CHR ''}'' \<and> \<not> is_json_ws c"
proof (cases v)
  case (JInt n)
  then show ?thesis using literal_head [OF parse_show_int [of n]] by auto
next
  case (JReal s)
  then show ?thesis if "wf_json v" using literal_head [of s] that by auto
qed (auto simp: is_json_ws_def dump_str_def)

lemma skip_ws_dumps [simp]: "wf_json v \<Longrightarrow> skip_ws (json_dumps v @ r) = json_dumps v @ r"
  using dumps_head [of v] by (auto simp: skip_ws_def)

lemma skip_ws_simps [simp]:
  "skip_ws (CHR '' '' # r) = skip_ws r" "skip_ws (CHR '','' # r) = CHR '','' # r" "skip_ws (CHR '']'' # r) = CHR '']'' # r"
  "skip_ws (CHR ''}'' # r) = CHR ''}'' # r" "skip_ws (CHR '':'' # r) = CHR '':'' # r" "skip_ws (CHR 0x22 # r) = CHR 0x22 # r"
  by (simp_all add: skip_ws_def is_json_ws_def)

lemma skip_ws_Nil [simp]: "skip_ws [] = []"
  by (simp add: skip_ws_def)

lemma dict_put_fresh: "k \<notin> fst ` set d \<Longrightarrow> dict_set d k v = d @ [(k, v)]"
  by (induction d) auto

definition reads :: "json \<Rightarrow> bool" where
  "reads v \<longleftrightarrow> (\<forall>n r. delimited r \<longrightarrow> 2 * length (json_dumps v @ r) \<le> n \<longrightarrow> 0 < n \<longrightarrow>
     parse_value n (json_dumps v @ r) = Some (v, r))"

lemma readsD:
  "reads v \<Longrightarrow> delimited r \<Longrightarrow> 2 * length (json_dumps v @ r) \<le> n \<Longrightarrow> 0 < n \<Longrightarrow>
   parse_value n (json_dumps v @ r) = Some (v, r)"
  by (simp add: reads_def)

lemma reads_literal:
  assumes p: "parse_literal s = Some (v, [])" and s: "json_dumps v = s"
  shows "reads v"
proof -
  have "parse_value (Suc n) (s @ r) = Some (v, r)" if "delimited r" for n r
  proof -
    obtain c cs where c: "s = c # cs" "c \<notin> {CHR 0x22, CHR ''['', CHR ''{''}"
      using literal_head [OF p] by blast
    with literal_append [OF that p] show ?thesis by simp
  qed
  then show ?thesis unfolding reads_def s by (metis gr0_implies_Suc)
qed

lemma parse_elems_dumps:
  assumes "xs \<noteq> []" "\<forall>x \<in> set xs. reads x \<and> wf_json x"
    and "2 * length (py_join '', '' (map json_dumps xs) @ CHR '']'' # r) < n"
  shows "parse_elems n (py_join '', '' (map json_dumps xs) @ CHR '']'' # r) = Some (xs, r)"
  using assms
proof (induction xs arbitrary: n rule: list_nonempty_induct)
  case (single x)
  then obtain m where n: "n = Suc m" by (cases n) auto
  have "parse_value m (json_dumps x @ CHR '']'' # r) = Some (x, CHR '']'' # r)"
    using single n by (intro readsD) auto
  with n show ?case by simp
next
  case (cons x xs)
  then obtain m where n: "n = Suc m" by (cases n) auto
  obtain y ys where xs: "xs = y # ys" using cons.hyps by (cases xs) auto
  let ?t = "py_join '', '' (map json_dumps xs) @ CHR '']'' # r"
  have j: "py_join '', '' (map json_dumps (x # xs)) @ CHR '']'' # r = json_dumps x @ CHR '','' # CHR '' '' # ?t"
    by (simp add: xs)
  have v: "parse_value m (json_dumps x @ CHR '','' # CHR '' '' # ?t) = Some (x, CHR '','' # CHR '' '' # ?t)"
    using cons.prems n j by (intro readsD) auto
  have "skip_ws ?t = ?t" using cons.prems xs skip_ws_dumps [of y] by (cases ys) auto
  moreover have "parse_elems m ?t = Some (xs, r)"
    using cons.prems n unfolding j by (intro cons.IH) auto
  ultimately show ?case using v unfolding j n by simp
qed

lemma parse_members_dumps:
  assumes "ms \<noteq> []" "\<forall>p \<in> set ms. reads (snd p) \<and> wf_json (snd p)" "distinct (map fst (acc @ ms))"
    and "2 * length (py_join '', '' (map (\<lambda>(k, v). dump_str k @ '': '' @ json_dumps v) ms) @ CHR ''}'' # r) < n"
  shows "parse_members n acc (py_join '', '' (map (\<lambda>(k, v). dump_str k @ '': '' @ json_dumps v) ms) @ CHR ''}'' # r)
    = Some (acc @ ms, r)"
  using assms
proof (induction ms arbitrary: n acc rule: list_nonempty_induct)
  case (single p)
  obtain k v where p: "p = (k, v)" by fastforce
  obtain m where n: "n = Suc m" using single by (cases n) auto
  have "parse_value m (json_dumps v @ CHR ''}'' # r) = Some (v, CHR ''}'' # r)"
    using single n p by (intro readsD) (auto simp: dump_str_def)
  with n single p show ?case
    by (simp add: dump_str_def parse_str_dump dict_put_fresh)
next
  case (cons p ms)
  obtain k v where p: "p = (k, v)" by fastforce
  obtain m where n: "n = Suc m" using cons by (cases n) auto
  let ?f = "\<lambda>(k, v). dump_str k @ '': '' @ json_dumps v"
  let ?t = "py_join '', '' (map ?f ms) @ CHR ''}'' # r"
  have j: "py_join '', '' (map ?f (p # ms)) @ CHR ''}'' # r =
      CHR 0x22 # concat (map escape_char k) @ CHR 0x22 # CHR '':'' # CHR '' '' # json_dumps v @ CHR '','' # CHR '' '' # ?t"
    using cons.hyps by (cases ms) (auto simp: p dump_str_def)
  have v: "parse_value m (json_dumps v @ CHR '','' # CHR '' '' # ?t) = Some (v, CHR '','' # CHR '' '' # ?t)"
    using cons.prems n j p by (intro readsD) auto
  have "skip_ws ?t = ?t" using cons.hyps by (cases ms rule: remdups_adj.cases) (auto simp: dump_str_def)
  moreover have "parse_members m (acc @ [p]) ?t = Some ((acc @ [p]) @ ms, r)"
    using cons.prems n unfolding j by (intro cons.IH) auto
  ultimately show ?case using v cons.prems p unfolding j n
    by (simp add: parse_str_dump dict_put_fresh)
qed

lemma wf_json_reads: "wf_json v \<Longrightarrow> reads v"
proof (induction v)
  case (JStr s)
  show ?case unfolding reads_def
    by (auto simp: dump_str_def parse_str_dump gr0_conv_Suc)
next
  case (JList xs)
  have "parse_value (Suc m) (json_dumps (JList xs) @ r) = Some (JList xs, r)"
    if "2 * length (json_dumps (JList xs) @ r) \<le> Suc m" for m r
  proof (cases "xs = []")
    case False
    then obtain y ys where xs: "xs = y # ys" by (cases xs) auto
    have w: "\<forall>x \<in> set xs. reads x \<and> wf_json x" using JList by auto
    obtain c cs where c: "json_dumps y = c # cs" "c \<noteq> CHR '']''" "\<not> is_json_ws c"
      using dumps_head [of y] w xs by auto
    have e: "parse_elems m (py_join '', '' (map json_dumps xs) @ CHR '']'' # r) = Some (xs, r)"
      using that by (intro parse_elems_dumps [OF False w]) simp
    show ?thesis using e c unfolding xs by (cases ys) (auto simp: skip_ws_def)
  qed simp
  then show ?case unfolding reads_def by (metis gr0_implies_Suc)
next
  case (JObj ms)
  let ?f = "\<lambda>(k, v). dump_str k @ '': '' @ json_dumps v"
  have "parse_value (Suc m) (json_dumps (JObj ms) @ r) = Some (JObj ms, r)"
    if "2 * length (json_dumps (JObj ms) @ r) \<le> Suc m" for m r
  proof (cases "ms = []")
    case False
    then obtain k v ks where ms: "ms = (k, v) # ks" by (cases ms) auto
    have w: "\<forall>p \<in> set ms. reads (snd p) \<and> wf_json (snd p)" using JObj by (auto simp: snds.simps)
    have e: "parse_members m [] (py_join '', '' (map ?f ms) @ CHR ''}'' # r) = Some ([] @ ms, r)"
      using that JObj.prems by (intro parse_members_dumps [OF False w]) auto
    show ?thesis using e unfolding ms by (cases ks) (auto simp: dump_str_def)
  qed simp
  then show ?case unfolding reads_def by (metis gr0_implies_Suc)
next
  case JNull
  show ?case by (rule reads_literal [of "''null''"]) (simp_all add: parse_literal_def)
next
  case (JBool b)
  show ?case by (rule reads_literal [of "if b then ''true'' else ''false''"]) (simp_all add: parse_literal_def)
next
  case (JInt n)
  show ?case by (rule reads_literal [OF parse_show_int]) simp
qed (auto intro: reads_literal)

lemma loads_dumps: "wf_json v \<Longrightarrow> json_loads (json_dumps v) = Some v"
  using readsD [OF wf_json_reads, of v "[]" "2 * length (json_dumps v) + 1"] skip_ws_dumps [of v "[]"]
  by (simp add: json_loads_def)

end
