(* ===== verification/Decimal.thy ===== *)
theory Decimal
  imports JsonRoundtrip "HOL-Library.List_Lexorder" "HOL-Library.Char_ord"
begin

text \<open>
  Numbers of JSON values: what \<open>float\<close> makes of a number's text, Python's comparisons between JSON
  values, and the text of a float with a finite decimal expansion.  Rounding is not modelled; the
  special texts NaN and Infinity are numbers that no rational stands for.
\<close>

datatype number = Finite rat | PosInf | NegInf | NotANumber

definition read_sign :: "string \<Rightarrow> bool \<times> string" where
  "read_sign s =
     (case s of
        c # cs \<Rightarrow> if c = CHR ''-'' then (True, cs) else if c = CHR ''+'' then (False, cs) else (False, s)
      | [] \<Rightarrow> (False, s))"

definition read_int :: "string \<Rightarrow> int" where
  "read_int s = (case read_sign s of (neg, ds) \<Rightarrow> if neg then - int (read_nat ds) else int (read_nat ds))"

definition ten_to :: "int \<Rightarrow> rat" where
  "ten_to e = (if 0 \<le> e then 10 ^ nat e else 1 / 10 ^ nat (- e))"

text \<open>The value of a decimal text as the JSON parser passes it on.\<close>

definition decimal_value :: "string \<Rightarrow> rat" where
  "decimal_value s =
     (let (neg, body) = read_sign s;
          ip = takeWhile is_digit body; r1 = dropWhile is_digit body;
          (fr, r2) = (case r1 of c # cs \<Rightarrow> if c = CHR ''.'' then (takeWhile is_digit cs, dropWhile is_digit cs) else ([], r1)
                               | [] \<Rightarrow> ([], []));
          e = (case r2 of c # cs \<Rightarrow> read_int cs | [] \<Rightarrow> 0);
          v = of_nat (read_nat (ip @ fr)) * ten_to (e - int (length fr))
      in if neg then - v else v)"

definition real_number :: "string \<Rightarrow> number" where
  "real_number s =
     (if s = ''NaN'' then NotANumber else if s = ''Infinity'' then PosInf else if s = ''-Infinity'' then NegInf
      else Finite (decimal_value s))"

text \<open>
  \<open>float(s)\<close> of a text: blanks around it, one sign, digits that may be grouped by single underscores, a
  fraction and an exponent, or one of the special names; None is the ValueError.
\<close>

fun drop_underscores :: "bool \<Rightarrow> string \<Rightarrow> string option" where
  "drop_underscores after_digit [] = Some []"
| "drop_underscores after_digit (c # cs) =
     (if c = CHR ''_'' then
        if after_digit \<and> cs \<noteq> [] \<and> is_digit (hd cs) then drop_underscores False cs else None
      else map_option ((#) c) (drop_underscores (is_digit c) cs))"

definition float_shape :: "string \<Rightarrow> bool" where
  "float_shape s =
     (let ip = takeWhile is_digit s; r1 = dropWhile is_digit s;
          (fr, r2) = (case r1 of c # cs \<Rightarrow> if c = CHR ''.'' then (takeWhile is_digit cs, dropWhile is_digit cs) else ([], r1)
                               | [] \<Rightarrow> ([], []))
      in (ip \<noteq> [] \<or> fr \<noteq> []) \<and>
         (case r2 of [] \<Rightarrow> True
          | e # cs \<Rightarrow> (e = CHR ''e'' \<or> e = CHR ''E'') \<and> snd (read_sign cs) \<noteq> [] \<and> list_all is_digit (snd (read_sign cs))))"

definition float_text :: "string \<Rightarrow> number option" where
  "float_text s =
     (case read_sign (py_strip s) of
        (neg, body) \<Rightarrow>
          (if py_lower body \<in> {''inf'', ''infinity''} then Some (if neg then NegInf else PosInf)
           else if py_lower body = ''nan'' then Some NotANumber
           else (case drop_underscores False body of
                   None \<Rightarrow> None
                 | Some b \<Rightarrow>
                     if float_shape b then Some (Finite (if neg then - decimal_value b else decimal_value b)) else None)))"

text \<open>\<open>float(v)\<close>; None is the ValueError, TypeError or OverflowError.\<close>

definition py_float :: "json \<Rightarrow> number option" where
  "py_float v =
     (case v of
        JInt n \<Rightarrow> if \<bar>n\<bar> < 2 ^ 1024 - 2 ^ 970 then Some (Finite (of_int n)) else None
      | JBool b \<Rightarrow> Some (Finite (if b then 1 else 0))
      | JReal s \<Rightarrow> Some (real_number s)
      | JStr s \<Rightarrow> float_text s
      | _ \<Rightarrow> None)"

text \<open>The number a value counts as in a comparison; None where there is none.\<close>

fun json_number :: "json \<Rightarrow> number option" where
  "json_number (JInt n) = Some (Finite (of_int n))"
| "json_number (JBool b) = Some (Finite (if b then 1 else 0))"
| "json_number (JReal s) = Some (real_number s)"
| "json_number _ = None"

fun number_less :: "number \<Rightarrow> number \<Rightarrow> bool" where
  "number_less NotANumber y = False"
| "number_less x NotANumber = False"
| "number_less (Finite x) (Finite y) = (x < y)"
| "number_less x PosInf = (x \<noteq> PosInf)"
| "number_less NegInf y = (y \<noteq> NegInf)"
| "number_less _ _ = False"

fun number_le :: "number \<Rightarrow> number \<Rightarrow> bool" where
  "number_le NotANumber y = False"
| "number_le x NotANumber = False"
| "number_le x y = (\<not> number_less y x)"

text \<open>
  \<open>x < y\<close> and \<open>x >= y\<close>; None is the TypeError of values that have no order.  Lists are left
  without an order.
\<close>

definition py_less :: "json \<Rightarrow> json \<Rightarrow> bool option" where
  "py_less x y =
     (case (json_number x, json_number y, x, y) of
        (Some a, Some b, _, _) \<Rightarrow> Some (number_less a b)
      | (_, _, JStr s, JStr t) \<Rightarrow> Some (s < t)
      | _ \<Rightarrow> None)"

definition py_at_least :: "json \<Rightarrow> rat \<Rightarrow> bool option" where
  "py_at_least x y = map_option (\<lambda>a. number_le (Finite y) a) (json_number x)"

definition py_below :: "json \<Rightarrow> rat \<Rightarrow> bool option" where
  "py_below x y = map_option (\<lambda>a. number_less a (Finite y)) (json_number x)"

text \<open>\<open>min\<close> of a non-empty list: the first of the least.\<close>

fun py_min :: "json \<Rightarrow> json list \<Rightarrow> json option" where
  "py_min m [] = Some m"
| "py_min m (x # xs) =
     (case py_less x m of None \<Rightarrow> None | Some b \<Rightarrow> py_min (if b then x else m) xs)"

text \<open>The text of a float: the shortest decimal that is its value, at least one and at most 17 places.\<close>

fun places :: "nat \<Rightarrow> rat \<Rightarrow> nat" where
  "places 0 x = 0"
| "places (Suc n) x = (if of_int \<lfloor>x\<rfloor> = x then 0 else Suc (places n (10 * x)))"

definition show_float :: "rat \<Rightarrow> string" where
  "show_float x =
     (let k = max 1 (places 17 \<bar>x\<bar>); n = nat \<lfloor>\<bar>x\<bar> * 10 ^ k\<rfloor>; ds = show_nat (n mod 10 ^ k)
      in (if x < 0 then ''-'' else []) @ show_nat (n div 10 ^ k) @ ''.'' @ replicate (k - length ds) CHR ''0'' @ ds)"

text \<open>Addition of a float, and its text in JSON.\<close>

fun number_plus :: "number \<Rightarrow> rat \<Rightarrow> number" where
  "number_plus (Finite x) y = Finite (x + y)"
| "number_plus z y = z"

fun show_number :: "number \<Rightarrow> string" where
  "show_number (Finite x) = show_float x"
| "show_number PosInf = ''Infinity''"
| "show_number NegInf = ''-Infinity''"
| "show_number NotANumber = ''NaN''"

section \<open>Lemmas\<close>

lemma takeWhile_digits: "list_all is_digit s \<Longrightarrow> takeWhile is_digit (s @ CHR ''.'' # r) = s \<and>
    dropWhile is_digit (s @ CHR ''.'' # r) = CHR ''.'' # r"
  by (induction s) (auto simp: is_digit_def)

lemma read_nat_Nil: "read_nat [] = 0"
  by (simp add: read_nat_def)

lemma read_nat_append: "read_nat (s @ t) = read_nat s * 10 ^ length t + read_nat t"
proof (induction t rule: rev_induct)
  case (snoc d t)
  then show ?case using read_nat_snoc [of "s @ t" d] read_nat_snoc [of t d] by (simp add: algebra_simps)
qed (simp add: read_nat_def)

lemma read_nat_zeros: "read_nat (replicate n CHR ''0'' @ s) = read_nat s"
proof -
  have "read_nat (replicate n CHR ''0'') = 0"
    by (induction n) (simp_all add: read_nat_def foldl_append replicate_append_same [symmetric])
  then show ?thesis by (simp add: read_nat_append)
qed

lemma length_show_nat_mod: "0 < k \<Longrightarrow> length (show_nat (n mod 10 ^ k)) \<le> k"
proof -
  have "length (digits_rev m) \<le> k" if "m < 10 ^ k" "0 < k" for m k
    using that
  proof (induction m arbitrary: k rule: digits_rev.induct)
    case (1 m)
    show ?case
    proof (cases "m < 10")
      case False
      with 1(2,3) obtain j where j: "k = Suc j" by (cases k) auto
      with False 1(2) have "0 < j" by (cases j) auto
      moreover have "m div 10 < 10 ^ j" using 1(2) j by (simp add: less_mult_imp_div_less mult.commute)
      ultimately have "length (digits_rev (m div 10)) \<le> j" using 1(1) False by blast
      with False j show ?thesis by (subst digits_rev_step) simp
    qed (use 1(3) in \<open>subst digits_rev_step, simp\<close>)
  qed
  then show "0 < k \<Longrightarrow> length (show_nat (n mod 10 ^ k)) \<le> k" by (simp add: show_nat_def)
qed

lemma decimal_value_parts:
  assumes "list_all is_digit ip" "list_all is_digit fr" "ip \<noteq> []"
  shows "decimal_value (ip @ ''.'' @ fr) = of_nat (read_nat (ip @ fr)) / 10 ^ length fr"
proof -
  obtain c cs where ip: "ip = c # cs" "is_digit c" using assms(1,3) by (cases ip) auto
  then have "read_sign (ip @ ''.'' @ fr) = (False, ip @ ''.'' @ fr)"
    by (auto simp: read_sign_def is_digit_def)
  moreover have "takeWhile is_digit fr = fr" "dropWhile is_digit fr = []"
    using assms(2) by (auto simp: list_all_iff takeWhile_eq_all_conv dropWhile_eq_Nil_conv)
  ultimately show ?thesis
    using takeWhile_digits [OF assms(1), of fr]
    by (simp add: decimal_value_def Let_def ten_to_def power_0_left
             del: takeWhile_eq_all_conv dropWhile_eq_Nil_conv)
qed

lemma decimal_show_float:
  assumes "0 \<le> x" "of_int \<lfloor>x * 10 ^ places 17 x\<rfloor> = x * 10 ^ places 17 x"
  shows "decimal_value (show_float x) = x"
proof -
  define k where "k = max 1 (places 17 x)"
  define n where "n = nat \<lfloor>x * 10 ^ k\<rfloor>"
  define ds where "ds = show_nat (n mod 10 ^ k)"
  define fr where "fr = replicate (k - length ds) CHR ''0'' @ ds"
  obtain m where m: "x * 10 ^ places 17 x = of_int m" using assms(2) by metis
  have "x * 10 ^ k = of_int (m * 10 ^ (k - places 17 x))"
  proof -
    have "k = places 17 x + (k - places 17 x)" by (simp add: k_def)
    then have "x * 10 ^ k = x * 10 ^ places 17 x * 10 ^ (k - places 17 x)" by (metis mult.assoc power_add)
    with m show ?thesis by simp
  qed
  then obtain z :: int where z: "x * 10 ^ k = of_int z" by metis
  moreover have "0 \<le> x * 10 ^ k" using assms(1) by simp
  ultimately have n: "of_nat n = x * 10 ^ k" "0 \<le> z" by (simp_all add: n_def)
  have l: "length fr = k" using length_show_nat_mod [of k n] by (simp add: fr_def ds_def k_def)
  have d: "list_all is_digit fr"
    using show_nat_digits(1) by (auto simp: fr_def ds_def list_all_iff is_digit_def)
  have s: "show_float x = show_nat (n div 10 ^ k) @ ''.'' @ fr"
    using assms(1) by (simp add: show_float_def Let_def k_def n_def fr_def ds_def)
  have "read_nat (show_nat (n div 10 ^ k) @ fr) = n div 10 ^ k * 10 ^ k + n mod 10 ^ k"
    using l by (simp add: read_nat_append) (simp add: fr_def read_nat_zeros ds_def)
  then have "read_nat (show_nat (n div 10 ^ k) @ fr) = n" by (simp only: div_mult_mod_eq)
  then have "decimal_value (show_float x) = of_nat n / 10 ^ k"
    unfolding s by (subst decimal_value_parts [OF show_nat_digits(1) d show_nat_digits(2)]) (simp add: l)
  then show ?thesis using n(1) by simp
qed

text \<open>Decimals with at most 17 places are read back from their text.\<close>

lemma places_shift: "x * 10 ^ j \<in> \<int> \<Longrightarrow> j \<le> n \<Longrightarrow> x * 10 ^ places n x \<in> (\<int> :: rat set)"
proof (induction n arbitrary: x j)
  case (Suc n)
  show ?case
  proof (cases "of_int \<lfloor>x\<rfloor> = x")
    case True
    then have "x \<in> \<int>" by (metis Ints_of_int)
    with True show ?thesis by simp
  next
    case False
    then have "j \<noteq> 0" using Suc.prems(1) by (cases j) (auto elim!: Ints_cases)
    then obtain i where j: "j = Suc i" by (cases j) auto
    with Suc.prems have "10 * x * 10 ^ i \<in> \<int>" "i \<le> n" by (simp_all add: algebra_simps)
    from Suc.IH [OF this] False show ?thesis by (simp add: algebra_simps)
  qed
qed simp

lemma decimal_of_show_float:
  assumes "0 \<le> x" "x * 10 ^ j \<in> \<int>" "j \<le> 17"
  shows "decimal_value (show_float x) = x"
proof -
  have "of_int \<lfloor>x * 10 ^ places 17 x\<rfloor> = x * 10 ^ places 17 x"
    using places_shift [OF assms(2,3)] by (auto elim!: Ints_cases)
  with decimal_show_float [OF assms(1)] show ?thesis by simp
qed

lemma real_number_show_float:
  assumes "0 \<le> x" "x * 10 ^ j \<in> \<int>" "j \<le> 17"
  shows "real_number (show_float x) = Finite x"
proof -
  note v = decimal_of_show_float [OF assms]
  obtain c cs where c: "show_float x = c # cs" "is_digit c"
    using assms(1) show_nat_digits [of "nat \<lfloor>x * 10 ^ max 1 (places 17 x)\<rfloor> div 10 ^ max 1 (places 17 x)"]
    by (cases "show_nat (nat \<lfloor>x * 10 ^ max 1 (places 17 x)\<rfloor> div 10 ^ max 1 (places 17 x))")
      (auto simp: show_float_def Let_def)
  then have "c \<notin> {CHR ''N'', CHR ''I'', CHR ''-''}" by (auto simp: is_digit_def)
  with c v show ?thesis by (auto simp: real_number_def)
qed

text \<open>The text of a float is a JSON number.\<close>

lemma show_float_parts:
  assumes "0 \<le> x"
  shows "\<exists>n fr. show_float x = show_nat n @ CHR ''.'' # fr \<and> fr \<noteq> [] \<and> list_all is_digit fr"
proof -
  define k where "k = max 1 (places 17 x)"
  define ds where "ds = show_nat (nat \<lfloor>x * 10 ^ k\<rfloor> mod 10 ^ k)"
  have "list_all is_digit (replicate (k - length ds) CHR ''0'' @ ds)"
    using show_nat_digits(1) by (auto simp: ds_def list_all_iff is_digit_def)
  moreover have "ds \<noteq> []" by (simp add: ds_def show_nat_digits(2))
  moreover have "show_float x = show_nat (nat \<lfloor>x * 10 ^ k\<rfloor> div 10 ^ k) @ CHR ''.'' # replicate (k - length ds) CHR ''0'' @ ds"
    using assms by (simp add: show_float_def Let_def k_def ds_def)
  ultimately show ?thesis by blast
qed

lemma wf_show_float: "0 \<le> x \<Longrightarrow> wf_json (JReal (show_float x))"
proof -
  assume "0 \<le> x"
  then obtain n fr where s: "show_float x = show_nat n @ CHR ''.'' # fr" and f: "fr \<noteq> []" "list_all is_digit fr"
    using show_float_parts by blast
  have t: "takeWhile is_digit fr = fr" "dropWhile is_digit fr = []"
    using f(2) by (auto simp: list_all_iff takeWhile_eq_all_conv dropWhile_eq_Nil_conv)
  have fr: "parse_frac (CHR ''.'' # fr) = (CHR ''.'' # fr, [])" using f(1) by (simp add: parse_frac_def t del: takeWhile_eq_all_conv dropWhile_eq_Nil_conv)
  obtain c cs where c: "show_nat n = c # cs" "is_digit c" using show_nat_digits [of n] by (cases "show_nat n") auto
  have "parse_int_part (show_nat n @ CHR ''.'' # fr) = Some (show_nat n, CHR ''.'' # fr)"
  proof (cases "n = 0")
    case True
    have "show_nat 0 = ''0''" by code_simp
    with True show ?thesis by (simp add: parse_int_part_def)
  next
    case False
    then have d: "c \<noteq> CHR ''0''" using show_nat_head [of n] c(1) by simp
    note w = takeWhile_digits [OF show_nat_digits(1) [of n], of fr]
    have "parse_int_part (c # cs @ CHR ''.'' # fr) =
        Some (takeWhile is_digit (c # cs @ CHR ''.'' # fr), dropWhile is_digit (c # cs @ CHR ''.'' # fr))"
      using c(2) d by (simp only: parse_int_part_def list.case if_False if_True)
    with w show ?thesis by (simp only: c(1) append_Cons)
  qed
  then have i: "parse_int_part (c # cs @ CHR ''.'' # fr) = Some (c # cs, CHR ''.'' # fr)" by (simp only: c(1) append_Cons)
  have h: "c \<noteq> CHR ''-''" "\<not> prefix ''null'' (c # r)" "\<not> prefix ''true'' (c # r)" "\<not> prefix ''false'' (c # r)"
    "\<not> prefix ''NaN'' (c # r)" "\<not> prefix ''Infinity'' (c # r)" "\<not> prefix ''-Infinity'' (c # r)" for r
    using c(2) by (auto simp: is_digit_def)
  then have "parse_number (c # cs @ CHR ''.'' # fr) = Some (JReal (c # cs @ CHR ''.'' # fr), [])"
    using h(1) by (simp add: parse_number_def i fr parse_exp_def)
  then show ?thesis unfolding wf_json.simps s c(1) append_Cons parse_literal_def by (simp only: h if_False)
qed

end
