(* ===== verification/Health.thy ===== *)
theory Health
  imports Decimal
begin

text \<open>
  The dependency checker of src/src/core/health.py: a probe of a dependency runs at most once per
  time-to-live and within a timeout, and its result is kept.  The monotonic clock reads the world; a
  service call answers, raises, or gives nothing within the timeout (None).
\<close>

record dep_result =
  dr_ok :: bool
  dr_detail :: string
  dr_checked_at :: rat

record checker =
  dk_ttl :: rat
  dk_timeout :: rat
  dk_cache :: "(string \<times> dep_result) list"

type_synonym ('a, 's) call = "'s \<Rightarrow> (exn + 'a) option \<times> 's"

definition new_checker :: "rat \<Rightarrow> rat \<Rightarrow> checker" where
  "new_checker ttl timeout = \<lparr>dk_ttl = ttl, dk_timeout = timeout, dk_cache = []\<rparr>"

definition cached_result :: "('s \<Rightarrow> rat) \<Rightarrow> checker \<Rightarrow> string \<Rightarrow> 's \<Rightarrow> dep_result option" where
  "cached_result now ck key s =
     (case dict_get (dk_cache ck) key of
        None \<Rightarrow> None
      | Some r \<Rightarrow> if now s - dr_checked_at r < dk_ttl ck then Some r else None)"

text \<open>\<open>_run\<close>: the probe answers with a result, stamped when it is built.\<close>

definition run_check ::
    "('s \<Rightarrow> rat) \<Rightarrow> string \<Rightarrow> (dep_result, 's) call \<Rightarrow> checker \<Rightarrow> 's \<Rightarrow> dep_result \<times> checker \<times> 's" where
  "run_check now key probe ck s =
     (case cached_result now ck key s of
        Some r \<Rightarrow> (r, ck, s)
      | None \<Rightarrow>
          (case probe s of
             (outcome, s') \<Rightarrow>
               (let failed = (\<lambda>why. \<lparr>dr_ok = False, dr_detail = key @ '': '' @ why, dr_checked_at = now s'\<rparr>);
                    r = (case outcome of
                           None \<Rightarrow> failed (''timeout after '' @ show_float (dk_timeout ck) @ ''s'')
                         | Some (Inl e) \<Rightarrow> failed e
                         | Some (Inr r) \<Rightarrow> r)
                in (r, ck\<lparr>dk_cache := dict_set (dk_cache ck) key r\<rparr>, s'))))"

text \<open>A probe around a service call: the verdict on its answer, or the failure with the exception's text.\<close>

definition probing ::
    "('s \<Rightarrow> rat) \<Rightarrow> string \<Rightarrow> ('a \<Rightarrow> bool \<times> string) \<Rightarrow> ('a, 's) call \<Rightarrow> (dep_result, 's) call" where
  "probing now label verdict call s =
     (case call s of
        (None, s') \<Rightarrow> (None, s')
      | (Some r, s') \<Rightarrow>
          (let (ok, detail) = (case r of Inl e \<Rightarrow> (False, e) | Inr a \<Rightarrow> verdict a)
           in (Some (Inr \<lparr>dr_ok = ok, dr_detail = label @ detail, dr_checked_at = now s'\<rparr>), s')))"

definition check_redis :: "('s \<Rightarrow> rat) \<Rightarrow> (bool, 's) call \<Rightarrow> checker \<Rightarrow> 's \<Rightarrow> dep_result \<times> checker \<times> 's" where
  "check_redis now ping =
     run_check now ''redis''
       (probing now ''redis: '' (\<lambda>pong. if pong then (True, ''pong'') else (False, ''no pong'')) ping)"

definition check_dynamodb :: "('s \<Rightarrow> rat) \<Rightarrow> (unit, 's) call \<Rightarrow> checker \<Rightarrow> 's \<Rightarrow> dep_result \<times> checker \<times> 's" where
  "check_dynamodb now load_table =
     run_check now ''dynamodb'' (probing now ''dynamodb: '' (\<lambda>u. (True, ''table reachable'')) load_table)"

definition check_bedrock_creds :: "('s \<Rightarrow> rat) \<Rightarrow> (unit, 's) call \<Rightarrow> checker \<Rightarrow> 's \<Rightarrow> dep_result \<times> checker \<times> 's" where
  "check_bedrock_creds now identity =
     run_check now ''bedrock-creds'' (probing now ''bedrock-creds: '' (\<lambda>u. (True, ''identity ok'')) identity)"

text \<open>The client answers with a status code, and gets the timeout too.\<close>

definition check_http ::
    "('s \<Rightarrow> rat) \<Rightarrow> string \<Rightarrow> (string \<Rightarrow> rat \<Rightarrow> (int, 's) call) \<Rightarrow> checker \<Rightarrow> 's \<Rightarrow> dep_result \<times> checker \<times> 's" where
  "check_http now url get_url ck =
     run_check now (''http:'' @ url)
       (probing now (''http '' @ url @ '': '')
          (\<lambda>status. if status < 500 then (True, show_int status) else (False, ''status '' @ show_int status))
          (get_url url (dk_timeout ck))) ck"

section \<open>Many checks\<close>

text \<open>
  A history of checks: before each some time passes, then a dependency is checked.  The answers, each
  with the time it was asked for, and the probes that ran, each with its start and its end.
\<close>

type_synonym 's check = "('s \<Rightarrow> 's) \<times> string \<times> (dep_result, 's) call"

fun check_history ::
    "('s \<Rightarrow> rat) \<Rightarrow> 's check list \<Rightarrow> checker \<Rightarrow> 's \<Rightarrow> (rat \<times> dep_result) list \<times> (string \<times> rat \<times> rat) list" where
  "check_history now [] ck s = ([], [])"
| "check_history now ((pass, key, probe) # cs) ck s =
     (let s1 = pass s
      in case run_check now key probe ck s1 of
           (r, ck', s2) \<Rightarrow>
             (case check_history now cs ck' s2 of
                (answers, probes) \<Rightarrow>
                  ((now s1, r) # answers,
                   (if cached_result now ck key s1 = None then [(key, now s1, now s2)] else []) @ probes)))"

text \<open>
  Time does not run backwards, and a probe's result carries the time its call ended.
\<close>

definition timely :: "('s \<Rightarrow> rat) \<Rightarrow> 's check \<Rightarrow> bool" where
  "timely now = (\<lambda>(pass, key, probe).
     (\<forall>s. now s \<le> now (pass s) \<and> now s \<le> now (snd (probe s)) \<and>
        (\<forall>r. fst (probe s) = Some (Inr r) \<longrightarrow> dr_checked_at r = now (snd (probe s)))))"

lemma timely_probing:
  "(\<And>s. now s \<le> now (pass s)) \<Longrightarrow> (\<And>s. now s \<le> now (snd (call s))) \<Longrightarrow> timely now (pass, key, probing now label verdict call)"
  by (fastforce simp: timely_def probing_def Let_def split: prod.splits option.splits sum.splits dest: arg_cong [where f = snd])

lemma run_check_cases:
  assumes "run_check now key probe ck s = (r, ck', s')" and "timely now (pass, key, probe)"
  obtains "cached_result now ck key s = Some r" "ck' = ck" "s' = s"
  | "cached_result now ck key s = None" "ck' = ck\<lparr>dk_cache := dict_set (dk_cache ck) key r\<rparr>" "dr_checked_at r = now s'" "now s \<le> now s'"
proof (cases "cached_result now ck key s")
  case None
  obtain outcome s2 where p: "probe s = (outcome, s2)" by (cases "probe s")
  have "now s \<le> now (snd (probe s)) \<and> (\<forall>r. fst (probe s) = Some (Inr r) \<longrightarrow> dr_checked_at r = now (snd (probe s)))"
    using assms(2) unfolding timely_def prod.case by blast
  then have "now s \<le> now s2" "\<And>r. outcome = Some (Inr r) \<Longrightarrow> dr_checked_at r = now s2" by (simp_all add: p)
  moreover have "ck' = ck\<lparr>dk_cache := dict_set (dk_cache ck) key r\<rparr>" "s' = s2"
    using assms(1) by (auto simp: run_check_def None p Let_def)
  moreover have "dr_checked_at r = now s2 \<or> outcome = Some (Inr r)"
    using assms(1) by (auto simp: run_check_def None p Let_def split: option.splits sum.splits)
  ultimately show thesis using that(2) None by blast
next
  case (Some r')
  with assms(1) show thesis by (intro that(1)) (simp_all add: run_check_def)
qed

text \<open>A kept result is not from the future, and later probes of its dependency start a time-to-live after it.\<close>

lemma history_spaced:
  assumes "list_all (timely now) cs" "0 < dk_ttl ck" "check_history now cs ck s = (answers, probes)"
  shows "list_all (\<lambda>(t, r). t < dr_checked_at r + dk_ttl ck) answers \<and>
    sorted_wrt (\<lambda>(k, b, e) (k', b', e'). k = k' \<longrightarrow> e + dk_ttl ck \<le> b') probes \<and>
    (\<forall>(k, b, e) \<in> set probes. \<forall>r. dict_get (dk_cache ck) k = Some r \<longrightarrow> dr_checked_at r + dk_ttl ck \<le> b)"
  using assms
proof (induction cs arbitrary: ck s answers probes)
  case (Cons c cs)
  obtain pass key probe where c: "c = (pass, key, probe)" by (cases c)
  obtain r ck' s2 where run: "run_check now key probe ck (pass s) = (r, ck', s2)" by (cases "run_check now key probe ck (pass s)")
  obtain as ps where rest: "check_history now cs ck' s2 = (as, ps)" by (cases "check_history now cs ck' s2")
  have t: "timely now (pass, key, probe)" using Cons.prems(1) by (simp add: c)
  show ?case
    using run t
  proof (cases rule: run_check_cases)
    case 1
    have "now (pass s) < dr_checked_at r + dk_ttl ck" using 1(1) by (auto simp: cached_result_def split: option.splits if_splits)
    with Cons.IH [OF _ _ rest] Cons.prems 1 run rest show ?thesis by (auto simp: c Let_def)
  next
    case 2
    have kept: "dr_checked_at r0 + dk_ttl ck \<le> now (pass s)" if "dict_get (dk_cache ck) key = Some r0" for r0
      using 2(1) that by (auto simp: cached_result_def split: if_splits)
    have ih: "list_all (\<lambda>(t, r). t < dr_checked_at r + dk_ttl ck) as"
      "sorted_wrt (\<lambda>(k, b, e) (k', b', e'). k = k' \<longrightarrow> e + dk_ttl ck \<le> b') ps"
      "\<forall>(k, b, e) \<in> set ps. \<forall>r. dict_get (dk_cache ck') k = Some r \<longrightarrow> dr_checked_at r + dk_ttl ck \<le> b"
      using Cons.IH [OF _ _ rest] Cons.prems 2(2) by (auto simp: c)
    have o: "answers = (now (pass s), r) # as" "probes = (key, now (pass s), now s2) # ps"
      using Cons.prems(3) run rest 2(1) by (auto simp: c Let_def)
    have later: "(if k = key then now s2 + dk_ttl ck \<le> b else (\<forall>r. dict_get (dk_cache ck) k = Some r \<longrightarrow> dr_checked_at r + dk_ttl ck \<le> b))"
      if "(k, b, e) \<in> set ps" for k b e
    proof -
      have "\<forall>r. dict_get (dk_cache ck') k = Some r \<longrightarrow> dr_checked_at r + dk_ttl ck \<le> b" using ih(3) that by blast
      then show ?thesis using 2(2,3) by (cases "k = key") simp_all
    qed
    have all: "dr_checked_at r0 + dk_ttl ck \<le> b"
      if "(k, b, e) \<in> set probes" "dict_get (dk_cache ck) k = Some r0" for k b e r0
    proof (cases "(k, b, e) \<in> set ps")
      case True
      then show ?thesis using later [OF True] kept [of r0] that(2) 2(4) Cons.prems(2) by (auto split: if_splits)
    next
      case False
      with that(1) have "k = key" "b = now (pass s)" by (simp_all add: o)
      with kept that(2) show ?thesis by simp
    qed
    have "now (pass s) < dr_checked_at r + dk_ttl ck" using 2(3,4) Cons.prems(2) by simp
    moreover have "\<forall>(k, b, e) \<in> set ps. key = k \<longrightarrow> now s2 + dk_ttl ck \<le> b" using later by force
    moreover have "\<forall>(k, b, e) \<in> set probes. \<forall>r. dict_get (dk_cache ck) k = Some r \<longrightarrow> dr_checked_at r + dk_ttl ck \<le> b"
      using all by blast
    ultimately show ?thesis using ih(1,2) unfolding o by simp
  qed
qed simp

text \<open>
  C27: health answers are fresh and probes are rare: in any history of checks over a clock that does not
  run backwards, every answer is younger than the time-to-live when it is asked for, and two probes of
  one dependency are at least a time-to-live apart, whatever the probes answer.
\<close>

theorem checks_are_fresh_and_rare:
  assumes "list_all (timely now) cs" "0 < ttl"
    and "check_history now cs (new_checker ttl timeout) s = (answers, probes)"
  shows "list_all (\<lambda>(t, r). t < dr_checked_at r + ttl) answers \<and>
    sorted_wrt (\<lambda>(k, b, e) (k', b', e'). k = k' \<longrightarrow> e + ttl \<le> b') probes"
  using history_spaced [OF assms(1) _ assms(3)] assms(2) by (simp add: new_checker_def)

text \<open>Three checks of a dependency that hangs for two seconds, at 0, 3 and 8.\<close>

definition demo_check :: "rat \<Rightarrow> rat check" where
  "demo_check wait = (\<lambda>t. t + \<bar>wait\<bar>, ''redis'', probing id ''redis: '' (\<lambda>pong::bool. (True, ''pong'')) (\<lambda>t. (None, t + 2)))"

theorem checks_are_fresh_and_rare_witness:
  "list_all (\<lambda>(t, r). t < dr_checked_at r + 5) (fst (check_history id (map demo_check [0, 1, 5]) (new_checker 5 2) (0::rat))) \<and>
   snd (check_history id (map demo_check [0, 1, 5]) (new_checker 5 2) (0::rat)) = [(''redis'', 0, 2), (''redis'', 8, 10)]"
proof -
  have "list_all (timely id) (map demo_check [0, 1, 5])"
    by (auto simp: demo_check_def intro: timely_probing)
  from checks_are_fresh_and_rare [OF this _ prod.collapse [symmetric], of 5 2 0] show ?thesis
    by (simp add: demo_check_def run_check_def cached_result_def probing_def new_checker_def Let_def)
qed

end
