(* ===== verification/Regex.thy ===== *)
theory Regex
  imports Prelude
begin

text \<open>
  The part of Python's \<open>re\<close> the scanners use: character classes, sequence, ordered choice, greedy
  repetition and word boundaries, on ASCII text.  A matcher gives the end positions of all
  matches from a position in the order the backtracking search tries them, so the first one is
  the match \<open>re\<close> reports.  A position is the character before it and the text after it.
\<close>

section \<open>Expressions\<close>

datatype rx = Cls "char \<Rightarrow> bool" | Eps | Seq rx rx | Alt rx rx | Rep nat "nat option" rx | WordB

type_synonym pos = "char option \<times> string"

definition is_word :: "char \<Rightarrow> bool" where
  "is_word c =
     (let n = of_char c :: nat
      in 48 \<le> n \<and> n \<le> 57 \<or> 65 \<le> n \<and> n \<le> 90 \<or> n = 95 \<or> 97 \<le> n \<and> n \<le> 122)"

definition is_dec :: "char \<Rightarrow> bool" where
  "is_dec c = (let n = of_char c :: nat in 48 \<le> n \<and> n \<le> 57)"

definition is_upper_dec :: "char \<Rightarrow> bool" where
  "is_upper_dec c = (let n = of_char c :: nat in 48 \<le> n \<and> n \<le> 57 \<or> 65 \<le> n \<and> n \<le> 90)"

definition is_alpha :: "char \<Rightarrow> bool" where
  "is_alpha c = (let n = of_char c :: nat in 65 \<le> n \<and> n \<le> 90 \<or> 97 \<le> n \<and> n \<le> 122)"

definition is_alnum :: "char \<Rightarrow> bool" where
  "is_alnum c \<longleftrightarrow> is_alpha c \<or> is_dec c"

text \<open>Letters and digits, or one of the characters listed: the classes written with brackets.\<close>

definition alnum_or :: "string \<Rightarrow> rx" where
  "alnum_or cs = Cls (\<lambda>c. is_alnum c \<or> c \<in> set cs)"

definition one_of :: "string \<Rightarrow> rx" where
  "one_of cs = Cls (\<lambda>c. c \<in> set cs)"

text \<open>A literal, its case-insensitive form, a choice of several, and the usual repetitions.\<close>

definition lit :: "string \<Rightarrow> rx" where
  "lit w = foldr (\<lambda>c r. Seq (Cls (\<lambda>x. x = c)) r) w Eps"

definition lit_ci :: "string \<Rightarrow> rx" where
  "lit_ci w = foldr (\<lambda>c r. Seq (Cls (\<lambda>x. lower_char x = lower_char c)) r) w Eps"

fun alts :: "rx list \<Rightarrow> rx" where
  "alts [] = Cls (\<lambda>_. False)"
| "alts [r] = r"
| "alts (r # rs) = Alt r (alts rs)"

fun seqs :: "rx list \<Rightarrow> rx" where
  "seqs [] = Eps"
| "seqs [r] = r"
| "seqs (r # rs) = Seq r (seqs rs)"

definition rx_opt :: "rx \<Rightarrow> rx" where
  "rx_opt r = Rep 0 (Some 1) r"

definition rx_star :: "rx \<Rightarrow> rx" where
  "rx_star r = Rep 0 None r"

definition rx_plus :: "rx \<Rightarrow> rx" where
  "rx_plus r = Rep 1 None r"

definition rx_times :: "nat \<Rightarrow> rx \<Rightarrow> rx" where
  "rx_times n r = Rep n (Some n) r"

section \<open>Matching\<close>

definition word_boundary :: "pos \<Rightarrow> bool" where
  "word_boundary st =
     ((case fst st of None \<Rightarrow> False | Some c \<Rightarrow> is_word c) \<noteq>
      (case snd st of [] \<Rightarrow> False | c # cs \<Rightarrow> is_word c))"

text \<open>
  Greedy repetition of a matcher: more copies first.  A copy beyond the required ones must
  consume text; the fuel is the number of required copies plus the length of the text plus one,
  which \<open>rep_match_enough\<close> shows to be enough.
\<close>

fun rep_match :: "nat \<Rightarrow> (pos \<Rightarrow> pos list) \<Rightarrow> nat \<Rightarrow> nat option \<Rightarrow> pos \<Rightarrow> pos list" where
  "rep_match 0 f m n st = (if m = 0 then [st] else [])"
| "rep_match (Suc k) f m n st =
     (if n = Some 0 then (if m = 0 then [st] else [])
      else concat (map (rep_match k f (m - 1) (map_option (\<lambda>i. i - 1) n))
             (filter (\<lambda>st'. 0 < m \<or> length (snd st') < length (snd st)) (f st)))
           @ (if m = 0 then [st] else []))"

primrec matches :: "rx \<Rightarrow> pos \<Rightarrow> pos list" where
  "matches (Cls p) = (\<lambda>st. case snd st of [] \<Rightarrow> [] | c # cs \<Rightarrow> if p c then [(Some c, cs)] else [])"
| "matches Eps = (\<lambda>st. [st])"
| "matches (Seq r q) = (\<lambda>st. concat (map (matches q) (matches r st)))"
| "matches (Alt r q) = (\<lambda>st. matches r st @ matches q st)"
| "matches (Rep m n r) = (\<lambda>st. rep_match (m + length (snd st) + 1) (matches r) m n st)"
| "matches WordB = (\<lambda>st. if word_boundary st then [st] else [])"

text \<open>\<open>pattern.search\<close>: the text before the leftmost match, the match, and the position after it.\<close>

fun search :: "rx \<Rightarrow> char option \<Rightarrow> string \<Rightarrow> (string \<times> string \<times> pos) option" where
  "search r p s =
     (case matches r (p, s) of
        st # _ \<Rightarrow> Some ([], take (length s - length (snd st)) s, st)
      | [] \<Rightarrow> (case s of
                 [] \<Rightarrow> None
               | c # cs \<Rightarrow> (case search r (Some c) cs of
                             None \<Rightarrow> None
                           | Some (pre, m, st) \<Rightarrow> Some (c # pre, m, st))))"

declare search.simps [simp del]

definition found :: "rx \<Rightarrow> string \<Rightarrow> bool" where
  "found r s \<longleftrightarrow> search r None s \<noteq> None"

text \<open>\<open>pattern.findall\<close> for expressions that match no empty text, with the length as fuel.\<close>

fun findall_from :: "nat \<Rightarrow> rx \<Rightarrow> pos \<Rightarrow> string list" where
  "findall_from 0 r st = []"
| "findall_from (Suc k) r st =
     (case search r (fst st) (snd st) of
        None \<Rightarrow> []
      | Some (pre, m, st') \<Rightarrow> m # findall_from k r st')"

definition findall :: "rx \<Rightarrow> string \<Rightarrow> string list" where
  "findall r s = findall_from (length s) r (None, s)"

section \<open>Lemmas\<close>

text \<open>\<open>advances st st'\<close>: the position \<open>st'\<close> is \<open>st\<close> after some of its text.\<close>

definition advances :: "pos \<Rightarrow> pos \<Rightarrow> bool" where
  "advances st st' \<longleftrightarrow>
     (\<exists>w. snd st = w @ snd st' \<and> fst st' = (if w = [] then fst st else Some (last w)))"

lemma advances_refl [simp]: "advances st st"
  by (auto simp: advances_def)

lemma advances_trans: "advances a b \<Longrightarrow> advances b c \<Longrightarrow> advances a c"
proof -
  assume "advances a b" "advances b c"
  then obtain w v where "snd a = w @ snd b" "fst b = (if w = [] then fst a else Some (last w))"
    "snd b = v @ snd c" "fst c = (if v = [] then fst b else Some (last v))"
    unfolding advances_def by blast
  then show "advances a c" unfolding advances_def by (intro exI [of _ "w @ v"]) simp
qed

lemma advances_length: "advances st st' \<Longrightarrow> length (snd st') \<le> length (snd st)"
  by (auto simp: advances_def)

lemma rep_match_advances:
  assumes "\<And>st st'. st' \<in> set (f st) \<Longrightarrow> advances st st'"
  shows "st' \<in> set (rep_match k f m n st) \<Longrightarrow> advances st st'"
proof (induction k arbitrary: m n st)
  case (Suc k)
  then consider "st' = st" | st1 m' n' where "st1 \<in> set (f st)" "st' \<in> set (rep_match k f m' n' st1)"
    by (auto split: if_splits)
  then show ?case
  proof cases
    case 2
    then show ?thesis using assms Suc.IH advances_trans by blast
  qed simp
qed (simp split: if_splits)

lemma matches_advances: "st' \<in> set (matches r st) \<Longrightarrow> advances st st'"
proof (induction r arbitrary: st st')
  case (Cls p)
  then obtain c cs where "snd st = c # cs" "st' = (Some c, cs)" by (cases "snd st") (auto split: if_splits)
  then show ?case unfolding advances_def by (intro exI [of _ "[c]"]) simp
next
  case (Seq r q)
  then obtain st1 where "st1 \<in> set (matches r st)" "st' \<in> set (matches q st1)" by auto
  with Seq.IH show ?case using advances_trans by blast
next
  case (Rep m n r)
  then show ?case using rep_match_advances [of "matches r"] by (metis matches.simps(5))
qed (auto split: if_splits)

text \<open>Adding fuel beyond the bound changes nothing.\<close>

lemma rep_match_enough:
  assumes "\<And>st st'. st' \<in> set (f st) \<Longrightarrow> length (snd st') \<le> length (snd st)"
  shows "m + length (snd st) + 1 \<le> k \<Longrightarrow> m + length (snd st) + 1 \<le> k' \<Longrightarrow>
    rep_match k f m n st = rep_match k' f m n st"
proof (induction k arbitrary: k' m n st)
  case (Suc k)
  then obtain j where k': "k' = Suc j" by (cases k') auto
  have "rep_match k f (m - 1) (map_option (\<lambda>i. i - 1) n) st' = rep_match j f (m - 1) (map_option (\<lambda>i. i - 1) n) st'"
    if "st' \<in> set (filter (\<lambda>st'. 0 < m \<or> length (snd st') < length (snd st)) (f st))" for st'
    using that Suc.prems k' assms [of st' st] by (intro Suc.IH) auto
  then have "map (rep_match k f (m - 1) (map_option (\<lambda>i. i - 1) n))
        (filter (\<lambda>st'. 0 < m \<or> length (snd st') < length (snd st)) (f st)) =
      map (rep_match j f (m - 1) (map_option (\<lambda>i. i - 1) n))
        (filter (\<lambda>st'. 0 < m \<or> length (snd st') < length (snd st)) (f st))"
    by (intro map_cong refl)
  then show ?case unfolding k' rep_match.simps by (simp only:)
qed simp

lemma search_split:
  "search r p s = Some (pre, m, st) \<Longrightarrow> s = pre @ m @ snd st"
proof (induction r p s arbitrary: pre m st rule: search.induct)
  case (1 r p s)
  show ?case
  proof (cases "matches r (p, s)")
    case (Cons st' sts)
    then have "advances (p, s) st'" using matches_advances [of st' r "(p, s)"] by simp
    then obtain w where "s = w @ snd st'" by (auto simp: advances_def)
    moreover have "pre = []" "m = take (length s - length (snd st')) s" "st = st'"
      using 1(2) unfolding search.simps [of r p s] Cons by auto
    ultimately show ?thesis by simp
  next
    case Nil
    with 1 show ?thesis by (auto simp: search.simps [of r p s] split: list.splits option.splits)
  qed
qed

lemma findall_from_sublist: "m \<in> set (findall_from k r st) \<Longrightarrow> sublist m (snd st)"
proof (induction k arbitrary: st)
  case (Suc k)
  then obtain pre m' st' where s: "search r (fst st) (snd st) = Some (pre, m', st')"
    and m: "m = m' \<or> m \<in> set (findall_from k r st')"
    by (cases "search r (fst st) (snd st)") auto
  from search_split [OF s] have "snd st = pre @ m' @ snd st'" .
  moreover have "sublist m m' \<or> sublist m (snd st')" using m Suc.IH [of st'] by auto
  ultimately show ?case by (auto simp: sublist_append)
qed simp

lemma findall_sublist: "m \<in> set (findall r s) \<Longrightarrow> sublist m s"
  using findall_from_sublist [of m _ r "(None, s)"] by (simp add: findall_def)

section \<open>The language of an expression\<close>

fun rx_pow :: "string set \<Rightarrow> nat \<Rightarrow> string set" where
  "rx_pow L 0 = {[]}"
| "rx_pow L (Suc k) = {u @ v | u v. u \<in> L \<and> v \<in> rx_pow L k}"

primrec lang :: "rx \<Rightarrow> string set" where
  "lang (Cls p) = {[c] | c. p c}"
| "lang Eps = {[]}"
| "lang (Seq r q) = {u @ v | u v. u \<in> lang r \<and> v \<in> lang q}"
| "lang (Alt r q) = lang r \<union> lang q"
| "lang (Rep m n r) = (\<Union>k \<in> {k. m \<le> k \<and> (case n of None \<Rightarrow> True | Some b \<Rightarrow> k \<le> b)}. rx_pow (lang r) k)"
| "lang WordB = {[]}"

text \<open>Expressions without boundaries whose repeated parts match no empty text.\<close>

primrec plain :: "rx \<Rightarrow> bool" where
  "plain (Cls p) = True"
| "plain Eps = True"
| "plain (Seq r q) = (plain r \<and> plain q)"
| "plain (Alt r q) = (plain r \<and> plain q)"
| "plain (Rep m n r) = (plain r \<and> [] \<notin> lang r)"
| "plain WordB = False"

text \<open>A matcher is exact for a language when it ends after exactly the prefixes in the language.\<close>

definition exact :: "(pos \<Rightarrow> pos list) \<Rightarrow> string set \<Rightarrow> bool" where
  "exact f L \<longleftrightarrow> (\<forall>st. \<forall>st' \<in> set (f st). \<exists>w \<in> L. snd st = w @ snd st') \<and>
     (\<forall>st. \<forall>w \<in> L. \<forall>s. snd st = w @ s \<longrightarrow> (\<exists>st' \<in> set (f st). snd st' = s))"

lemma exactD: "exact f L \<Longrightarrow> st' \<in> set (f st) \<Longrightarrow> \<exists>w \<in> L. snd st = w @ snd st'"
  unfolding exact_def by blast

lemma exactI: "exact f L \<Longrightarrow> w \<in> L \<Longrightarrow> snd st = w @ s \<Longrightarrow> \<exists>st' \<in> set (f st). snd st' = s"
  unfolding exact_def by blast

lemma exact_byI:
  assumes "\<And>st st' :: pos. st' \<in> set (f st) \<Longrightarrow> \<exists>w \<in> L. snd st = w @ snd st'"
    and "\<And>(st :: pos) w s. w \<in> L \<Longrightarrow> snd st = w @ s \<Longrightarrow> \<exists>st' \<in> set (f st). snd st' = s"
  shows "exact f L"
  unfolding exact_def using assms by blast

lemma rep_match_exact:
  assumes "exact f L" "[] \<notin> L"
  shows "m + length (snd st) + 1 \<le> k \<Longrightarrow>
    (\<forall>st' \<in> set (rep_match k f m n st). \<exists>j. m \<le> j \<and> (case n of None \<Rightarrow> True | Some b \<Rightarrow> j \<le> b) \<and>
       (\<exists>w \<in> rx_pow L j. snd st = w @ snd st')) \<and>
    (\<forall>j w s. m \<le> j \<and> (case n of None \<Rightarrow> True | Some b \<Rightarrow> j \<le> b) \<and> w \<in> rx_pow L j \<and> snd st = w @ s \<longrightarrow>
       (\<exists>st' \<in> set (rep_match k f m n st). snd st' = s))"
proof (induction k arbitrary: m n st)
  case (Suc k)
  let ?n = "map_option (\<lambda>i. i - 1) n"
  have short: "length (snd st1) < length (snd st)" if st1: "st1 \<in> set (f st)" for st1
  proof -
    obtain w where "w \<in> L" "snd st = w @ snd st1" using exactD [OF assms(1) st1] by blast
    then show ?thesis using assms(2) by (cases w) auto
  qed
  then have fl: "set (filter (\<lambda>st'. 0 < m \<or> length (snd st') < length (snd st)) (f st)) = set (f st)" by auto
  have IH: "(\<forall>st' \<in> set (rep_match k f (m - 1) ?n st1). \<exists>j. m - 1 \<le> j \<and> (case ?n of None \<Rightarrow> True | Some b \<Rightarrow> j \<le> b) \<and>
       (\<exists>w \<in> rx_pow L j. snd st1 = w @ snd st'))"
    "m - 1 \<le> j \<Longrightarrow> (case ?n of None \<Rightarrow> True | Some b \<Rightarrow> j \<le> b) \<Longrightarrow> w \<in> rx_pow L j \<Longrightarrow> snd st1 = w @ s \<Longrightarrow>
       \<exists>st' \<in> set (rep_match k f (m - 1) ?n st1). snd st' = s" if "st1 \<in> set (f st)" for st1 j w s
    using Suc.IH [of "m - 1" st1 ?n] short [OF that] Suc.prems by auto
  show ?case
  proof (intro conjI ballI allI impI)
    fix st' assume st': "st' \<in> set (rep_match (Suc k) f m n st)"
    then consider "st' = st" "m = 0" | st1 where "n \<noteq> Some 0" "st1 \<in> set (f st)" "st' \<in> set (rep_match k f (m - 1) ?n st1)"
      by (auto split: if_splits)
    then show "\<exists>j. m \<le> j \<and> (case n of None \<Rightarrow> True | Some b \<Rightarrow> j \<le> b) \<and> (\<exists>w \<in> rx_pow L j. snd st = w @ snd st')"
    proof cases
      case 1
      then show ?thesis by (intro exI [of _ 0]) (auto split: option.splits)
    next
      case 2
      from exactD [OF assms(1) 2(2)] obtain u where u: "u \<in> L" "snd st = u @ snd st1" by blast
      from IH(1) [OF 2(2)] 2(3) obtain j w where j: "m - 1 \<le> j" "case ?n of None \<Rightarrow> True | Some b \<Rightarrow> j \<le> b"
        "w \<in> rx_pow L j" "snd st1 = w @ snd st'" by blast
      have "u @ w \<in> rx_pow L (Suc j)" using u(1) j(3) by auto
      moreover have "case n of None \<Rightarrow> True | Some b \<Rightarrow> Suc j \<le> b" using j(2) 2(1) by (auto split: option.splits)
      ultimately show ?thesis using u(2) j(1,4) by (intro exI [of _ "Suc j"]) auto
    qed
  next
    fix j w s
    assume a: "m \<le> j \<and> (case n of None \<Rightarrow> True | Some b \<Rightarrow> j \<le> b) \<and> w \<in> rx_pow L j \<and> snd st = w @ s"
    show "\<exists>st' \<in> set (rep_match (Suc k) f m n st). snd st' = s"
    proof (cases j)
      case 0
      with a have "m = 0" "snd st = s" by auto
      then show ?thesis by auto
    next
      case (Suc i)
      with a obtain u v where uv: "u \<in> L" "v \<in> rx_pow L i" "w = u @ v" by auto
      obtain st1 where st1: "st1 \<in> set (f st)" "snd st1 = v @ s"
        using exactI [OF assms(1) uv(1), of st "v @ s"] a uv(3) by auto
      have "n \<noteq> Some 0" "case ?n of None \<Rightarrow> True | Some b \<Rightarrow> i \<le> b" "m - 1 \<le> i"
        using a Suc by (auto split: option.splits)
      with IH(2) [OF st1(1) _ _ uv(2) st1(2)] st1(1) fl show ?thesis by auto
    qed
  qed
qed simp

lemma matches_exact: "plain r \<Longrightarrow> exact (matches r) (lang r)"
proof (induction r)
  case (Cls p)
  show ?case
  proof (rule exact_byI)
    fix st st' assume "st' \<in> set (matches (Cls p) st)"
    then show "\<exists>w \<in> lang (Cls p). snd st = w @ snd st'"
      by (cases "snd st") (auto split: if_splits)
  qed auto
next
  case Eps
  show ?case by (rule exact_byI) auto
next
  case (Seq r q)
  show ?case
  proof (rule exact_byI)
    fix st st' assume s: "st' \<in> set (matches (Seq r q) st)"
    then obtain st1 where st1: "st1 \<in> set (matches r st)" "st' \<in> set (matches q st1)" by auto
    have e: "exact (matches r) (lang r)" "exact (matches q) (lang q)" using Seq by simp_all
    from exactD [OF e(1), of st1 st] st1(1) obtain u where "u \<in> lang r" "snd st = u @ snd st1" by blast
    moreover from exactD [OF e(2), of st' st1] st1(2) obtain v where "v \<in> lang q" "snd st1 = v @ snd st'" by blast
    ultimately show "\<exists>w \<in> lang (Seq r q). snd st = w @ snd st'"
      by auto
  next
    fix st :: pos and w s assume "w \<in> lang (Seq r q)" "snd st = w @ s"
    then obtain u v where uv: "u \<in> lang r" "v \<in> lang q" "snd st = u @ v @ s" by auto
    have e: "exact (matches r) (lang r)" "exact (matches q) (lang q)" using Seq by simp_all
    obtain st1 where "st1 \<in> set (matches r st)" "snd st1 = v @ s" using exactI [OF e(1) uv(1,3)] by blast
    moreover from exactI [OF e(2) uv(2) this(2)] obtain st' where "st' \<in> set (matches q st1)" "snd st' = s" by blast
    ultimately show "\<exists>st' \<in> set (matches (Seq r q) st). snd st' = s" by auto
  qed
next
  case (Alt r q)
  show ?case
  proof (rule exact_byI)
    fix st st' assume s: "st' \<in> set (matches (Alt r q) st)"
    with Alt show "\<exists>w \<in> lang (Alt r q). snd st = w @ snd st'"
      using exactD [of "matches r" "lang r" st' st] exactD [of "matches q" "lang q" st' st] by auto
  next
    fix st :: pos and w s assume "w \<in> lang (Alt r q)" "snd st = w @ s"
    with Alt show "\<exists>st' \<in> set (matches (Alt r q) st). snd st' = s"
      using exactI [of "matches r" "lang r" w st s] exactI [of "matches q" "lang q" w st s] by auto
  qed
next
  case (Rep m n r)
  then have e: "exact (matches r) (lang r)" "[] \<notin> lang r" by auto
  show ?case
  proof (rule exact_byI)
    fix st st' assume s: "st' \<in> set (matches (Rep m n r) st)"
    then show "\<exists>w \<in> lang (Rep m n r). snd st = w @ snd st'"
      using rep_match_exact [OF e, of m st "m + length (snd st) + 1" n] by fastforce
  next
    fix st :: pos and w s assume "w \<in> lang (Rep m n r)" "snd st = w @ s"
    then show "\<exists>st' \<in> set (matches (Rep m n r) st). snd st' = s"
      using rep_match_exact [OF e, of m st "m + length (snd st) + 1" n] by auto
  qed
qed simp

text \<open>For any expression, boundaries included, what is matched is a word of the language.\<close>

lemma rep_match_sound:
  assumes "\<And>st st'. st' \<in> set (f st) \<Longrightarrow> \<exists>w \<in> L. snd st = w @ snd st'"
  shows "st' \<in> set (rep_match k f m n st) \<Longrightarrow>
    \<exists>j \<in> {j. m \<le> j \<and> (case n of None \<Rightarrow> True | Some b \<Rightarrow> j \<le> b)}. \<exists>w \<in> rx_pow L j. snd st = w @ snd st'"
proof (induction k arbitrary: m n st)
  case (Suc k)
  then consider "st' = st" "m = 0" | st1 where "n \<noteq> Some 0" "st1 \<in> set (f st)"
      "st' \<in> set (rep_match k f (m - 1) (map_option (\<lambda>i. i - 1) n) st1)"
    by (auto split: if_splits)
  then show ?case
  proof cases
    case 1
    then show ?thesis by (intro bexI [of _ 0]) (auto split: option.splits)
  next
    case 2
    from assms [OF 2(2)] obtain u where u: "u \<in> L" "snd st = u @ snd st1" by blast
    from Suc.IH [OF 2(3)] obtain j w where j: "m - 1 \<le> j"
      "case map_option (\<lambda>i. i - 1) n of None \<Rightarrow> True | Some b \<Rightarrow> j \<le> b" "w \<in> rx_pow L j" "snd st1 = w @ snd st'"
      by blast
    have "u @ w \<in> rx_pow L (Suc j)" using u(1) j(3) by auto
    moreover have "case n of None \<Rightarrow> True | Some b \<Rightarrow> Suc j \<le> b" using j(2) 2(1) by (auto split: option.splits)
    ultimately show ?thesis using u(2) j(1,4) by (intro bexI [of _ "Suc j"] bexI [of _ "u @ w"]) auto
  qed
next
  case 0
  then show ?case by (intro bexI [of _ 0]) (auto split: if_splits option.splits)
qed

lemma matches_sound: "st' \<in> set (matches r st) \<Longrightarrow> \<exists>w \<in> lang r. snd st = w @ snd st'"
proof (induction r arbitrary: st st')
  case (Cls p)
  then show ?case by (cases "snd st") (auto split: if_splits)
next
  case (Seq r q)
  then obtain st1 where "st1 \<in> set (matches r st)" "st' \<in> set (matches q st1)" by auto
  with Seq.IH(1) [of st1 st] Seq.IH(2) [of st' st1] obtain u v where "u \<in> lang r" "v \<in> lang q"
    "snd st = u @ snd st1" "snd st1 = v @ snd st'" by blast
  then show ?case by auto
next
  case (Alt r q)
  then show ?case by (metis Un_iff lang.simps(4) matches.simps(4) set_append)
next
  case (Rep m n r)
  from rep_match_sound [of "matches r", OF Rep.IH] Rep.prems show ?case by (metis (no_types, lifting) UN_I lang.simps(5) matches.simps(5))
qed (auto split: if_splits)

text \<open>A plain expression is found exactly in the texts that contain a word of its language.\<close>

lemma search_None_iff:
  assumes "plain r"
  shows "search r p s = None \<longleftrightarrow> (\<forall>w \<in> lang r. \<not> sublist w s)"
proof -
  have m: "matches r (p, s) = [] \<longleftrightarrow> (\<forall>w \<in> lang r. \<not> prefix w s)" for p s
  proof
    assume n: "matches r (p, s) = []"
    show "\<forall>w \<in> lang r. \<not> prefix w s"
    proof (intro ballI notI)
      fix w assume "w \<in> lang r" "prefix w s"
      then show False using exactI [OF matches_exact [OF assms], of w "(p, s)" "drop (length w) s"] n
        by (auto simp: prefix_def)
    qed
  next
    assume "\<forall>w \<in> lang r. \<not> prefix w s"
    then show "matches r (p, s) = []"
      using exactD [OF matches_exact [OF assms], of _ "(p, s)"] by (cases "matches r (p, s)") (auto simp: prefix_def)
  qed
  show ?thesis
  proof (induction s arbitrary: p)
    case Nil
    then show ?case using m [of p "[]"] by (cases "matches r (p, [])") (auto simp: search.simps [of r p "[]"])
  next
    case (Cons c s)
    show ?case
    proof (cases "matches r (p, c # s)")
      case Nil
      then show ?thesis using m [of p "c # s"] Cons [of "Some c"]
        by (auto simp: search.simps [of r p "c # s"] sublist_Cons_right split: option.splits)
    next
      case (Cons st sts)
      then have "\<exists>w \<in> lang r. prefix w (c # s)" using m [of p "c # s"] by auto
      then show ?thesis using Cons by (auto simp: search.simps [of r p "c # s"] sublist_Cons_right)
    qed
  qed
qed

text \<open>Nothing of the language is found before the leftmost match.\<close>

lemma search_leftmost:
  assumes "plain r" "search r p s = Some (pre, m, st)" "w \<in> lang r"
  shows "\<not> sublist w pre \<or> w = []"
proof -
  have "search r p s = Some (pre, m, st) \<Longrightarrow> w \<noteq> [] \<Longrightarrow> \<not> sublist w pre"
  proof (induction s arbitrary: p pre)
    case Nil
    then show ?case using search_split [OF Nil(1)] by auto
  next
    case (Cons c s)
    show ?case
    proof (cases "matches r (p, c # s)")
      case Nil
      with Cons.prems obtain pre' where pre: "pre = c # pre'" "search r (Some c) s = Some (pre', m, st)"
        by (auto simp: search.simps [of r p "c # s"] split: option.splits)
      have "\<not> prefix w (c # s)"
        using exactI [OF matches_exact [OF assms(1)] assms(3), of "(p, c # s)" "drop (length w) (c # s)"] Nil
        by (auto simp: prefix_def)
      moreover have "s = pre' @ m @ snd st" by (rule search_split [OF pre(2)])
      ultimately have "\<not> prefix w pre" using pre(1) by (metis append_Cons prefix_prefix)
      then show ?thesis using Cons.IH [OF pre(2) Cons.prems(2)] pre(1) by (auto simp: sublist_Cons_right)
    next
      case Cons': (Cons st' sts)
      with Cons.prems have "pre = []" unfolding search.simps [of r p "c # s"] Cons' by simp
      with Cons.prems(2) show ?thesis by simp
    qed
  qed
  with assms(2) show ?thesis by blast
qed

lemma search_match_lang:
  assumes "search r p s = Some (pre, m, st)"
  shows "m \<in> lang r"
  using assms
proof (induction s arbitrary: p pre)
  case Nil
  then obtain sts where "matches r (p, []) = st # sts" "m = []"
    by (auto simp: search.simps [of r p "[]"] split: list.splits)
  then show ?case using matches_sound [of st r "(p, [])"] by auto
next
  case (Cons c s)
  show ?case
  proof (cases "matches r (p, c # s)")
    case Nil
    with Cons.prems Cons.IH show ?thesis by (auto simp: search.simps [of r p "c # s"] split: option.splits)
  next
    case Cons': (Cons st' sts)
    with Cons.prems have e: "st' = st" "m = take (length (c # s) - length (snd st)) (c # s)"
      unfolding search.simps [of r p "c # s"] Cons' by auto
    obtain w where "w \<in> lang r" "c # s = w @ snd st"
      using matches_sound [of st' r "(p, c # s)"] Cons' e(1) by auto
    then show ?thesis using e(2) by (metis append_eq_conv_conj diff_add_inverse2 length_append)
  qed
qed

lemma findall_from_lang: "m \<in> set (findall_from k r st) \<Longrightarrow> m \<in> lang r"
proof (induction k arbitrary: st)
  case (Suc k)
  then obtain pre m' st' where s: "search r (fst st) (snd st) = Some (pre, m', st')"
    and m: "m = m' \<or> m \<in> set (findall_from k r st')"
    by (cases "search r (fst st) (snd st)") auto
  with Suc.IH search_match_lang show ?case by blast
qed simp

lemma findall_lang: "m \<in> set (findall r s) \<Longrightarrow> m \<in> lang r"
  unfolding findall_def by (rule findall_from_lang)

section \<open>Substitution\<close>

text \<open>\<open>pattern.sub\<close> by a fixed text, for expressions that match no empty text.\<close>

fun sub_from :: "nat \<Rightarrow> rx \<Rightarrow> string \<Rightarrow> pos \<Rightarrow> string" where
  "sub_from 0 r new st = snd st"
| "sub_from (Suc k) r new st =
     (case search r (fst st) (snd st) of
        None \<Rightarrow> snd st
      | Some (pre, m, st') \<Rightarrow> pre @ new @ sub_from k r new st')"

definition sub_all :: "rx \<Rightarrow> string \<Rightarrow> string \<Rightarrow> string" where
  "sub_all r new s = sub_from (length s + 1) r new (None, s)"


text \<open>
  A set of words that avoids the ends of the new text, and is not inside it, does not come into
  being by a substitution; after substituting its own expression it is gone.
\<close>

definition fenced :: "string set \<Rightarrow> string \<Rightarrow> bool" where
  "fenced L new \<longleftrightarrow> new \<noteq> [] \<and>
     (\<forall>w \<in> L. w \<noteq> [] \<and> hd new \<notin> set w \<and> last new \<notin> set w \<and> \<not> sublist w new)"

lemma sublist_fence:
  assumes "sublist w (xs @ c # ys)" "c \<notin> set w"
  shows "sublist w xs \<or> sublist w ys"
proof -
  from assms(1) consider "sublist w xs" | "sublist w (c # ys)" | w1 w2 where "w = w1 @ w2" "suffix w1 xs" "prefix w2 (c # ys)"
    by (auto simp: sublist_append)
  then show ?thesis
  proof cases
    case 2
    then show ?thesis using assms(2) by (auto simp: sublist_Cons_right prefix_Cons)
  next
    case 3
    then have "w2 = []" using assms(2) by (auto simp: prefix_Cons)
    with 3 show ?thesis by (simp add: suffix_imp_sublist)
  qed simp
qed

lemma sublist_fenced:
  assumes "fenced L new" "w \<in> L" "sublist w (xs @ new @ ys)"
  shows "sublist w xs \<or> sublist w ys"
proof -
  have f: "new \<noteq> []" "hd new \<notin> set w" "last new \<notin> set w" "\<not> sublist w new" using assms(1,2) by (auto simp: fenced_def)
  obtain c mid where new: "new = c # mid" "c \<notin> set w" using f(1,2) by (cases new) auto
  from sublist_fence [of w xs c "mid @ ys"] assms(3) new consider "sublist w xs" | "sublist w (mid @ ys)" by auto
  then show ?thesis
  proof cases
    case 2
    show ?thesis
    proof (cases "mid = []")
      case False
      then have mid: "mid = butlast mid @ [last new]" using new(1) by simp
      have "sublist w ((butlast mid) @ last new # ys)" using 2 mid by (metis append_Cons append_Nil append_assoc)
      from sublist_fence [OF this f(3)] show ?thesis
      proof
        assume "sublist w (butlast mid)"
        then have "sublist w mid" by (metis mid sublist_appendI sublist_append_rightI sublist_order.order_trans)
        then have "sublist w new" unfolding new(1) by (simp add: sublist_Cons_right)
        with f(4) show ?thesis by simp
      qed simp
    qed (use 2 in simp)
  qed simp
qed

lemma sublist_mono_append: "\<not> sublist w (xs @ ys @ zs) \<Longrightarrow> \<not> sublist w xs \<and> \<not> sublist w zs"
  by (auto simp: sublist_append)

lemma sub_from_keeps_out:
  assumes "fenced L new" "w \<in> L"
  shows "\<not> sublist w (snd st) \<Longrightarrow> \<not> sublist w (sub_from k r new st)"
proof (induction k arbitrary: st)
  case (Suc k)
  show ?case
  proof (cases "search r (fst st) (snd st)")
    case (Some a)
    then obtain pre m st' where a: "search r (fst st) (snd st) = Some (pre, m, st')" by (cases a) auto
    from search_split [OF a] Suc.prems have "\<not> sublist w pre" "\<not> sublist w (snd st')"
      using sublist_mono_append by metis+
    with Suc.IH [OF this(2)] sublist_fenced [OF assms] a show ?thesis by auto
  qed (use Suc.prems in simp)
qed simp

lemma sub_from_removes:
  assumes "fenced (lang r) new" "plain r" "w \<in> lang r"
  shows "length (snd st) < k \<Longrightarrow> \<not> sublist w (sub_from k r new st)"
proof (induction k arbitrary: st)
  case (Suc k)
  show ?case
  proof (cases "search r (fst st) (snd st)")
    case None
    then have "\<not> sublist w (snd st)" using search_None_iff [OF assms(2), of "fst st" "snd st"] assms(3) by simp
    with None show ?thesis by simp
  next
    case (Some a)
    then obtain pre m st' where a: "search r (fst st) (snd st) = Some (pre, m, st')" by (cases a) auto
    have "w \<noteq> []" "m \<noteq> []" using assms search_match_lang [OF a] by (auto simp: fenced_def)
    moreover have "\<not> sublist w pre" using search_leftmost [OF assms(2) a assms(3)] \<open>w \<noteq> []\<close> by simp
    moreover have "length (snd st') < k" using search_split [OF a] Suc.prems \<open>m \<noteq> []\<close> by (cases m) auto
    ultimately show ?thesis using Suc.IH [of st'] sublist_fenced [OF assms(1,3), of pre "sub_from k r new st'"] a by auto
  qed
qed simp

lemma sub_all_keeps_out: "fenced L new \<Longrightarrow> w \<in> L \<Longrightarrow> \<not> sublist w s \<Longrightarrow> \<not> sublist w (sub_all r new s)"
  using sub_from_keeps_out [of L new w "(None, s)"] by (simp add: sub_all_def del: sub_from.simps)

lemma sub_all_removes: "fenced (lang r) new \<Longrightarrow> plain r \<Longrightarrow> w \<in> lang r \<Longrightarrow> \<not> sublist w (sub_all r new s)"
  using sub_from_removes [of r new w "(None, s)" "length s + 1"] by (simp add: sub_all_def del: sub_from.simps)

end
