(* ===== verification/CallGate.thy ===== *)
theory CallGate
  imports Prelude
begin

text \<open>
  The interface between the tools that call unreliable servers and the circuit breaker that
  guards them: a gate is asked before a call and told how the call ended.  The client's lemmas
  are proved here once; Breaker interprets the interface on the circuit breaker.
\<close>

text \<open>
  A run of calls through a gate: when the gate is asked, when the call ends, and whether it
  succeeded; the answers of the gate.
\<close>

fun gate_run ::
    "(rat \<Rightarrow> 'b \<Rightarrow> bool \<times> 'b) \<Rightarrow> ('b \<Rightarrow> 'b) \<Rightarrow> (rat \<Rightarrow> 'b \<Rightarrow> 'b) \<Rightarrow> 'b \<Rightarrow> (rat \<times> rat \<times> bool) list \<Rightarrow> bool list \<times> 'b" where
  "gate_run allow good bad b [] = ([], b)"
| "gate_run allow good bad b ((t, u, ok) # xs) =
     (let (a, b1) = allow t b;
          (as, b2) = gate_run allow good bad (if a then (if ok then good b1 else bad u b1) else b1) xs
      in (a # as, b2))"

lemma gate_run_append:
  "snd (gate_run allow good bad b (xs @ ys)) = snd (gate_run allow good bad (snd (gate_run allow good bad b xs)) ys)"
  by (induction xs arbitrary: b) (auto simp: case_prod_beta Let_def)

locale call_gate =
  fixes allow :: "rat \<Rightarrow> 'b \<Rightarrow> bool \<times> 'b"
    and good :: "'b \<Rightarrow> 'b"
    and bad :: "rat \<Rightarrow> 'b \<Rightarrow> 'b"
    and healthy :: "'b \<Rightarrow> bool"
    and fails :: "'b \<Rightarrow> nat"
    and threshold :: "'b \<Rightarrow> nat"
    and window :: "'b \<Rightarrow> rat"
  assumes healthy: "healthy b \<Longrightarrow> healthy (snd (allow t b)) \<and> healthy (good b) \<and> healthy (bad t b)"
    and same_gate: "healthy b \<Longrightarrow> threshold (snd (allow t b)) = threshold b \<and> threshold (good b) = threshold b \<and> threshold (bad t b) = threshold b"
    and same_window: "healthy b \<Longrightarrow> window (snd (allow t b)) = window b \<and> window (good b) = window b \<and> window (bad t b) = window b"
    and counts: "healthy b \<Longrightarrow> fails (snd (allow t b)) = fails b \<and> fails (good b) = 0 \<and> fails (bad t b) = Suc (fails b)"
    and positive: "healthy b \<Longrightarrow> 0 < threshold b"
    and passes: "healthy b \<Longrightarrow> fails b < threshold b \<Longrightarrow> fst (allow t b)"
    and trips: "healthy b \<Longrightarrow> threshold b \<le> Suc (fails b) \<Longrightarrow> t' - t < window b \<Longrightarrow> allow t' (bad t b) = (False, bad t b)"
begin

lemma successes_always_pass:
  "healthy b \<Longrightarrow> fails b < threshold b \<Longrightarrow> list_all (\<lambda>(t, u, ok). ok) xs \<Longrightarrow>
   list_all id (fst (gate_run allow good bad b xs)) \<and>
   healthy (snd (gate_run allow good bad b xs)) \<and>
   fails (snd (gate_run allow good bad b xs)) < threshold (snd (gate_run allow good bad b xs))"
proof (induction xs arbitrary: b)
  case (Cons x xs)
  obtain t u ok where x: "x = (t, u, ok)" by (cases x) auto
  let ?b1 = "snd (allow t b)"
  have h: "healthy ?b1" and a: "fst (allow t b)" using healthy passes Cons.prems by blast+
  have "healthy (good ?b1)" "fails (good ?b1) < threshold (good ?b1)"
    using healthy [OF h] counts [OF h] positive [of "good ?b1"] by auto
  with Cons x a show ?case by (simp add: case_prod_beta)
qed simp

text \<open>Failures, each as the pair of its two times.\<close>

definition failing :: "(rat \<times> rat) list \<Rightarrow> (rat \<times> rat \<times> bool) list" where
  "failing ts = map (\<lambda>(t, u). (t, u, False)) ts"

lemma failures_count:
  "healthy b \<Longrightarrow> fails b + length ts \<le> threshold b \<Longrightarrow>
   list_all id (fst (gate_run allow good bad b (failing ts))) \<and>
   healthy (snd (gate_run allow good bad b (failing ts))) \<and>
   fails (snd (gate_run allow good bad b (failing ts))) = fails b + length ts \<and>
   threshold (snd (gate_run allow good bad b (failing ts))) = threshold b \<and>
   window (snd (gate_run allow good bad b (failing ts))) = window b"
proof (induction ts arbitrary: b)
  case (Cons x ts)
  obtain t u where x: "x = (t, u)" by (cases x)
  let ?b1 = "snd (allow t b)"
  have h: "healthy ?b1" and a: "fst (allow t b)" using healthy passes Cons.prems by simp_all
  have "healthy (bad u ?b1)" "fails (bad u ?b1) = Suc (fails b)" "threshold (bad u ?b1) = threshold b"
    "window (bad u ?b1) = window b"
    using healthy [OF h] counts [OF h] counts [OF Cons.prems(1)] same_gate [OF h] same_gate [OF Cons.prems(1)]
      same_window [OF h] same_window [OF Cons.prems(1)] by simp_all
  with Cons.IH [of "bad u ?b1"] Cons.prems(2) a x show ?case by (simp add: failing_def case_prod_beta)
qed (simp add: failing_def)

lemma gate_run_snoc_fail:
  "fst (allow t (snd (gate_run allow good bad b xs))) \<Longrightarrow>
   snd (gate_run allow good bad b (xs @ [(t, u, False)])) = bad u (snd (allow t (snd (gate_run allow good bad b xs))))"
  by (induction xs arbitrary: b) (auto simp: case_prod_beta)

text \<open>After as many failures in a row as the threshold, the gate refuses within the window.\<close>

lemma failures_trip:
  assumes "healthy b" "fails b = 0" "Suc (length ts) = threshold b" "t' - u < window b"
  shows "allow t' (snd (gate_run allow good bad b (failing (ts @ [(t, u)])))) =
    (False, snd (gate_run allow good bad b (failing (ts @ [(t, u)]))))"
proof -
  let ?b = "snd (gate_run allow good bad b (failing ts))"
  have b: "healthy ?b" "fails ?b = length ts" "threshold ?b = threshold b" "window ?b = window b"
    using failures_count [of b ts] assms by simp_all
  have a: "fst (allow t ?b)" using passes b assms(3) by simp
  have h: "healthy (snd (allow t ?b))" using healthy b(1) by blast
  have "allow t' (bad u (snd (allow t ?b))) = (False, bad u (snd (allow t ?b)))"
    by (rule trips [OF h]) (use counts [OF b(1)] same_gate [OF b(1)] same_window [OF b(1)] b assms(3,4) in simp_all)
  then show ?thesis using gate_run_snoc_fail [OF a] by (simp add: failing_def)
qed

end

end
