(* ===== verification/Breaker.thy ===== *)
theory Breaker
  imports CallGate
begin

text \<open>
  The circuit breaker of src/src/core/circuit_breaker.py: three states, a failure counter and
  the time of the last failure, kept in memory and, when a Redis client is configured, in
  Redis.  Every Redis access is fail-open: an exception makes the read fall back to the
  in-memory copy and makes the write a no-op.  Each operation takes the clock's value and
  returns its answer, the breaker and the service's state.

  The warnings of the three handlers are taken to be written.  With the logger of
  src/src/core/logger.py they are not: their extra field "name" makes it raise KeyError
  (\<open>breaker_warnings_raise\<close> in Logger), so the fail-open fall-back shown here is what the handlers are
  for, and what they do with a logger that takes the field.  No service reaches them: bedrock.py
  and agentic_loop.py construct their breakers without a Redis client.
\<close>

section \<open>State\<close>

datatype circuit_state = CLOSED | OPEN | HALF_OPEN

definition cs_value :: "circuit_state \<Rightarrow> string" where
  "cs_value c = (case c of CLOSED \<Rightarrow> ''closed'' | OPEN \<Rightarrow> ''open'' | HALF_OPEN \<Rightarrow> ''half_open'')"

text \<open>\<open>CircuitState(val)\<close>: the member with that value, or ValueError.\<close>

definition cs_of_value :: "rval \<Rightarrow> circuit_state option" where
  "cs_of_value v =
     (if v = RText ''closed'' then Some CLOSED
      else if v = RText ''open'' then Some OPEN
      else if v = RText ''half_open'' then Some HALF_OPEN
      else None)"

record breaker =
  cb_name :: string
  failure_threshold :: int
  recovery_timeout :: rat
  cb_ttl :: int
  mem_state :: circuit_state
  mem_failure_count :: int
  mem_last_failure_time :: rat

definition py_int :: "rat \<Rightarrow> int" where
  "py_int x = (if x < 0 then - \<lfloor>- x\<rfloor> else \<lfloor>x\<rfloor>)"

definition new_breaker :: "string \<Rightarrow> int \<Rightarrow> rat \<Rightarrow> breaker" where
  "new_breaker nm thr rec =
     \<lparr>cb_name = nm, failure_threshold = thr, recovery_timeout = rec, cb_ttl = py_int (rec * 2),
      mem_state = CLOSED, mem_failure_count = 0, mem_last_failure_time = 0\<rparr>"

definition key_state :: "breaker \<Rightarrow> string" where
  "key_state b = ''cb:'' @ cb_name b @ '':state''"

definition key_failures :: "breaker \<Rightarrow> string" where
  "key_failures b = ''cb:'' @ cb_name b @ '':failures''"

definition key_last_failure_ts :: "breaker \<Rightarrow> string" where
  "key_last_failure_ts b = ''cb:'' @ cb_name b @ '':last_failure_ts''"

section \<open>Redis access, fail-open\<close>

definition redis_get_state ::
    "'s redis_ops option \<Rightarrow> breaker \<Rightarrow> 's \<Rightarrow> circuit_state option \<times> 's" where
  "redis_get_state ro b s =
     (case ro of None \<Rightarrow> (None, s)
      | Some r \<Rightarrow>
          (case rd_get r (key_state b) s of
             (Inl e, s') \<Rightarrow> (None, s')
           | (Inr None, s') \<Rightarrow> (Some CLOSED, s')
           | (Inr (Some v), s') \<Rightarrow> (cs_of_value v, s')))"

text \<open>\<open>int(val) if val else 0\<close>; a value \<open>int\<close> rejects is an exception, so None.\<close>

definition redis_get_failures :: "'s redis_ops option \<Rightarrow> breaker \<Rightarrow> 's \<Rightarrow> int option \<times> 's" where
  "redis_get_failures ro b s =
     (case ro of None \<Rightarrow> (None, s)
      | Some r \<Rightarrow>
          (case rd_get r (key_failures b) s of
             (Inl e, s') \<Rightarrow> (None, s')
           | (Inr None, s') \<Rightarrow> (Some 0, s')
           | (Inr (Some v), s') \<Rightarrow> (if v = RText [] then Some 0 else wire_int v, s')))"

definition redis_get_last_failure_ts :: "'s redis_ops option \<Rightarrow> breaker \<Rightarrow> 's \<Rightarrow> rat option \<times> 's" where
  "redis_get_last_failure_ts ro b s =
     (case ro of None \<Rightarrow> (None, s)
      | Some r \<Rightarrow>
          (case rd_get r (key_last_failure_ts b) s of
             (Inl e, s') \<Rightarrow> (None, s')
           | (Inr None, s') \<Rightarrow> (Some 0, s')
           | (Inr (Some v), s') \<Rightarrow> (if v = RText [] then Some 0 else wire_float v, s')))"

definition redis_set_state :: "'s redis_ops option \<Rightarrow> breaker \<Rightarrow> circuit_state \<Rightarrow> 's \<Rightarrow> 's" where
  "redis_set_state ro b c s =
     (case ro of None \<Rightarrow> s
      | Some r \<Rightarrow> snd (rd_setex r (key_state b) (cb_ttl b) (RText (cs_value c)) s))"

text \<open>INCR and EXPIRE in one transaction; None when the pipeline raises.\<close>

definition redis_incr_failures :: "'s redis_ops option \<Rightarrow> breaker \<Rightarrow> 's \<Rightarrow> int option \<times> 's" where
  "redis_incr_failures ro b s =
     (case ro of None \<Rightarrow> (None, s)
      | Some r \<Rightarrow>
          (case rd_incr_expire r (key_failures b) (cb_ttl b) s of
             (Inl e, s') \<Rightarrow> (None, s')
           | (Inr n, s') \<Rightarrow> (Some n, s')))"

definition redis_set_last_failure_ts :: "'s redis_ops option \<Rightarrow> breaker \<Rightarrow> rat \<Rightarrow> 's \<Rightarrow> 's" where
  "redis_set_last_failure_ts ro b ts s =
     (case ro of None \<Rightarrow> s
      | Some r \<Rightarrow> snd (rd_setex r (key_last_failure_ts b) (cb_ttl b) (RFloat ts) s))"

definition redis_reset_failures :: "'s redis_ops option \<Rightarrow> breaker \<Rightarrow> 's \<Rightarrow> 's" where
  "redis_reset_failures ro b s =
     (case ro of None \<Rightarrow> s | Some r \<Rightarrow> snd (rd_del r (key_failures b) s))"

section \<open>The public interface\<close>

definition cb_state :: "'s redis_ops option \<Rightarrow> breaker \<Rightarrow> 's \<Rightarrow> circuit_state \<times> 's" where
  "cb_state ro b s =
     (case redis_get_state ro b s of (Some c, s') \<Rightarrow> (c, s') | (None, s') \<Rightarrow> (mem_state b, s'))"

definition set_cb_state ::
    "'s redis_ops option \<Rightarrow> circuit_state \<Rightarrow> breaker \<Rightarrow> 's \<Rightarrow> breaker \<times> 's" where
  "set_cb_state ro c b s = (b\<lparr>mem_state := c\<rparr>, redis_set_state ro b c s)"

definition failure_count :: "'s redis_ops option \<Rightarrow> breaker \<Rightarrow> 's \<Rightarrow> int \<times> 's" where
  "failure_count ro b s =
     (case redis_get_failures ro b s of (Some n, s') \<Rightarrow> (n, s') | (None, s') \<Rightarrow> (mem_failure_count b, s'))"

definition last_failure_time :: "'s redis_ops option \<Rightarrow> breaker \<Rightarrow> 's \<Rightarrow> rat \<times> 's" where
  "last_failure_time ro b s =
     (case redis_get_last_failure_ts ro b s of
        (Some t, s') \<Rightarrow> (t, s') | (None, s') \<Rightarrow> (mem_last_failure_time b, s'))"

definition set_last_failure_time ::
    "'s redis_ops option \<Rightarrow> rat \<Rightarrow> breaker \<Rightarrow> 's \<Rightarrow> breaker \<times> 's" where
  "set_last_failure_time ro t b s =
     (b\<lparr>mem_last_failure_time := t\<rparr>, redis_set_last_failure_ts ro b t s)"

definition can_execute :: "'s redis_ops option \<Rightarrow> rat \<Rightarrow> breaker \<Rightarrow> 's \<Rightarrow> bool \<times> breaker \<times> 's" where
  "can_execute ro now b s =
     (case cb_state ro b s of (current_state, s1) \<Rightarrow>
        if current_state = CLOSED then (True, b, s1)
        else if current_state = OPEN then
          (case last_failure_time ro b s1 of (lft, s2) \<Rightarrow>
             if now - lft \<ge> recovery_timeout b then
               (case set_cb_state ro HALF_OPEN b s2 of (b', s3) \<Rightarrow> (True, b', s3))
             else (False, b, s2))
        else (True, b, s1))"

definition record_success :: "'s redis_ops option \<Rightarrow> breaker \<Rightarrow> 's \<Rightarrow> breaker \<times> 's" where
  "record_success ro b s =
     (case cb_state ro b s of (_, s1) \<Rightarrow>
        (let b1 = b\<lparr>mem_failure_count := 0\<rparr>;
             s2 = redis_reset_failures ro b1 s1
         in set_cb_state ro CLOSED b1 s2))"

definition record_failure :: "'s redis_ops option \<Rightarrow> rat \<Rightarrow> breaker \<Rightarrow> 's \<Rightarrow> breaker \<times> 's" where
  "record_failure ro now b s =
     (case set_last_failure_time ro now b s of (b1, s1) \<Rightarrow>
        (case redis_incr_failures ro b1 s1 of (redis_count, s2) \<Rightarrow>
           (case (case redis_count of
                    Some n \<Rightarrow> (b1, n)
                  | None \<Rightarrow> (b1\<lparr>mem_failure_count := mem_failure_count b1 + 1\<rparr>, mem_failure_count b1 + 1))
            of (b2, new_count) \<Rightarrow>
              if new_count \<ge> failure_threshold b then set_cb_state ro OPEN b2 s2 else (b2, s2))))"

definition is_open :: "'s redis_ops option \<Rightarrow> breaker \<Rightarrow> 's \<Rightarrow> bool \<times> 's" where
  "is_open ro b s = (case cb_state ro b s of (c, s') \<Rightarrow> (c = OPEN, s'))"

section \<open>Unfolding lemmas\<close>

lemmas cb_ops = can_execute_def record_success_def record_failure_def is_open_def
  cb_state_def set_cb_state_def last_failure_time_def set_last_failure_time_def

lemmas cb_redis = redis_get_state_def redis_get_failures_def redis_get_last_failure_ts_def
  redis_set_state_def redis_incr_failures_def redis_set_last_failure_ts_def redis_reset_failures_def

lemma redis_none [simp]:
  "redis_get_state None b s = (None, s)" "redis_get_failures None b s = (None, s)"
  "redis_get_last_failure_ts None b s = (None, s)" "redis_set_state None b c s = s"
  "redis_incr_failures None b s = (None, s)" "redis_set_last_failure_ts None b t s = s"
  "redis_reset_failures None b s = s"
  by (simp_all add: cb_redis)

lemma can_execute_mem [simp]:
  "can_execute None now b s =
     (if mem_state b = OPEN then
        if now - mem_last_failure_time b \<ge> recovery_timeout b then (True, b\<lparr>mem_state := HALF_OPEN\<rparr>, s)
        else (False, b, s)
      else (True, b, s))"
  by (cases "mem_state b") (simp_all add: cb_ops)

lemma record_success_mem [simp]:
  "record_success None b s = (b\<lparr>mem_failure_count := 0, mem_state := CLOSED\<rparr>, s)"
  by (simp add: cb_ops Let_def)

lemma record_failure_mem [simp]:
  "record_failure None now b s =
     (let b' = b\<lparr>mem_last_failure_time := now, mem_failure_count := mem_failure_count b + 1\<rparr>
      in if mem_failure_count b + 1 \<ge> failure_threshold b then (b'\<lparr>mem_state := OPEN\<rparr>, s) else (b', s))"
  by (simp add: cb_ops Let_def)

section \<open>Runs of one breaker\<close>

text \<open>
  A run is a list of calls, each with the clock's value: an admission question and the
  report of a success or a failure.  Its answers are those of the admission questions.
\<close>

datatype cb_event = Ask rat | Good | Bad rat

fun cb_run :: "'s redis_ops option \<Rightarrow> breaker \<Rightarrow> 's \<Rightarrow> cb_event list \<Rightarrow> bool list \<times> breaker \<times> 's" where
  "cb_run ro b s [] = ([], b, s)"
| "cb_run ro b s (Ask t # es) =
     (case can_execute ro t b s of (a, b', s') \<Rightarrow>
        (case cb_run ro b' s' es of (as, r) \<Rightarrow> (a # as, r)))"
| "cb_run ro b s (Good # es) = (case record_success ro b s of (b', s') \<Rightarrow> cb_run ro b' s' es)"
| "cb_run ro b s (Bad t # es) = (case record_failure ro t b s of (b', s') \<Rightarrow> cb_run ro b' s' es)"

lemma down_reads:
  assumes "redis_down r"
  shows "\<exists>s'. redis_get_state (Some r) b s = (None, s')"
    and "\<exists>s'. redis_get_last_failure_ts (Some r) b s = (None, s')"
    and "\<exists>s'. redis_incr_failures (Some r) b s = (None, s')"
  using redis_downD(1) [OF assms, of "key_state b" s]
    redis_downD(1) [OF assms, of "key_last_failure_ts b" s]
    redis_downD(5) [OF assms, of "key_failures b" "cb_ttl b" s]
  by (auto simp: cb_redis)

lemma down_can_execute [fail_open]:
  assumes "redis_down r"
  shows "\<exists>s'. can_execute (Some r) now b s = (fst (can_execute None now b s0), fst (snd (can_execute None now b s0)), s')"
proof -
  obtain s1 where s1: "redis_get_state (Some r) b s = (None, s1)"
    using down_reads(1) [OF assms] by blast
  obtain s2 where s2: "redis_get_last_failure_ts (Some r) b s1 = (None, s2)"
    using down_reads(2) [OF assms] by blast
  show ?thesis
    by (cases "mem_state b")
      (simp_all add: can_execute_def cb_state_def last_failure_time_def set_cb_state_def s1 s2)
qed

lemma down_record_success [fail_open]:
  assumes "redis_down r"
  shows "\<exists>s'. record_success (Some r) b s = (fst (record_success None b s0), s')"
proof -
  obtain s1 where "redis_get_state (Some r) b s = (None, s1)"
    using down_reads(1) [OF assms] by blast
  then show ?thesis
    by (simp add: record_success_def cb_state_def set_cb_state_def Let_def)
qed

lemma down_record_failure [fail_open]:
  assumes "redis_down r"
  shows "\<exists>s'. record_failure (Some r) now b s = (fst (record_failure None now b s0), s')"
proof -
  let ?b1 = "b\<lparr>mem_last_failure_time := now\<rparr>"
  obtain s2 where "redis_incr_failures (Some r) ?b1 (redis_set_last_failure_ts (Some r) b now s) = (None, s2)"
    using down_reads(3) [OF assms] by blast
  then show ?thesis
    by (simp add: record_failure_def set_last_failure_time_def set_cb_state_def Let_def)
qed

text \<open>
  With Redis unreachable the breaker falls back to its in-memory state: on any run of
  calls it gives the same admission answers and ends in the same in-memory breaker as a
  breaker configured without Redis.
\<close>

theorem breaker_fails_open:
  assumes "redis_down r"
  shows "fst (cb_run (Some r) b s es) = fst (cb_run None b s0 es) \<and>
    fst (snd (cb_run (Some r) b s es)) = fst (snd (cb_run None b s0 es))"
proof (induction es arbitrary: b s)
  case Nil
  show ?case by simp
next
  case (Cons e es)
  show ?case
  proof (cases e)
    case (Ask t)
    obtain s' where "can_execute (Some r) t b s =
        (fst (can_execute None t b s0), fst (snd (can_execute None t b s0)), s')"
      using down_can_execute [OF assms, of t b s s0] by (elim exE)
    with Ask Cons.IH show ?thesis by (simp add: case_prod_beta)
  next
    case Good
    obtain s' where "record_success (Some r) b s = (fst (record_success None b s0), s')"
      using down_record_success [OF assms, of b s s0] by (elim exE)
    with Good Cons.IH show ?thesis by simp
  next
    case (Bad t)
    obtain s' where "record_failure (Some r) t b s = (fst (record_failure None t b s0), s')"
      using down_record_failure [OF assms, of t b s s0] by (elim exE)
    with Bad Cons.IH show ?thesis by (simp add: Let_def)
  qed
qed

theorem breaker_fails_open_witness:
  "redis_down dead_redis \<and>
   fst (cb_run (Some dead_redis) (new_breaker ''x'' 2 30) () [Bad 1, Bad 2, Ask 3, Ask 40]) = [False, True]"
  using breaker_fails_open [OF dead_redis_down, of "new_breaker ''x'' 2 30" "()" "[Bad 1, Bad 2, Ask 3, Ask 40]" "()"]
  by (simp add: dead_redis_down new_breaker_def)

section \<open>The in-memory state machine\<close>

fun failures_since_success :: "nat \<Rightarrow> cb_event list \<Rightarrow> nat" where
  "failures_since_success n [] = n"
| "failures_since_success n (Ask t # es) = failures_since_success n es"
| "failures_since_success n (Good # es) = failures_since_success 0 es"
| "failures_since_success n (Bad t # es) = failures_since_success (Suc n) es"

definition cb_inv :: "int \<Rightarrow> nat \<Rightarrow> breaker \<Rightarrow> bool" where
  "cb_inv thr n b \<longleftrightarrow> failure_threshold b = thr \<and> mem_failure_count b = int n \<and>
     (mem_state b = CLOSED \<longleftrightarrow> int n < thr)"

lemma cb_inv_can_execute: "cb_inv thr n b \<Longrightarrow> cb_inv thr n (fst (snd (can_execute None t b s)))"
  by (auto simp: cb_inv_def)

lemma cb_inv_record_success: "0 < thr \<Longrightarrow> cb_inv thr n b \<Longrightarrow> cb_inv thr 0 (fst (record_success None b s))"
  by (auto simp: cb_inv_def)

lemma cb_inv_record_failure: "cb_inv thr n b \<Longrightarrow> cb_inv thr (Suc n) (fst (record_failure None t b s))"
  by (auto simp: cb_inv_def Let_def)

lemma cb_run_inv:
  assumes "0 < thr" and "cb_inv thr n b"
  shows "cb_inv thr (failures_since_success n es) (fst (snd (cb_run None b s es)))"
  using assms(2)
proof (induction n es arbitrary: b s rule: failures_since_success.induct)
  case (1 n)
  then show ?case by simp
next
  case (2 n t es)
  have "cb_inv thr n (fst (snd (can_execute None t b s)))"
    using "2.prems" by (rule cb_inv_can_execute)
  from "2.IH" [OF this] show ?case by (simp add: case_prod_beta del: can_execute_mem)
next
  case (3 n es)
  have "cb_inv thr 0 (fst (record_success None b s))"
    using assms(1) "3.prems" by (rule cb_inv_record_success)
  from "3.IH" [OF this] show ?case by (simp add: case_prod_beta del: record_success_mem)
next
  case (4 n t es)
  have "cb_inv thr (Suc n) (fst (record_failure None t b s))"
    using "4.prems" by (rule cb_inv_record_failure)
  from "4.IH" [OF this] show ?case by (simp add: case_prod_beta del: record_failure_mem)
qed

text \<open>
  In any run of a fresh in-memory breaker with a positive threshold, the failure counter
  is the number of failures reported since the last success, and the breaker is closed
  exactly while that number is below the threshold.
\<close>

theorem breaker_counts_failures:
  assumes "0 < thr" and "b = fst (snd (cb_run None (new_breaker nm thr rec) s es))"
  shows "mem_failure_count b = int (failures_since_success 0 es) \<and>
    (mem_state b = CLOSED \<longleftrightarrow> int (failures_since_success 0 es) < thr)"
proof -
  have "cb_inv thr 0 (new_breaker nm thr rec)"
    using assms(1) by (simp add: cb_inv_def new_breaker_def)
  from cb_run_inv [OF assms(1) this, where es = es and s = s] show ?thesis by (simp add: assms(2) cb_inv_def)
qed

theorem breaker_counts_failures_witness:
  "mem_state (fst (snd (cb_run None (new_breaker ''m'' 3 30) () [Bad 1, Good, Bad 2, Bad 3]))) = CLOSED"
  using breaker_counts_failures [OF _ refl, of 3 "''m''" 30 "()" "[Bad 1, Good, Bad 2, Bad 3]"] by simp

lemma open_rejects_until:
  assumes "mem_state b = OPEN" and "list_all (\<lambda>t. t - mem_last_failure_time b < recovery_timeout b) ts"
  shows "cb_run None b s (map Ask ts) = (map (\<lambda>_. False) ts, b, s)"
  using assms(2) by (induction ts) (auto simp: assms(1))

text \<open>
  An open in-memory breaker rejects every call until the recovery timeout has passed
  since the last failure, stays as it is meanwhile, and admits the first call after it,
  turning half-open.
\<close>

theorem breaker_open_window:
  assumes "mem_state b = OPEN"
    and "list_all (\<lambda>t. t - mem_last_failure_time b < recovery_timeout b) ts"
    and "recovery_timeout b \<le> now - mem_last_failure_time b"
  shows "cb_run None b s (map Ask ts @ [Ask now]) =
    (map (\<lambda>_. False) ts @ [True], b\<lparr>mem_state := HALF_OPEN\<rparr>, s)"
  using assms(2) by (induction ts) (auto simp: assms(1,3))

theorem breaker_open_window_witness:
  "cb_run None (fst (record_failure None 10 (new_breaker ''m'' 1 30) ())) () [Ask 11, Ask 39, Ask 40] =
    ([False, False, True], (new_breaker ''m'' 1 30)\<lparr>mem_state := HALF_OPEN, mem_failure_count := 1,
      mem_last_failure_time := 10\<rparr>, ())"
proof -
  let ?b = "fst (record_failure None 10 (new_breaker ''m'' 1 30) ())"
  have h: "mem_state ?b = OPEN"
    "list_all (\<lambda>t. t - mem_last_failure_time ?b < recovery_timeout ?b) [11, 39]"
    "recovery_timeout ?b \<le> 40 - mem_last_failure_time ?b"
    by (simp_all add: new_breaker_def)
  show ?thesis using breaker_open_window [OF h, of "()"] by (simp add: new_breaker_def)
qed

text \<open>
  A half-open breaker admits every call, not one: any number of attempts pass until one
  of them is reported.
\<close>

theorem half_open_admits_all:
  assumes "mem_state b = HALF_OPEN"
  shows "cb_run None b s (map Ask ts) = (map (\<lambda>_. True) ts, b, s)"
  by (induction ts) (simp_all add: assms)

theorem half_open_admits_all_witness:
  "cb_run None ((new_breaker ''m'' 1 30)\<lparr>mem_state := HALF_OPEN\<rparr>) () [Ask 1, Ask 1, Ask 2] =
    ([True, True, True], (new_breaker ''m'' 1 30)\<lparr>mem_state := HALF_OPEN\<rparr>, ())"
  using half_open_admits_all [of "(new_breaker ''m'' 1 30)\<lparr>mem_state := HALF_OPEN\<rparr>" "()" "[1, 1, 2]"] by simp

section \<open>Replicas sharing one breaker through Redis\<close>

text \<open>Failures reported by replicas, each with its own in-memory breaker, to one service.\<close>

fun shared_failures :: "'s redis_ops \<Rightarrow> (breaker \<times> rat) list \<Rightarrow> 's \<Rightarrow> 's" where
  "shared_failures r [] s = s"
| "shared_failures r ((b, t) # calls) s = shared_failures r calls (snd (record_failure (Some r) t b s))"

lemma keys_differ [simp]:
  "key_state b \<noteq> key_failures c" "key_state b \<noteq> key_last_failure_ts c"
  "key_failures b \<noteq> key_last_failure_ts c" "key_failures c \<noteq> key_state b"
  "key_last_failure_ts c \<noteq> key_state b" "key_last_failure_ts c \<noteq> key_failures b"
proof -
  have l: "last (key_state b) = CHR ''e''" "last (key_failures b) = CHR ''s''"
    "last (key_last_failure_ts b) = CHR ''s''" for b
    by (simp_all add: key_state_def key_failures_def key_last_failure_ts_def)
  have bl: "last (butlast (key_failures b)) = CHR ''e''"
    "last (butlast (key_last_failure_ts b)) = CHR ''t''" for b
    by (simp_all add: key_failures_def key_last_failure_ts_def butlast_append)
  show "key_state b \<noteq> key_failures c" "key_failures c \<noteq> key_state b"
    "key_state b \<noteq> key_last_failure_ts c" "key_last_failure_ts c \<noteq> key_state b"
    using l(1) [of b] l(2) [of c] l(3) [of c] by auto
  show "key_failures b \<noteq> key_last_failure_ts c" "key_last_failure_ts c \<noteq> key_failures b"
    using bl(1) [of b] bl(2) [of c] by auto
qed

lemma key_upd [simp]: "key_failures (b\<lparr>mem_last_failure_time := t\<rparr>) = key_failures b"
  "key_state (b\<lparr>mem_last_failure_time := t\<rparr>) = key_state b"
  "key_state (b\<lparr>mem_failure_count := n\<rparr>) = key_state b"
  by (simp_all add: key_failures_def key_state_def)

lemma up_is_open:
  assumes "redis_laws r look"
  shows "fst (is_open (Some r) b s) =
    (case look s (key_state b) of None \<Rightarrow> False
     | Some v \<Rightarrow> (case cs_of_value v of Some c \<Rightarrow> c = OPEN | None \<Rightarrow> mem_state b = OPEN))"
  by (auto simp: redis_get_law [OF assms] is_open_def cb_state_def redis_get_state_def split: option.splits)

lemma up_record_failure:
  assumes L: "redis_laws r look"
    and c: "case look s (key_failures b) of None \<Rightarrow> c = 0 | Some v \<Rightarrow> wire_int v = Some c"
    and s'_def: "s' = snd (record_failure (Some r) t b s)"
  shows "look s' (key_failures b) = Some (RInt (c + 1))"
    and "look s' (key_state b) =
      (if c + 1 \<ge> failure_threshold b then Some (RText ''open'') else look s (key_state b))"
proof -
  let ?s1 = "snd (rd_setex r (key_last_failure_ts b) (cb_ttl b) (RFloat t) s)"
  have s1: "look ?s1 = (look s)(key_last_failure_ts b \<mapsto> RFloat t)"
    by (simp add: redis_setex_law [OF L])
  let ?i = "rd_incr_expire r (key_failures b) (cb_ttl b) ?s1"
  have "case look ?s1 (key_failures b) of None \<Rightarrow> c = 0 | Some v \<Rightarrow> wire_int v = Some c"
    using c by (simp add: s1)
  then have i: "fst ?i = Inr (c + 1)" "look (snd ?i) = (look ?s1)(key_failures b \<mapsto> RInt (c + 1))"
    by (rule redis_incr_expire_law [OF L])+
  obtain s2 where s2: "?i = (Inr (c + 1), s2)" and look2: "look s2 = (look ?s1)(key_failures b \<mapsto> RInt (c + 1))"
    using i by (metis prod.collapse)
  have s': "s' = (if c + 1 \<ge> failure_threshold b
      then snd (rd_setex r (key_state b) (cb_ttl b) (RText ''open'') s2) else s2)"
    by (simp add: s'_def record_failure_def set_last_failure_time_def redis_set_last_failure_ts_def
        redis_incr_failures_def set_cb_state_def redis_set_state_def cs_value_def s2)
  have look3: "look (snd (rd_setex r (key_state b) (cb_ttl b) (RText ''open'') s2)) =
      (look s2)(key_state b \<mapsto> RText ''open'')"
    by (simp add: redis_setex_law [OF L])
  show "look s' (key_failures b) = Some (RInt (c + 1))"
    by (simp add: s' look3 look2)
  show "look s' (key_state b) =
      (if c + 1 \<ge> failure_threshold b then Some (RText ''open'') else look s (key_state b))"
    by (simp add: s' look3 look2 s1)
qed

text \<open>
  \<open>shared_view\<close>: the service holds \<open>c\<close> failures of the breaker named like \<open>b'\<close>, and its
  state key says open exactly when \<open>c\<close> has reached the threshold.
\<close>

definition shared_view :: "('s \<Rightarrow> string \<Rightarrow> rval option) \<Rightarrow> int \<Rightarrow> breaker \<Rightarrow> int \<Rightarrow> 's \<Rightarrow> bool" where
  "shared_view look thr b' c s \<longleftrightarrow>
     (case look s (key_failures b') of None \<Rightarrow> c = 0 | Some v \<Rightarrow> wire_int v = Some c) \<and>
     look s (key_state b') = (if c \<ge> thr then Some (RText ''open'') else None)"

lemma shared_view_record_failure:
  assumes L: "redis_laws r look" and "shared_view look thr b' c s"
    and "cb_name b = cb_name b'" "failure_threshold b = thr"
  shows "shared_view look thr b' (c + 1) (snd (record_failure (Some r) t b s))"
proof -
  have keys: "key_failures b = key_failures b'" "key_state b = key_state b'"
    using assms(3) by (simp_all add: key_failures_def key_state_def)
  have "case look s (key_failures b) of None \<Rightarrow> c = 0 | Some v \<Rightarrow> wire_int v = Some c"
    using assms(2) by (simp add: keys shared_view_def)
  from up_record_failure [OF L this refl, of t] assms(2,4) show ?thesis
    by (auto simp: keys shared_view_def wire_int_def)
qed

lemma shared_view_failures:
  assumes L: "redis_laws r look" and "shared_view look thr b' c s"
    and "list_all (\<lambda>(b, t). cb_name b = cb_name b' \<and> failure_threshold b = thr) calls"
  shows "shared_view look thr b' (c + int (length calls)) (shared_failures r calls s)"
  using assms(2,3)
proof (induction calls arbitrary: s c)
  case Nil
  then show ?case by simp
next
  case (Cons p calls)
  obtain b t where p: "p = (b, t)" by (cases p)
  have "shared_view look thr b' (c + 1) (snd (record_failure (Some r) t b s))"
    using Cons.prems by (intro shared_view_record_failure [OF L]) (simp_all add: p)
  with Cons.IH [of "c + 1"] Cons.prems(2) show ?case by (simp add: p add_ac)
qed

text \<open>
  Replicas share one breaker through Redis.  With the service up and no earlier failure,
  failures reported by any replicas of the same breaker add up, whatever each replica has in
  memory: another replica sees the breaker open exactly when their number has reached the
  threshold.
\<close>

theorem breaker_shared_across_replicas:
  assumes "redis_laws r look" and "0 < thr"
    and "look s (key_failures b') = None" and "look s (key_state b') = None"
    and "list_all (\<lambda>(b, t). cb_name b = cb_name b' \<and> failure_threshold b = thr) calls"
  shows "fst (is_open (Some r) b' (shared_failures r calls s)) \<longleftrightarrow> thr \<le> int (length calls)"
proof -
  have "shared_view look thr b' 0 s"
    using assms(2-4) by (simp add: shared_view_def)
  from shared_view_failures [OF assms(1) this assms(5)] show ?thesis
    by (auto simp: up_is_open [OF assms(1)] shared_view_def cs_of_value_def)
qed

theorem breaker_shared_across_replicas_witness:
  "fst (is_open (Some map_redis) (new_breaker ''m'' 2 30)
     (shared_failures map_redis
        [(new_breaker ''m'' 2 30, 1), ((new_breaker ''m'' 2 30)\<lparr>mem_failure_count := 7\<rparr>, 2)] Map.empty))"
proof -
  let ?b = "new_breaker ''m'' 2 30"
  let ?calls = "[(?b, 1), (?b\<lparr>mem_failure_count := 7\<rparr>, 2)]"
  have "list_all (\<lambda>(b, t). cb_name b = cb_name ?b \<and> failure_threshold b = 2) ?calls"
    by (simp add: new_breaker_def)
  from breaker_shared_across_replicas [OF map_redis_laws _ _ _ this, of Map.empty] show ?thesis
    by simp
qed

section \<open>The breaker is a call gate\<close>

definition mem_allow :: "rat \<Rightarrow> breaker \<Rightarrow> bool \<times> breaker" where
  "mem_allow now b = (case can_execute None now b () of (a, b', _) \<Rightarrow> (a, b'))"

definition mem_good :: "breaker \<Rightarrow> breaker" where
  "mem_good b = fst (record_success None b ())"

definition mem_bad :: "rat \<Rightarrow> breaker \<Rightarrow> breaker" where
  "mem_bad now b = fst (record_failure None now b ())"

definition healthy_breaker :: "breaker \<Rightarrow> bool" where
  "healthy_breaker b \<longleftrightarrow> 0 < failure_threshold b \<and> 0 \<le> mem_failure_count b \<and>
     (mem_state b = CLOSED \<longleftrightarrow> mem_failure_count b < failure_threshold b)"

interpretation gate: call_gate mem_allow mem_good mem_bad healthy_breaker
  "\<lambda>b. nat (mem_failure_count b)" "\<lambda>b. nat (failure_threshold b)" recovery_timeout
  by unfold_locales (auto simp: mem_allow_def mem_good_def mem_bad_def healthy_breaker_def Let_def)

lemma new_breaker_healthy: "0 < thr \<Longrightarrow> healthy_breaker (new_breaker nm thr rec)"
  by (simp add: healthy_breaker_def new_breaker_def)

end
