(* ===== verification/Capability.thy ===== *)
theory Capability
  imports Prelude "HOL-Library.List_Lexorder" "HOL-Library.Char_ord"
begin

text \<open>
  What an agent is and may do: the configuration schema with its validator
  (src/src/core/agent_config.py), the write gate (src/src/core/capability_gate.py) and the
  registry that discovers the agents of a directory (src/src/core/registry.py).  The parsed
  content of the directory and the process environment are arguments.
\<close>

section \<open>Configuration\<close>

definition MAX_TOOL_STEPS :: nat where "MAX_TOOL_STEPS = 8"
definition MAX_LOOP_DURATION_MS :: int where "MAX_LOOP_DURATION_MS = 120000"
definition MAX_LOOP_TOKENS :: int where "MAX_LOOP_TOKENS = 300000"
definition MAX_TOOL_RESULT_CHARS :: nat where "MAX_TOOL_RESULT_CHARS = 40000"

definition CONTEXT_KEEP_LAST_N :: "int \<Rightarrow> nat" where
  "CONTEXT_KEEP_LAST_N configured = nat (max configured 1)"

definition CONTEXT_TRIM_ENABLED :: "string \<Rightarrow> bool" where
  "CONTEXT_TRIM_ENABLED configured \<longleftrightarrow> py_lower configured \<in> {''true'', ''1'', ''yes''}"

record hitl_config =
  hc_channel :: string
  hc_timeout_seconds :: int
  hc_approvers :: "string list"

datatype mcp_transport = Sse | Streamable_Http

record datasource_config =
  dc_type :: string
  dc_name :: string
  dc_services :: "string list"
  dc_resources :: "string list"
  dc_url :: string
  dc_headers :: "(string \<times> string) list"
  dc_database :: string
  dc_table :: string
  dc_workgroup :: string
  dc_tools :: "string list"
  dc_tool_arguments :: "(string \<times> string) list"
  dc_inject_query_as :: string
  dc_transport :: mcp_transport

record delegate_config =
  dg_agent :: string
  dg_when :: string

record agent_config =
  ac_name :: string
  ac_description :: string
  ac_domain :: string
  ac_capabilities :: "string list"
  ac_datasources :: "datasource_config list"
  ac_skills :: "string list"
  ac_routing_keywords :: "string list"
  ac_cache_ttl :: int
  ac_cache_namespace :: string
  ac_model_tier :: string
  ac_temperature :: rat
  ac_read_only :: bool
  ac_evidence_types :: "string list"
  ac_delegates_to :: "delegate_config list"
  ac_required_env :: "string list"
  ac_enabled :: bool
  ac_port :: int
  ac_capability_tier :: int
  ac_write_scope :: "string list"
  ac_hitl :: "hitl_config option"

text \<open>
  Validation of a parsed configuration: the bounds of the tier field, then
  \<open>_validate_capability_tier\<close>.
\<close>

definition validate_config :: "agent_config \<Rightarrow> exn + agent_config" where
  "validate_config c =
     (if ac_capability_tier c < 0 \<or> ac_capability_tier c > 3 then Inl ''ValidationError''
      else if ac_capability_tier c = 0 \<and> \<not> ac_read_only c then Inl ''capability_tier=0 requires read_only=True''
      else if ac_capability_tier c = 0 \<and> ac_write_scope c \<noteq> [] then
        Inl ''capability_tier=0 requires write_scope to be empty''
      else if ac_read_only c \<and> ac_capability_tier c \<noteq> 0 then
        Inl ''read_only=True is only valid with capability_tier=0''
      else if ac_capability_tier c = 3 \<and> ac_hitl c = None then Inl ''capability_tier=3 requires hitl configuration''
      else if ac_capability_tier c > 0 \<and> ac_write_scope c = [] then
        Inl (''capability_tier='' @ show_int (ac_capability_tier c) @ '' requires non-empty write_scope'')
      else Inr c)"

section \<open>The gate\<close>

definition WRITE_ACTION_TYPES :: "string list" where
  "WRITE_ACTION_TYPES =
     [''write'', ''create'', ''update'', ''delete'', ''mutate'', ''apply'', ''patch'', ''exec'']"

datatype gate_error = CapabilityDenied (denied_agent: string) (denied_tool: string) (denied_action: string) (denied_tier: int)

text \<open>\<open>configs\<close> is the dict of the agents' configurations.\<close>

definition authorize ::
    "(string \<Rightarrow> agent_config option) \<Rightarrow> string option \<Rightarrow> string \<Rightarrow> string \<Rightarrow> gate_error + unit" where
  "authorize configs agent_id tool_name action_type =
     (if action_type \<notin> set WRITE_ACTION_TYPES then Inr ()
      else (let resolved_id = (case agent_id of Some (c # a) \<Rightarrow> c # a | _ \<Rightarrow> ''__unknown__'');
                tier = (case agent_id of
                          Some (c # a) \<Rightarrow> (case configs (c # a) of Some cfg \<Rightarrow> ac_capability_tier cfg | None \<Rightarrow> 0)
                        | _ \<Rightarrow> 0)
            in if tier = 0 then Inl (CapabilityDenied resolved_id tool_name action_type tier) else Inr ()))"

section \<open>The registry\<close>

text \<open>
  The constructor of a configuration: pydantic reads the fields (a parameter), then the declared bounds
  and the validator apply.
\<close>

definition agent_config_of :: "('j \<Rightarrow> exn + agent_config) \<Rightarrow> 'j \<Rightarrow> exn + agent_config" where
  "agent_config_of read_fields data = (case read_fields data of Inl e \<Rightarrow> Inl e | Inr c \<Rightarrow> validate_config c)"

text \<open>
  An entry of the agents directory: its name, whether it is a directory, what parsing and
  validating its \<open>agent.yaml\<close> gives (None when there is no such file), and its prompt.
\<close>

record dir_entry =
  de_name :: string
  de_is_dir :: bool
  de_config :: "(exn + agent_config) option"
  de_prompt :: "string option"

text \<open>
  A directory on disk, with the document its configuration file loads as (if it has the file), and the
  entry that parsing makes of it.
\<close>

record 'j agent_dir =
  ad_name :: string
  ad_is_dir :: bool
  ad_document :: "(exn + 'j) option"
  ad_prompt :: "string option"

definition entry_of :: "('j \<Rightarrow> exn + agent_config) \<Rightarrow> 'j agent_dir \<Rightarrow> dir_entry" where
  "entry_of parse d =
     \<lparr>de_name = ad_name d, de_is_dir = ad_is_dir d,
      de_config = (case ad_document d of None \<Rightarrow> None | Some (Inl e) \<Rightarrow> Some (Inl e) | Some (Inr data) \<Rightarrow> Some (parse data)),
      de_prompt = ad_prompt d\<rparr>"

record registry =
  rg_agents :: "(string \<times> agent_config) list"
  rg_prompts :: "(string \<times> string) list"

definition empty_registry :: registry where
  "empty_registry = \<lparr>rg_agents = [], rg_prompts = []\<rparr>"

definition env_set :: "(string \<Rightarrow> string option) \<Rightarrow> string \<Rightarrow> bool" where
  "env_set getenv v \<longleftrightarrow> (case getenv v of Some (_ # _) \<Rightarrow> True | _ \<Rightarrow> False)"

definition default_prompt :: "agent_config \<Rightarrow> string" where
  "default_prompt c = ''You are '' @ ac_name c @ ''. '' @ ac_description c"

definition register_agent :: "dir_entry \<Rightarrow> agent_config \<Rightarrow> registry \<Rightarrow> registry" where
  "register_agent e c rg =
     (let prompt = (case de_prompt e of Some t \<Rightarrow> t | None \<Rightarrow> default_prompt c);
          c' = (if ac_cache_namespace c = [] then c\<lparr>ac_cache_namespace := ac_name c\<rparr> else c)
      in rg\<lparr>rg_agents := dict_set (rg_agents rg) (ac_name c') c', rg_prompts := dict_set (rg_prompts rg) (ac_name c') prompt\<rparr>)"

fun discover_entries ::
    "(string \<Rightarrow> string option) \<Rightarrow> dir_entry list \<Rightarrow> registry \<Rightarrow> (exn \<times> registry) + registry" where
  "discover_entries getenv [] rg = Inr rg"
| "discover_entries getenv (e # es) rg =
     (if \<not> de_is_dir e then discover_entries getenv es rg
      else (case de_config e of
              None \<Rightarrow> discover_entries getenv es rg
            | Some (Inl x) \<Rightarrow> Inl (x, rg)
            | Some (Inr c) \<Rightarrow>
                if \<not> ac_enabled c then discover_entries getenv es rg
                else (case filter (\<lambda>v. \<not> env_set getenv v) (ac_required_env c) of
                        v # _ \<Rightarrow> Inl (''Agent '' @ ac_name c @ '' requires env var '' @ v @ '' but it is not set'', rg)
                      | [] \<Rightarrow> discover_entries getenv es (register_agent e c rg))))"

text \<open>\<open>None\<close> is a missing directory.\<close>

definition discover ::
    "(string \<Rightarrow> string option) \<Rightarrow> dir_entry list option \<Rightarrow> registry \<Rightarrow> (exn \<times> registry) + registry" where
  "discover getenv dir rg =
     (case dir of
        None \<Rightarrow> Inl (''AGENTS_DIR not found'', rg)
      | Some entries \<Rightarrow> discover_entries getenv (sort_key de_name entries) rg)"

definition registry_get :: "registry \<Rightarrow> string \<Rightarrow> agent_config option" where
  "registry_get rg name = dict_get (rg_agents rg) name"

definition get_prompt :: "registry \<Rightarrow> string \<Rightarrow> string" where
  "get_prompt rg name = (case dict_get (rg_prompts rg) name of Some p \<Rightarrow> p | None \<Rightarrow> [])"

definition list_configs :: "registry \<Rightarrow> agent_config list" where
  "list_configs rg = map snd (rg_agents rg)"

definition registered_names :: "registry \<Rightarrow> string list" where
  "registered_names rg = map fst (rg_agents rg)"

section \<open>The directory interface\<close>

text \<open>
  What the gate and the routing rely on: a directory answers for an agent only with a valid
  configuration of that name.
\<close>

definition valid_config :: "agent_config \<Rightarrow> bool" where
  "valid_config c \<longleftrightarrow> validate_config c = Inr c"

lemma valid_config_iff:
  "valid_config c \<longleftrightarrow>
     0 \<le> ac_capability_tier c \<and> ac_capability_tier c \<le> 3 \<and>
     (ac_read_only c \<longleftrightarrow> ac_capability_tier c = 0) \<and>
     (ac_write_scope c = [] \<longleftrightarrow> ac_capability_tier c = 0) \<and>
     (ac_capability_tier c = 3 \<longrightarrow> ac_hitl c \<noteq> None)"
  by (auto simp: valid_config_def validate_config_def)

locale agent_directory =
  fixes get :: "'d \<Rightarrow> string \<Rightarrow> agent_config option"
    and sound :: "'d \<Rightarrow> bool"
  assumes get_valid: "sound d \<Longrightarrow> get d a = Some c \<Longrightarrow> valid_config c"
    and get_name: "sound d \<Longrightarrow> get d a = Some c \<Longrightarrow> ac_name c = a"
begin

lemma authorized_write:
  assumes "sound d" "action \<in> set WRITE_ACTION_TYPES" "authorize (get d) agent tool action = Inr ()"
  shows "\<exists>a c. agent = Some a \<and> get d a = Some c \<and> ac_name c = a \<and> \<not> ac_read_only c \<and> ac_write_scope c \<noteq> [] \<and>
    (ac_capability_tier c = 3 \<longrightarrow> ac_hitl c \<noteq> None)"
proof -
  from assms(2,3) obtain c0 a0 cfg where a: "agent = Some (c0 # a0)" "get d (c0 # a0) = Some cfg" "ac_capability_tier cfg \<noteq> 0"
    by (auto simp: authorize_def Let_def split: if_splits option.splits list.splits)
  with get_valid [OF assms(1) a(2)] get_name [OF assms(1) a(2)] show ?thesis
    by (auto simp: valid_config_iff)
qed

lemma read_only_denied:
  assumes "sound d" "action \<in> set WRITE_ACTION_TYPES" "get d a = Some c" "ac_read_only c" "a \<noteq> []"
  shows "authorize (get d) (Some a) tool action = Inl (CapabilityDenied a tool action 0)"
  using get_valid [OF assms(1,3)] assms(2-) by (cases a) (auto simp: authorize_def valid_config_iff)

end

section \<open>The registry provides the interface\<close>

definition registry_ok :: "registry \<Rightarrow> bool" where
  "registry_ok rg \<longleftrightarrow>
     (\<forall>(n, c) \<in> set (rg_agents rg). valid_config c \<and> ac_name c = n \<and> ac_enabled c \<and> (n = [] \<or> ac_cache_namespace c \<noteq> [])) \<and>
     map fst (rg_prompts rg) = map fst (rg_agents rg) \<and> distinct (map fst (rg_agents rg))"

lemma dict_set_elem: "p \<in> set (dict_set d k v) \<Longrightarrow> p = (k, v) \<or> p \<in> set d"
  by (induction d k v rule: dict_set.induct) (auto split: if_splits)

lemma dict_set_keys:
  "map fst d = map fst d' \<Longrightarrow> map fst (dict_set d k v) = map fst (dict_set d' k v')"
proof (induction d arbitrary: d')
  case Nil
  then show ?case by simp
next
  case (Cons p d)
  then obtain q d'' where "d' = q # d''" by (cases d') auto
  with Cons show ?case by (cases p; cases q) auto
qed

lemma dict_set_distinct: "distinct (map fst d) \<Longrightarrow> distinct (map fst (dict_set d k v))"
proof (induction d k v rule: dict_set.induct)
  case (2 k' v' d k v)
  have "fst ` set (dict_set d k v) \<subseteq> insert k (fst ` set d)" by (force dest: dict_set_elem)
  with 2 show ?case by auto
qed simp

lemma valid_config_namespace [simp]: "valid_config (c\<lparr>ac_cache_namespace := n\<rparr>) = valid_config c"
  by (simp add: valid_config_iff)

lemma register_agent_ok:
  assumes "registry_ok rg" "valid_config c" "ac_enabled c"
  shows "registry_ok (register_agent e c rg)"
proof -
  let ?c = "if ac_cache_namespace c = [] then c\<lparr>ac_cache_namespace := ac_name c\<rparr> else c"
  have "valid_config ?c" "ac_name ?c = ac_name c" "ac_enabled ?c" "ac_name c = [] \<or> ac_cache_namespace ?c \<noteq> []"
    using assms by auto
  with assms(1) show ?thesis
    by (auto simp: registry_ok_def register_agent_def Let_def dict_set_distinct
        dest!: dict_set_elem intro: dict_set_keys)
qed

text \<open>An entry of the directory that parses holds a validated configuration.\<close>

definition entries_validated :: "dir_entry list \<Rightarrow> bool" where
  "entries_validated es \<longleftrightarrow> (\<forall>e \<in> set es. \<forall>c. de_config e = Some (Inr c) \<longrightarrow> valid_config c)"

lemma validate_config_Inr: "validate_config c = Inr c' \<Longrightarrow> valid_config c'"
  by (auto simp: valid_config_def validate_config_def split: if_splits)

lemma parsed_entries_validated: "entries_validated (map (entry_of (agent_config_of read_fields)) dirs)"
  by (auto simp: entries_validated_def entry_of_def agent_config_of_def split: option.splits sum.splits dest: validate_config_Inr)

lemma discover_entries_ok:
  "registry_ok rg \<Longrightarrow> entries_validated es \<Longrightarrow> discover_entries getenv es rg = Inr rg' \<Longrightarrow> registry_ok rg'"
proof (induction es arbitrary: rg)
  case (Cons e es)
  then have es: "entries_validated es" by (simp add: entries_validated_def)
  show ?case
  proof (cases "de_is_dir e \<and> (\<exists>c. de_config e = Some (Inr c) \<and> ac_enabled c)")
    case True
    then obtain c where c: "de_is_dir e" "de_config e = Some (Inr c)" "ac_enabled c" by blast
    with Cons.prems(2) have "valid_config c" by (simp add: entries_validated_def)
    then have "registry_ok (register_agent e c rg)" using register_agent_ok Cons.prems(1) c by blast
    with Cons.IH [OF _ es] Cons.prems(3) c show ?thesis by (auto split: list.splits)
  next
    case False
    with Cons.prems(3) have "discover_entries getenv es rg = Inr rg'"
      by (auto split: option.splits sum.splits if_splits)
    with Cons.IH [OF Cons.prems(1) es] show ?thesis .
  qed
qed simp

lemma registry_get_sound:
  "registry_ok rg \<Longrightarrow> registry_get rg a = Some c \<Longrightarrow> valid_config c \<and> ac_name c = a"
  by (auto simp: registry_get_def dict_get_map_of registry_ok_def dest!: map_of_SomeD)

interpretation reg: agent_directory registry_get registry_ok
  using registry_get_sound by unfold_locales blast+

lemma register_agent_set:
  "p \<in> set (rg_agents (register_agent e c rg)) \<Longrightarrow>
   p \<in> set (rg_agents rg) \<or> ac_required_env (snd p) = ac_required_env c"
  by (auto simp: register_agent_def Let_def dest!: dict_set_elem)

definition env_complete :: "(string \<Rightarrow> string option) \<Rightarrow> registry \<Rightarrow> bool" where
  "env_complete getenv rg \<longleftrightarrow> (\<forall>p \<in> set (rg_agents rg). \<forall>v \<in> set (ac_required_env (snd p)). env_set getenv v)"

lemma discover_entries_env:
  "env_complete getenv rg \<Longrightarrow> discover_entries getenv es rg = Inr rg' \<Longrightarrow> env_complete getenv rg'"
proof (induction es arbitrary: rg)
  case (Cons e es)
  show ?case
  proof (cases "de_is_dir e \<and> (\<exists>c. de_config e = Some (Inr c) \<and> ac_enabled c)")
    case True
    then obtain c where c: "de_is_dir e" "de_config e = Some (Inr c)" "ac_enabled c" by blast
    with Cons.prems(2) have none: "filter (\<lambda>v. \<not> env_set getenv v) (ac_required_env c) = []"
      and rest: "discover_entries getenv es (register_agent e c rg) = Inr rg'"
      by (auto split: list.splits)
    have "env_complete getenv (register_agent e c rg)"
      using Cons.prems(1) none by (fastforce simp: env_complete_def filter_empty_conv dest: register_agent_set)
    from Cons.IH [OF this rest] show ?thesis .
  next
    case False
    with Cons.prems(2) have "discover_entries getenv es rg = Inr rg'"
      by (auto split: option.splits sum.splits if_splits)
    with Cons.IH [OF Cons.prems(1)] show ?thesis .
  qed
qed simp

lemma discover_ok:
  assumes "discover getenv (Some es) empty_registry = Inr rg" "entries_validated es"
  shows "registry_ok rg"
proof -
  have "registry_ok empty_registry" by (simp add: registry_ok_def empty_registry_def)
  moreover have "entries_validated (sort_key de_name es)" using assms(2) by (simp add: entries_validated_def)
  ultimately show ?thesis
    using discover_entries_ok [of empty_registry "sort_key de_name es" getenv rg] assms(1) by (simp add: discover_def)
qed

section \<open>Properties\<close>

text \<open>
  Discovery registers only sound agents: each is under its own name, enabled, valid, with a
  cache namespace, a prompt and every environment variable it requires, and no name is
  registered twice.
\<close>

theorem discovery_registers_sound_agents:
  assumes "discover getenv (Some es) empty_registry = Inr rg" "entries_validated es" "registry_get rg a = Some c" "a \<noteq> []"
  shows "ac_name c = a \<and> ac_enabled c \<and> valid_config c \<and> ac_cache_namespace c \<noteq> [] \<and>
    (\<forall>v \<in> set (ac_required_env c). env_set getenv v) \<and>
    a \<in> fst ` set (rg_prompts rg) \<and> distinct (registered_names rg)"
proof -
  have ok: "registry_ok rg" by (rule discover_ok [OF assms(1,2)])
  have p: "(a, c) \<in> set (rg_agents rg)"
    using assms(3) by (auto simp: registry_get_def dict_get_map_of dest: map_of_SomeD)
  have "env_complete getenv empty_registry" by (simp add: env_complete_def empty_registry_def)
  then have "env_complete getenv rg"
    using discover_entries_env [of getenv empty_registry "sort_key de_name es" rg] assms(1) by (simp add: discover_def)
  with p have "\<forall>v \<in> set (ac_required_env c). env_set getenv v" by (fastforce simp: env_complete_def)
  moreover have "a \<in> fst ` set (rg_prompts rg)"
  proof -
    have "a \<in> set (map fst (rg_agents rg))" using p by force
    then have "a \<in> set (map fst (rg_prompts rg))" using ok by (simp add: registry_ok_def)
    then show ?thesis by simp
  qed
  ultimately show ?thesis using ok p assms(4) by (auto simp: registry_ok_def registered_names_def)
qed

definition demo_config :: agent_config where
  "demo_config =
     \<lparr>ac_name = ''k8s'', ac_description = ''cluster'', ac_domain = ''infra'', ac_capabilities = [], ac_datasources = [],
      ac_skills = [], ac_routing_keywords = [], ac_cache_ttl = 300, ac_cache_namespace = [], ac_model_tier = ''standard'',
      ac_temperature = 1 / 10, ac_read_only = True, ac_evidence_types = [], ac_delegates_to = [],
      ac_required_env = [''KUBECONFIG''], ac_enabled = True, ac_port = 8001, ac_capability_tier = 0,
      ac_write_scope = [], ac_hitl = None\<rparr>"

definition demo_dir :: "dir_entry list" where
  "demo_dir =
     [\<lparr>de_name = ''k8s'', de_is_dir = True, de_config = Some (Inr demo_config), de_prompt = None\<rparr>,
      \<lparr>de_name = ''fixer'', de_is_dir = True,
       de_config = Some (Inr (demo_config\<lparr>ac_name := ''fixer'', ac_read_only := False, ac_capability_tier := 1,
         ac_write_scope := [''restart'']\<rparr>)), de_prompt = None\<rparr>]"

lemma demo_dir_discovered:
  "\<exists>rg. discover (\<lambda>v. Some ''x'') (Some demo_dir) empty_registry = Inr rg \<and> entries_validated demo_dir \<and>
     registry_get rg ''k8s'' = Some (demo_config\<lparr>ac_cache_namespace := ''k8s''\<rparr>) \<and>
     registry_get rg ''fixer'' = Some (demo_config\<lparr>ac_name := ''fixer'', ac_read_only := False, ac_capability_tier := 1,
         ac_write_scope := [''restart''], ac_cache_namespace := ''fixer''\<rparr>)"
  by (simp add: discover_def demo_dir_def demo_config_def env_set_def register_agent_def registry_get_def
      entries_validated_def valid_config_iff empty_registry_def Let_def default_prompt_def)

theorem discovery_registers_sound_agents_witness:
  "\<exists>rg c. registry_get rg ''k8s'' = Some c \<and> ac_cache_namespace c \<noteq> [] \<and> ''k8s'' \<in> fst ` set (rg_prompts rg)"
proof -
  obtain rg c where d: "discover (\<lambda>v. Some ''x'') (Some demo_dir) empty_registry = Inr rg" "entries_validated demo_dir"
    "registry_get rg ''k8s'' = Some c" using demo_dir_discovered by blast
  from discovery_registers_sound_agents [OF d] d(3) show ?thesis by auto
qed

text \<open>
  C37: an agent of a discovered registry writes only if its configuration declares it.  Whatever the
  configuration files say, of the agents registered from them a write passes the gate exactly when its
  agent is registered with a tier from 1 to 3, and such an agent is not read-only, has a write scope, and
  at tier 3 a human in the loop; a request with no or an unknown agent never writes, and every action that
  is not a write passes.
\<close>

theorem gate_admits_only_declared_writers:
  assumes "discover getenv (Some (map (entry_of (agent_config_of read_fields)) dirs)) empty_registry = Inr rg"
  shows "authorize (registry_get rg) agent tool action = Inr () \<longleftrightarrow>
    action \<notin> set WRITE_ACTION_TYPES \<or>
    (\<exists>a c. agent = Some a \<and> a \<noteq> [] \<and> registry_get rg a = Some c \<and> ac_name c = a \<and> ac_capability_tier c \<in> {1..3} \<and>
       \<not> ac_read_only c \<and> ac_write_scope c \<noteq> [] \<and> (ac_capability_tier c = 3 \<longrightarrow> ac_hitl c \<noteq> None))"
    (is "?L \<longleftrightarrow> ?R")
proof -
  have ok: "registry_ok rg" by (rule discover_ok [OF assms parsed_entries_validated])
  show ?thesis
  proof
    assume L: ?L
    show ?R
    proof (cases "action \<in> set WRITE_ACTION_TYPES")
      case True
      from reg.authorized_write [OF ok True L] obtain a c where
        a: "agent = Some a" "registry_get rg a = Some c" "\<not> ac_read_only c" by blast
      moreover have "a \<noteq> []" using L True calculation(1) by (auto simp: authorize_def)
      ultimately show ?thesis using registry_get_sound [OF ok a(2)] by (auto simp: valid_config_iff)
    qed simp
  next
    assume ?R
    then show ?L by (auto simp: authorize_def Let_def split: list.splits)
  qed
qed

definition demo_dirs :: "agent_config agent_dir list" where
  "demo_dirs =
     [\<lparr>ad_name = ''k8s'', ad_is_dir = True, ad_document = Some (Inr demo_config), ad_prompt = None\<rparr>,
      \<lparr>ad_name = ''fixer'', ad_is_dir = True,
       ad_document = Some (Inr (demo_config\<lparr>ac_name := ''fixer'', ac_read_only := False, ac_capability_tier := 1,
         ac_write_scope := [''restart'']\<rparr>)), ad_prompt = None\<rparr>]"

lemma demo_dirs_read: "map (entry_of (agent_config_of Inr)) demo_dirs = demo_dir"
  by (simp add: demo_dirs_def demo_dir_def entry_of_def agent_config_of_def demo_config_def validate_config_def)

theorem gate_admits_only_declared_writers_witness:
  "\<exists>rg. authorize (registry_get rg) (Some ''fixer'') ''t'' ''patch'' = Inr () \<and>
        authorize (registry_get rg) (Some ''k8s'') ''t'' ''patch'' \<noteq> Inr () \<and>
        authorize (registry_get rg) None ''t'' ''patch'' \<noteq> Inr ()"
proof -
  obtain rg where d: "discover (\<lambda>v. Some ''x'') (Some demo_dir) empty_registry = Inr rg"
    "registry_get rg ''k8s'' = Some (demo_config\<lparr>ac_cache_namespace := ''k8s''\<rparr>)"
    "registry_get rg ''fixer'' = Some (demo_config\<lparr>ac_name := ''fixer'', ac_read_only := False, ac_capability_tier := 1,
         ac_write_scope := [''restart''], ac_cache_namespace := ''fixer''\<rparr>)"
    using demo_dir_discovered by blast
  note g = gate_admits_only_declared_writers [OF d(1) [folded demo_dirs_read], of _ "''t''" "''patch''"]
  have "authorize (registry_get rg) (Some ''fixer'') ''t'' ''patch'' = Inr ()"
    "authorize (registry_get rg) (Some ''k8s'') ''t'' ''patch'' \<noteq> Inr ()"
    "authorize (registry_get rg) None ''t'' ''patch'' \<noteq> Inr ()"
    by (simp_all add: g d(2,3) WRITE_ACTION_TYPES_def demo_config_def)
  then show ?thesis by blast
qed

end
