(* ===== verification/ToolSchema.thy ===== *)
theory ToolSchema
  imports Json
begin

text \<open>
  Normalising the tool definitions of an MCP server, src/src/core/tool_schema.py: the two-way
  map between server names and the names shown to the model, and the schema pipeline (inline
  references, simplify unions, cap the depth, keep the supported keywords).  Schemas are JSON
  values; None is an exception of the pipeline, which its caller turns into \<open>no tools\<close>.
\<close>

definition MAX_NESTING_DEPTH :: nat where
  "MAX_NESTING_DEPTH = 4"

section \<open>Name mapping\<close>

record tool_name_map =
  tm_to_server :: "(string \<times> string) list"
  tm_to_converse :: "(string \<times> string) list"

definition empty_name_map :: tool_name_map where
  "empty_name_map = \<lparr>tm_to_server = [], tm_to_converse = []\<rparr>"

definition hyphens_to_underscores :: "string \<Rightarrow> string" where
  "hyphens_to_underscores s = map (\<lambda>c. if c = CHR ''-'' then CHR ''_'' else c) s"

text \<open>
  The search for a free suffix, with the number of registered names plus one as fuel
  (\<open>fresh_suffix_free\<close>: it is enough).
\<close>

fun fresh_suffix :: "nat \<Rightarrow> (string \<times> string) list \<Rightarrow> string \<Rightarrow> nat \<Rightarrow> nat" where
  "fresh_suffix 0 m base n = n"
| "fresh_suffix (Suc fuel) m base n =
     (if dict_get m (base @ ''_'' @ show_nat n) \<noteq> None then fresh_suffix fuel m base (n + 1) else n)"

definition register_tool :: "tool_name_map \<Rightarrow> string \<Rightarrow> string \<times> tool_name_map" where
  "register_tool m server_name =
     (let base = hyphens_to_underscores server_name;
          converse_name =
            (case dict_get (tm_to_server m) base of
               Some other \<Rightarrow>
                 if other \<noteq> server_name
                 then base @ ''_'' @ show_nat (fresh_suffix (length (tm_to_server m) + 1) (tm_to_server m) base 1)
                 else base
             | None \<Rightarrow> base)
      in (converse_name,
          \<lparr>tm_to_server = dict_set (tm_to_server m) converse_name server_name,
           tm_to_converse = dict_set (tm_to_converse m) server_name converse_name\<rparr>))"

definition to_server_name :: "tool_name_map \<Rightarrow> string \<Rightarrow> string option" where
  "to_server_name m converse_name = dict_get (tm_to_server m) converse_name"

definition to_converse_name :: "tool_name_map \<Rightarrow> string \<Rightarrow> string option" where
  "to_converse_name m server_name = dict_get (tm_to_converse m) server_name"

definition has_converse :: "tool_name_map \<Rightarrow> string \<Rightarrow> bool" where
  "has_converse m converse_name \<longleftrightarrow> dict_get (tm_to_server m) converse_name \<noteq> None"

section \<open>Schema pipeline\<close>

definition generic_object :: json where
  "generic_object = JObj [(''type'', JStr ''object'')]"

fun cap_depth :: "nat \<Rightarrow> json \<Rightarrow> json"
and cap_entries :: "nat \<Rightarrow> (string \<times> json) list \<Rightarrow> (string \<times> json) list"
and cap_values :: "nat \<Rightarrow> (string \<times> json) list \<Rightarrow> (string \<times> json) list" where
  "cap_depth d (JObj ms) =
     (if d \<ge> MAX_NESTING_DEPTH then
        JObj ((''type'', JStr ''object'') #
              (case dict_get ms ''description'' of Some v \<Rightarrow> [(''description'', v)] | None \<Rightarrow> []))
      else JObj (cap_entries d ms))"
| "cap_depth d v = v"
| "cap_entries d [] = []"
| "cap_entries d ((k, v) # ms) =
     (k, if k = ''properties'' then (case v of JObj ps \<Rightarrow> JObj (cap_values (d + 1) ps) | _ \<Rightarrow> v)
         else if k = ''items'' then (case v of JObj is \<Rightarrow> cap_depth (d + 1) (JObj is) | _ \<Rightarrow> v)
         else v) # cap_entries d ms"
| "cap_values d [] = []"
| "cap_values d ((k, v) # ms) = (k, cap_depth d v) # cap_values d ms"

definition allowed_keys :: "string list" where
  "allowed_keys =
     [''type'', ''properties'', ''required'', ''items'', ''description'', ''enum'', ''default'', ''minimum'',
      ''maximum'', ''minLength'', ''maxLength'', ''pattern'', ''additionalProperties'', ''title'']"

fun strip_unsupported_keys :: "json \<Rightarrow> json"
and strip_entries :: "(string \<times> json) list \<Rightarrow> (string \<times> json) list"
and strip_values :: "(string \<times> json) list \<Rightarrow> (string \<times> json) list" where
  "strip_unsupported_keys (JObj ms) = JObj (strip_entries ms)"
| "strip_unsupported_keys v = v"
| "strip_entries [] = []"
| "strip_entries ((k, v) # ms) =
     (if k \<notin> set allowed_keys then strip_entries ms
      else (k, if k = ''properties'' then (case v of JObj ps \<Rightarrow> JObj (strip_values ps) | _ \<Rightarrow> v)
               else if k = ''items'' then (case v of JObj is \<Rightarrow> strip_unsupported_keys (JObj is) | _ \<Rightarrow> v)
               else v) # strip_entries ms)"
| "strip_values [] = []"
| "strip_values ((k, v) # ms) = (k, strip_unsupported_keys v) # strip_values ms"

text \<open>
  The variants of a union that are not the null type.  Iterating a value that is no list of
  objects raises, except for an empty one.
\<close>

fun non_null_variants :: "json list \<Rightarrow> json list option" where
  "non_null_variants [] = Some []"
| "non_null_variants (JObj d # vs) =
     map_option (\<lambda>r. if dict_get d ''type'' = Some (JStr ''null'') then r else JObj d # r) (non_null_variants vs)"
| "non_null_variants (_ # vs) = None"

definition union_variants :: "json \<Rightarrow> json list option" where
  "union_variants v =
     (case v of
        JList vs \<Rightarrow> non_null_variants vs
      | JObj d \<Rightarrow> if d = [] then Some [] else None
      | JStr s \<Rightarrow> if s = [] then Some [] else None
      | _ \<Rightarrow> None)"

lemma non_null_size: "non_null_variants vs = Some (v # ws) \<Longrightarrow> size v < Suc (size_list size vs)"
  by (induction vs rule: non_null_variants.induct) (auto split: if_splits)

lemma union_variants_size: "union_variants v = Some (x # ws) \<Longrightarrow> size x < Suc (size v)"
  by (auto simp: union_variants_def split: json.splits if_splits dest!: non_null_size)

lemma dict_get_size: "dict_get d k = Some v \<Longrightarrow> size v < size_list (size_prod (\<lambda>x. 0) size) d"
  by (induction d k rule: dict_get.induct) (auto split: if_splits)

text \<open>The description of the union is kept when the unwrapped variant has none.\<close>

definition keep_description :: "(string \<times> json) list \<Rightarrow> json \<Rightarrow> json" where
  "keep_description outer merged =
     (case merged of
        JObj m \<Rightarrow>
          (case dict_get outer ''description'' of
             Some desc \<Rightarrow> if json_truthy desc \<and> dict_get m ''description'' = None
                          then JObj (dict_set m ''description'' desc) else JObj m
           | None \<Rightarrow> JObj m)
      | _ \<Rightarrow> merged)"

definition collapsed_union :: "(string \<times> json) list \<Rightarrow> json" where
  "collapsed_union ms =
     JObj ((''type'', JStr ''object'') #
           (case dict_get ms ''description'' of Some v \<Rightarrow> [(''description'', v)] | None \<Rightarrow> []))"

definition union_of :: "(string \<times> json) list \<Rightarrow> json option" where
  "union_of ms = (case dict_get ms ''anyOf'' of Some v \<Rightarrow> Some v | None \<Rightarrow> dict_get ms ''oneOf'')"

lemma union_of_size: "union_of ms = Some v \<Longrightarrow> size v < size_list (size_prod (\<lambda>x. 0) size) ms"
  by (auto simp: union_of_def dest: dict_get_size split: option.splits)

function (sequential) simplify_unions :: "json \<Rightarrow> json option"
and simplify_entries :: "(string \<times> json) list \<Rightarrow> (string \<times> json) list option"
and simplify_values :: "(string \<times> json) list \<Rightarrow> (string \<times> json) list option" where
  "simplify_unions (JObj ms) =
     (case union_of ms of
        Some variants \<Rightarrow>
          (case union_variants variants of
             None \<Rightarrow> None
           | Some [] \<Rightarrow> Some generic_object
           | Some [v] \<Rightarrow> map_option (keep_description ms) (simplify_unions v)
           | Some _ \<Rightarrow> Some (collapsed_union ms))
      | None \<Rightarrow> map_option JObj (simplify_entries ms))"
| "simplify_unions v = Some v"
| "simplify_entries [] = Some []"
| "simplify_entries ((k, v) # ms) =
     (case (if k = ''properties'' then (case v of JObj ps \<Rightarrow> map_option JObj (simplify_values ps) | _ \<Rightarrow> Some v)
            else if k = ''items'' then (case v of JObj is \<Rightarrow> simplify_unions (JObj is) | _ \<Rightarrow> Some v)
            else Some v) of
        None \<Rightarrow> None
      | Some v' \<Rightarrow> map_option (\<lambda>r. (k, v') # r) (simplify_entries ms))"
| "simplify_values [] = Some []"
| "simplify_values ((k, v) # ms) =
     (case simplify_unions v of None \<Rightarrow> None | Some v' \<Rightarrow> map_option (\<lambda>r. (k, v') # r) (simplify_values ms))"
  by pat_completeness auto
termination
proof (relation "measure (\<lambda>x. case x of Inl j \<Rightarrow> 2 * size j
    | Inr (Inl ms) \<Rightarrow> 2 * size_list (size_prod (\<lambda>x. 0) size) ms + 1
    | Inr (Inr ms) \<Rightarrow> 2 * size_list (size_prod (\<lambda>x. 0) size) ms + 1)", goal_cases)
qed (auto dest: union_of_size dest!: union_variants_size)

definition ref_name :: "string \<Rightarrow> string option" where
  "ref_name path =
     (if prefix ''#/$defs/'' path then Some (drop 8 path)
      else if prefix ''#/definitions/'' path then Some (drop 14 path) else None)"

function (sequential) resolve_refs :: "(string \<times> json) list \<Rightarrow> nat \<Rightarrow> json \<Rightarrow> json option"
and resolve_entries :: "(string \<times> json) list \<Rightarrow> nat \<Rightarrow> (string \<times> json) list \<Rightarrow> (string \<times> json) list option"
and resolve_values :: "(string \<times> json) list \<Rightarrow> nat \<Rightarrow> (string \<times> json) list \<Rightarrow> (string \<times> json) list option"
and resolve_items :: "(string \<times> json) list \<Rightarrow> nat \<Rightarrow> json list \<Rightarrow> json list option" where
  "resolve_refs defs d (JObj ms) =
     (case dict_get ms ''$ref'' of
        Some r \<Rightarrow>
          if d \<ge> MAX_NESTING_DEPTH then Some generic_object
          else (case r of
                  JStr path \<Rightarrow>
                    (case ref_name path of
                       None \<Rightarrow> Some generic_object
                     | Some name \<Rightarrow>
                         (case dict_get defs name of
                            None \<Rightarrow> Some generic_object
                          | Some target \<Rightarrow> resolve_refs defs (d + 1) target))
                | _ \<Rightarrow> None)
      | None \<Rightarrow> map_option JObj (resolve_entries defs d ms))"
| "resolve_refs defs d v = Some v"
| "resolve_entries defs d [] = Some []"
| "resolve_entries defs d ((k, v) # ms) =
     (if k = ''$defs'' \<or> k = ''definitions'' then resolve_entries defs d ms
      else (case (if k = ''properties'' then (case v of JObj ps \<Rightarrow> map_option JObj (resolve_values defs d ps) | _ \<Rightarrow> Some v)
                  else if k = ''items'' then (case v of JObj is \<Rightarrow> resolve_refs defs d (JObj is) | _ \<Rightarrow> Some v)
                  else if k = ''allOf'' \<or> k = ''anyOf'' \<or> k = ''oneOf''
                  then (case v of JList xs \<Rightarrow> map_option JList (resolve_items defs d xs) | _ \<Rightarrow> Some v)
                  else Some v) of
              None \<Rightarrow> None
            | Some v' \<Rightarrow> map_option (\<lambda>r. (k, v') # r) (resolve_entries defs d ms)))"
| "resolve_values defs d [] = Some []"
| "resolve_values defs d ((k, v) # ms) =
     (case resolve_refs defs d v of
        None \<Rightarrow> None | Some v' \<Rightarrow> map_option (\<lambda>r. (k, v') # r) (resolve_values defs d ms))"
| "resolve_items defs d [] = Some []"
| "resolve_items defs d (x # xs) =
     (case resolve_refs defs d x of
        None \<Rightarrow> None | Some x' \<Rightarrow> map_option (\<lambda>r. x' # r) (resolve_items defs d xs))"
  by pat_completeness auto
termination
  by (relation "inv_image (less_than <*lex*> less_than) (\<lambda>x. case x of
      Inl (Inl (defs, d, j)) \<Rightarrow> (MAX_NESTING_DEPTH - d, 2 * size j)
    | Inl (Inr (defs, d, ms)) \<Rightarrow> (MAX_NESTING_DEPTH - d, 2 * size_list (size_prod (\<lambda>x. 0) size) ms + 1)
    | Inr (Inl (defs, d, ms)) \<Rightarrow> (MAX_NESTING_DEPTH - d, 2 * size_list (size_prod (\<lambda>x. 0) size) ms + 1)
    | Inr (Inr (defs, d, xs)) \<Rightarrow> (MAX_NESTING_DEPTH - d, 2 * size_list size xs + 1))") auto

text \<open>
  \<open>dict.update\<close> with the definitions of a schema: an object, or an empty value; a value of
  another shape raises (a list of pairs, which Python would accept, is not modelled).
\<close>

definition update_defs :: "(string \<times> json) list \<Rightarrow> json option \<Rightarrow> (string \<times> json) list option" where
  "update_defs defs v =
     (case v of
        None \<Rightarrow> Some defs
      | Some (JObj d) \<Rightarrow> Some (foldl (\<lambda>m (k, x). dict_set m k x) defs d)
      | Some (JList []) \<Rightarrow> Some defs
      | Some (JStr []) \<Rightarrow> Some defs
      | Some _ \<Rightarrow> None)"

definition permissive_schema :: json where
  "permissive_schema = JObj [(''type'', JStr ''object''), (''properties'', JObj [])]"

definition finish_schema :: "json \<Rightarrow> json option" where
  "finish_schema v =
     (case v of
        JObj ms \<Rightarrow> Some (if dict_get ms ''type'' \<noteq> Some (JStr ''object'') then permissive_schema else JObj ms)
      | _ \<Rightarrow> None)"

definition normalize_input_schema :: "(string \<times> json) list option \<Rightarrow> json option" where
  "normalize_input_schema input_schema =
     (case input_schema of
        None \<Rightarrow> Some permissive_schema
      | Some [] \<Rightarrow> Some permissive_schema
      | Some ms \<Rightarrow>
          (case update_defs [] (dict_get ms ''$defs'') of
             None \<Rightarrow> None
           | Some defs1 \<Rightarrow>
               (case update_defs defs1 (dict_get ms ''definitions'') of
                  None \<Rightarrow> None
                | Some defs \<Rightarrow>
                    (case resolve_refs defs 0 (JObj (dict_del (dict_del ms ''$defs'') ''definitions'')) of
                       None \<Rightarrow> None
                     | Some v1 \<Rightarrow>
                         (case simplify_unions v1 of
                            None \<Rightarrow> None
                          | Some v2 \<Rightarrow> finish_schema (strip_unsupported_keys (cap_depth 0 v2)))))))"

record tool_spec =
  ts_name :: string
  ts_description :: string
  ts_schema :: json

definition build_tool_spec ::
    "string \<Rightarrow> string \<Rightarrow> (string \<times> json) list option \<Rightarrow> tool_name_map \<Rightarrow> tool_spec option \<times> tool_name_map" where
  "build_tool_spec server_name description input_schema m =
     (let (converse_name, m') = register_tool m server_name
      in case normalize_input_schema input_schema of
           None \<Rightarrow> (None, m')
         | Some schema \<Rightarrow>
             (Some \<lparr>ts_name = converse_name,
                ts_description = take 1024 (if description \<noteq> [] then description else ''Tool: '' @ server_name),
                ts_schema = schema\<rparr>, m'))"

section \<open>Lemmas: the name map\<close>

lemma show_nat_inj: "show_nat m = show_nat n \<Longrightarrow> m = n"
proof -
  have e: "of_char (char_of (48 + k) :: char) = (48 + k :: nat)" if "k < 10" for k
    using that by (simp add: of_char_of)
  have d: "digits_rev m = digits_rev n \<Longrightarrow> m = n"
  proof (induction m arbitrary: n rule: digits_rev.induct)
    case (1 m)
    have ne: "digits_rev k \<noteq> []" for k by (subst digits_rev.simps) simp
    have len: "k \<ge> 10 \<Longrightarrow> \<exists>c d ds. digits_rev k = c # d # ds" for k
      using ne [of "k div 10"] by (subst digits_rev.simps) (cases "digits_rev (k div 10)", auto)
    show ?case
    proof (cases "m < 10")
      case True
      with "1.prems" len [of n] have "n < 10"
        by (cases "n < 10") (auto simp: digits_rev.simps [of m])
      with True "1.prems" show ?thesis
        by (simp add: digits_rev.simps [of m] digits_rev.simps [of n])
    next
      case False
      with "1.prems" len [of m] have n: "\<not> n < 10"
        by (cases "n < 10") (auto simp: digits_rev.simps [of n])
      from "1.prems" False n have "(char_of (48 + m mod 10) :: char) = char_of (48 + n mod 10)"
        "digits_rev (m div 10) = digits_rev (n div 10)"
        by (simp_all add: digits_rev.simps [of m] digits_rev.simps [of n])
      moreover from this(1) have "m mod 10 = n mod 10"
        using e [of "m mod 10"] e [of "n mod 10"] by simp
      ultimately show ?thesis using "1.IH" [OF False] by (metis div_mult_mod_eq)
    qed
  qed
  show "show_nat m = show_nat n \<Longrightarrow> m = n" unfolding show_nat_def using d by simp
qed

text \<open>Among as many suffixes as there are names plus one, one is free.\<close>

lemma fresh_suffix_ge: "n \<le> fresh_suffix fuel m base n"
  by (induction fuel m base n rule: fresh_suffix.induct) auto

lemma fresh_suffix_stuck:
  "dict_get m (base @ ''_'' @ show_nat (fresh_suffix fuel m base n)) \<noteq> None \<Longrightarrow> i < fuel \<Longrightarrow>
   dict_get m (base @ ''_'' @ show_nat (n + i)) \<noteq> None"
proof (induction fuel m base n arbitrary: i rule: fresh_suffix.induct)
  case (2 fuel m base n)
  then show ?case
  proof (cases "dict_get m (base @ ''_'' @ show_nat n) = None")
    case True
    with 2(2) show ?thesis by simp
  next
    case False
    with 2 show ?thesis by (cases i) auto
  qed
qed simp

lemma fresh_suffix_free:
  "dict_get m (base @ ''_'' @ show_nat (fresh_suffix (length m + 1) m base n)) = None"
proof (rule ccontr)
  assume stuck: "dict_get m (base @ ''_'' @ show_nat (fresh_suffix (length m + 1) m base n)) \<noteq> None"
  let ?f = "\<lambda>i. base @ ''_'' @ show_nat (n + i)"
  have "\<forall>i < length m + 1. ?f i \<in> fst ` set m"
    using fresh_suffix_stuck [OF stuck] by (auto simp: dict_get_map_of map_of_eq_None_iff)
  then have "?f ` {..<length m + 1} \<subseteq> fst ` set m" by auto
  moreover have "inj_on ?f {..<length m + 1}" by (auto simp: inj_on_def dest: show_nat_inj)
  ultimately have "length m + 1 \<le> card (fst ` set m)"
    by (metis List.finite_set card_image card_lessThan card_mono finite_imageI)
  also have "\<dots> \<le> length m" by (metis card_image_le List.finite_set card_length le_trans)
  finally show False by simp
qed

definition name_map_ok :: "tool_name_map \<Rightarrow> bool" where
  "name_map_ok m \<longleftrightarrow> (\<forall>s c. to_converse_name m s = Some c \<longrightarrow> to_server_name m c = Some s)"

lemma register_tool_spec:
  "register_tool m s = (c, m') \<Longrightarrow>
     to_server_name m' c = Some s \<and> to_converse_name m' s = Some c \<and>
     (\<forall>c' s'. to_server_name m c' = Some s' \<longrightarrow> to_server_name m' c' = Some s')"
  using fresh_suffix_free [of "tm_to_server m" "hyphens_to_underscores s" 1]
  by (auto simp: register_tool_def to_server_name_def to_converse_name_def Let_def split: option.splits if_splits)

text \<open>The names of a catalogue, registered in order.\<close>

fun register_all :: "tool_name_map \<Rightarrow> string list \<Rightarrow> string list \<times> tool_name_map" where
  "register_all m [] = ([], m)"
| "register_all m (s # ss) =
     (let (c, m1) = register_tool m s; (cs, m2) = register_all m1 ss in (c # cs, m2))"

lemma register_all_keeps:
  "to_server_name m c = Some s \<Longrightarrow> to_server_name (snd (register_all m ss)) c = Some s"
proof (induction ss arbitrary: m)
  case (Cons t ss)
  obtain c' m1 where r: "register_tool m t = (c', m1)" by fastforce
  with Cons register_tool_spec [OF r] show ?case by (simp add: case_prod_beta)
qed simp

lemma register_all_resolves:
  "list_all2 (\<lambda>c s. to_server_name (snd (register_all m ss)) c = Some s) (fst (register_all m ss)) ss"
proof (induction ss arbitrary: m)
  case (Cons t ss)
  obtain c' m1 where r: "register_tool m t = (c', m1)" by fastforce
  with Cons [of m1] register_all_keeps [of m1 c' t ss] register_tool_spec [OF r] show ?case
    by (simp add: case_prod_beta)
qed simp

section \<open>Lemmas: well-formed schemas\<close>




section \<open>Properties\<close>

text \<open>
  Tool names survive the round trip: after registering any catalogue, in any order and with any
  collisions, every name shown to the model leads back to the server tool it was made for, so
  different tools never share a shown name.
\<close>

theorem tool_names_roundtrip:
  assumes "register_all empty_name_map servers = (shown, m)"
  shows "length shown = length servers \<and>
    (\<forall>i < length servers. to_server_name m (shown ! i) = Some (servers ! i)) \<and>
    (distinct servers \<longrightarrow> distinct shown)"
proof -
  have l: "list_all2 (\<lambda>c s. to_server_name m c = Some s) shown servers"
    using register_all_resolves [of empty_name_map servers] assms by simp
  then have a: "length shown = length servers" "\<forall>i < length servers. to_server_name m (shown ! i) = Some (servers ! i)"
    by (auto simp: list_all2_conv_all_nth)
  have "distinct shown" if "distinct servers"
    unfolding distinct_conv_nth using a that by (metis nth_eq_iff_index_eq option.inject)
  with a show ?thesis by blast
qed

theorem tool_names_roundtrip_witness:
  "\<exists>m. register_all empty_name_map [''get_pods'', ''get-pods''] = ([''get_pods'', ''get_pods_1''], m) \<and>
       to_server_name m ''get_pods_1'' = Some ''get-pods''"
proof -
  have n: "show_nat 1 = ''1''" by code_simp
  obtain m where r: "register_all empty_name_map [''get_pods'', ''get-pods''] = ([''get_pods'', ''get_pods_1''], m)"
    by (simp add: register_tool_def empty_name_map_def hyphens_to_underscores_def Let_def n [unfolded One_nat_def])
  from tool_names_roundtrip [OF r] have
    "\<forall>i < 2. to_server_name m ([''get_pods'', ''get_pods_1''] ! i) = Some ([''get_pods'', ''get-pods''] ! i)" by simp
  from this [rule_format, of 1] r show ?thesis by auto
qed



text \<open>
  The reference pass enters properties, items and unions only: a reference under
  \<open>additionalProperties\<close> is kept while the definitions it points to are dropped.
\<close>

lemma additional_properties_keep_dangling_reference:
  "normalize_input_schema (Some [(''type'', JStr ''object''),
      (''additionalProperties'', JObj [(''$ref'', JStr ''#/$defs/A'')]), (''$defs'', JObj [(''A'', JObj [(''type'', JStr ''string'')])])]) =
   Some (JObj [(''type'', JStr ''object''), (''additionalProperties'', JObj [(''$ref'', JStr ''#/$defs/A'')])])"
  by (simp add: normalize_input_schema_def update_defs_def dict_del_def union_of_def allowed_keys_def
      finish_schema_def MAX_NESTING_DEPTH_def)

end
