(* ===== verification/McpTools.thy ===== *)
theory McpTools
  imports ToolSchema
begin

text \<open>
  The MCP datasource adapter, src/src/core/adapters.py: its catalogue of allowlisted tools, the
  fail-closed execution of one tool, the allowlisted collection, and the description of nested
  failures.  An MCP server is a parameter: it lists its tools and executes one, or fails with
  an exception, or does not answer within the caller's timeout.
\<close>

section \<open>Failures\<close>

datatype py_exc = Exc (exc_name: string) (exc_msg: string) (exc_subs: "py_exc list") (exc_cause: "py_exc option")

function (sequential) error_detail :: "nat \<Rightarrow> py_exc \<Rightarrow> string" where
  "error_detail depth (Exc nm msg subs cause) =
     (let own = (let m = py_strip msg in if m \<noteq> [] then nm @ '': '' @ m else nm)
      in if depth < 5 then
           (case subs of
              x # rest \<Rightarrow>
                (let detail = error_detail (depth + 1) x
                 in if rest \<noteq> [] then detail @ '' (+'' @ show_nat (length rest) @ '' more)'' else detail)
            | [] \<Rightarrow> (case cause of Some c \<Rightarrow> error_detail (depth + 1) c | None \<Rightarrow> own))
         else own)"
  by pat_completeness auto
termination
  by (relation "measure (\<lambda>(d, e). 5 - d)") auto

definition mcp_error_detail :: "py_exc \<Rightarrow> string" where
  "mcp_error_detail e = error_detail 0 e"

section \<open>Adapters and servers\<close>

record mcp_adapter =
  ma_name :: string
  ma_url :: string
  ma_tools :: "string list"
  ma_tool_arguments :: "(string \<times> json) list"
  ma_inject_query_as :: string
  ma_cache_ttl :: rat
  ma_name_map :: "tool_name_map option"
  ma_cached_specs :: "tool_spec list option"
  ma_specs_cached_at :: rat

definition new_mcp_adapter ::
    "string \<Rightarrow> string \<Rightarrow> string list \<Rightarrow> (string \<times> json) list \<Rightarrow> string \<Rightarrow> rat \<Rightarrow> mcp_adapter" where
  "new_mcp_adapter nm url tools args inject ttl =
     \<lparr>ma_name = (if nm \<noteq> [] then nm else ''mcp''), ma_url = url, ma_tools = tools, ma_tool_arguments = args,
      ma_inject_query_as = inject, ma_cache_ttl = ttl, ma_name_map = None, ma_cached_specs = None,
      ma_specs_cached_at = 0\<rparr>"

record server_tool =
  st_name :: string
  st_description :: string
  st_input_schema :: "(string \<times> json) list option"

text \<open>The text blocks of a result; a block without text is None.\<close>

type_synonym tool_result = "string option list"

datatype call_outcome = CallReply tool_result | CallFailed py_exc | CallTimeout

record 's mcp_server =
  sv_list_tools :: "string \<Rightarrow> 's \<Rightarrow> (py_exc + server_tool list) \<times> 's"
  sv_call_tool :: "string \<Rightarrow> string \<Rightarrow> json \<Rightarrow> 's \<Rightarrow> call_outcome \<times> 's"

definition render :: "tool_result \<Rightarrow> string" where
  "render blocks =
     (let parts = concat (map (\<lambda>b. case b of Some t \<Rightarrow> [t] | None \<Rightarrow> []) blocks)
      in if parts \<noteq> [] then py_join nl parts else ''(no text content)'')"

definition SAFETY_CAP :: nat where
  "SAFETY_CAP = 1000000"

section \<open>The catalogue\<close>

text \<open>None: building a spec raised.\<close>

fun build_specs :: "string list \<Rightarrow> tool_name_map \<Rightarrow> server_tool list \<Rightarrow> tool_spec list option \<times> tool_name_map" where
  "build_specs allow m [] = (Some [], m)"
| "build_specs allow m (t # ts) =
     (if st_name t \<notin> set allow then build_specs allow m ts
      else (case build_tool_spec (st_name t) (st_description t) (st_input_schema t) m of
              (None, m') \<Rightarrow> (None, m')
            | (Some spec, m') \<Rightarrow>
                (case build_specs allow m' ts of
                   (None, m'') \<Rightarrow> (None, m'')
                 | (Some specs, m'') \<Rightarrow> (Some (spec # specs), m''))))"

text \<open>The clock is read before the cache is consulted, and again when the specs are stored.\<close>

definition list_tool_specs ::
    "'s mcp_server \<Rightarrow> ('s \<Rightarrow> rat) \<Rightarrow> mcp_adapter \<Rightarrow> 's \<Rightarrow> tool_spec list \<times> mcp_adapter \<times> 's" where
  "list_tool_specs sv clock a s =
     (case (if ma_cache_ttl a > 0 \<and> clock s - ma_specs_cached_at a < ma_cache_ttl a then ma_cached_specs a else None) of
        Some specs \<Rightarrow> (specs, a, s)
      | None \<Rightarrow>
          (if ma_tools a = [] then
             ([], a\<lparr>ma_name_map := Some empty_name_map, ma_cached_specs := Some [], ma_specs_cached_at := clock s\<rparr>, s)
           else
             (case sv_list_tools sv (ma_url a) s of
                (Inl e, s') \<Rightarrow>
                  ([], a\<lparr>ma_name_map := Some empty_name_map, ma_cached_specs := Some [], ma_specs_cached_at := clock s'\<rparr>, s')
              | (Inr tools, s') \<Rightarrow>
                  (case build_specs (ma_tools a) empty_name_map tools of
                     (specs, m) \<Rightarrow>
                       (let specs' = (case specs of Some l \<Rightarrow> l | None \<Rightarrow> [])
                        in (specs', a\<lparr>ma_name_map := Some m, ma_cached_specs := Some specs', ma_specs_cached_at := clock s'\<rparr>, s'))))))"

section \<open>One tool\<close>

definition underscores_to_hyphens :: "string \<Rightarrow> string" where
  "underscores_to_hyphens s = map (\<lambda>c. if c = CHR ''_'' then CHR ''-'' else c) s"

definition resolve_server_name :: "mcp_adapter \<Rightarrow> string \<Rightarrow> string" where
  "resolve_server_name a converse_name =
     (case (case ma_name_map a of Some m \<Rightarrow> to_server_name m converse_name | None \<Rightarrow> None) of
        Some (c # n) \<Rightarrow> c # n
      | _ \<Rightarrow>
          if converse_name \<in> set (ma_tools a) then converse_name
          else if underscores_to_hyphens converse_name \<in> set (ma_tools a) then underscores_to_hyphens converse_name
          else converse_name)"

definition merge_args :: "(string \<times> json) list \<Rightarrow> (string \<times> json) list \<Rightarrow> (string \<times> json) list" where
  "merge_args static args = foldl (\<lambda>d (k, v). dict_set d k v) static args"

text \<open>What \<open>call_tool\<close> gives its caller: a text, a PermissionError, or no answer in time.\<close>

datatype tool_outcome = ToolText string | ToolDenied string | ToolTimeout

definition adapter_call_tool ::
    "'s mcp_server \<Rightarrow> mcp_adapter \<Rightarrow> string \<Rightarrow> (string \<times> json) list \<Rightarrow> 's \<Rightarrow> tool_outcome \<times> 's" where
  "adapter_call_tool sv a nm args s =
     (let server_name = resolve_server_name a nm
      in if server_name \<notin> set (ma_tools a) then
           (ToolDenied (''[mcp:'' @ ma_name a @ ''] tool '' @ [CHR 0x27] @ nm @ [CHR 0x27] @ '' (server: '' @ [CHR 0x27]
              @ server_name @ [CHR 0x27] @ '') not in read-only allowlist. Refusing execution.''), s)
         else (case sv_call_tool sv (ma_url a) server_name (JObj (merge_args (ma_tool_arguments a) args)) s of
                 (CallReply r, s') \<Rightarrow> (ToolText (take SAFETY_CAP (render r)), s')
               | (CallFailed e, s') \<Rightarrow>
                   (ToolText (''[mcp:'' @ ma_name a @ '':'' @ server_name @ ''] error: '' @ mcp_error_detail e), s')
               | (CallTimeout, s') \<Rightarrow> (ToolTimeout, s')))"

section \<open>Collection without the loop\<close>

text \<open>
  \<open>_invoke_tools\<close>: one line per allowlisted tool; a tool that does not answer is the exception
  the transport raises, described like any other.
\<close>

fun invoke_tools ::
    "'s mcp_server \<Rightarrow> mcp_adapter \<Rightarrow> string list \<Rightarrow> string \<Rightarrow> string list \<Rightarrow> 's \<Rightarrow> string list \<times> 's" where
  "invoke_tools sv a avail q [] s = ([], s)"
| "invoke_tools sv a avail q (t # ts) s =
     (if t \<notin> set avail then
        (let (rs, s') = invoke_tools sv a avail q ts s
         in ((''[mcp:'' @ ma_name a @ '':'' @ t @ ''] not exposed by server'') # rs, s'))
      else
        (let args = (if ma_inject_query_as a \<noteq> [] then dict_set (ma_tool_arguments a) (ma_inject_query_as a) (JStr q)
                     else ma_tool_arguments a)
         in case sv_call_tool sv (ma_url a) t (JObj args) s of
              (CallReply r, s1) \<Rightarrow>
                (let (rs, s') = invoke_tools sv a avail q ts s1
                 in ((''[mcp:'' @ ma_name a @ '':'' @ t @ ''] '' @ render r) # rs, s'))
            | (CallFailed e, s1) \<Rightarrow>
                (let (rs, s') = invoke_tools sv a avail q ts s1
                 in ((''[mcp:'' @ ma_name a @ '':'' @ t @ ''] error: '' @ mcp_error_detail e) # rs, s'))
            | (CallTimeout, s1) \<Rightarrow>
                (let (rs, s') = invoke_tools sv a avail q ts s1
                 in ((''[mcp:'' @ ma_name a @ '':'' @ t @ ''] error: TimeoutError'') # rs, s'))))"

definition collect :: "'s mcp_server \<Rightarrow> mcp_adapter \<Rightarrow> string \<Rightarrow> 's \<Rightarrow> string \<times> 's" where
  "collect sv a q s =
     (if ma_tools a = [] then (''[mcp:'' @ ma_name a @ ''] no tools allowlisted (skipped)'', s)
      else (case sv_list_tools sv (ma_url a) s of
              (Inl e, s') \<Rightarrow> (''[mcp:'' @ ma_name a @ ''] error: '' @ mcp_error_detail e, s')
            | (Inr tools, s') \<Rightarrow>
                (case invoke_tools sv a (map st_name tools) q (ma_tools a) s' of
                   (rs, s'') \<Rightarrow> (py_join nl rs, s''))))"

section \<open>Properties\<close>

lemma register_tool_server:
  "register_tool m n = (c, m') \<Longrightarrow> to_server_name m' c' = Some s \<Longrightarrow> s = n \<or> to_server_name m c' = Some s"
  by (auto simp: register_tool_def to_server_name_def Let_def split: option.splits if_splits)

lemma build_specs_names:
  "build_specs allow m ts = (r, m') \<Longrightarrow> (\<forall>c s. to_server_name m c = Some s \<longrightarrow> s \<in> set allow) \<Longrightarrow>
   to_server_name m' c = Some s \<Longrightarrow> s \<in> set allow"
proof (induction ts arbitrary: m r)
  case (Cons t ts)
  show ?case
  proof (cases "st_name t \<in> set allow")
    case False
    with Cons show ?thesis by simp
  next
    case True
    obtain spec m1 where b: "build_tool_spec (st_name t) (st_description t) (st_input_schema t) m = (spec, m1)"
      by fastforce
    then obtain c0 where r: "register_tool m (st_name t) = (c0, m1)"
      by (auto simp: build_tool_spec_def Let_def split: prod.splits option.splits)
    have m1: "\<forall>c s. to_server_name m1 c = Some s \<longrightarrow> s \<in> set allow"
      using register_tool_server [OF r] Cons.prems(2) True by blast
    show ?thesis
    proof (cases spec)
      case None
      with Cons.prems True b m1 show ?thesis by auto
    next
      case (Some sp)
      obtain r2 m2 where r2: "build_specs allow m1 ts = (r2, m2)" by fastforce
      with Cons.prems(1) True b Some have "m2 = m'" by (auto split: option.splits)
      with Cons.IH [OF _ m1] r2 Cons.prems(3) show ?thesis by blast
    qed
  qed
qed auto

lemma build_specs_keeps:
  "build_specs allow m ts = (r, m') \<Longrightarrow> to_server_name m c = Some n \<Longrightarrow> \<exists>n'. to_server_name m' c = Some n'"
proof (induction ts arbitrary: m r n)
  case (Cons t ts)
  show ?case
  proof (cases "st_name t \<in> set allow")
    case False
    with Cons show ?thesis by simp
  next
    case True
    obtain spec m1 where b: "build_tool_spec (st_name t) (st_description t) (st_input_schema t) m = (spec, m1)"
      by fastforce
    then obtain c0 where r: "register_tool m (st_name t) = (c0, m1)"
      by (auto simp: build_tool_spec_def Let_def split: prod.splits option.splits)
    have m1: "to_server_name m1 c = Some n" using register_tool_spec [OF r] Cons.prems(2) by blast
    obtain r2 m2 where r2: "build_specs allow m1 ts = (r2, m2)" by fastforce
    show ?thesis
    proof (cases spec)
      case None
      with Cons.prems(1) True b m1 show ?thesis by simp
    next
      case (Some sp)
      with Cons.prems(1) True b r2 have "m2 = m'" by (auto split: option.splits)
      with Cons.IH [OF _ m1] r2 show ?thesis by blast
    qed
  qed
qed auto

lemma invoke_tools_cong:
  "(\<And>t args s. t \<in> set ts \<Longrightarrow> sv_call_tool sv1 (ma_url a) t args s = sv_call_tool sv2 (ma_url a) t args s) \<Longrightarrow>
   invoke_tools sv1 a avail q ts s = invoke_tools sv2 a avail q ts s"
proof (induction ts arbitrary: s)
  case (Cons t ts)
  have IH: "invoke_tools sv1 a avail q ts = invoke_tools sv2 a avail q ts"
    by (rule ext) (use Cons.IH Cons.prems in simp)
  have c: "sv_call_tool sv1 (ma_url a) t args s = sv_call_tool sv2 (ma_url a) t args s" for args s
    by (rule Cons.prems) simp
  show ?case unfolding invoke_tools.simps IH c ..
qed simp

text \<open>
  C34: the allowlist is the only door: what a server does on tools outside the allowlist cannot
  influence the adapter, because two servers that agree on the allowlisted tools give
  the same results and end in the same state, for single calls under any name and for collection;
  and a name that resolves outside the allowlist is refused without contacting the server.
\<close>

theorem allowlist_is_the_only_door:
  assumes "\<And>t args s. t \<in> set (ma_tools a) \<Longrightarrow>
      sv_call_tool sv1 (ma_url a) t args s = sv_call_tool sv2 (ma_url a) t args s"
    and "sv_list_tools sv1 = sv_list_tools sv2"
  shows "adapter_call_tool sv1 a nm args s = adapter_call_tool sv2 a nm args s \<and>
    collect sv1 a q s = collect sv2 a q s \<and>
    (resolve_server_name a nm \<notin> set (ma_tools a) \<longrightarrow> (\<exists>m. adapter_call_tool sv1 a nm args s = (ToolDenied m, s)))"
proof -
  have i: "invoke_tools sv1 a avail q (ma_tools a) s = invoke_tools sv2 a avail q (ma_tools a) s" for avail s
    by (rule invoke_tools_cong) (rule assms(1))
  have "collect sv1 a q s = collect sv2 a q s" unfolding collect_def i assms(2) ..
  then show ?thesis
    using assms(1) by (simp add: adapter_call_tool_def Let_def)
qed

definition demo_server :: "call_outcome \<Rightarrow> nat mcp_server" where
  "demo_server r =
     \<lparr>sv_list_tools = (\<lambda>u s. (Inr [\<lparr>st_name = ''get-pods'', st_description = [], st_input_schema = None\<rparr>,
        \<lparr>st_name = ''delete-pod'', st_description = [], st_input_schema = None\<rparr>], s)),
      sv_call_tool = (\<lambda>u t args s. if t = ''get-pods'' then (CallReply [Some ''p1''], s) else (r, s + 1))\<rparr>"

definition demo_adapter :: mcp_adapter where
  "demo_adapter = new_mcp_adapter ''k8s'' ''http://k8s'' [''get-pods''] [] [] 0"

theorem allowlist_is_the_only_door_witness:
  "adapter_call_tool (demo_server CallTimeout) demo_adapter ''delete_pod'' [] 0 =
     adapter_call_tool (demo_server (CallReply [])) demo_adapter ''delete_pod'' [] 0 \<and>
   (\<exists>m. adapter_call_tool (demo_server CallTimeout) demo_adapter ''delete_pod'' [] 0 = (ToolDenied m, 0))"
proof -
  have r: "resolve_server_name demo_adapter ''delete_pod'' \<notin> set (ma_tools demo_adapter)"
    by (simp add: resolve_server_name_def demo_adapter_def new_mcp_adapter_def underscores_to_hyphens_def)
  have "\<And>t args s. t \<in> set (ma_tools demo_adapter) \<Longrightarrow>
      sv_call_tool (demo_server CallTimeout) (ma_url demo_adapter) t args s =
      sv_call_tool (demo_server (CallReply [])) (ma_url demo_adapter) t args s"
    by (simp add: demo_server_def demo_adapter_def new_mcp_adapter_def)
  moreover have "sv_list_tools (demo_server CallTimeout) = sv_list_tools (demo_server (CallReply []))"
    by (simp add: demo_server_def)
  ultimately show ?thesis
    using allowlist_is_the_only_door [of demo_adapter "demo_server CallTimeout" "demo_server (CallReply [])" "''delete_pod''" "[]" 0] r
    by blast
qed

text \<open>
  The catalogue and execution agree: after a listing that asked the server, every name shown to
  the model resolves to a tool of the allowlist, so no shown tool is refused.
\<close>

theorem shown_tools_are_allowed:
  assumes "list_tool_specs sv clock a s = (specs, a', s')" "ma_cache_ttl a \<le> 0" "spec \<in> set specs"
    and "\<And>t. t \<in> set (ma_tools a) \<Longrightarrow> t \<noteq> []"
  shows "resolve_server_name a' (ts_name spec) \<in> set (ma_tools a')"
proof -
  obtain tools s1 sp m where t: "sv_list_tools sv (ma_url a) s = (Inr tools, s1)" "ma_tools a \<noteq> []"
    and b: "build_specs (ma_tools a) empty_name_map tools = (Some sp, m)" "specs = sp"
    and a': "a' = a\<lparr>ma_name_map := Some m, ma_cached_specs := Some sp, ma_specs_cached_at := clock s1\<rparr>"
    using assms(1-3) by (auto simp: list_tool_specs_def Let_def split: if_splits sum.splits option.splits prod.splits)
  have "\<And>m0 sp m. build_specs (ma_tools a) m0 tools = (Some sp, m) \<Longrightarrow> spec \<in> set sp \<Longrightarrow>
      \<exists>n. to_server_name m (ts_name spec) = Some n"
  proof (induction tools)
    case (Cons t ts)
    show ?case
    proof (cases "st_name t \<in> set (ma_tools a)")
      case False
      with Cons show ?thesis by simp
    next
      case True
      with Cons.prems(1) obtain x m1 sp1 where x: "build_tool_spec (st_name t) (st_description t) (st_input_schema t) m0 = (Some x, m1)"
        and r: "build_specs (ma_tools a) m1 ts = (Some sp1, m)" "sp = x # sp1"
        by (auto split: prod.splits option.splits)
      from x obtain c0 where reg: "register_tool m0 (st_name t) = (ts_name x, m1)"
        by (auto simp: build_tool_spec_def Let_def split: prod.splits option.splits)
      have keep: "to_server_name m1 c = Some n \<Longrightarrow> \<exists>n'. to_server_name m c = Some n'" for c n
        using r(1) build_specs_keeps by blast
      show ?thesis
      proof (cases "spec = x")
        case True
        with register_tool_spec [OF reg] keep show ?thesis by blast
      next
        case False
        with Cons.IH [OF r(1)] Cons.prems(2) r(2) show ?thesis by auto
      qed
    qed
  qed simp
  then obtain n where n: "to_server_name m (ts_name spec) = Some n" using b assms(3) by blast
  have "n \<in> set (ma_tools a)"
    by (rule build_specs_names [OF b(1) _ n]) (simp add: empty_name_map_def to_server_name_def)
  moreover from this assms(4) have "n \<noteq> []" by blast
  ultimately obtain c cs where "n = c # cs" "c # cs \<in> set (ma_tools a)" by (metis neq_Nil_conv)
  with n show ?thesis unfolding a' by (simp add: resolve_server_name_def)
qed

theorem shown_tools_are_allowed_witness:
  "resolve_server_name (fst (snd (list_tool_specs (demo_server CallTimeout) (\<lambda>s. 0) demo_adapter 0))) ''get_pods''
     \<in> {''get-pods''}"
proof -
  have l: "list_tool_specs (demo_server CallTimeout) (\<lambda>s. 0) demo_adapter 0 =
      ([\<lparr>ts_name = ''get_pods'', ts_description = ''Tool: get-pods'', ts_schema = permissive_schema\<rparr>],
       demo_adapter\<lparr>ma_name_map := Some \<lparr>tm_to_server = [(''get_pods'', ''get-pods'')], tm_to_converse = [(''get-pods'', ''get_pods'')]\<rparr>,
         ma_cached_specs := Some [\<lparr>ts_name = ''get_pods'', ts_description = ''Tool: get-pods'', ts_schema = permissive_schema\<rparr>],
         ma_specs_cached_at := 0\<rparr>, 0)"
    by (simp add: list_tool_specs_def demo_adapter_def new_mcp_adapter_def demo_server_def build_tool_spec_def
        register_tool_def empty_name_map_def hyphens_to_underscores_def normalize_input_schema_def Let_def)
  have "resolve_server_name (demo_adapter\<lparr>ma_name_map := Some \<lparr>tm_to_server = [(''get_pods'', ''get-pods'')], tm_to_converse = [(''get-pods'', ''get_pods'')]\<rparr>,
         ma_cached_specs := Some [\<lparr>ts_name = ''get_pods'', ts_description = ''Tool: get-pods'', ts_schema = permissive_schema\<rparr>],
         ma_specs_cached_at := 0\<rparr>) (ts_name \<lparr>ts_name = ''get_pods'', ts_description = ''Tool: get-pods'', ts_schema = permissive_schema\<rparr>)
      \<in> set (ma_tools (demo_adapter\<lparr>ma_name_map := Some \<lparr>tm_to_server = [(''get_pods'', ''get-pods'')], tm_to_converse = [(''get-pods'', ''get_pods'')]\<rparr>,
         ma_cached_specs := Some [\<lparr>ts_name = ''get_pods'', ts_description = ''Tool: get-pods'', ts_schema = permissive_schema\<rparr>],
         ma_specs_cached_at := 0\<rparr>))"
    by (rule shown_tools_are_allowed [OF l]) (simp_all add: demo_adapter_def new_mcp_adapter_def)
  then show ?thesis unfolding l by (simp add: demo_adapter_def new_mcp_adapter_def)
qed

end
