(* ===== verification/Guardrail.thy ===== *)
theory Guardrail
  imports Prelude
begin

text \<open>
  The Bedrock guardrail client, src/src/core/guardrail.py: it refuses what the service blocks
  and, fail-closed, everything when the service errs or is not configured.  The service is a
  parameter: one call, which answers, raises an AWS error, or raises something else.  Audit
  records and metrics are left out.
\<close>

datatype service_error = AwsError string | OtherServiceError exn

record gr_finding =
  gf_action :: string
  gf_label :: "string option"

record gr_assessment =
  as_topics :: "gr_finding list"
  as_content :: "gr_finding list"
  as_pii :: "gr_finding list"
  as_words :: "gr_finding list"

record gr_response =
  grr_action :: "string option"
  grr_assessments :: "gr_assessment list"

type_synonym 's guard_service =
  "string \<Rightarrow> string \<Rightarrow> string \<Rightarrow> string \<Rightarrow> 's \<Rightarrow> (service_error + gr_response) \<times> 's"

record guardrail_client =
  gr_enabled :: bool
  gr_id :: string
  gr_version :: string

datatype guard_error =
    GuardrailBlocked (reason: string) (source: string) (categories: "string list")
  | GuardrailRaised exn

definition category :: "string \<Rightarrow> gr_finding \<Rightarrow> string" where
  "category kind f = kind @ '':'' @ (case gf_label f of Some l \<Rightarrow> l | None \<Rightarrow> ''unknown'')"

definition extract_categories :: "gr_assessment list \<Rightarrow> string list" where
  "extract_categories assessments =
     concat (map (\<lambda>a.
       map (category ''topic'') (filter (\<lambda>f. gf_action f = ''BLOCKED'') (as_topics a)) @
       map (category ''content'') (filter (\<lambda>f. gf_action f = ''BLOCKED'') (as_content a)) @
       map (category ''pii'') (filter (\<lambda>f. gf_action f = ''BLOCKED'' \<or> gf_action f = ''ANONYMIZED'') (as_pii a)) @
       map (\<lambda>_. ''word:custom'') (filter (\<lambda>f. gf_action f = ''BLOCKED'') (as_words a))) assessments)"

definition apply_guardrail ::
    "guardrail_client \<Rightarrow> 's guard_service \<Rightarrow> string \<Rightarrow> string \<Rightarrow> 's \<Rightarrow> (guard_error + unit) \<times> 's" where
  "apply_guardrail g svc txt src s =
     (if \<not> gr_enabled g then (Inr (), s)
      else if gr_id g = [] then (Inl (GuardrailBlocked ''unavailable'' src []), s)
      else (case svc (gr_id g) (gr_version g) src txt s of
              (Inl (AwsError e), s') \<Rightarrow> (Inl (GuardrailBlocked ''unavailable'' src []), s')
            | (Inl (OtherServiceError e), s') \<Rightarrow> (Inl (GuardrailRaised e), s')
            | (Inr r, s') \<Rightarrow>
                if grr_action r = Some ''GUARDRAIL_INTERVENED''
                then (Inl (GuardrailBlocked ''blocked'' src (extract_categories (grr_assessments r))), s')
                else (Inr (), s')))"

section \<open>What a guard of texts promises\<close>

text \<open>
  The scanners share a contract: switched off they let everything through, and what they refuse is a
  refusal with its origin and its categories, never another error.
\<close>

locale text_guard =
  fixes scan :: "bool \<Rightarrow> 't \<Rightarrow> guard_error + 'a"
    and origin :: string
  assumes off_passes: "\<not> isl (scan False txt)"
    and refusal: "scan enabled txt = Inl e \<Longrightarrow> \<exists>why cats. cats \<noteq> [] \<and> e = GuardrailBlocked why origin cats"
begin

lemma never_raises: "scan enabled txt \<noteq> Inl (GuardrailRaised e)"
  using refusal by fastforce

lemma stops_or_passes:
  obtains v where "scan enabled txt = Inr v" | why cats where "scan enabled txt = Inl (GuardrailBlocked why origin cats)" "cats \<noteq> []"
  using refusal by (cases "scan enabled txt") blast+

lemma refused_when_on: "scan enabled t = Inl e \<Longrightarrow> enabled"
  using off_passes [of t] by (cases enabled) auto

end

section \<open>Lemmas\<close>

lemma guardrail_disabled [simp]: "\<not> gr_enabled g \<Longrightarrow> apply_guardrail g svc t src s = (Inr (), s)"
  by (simp add: apply_guardrail_def)

text \<open>
  A guardrail that is on and never clears a text: it has no identifier, or its service errs or intervenes
  each time.  Nothing passes it.
\<close>

definition never_clears :: "guardrail_client \<Rightarrow> 's guard_service \<Rightarrow> bool" where
  "never_clears g svc \<longleftrightarrow> gr_enabled g \<and>
     (gr_id g = [] \<or> (\<forall>src t s r. fst (svc (gr_id g) (gr_version g) src t s) = Inr r \<longrightarrow> grr_action r = Some ''GUARDRAIL_INTERVENED''))"

lemma never_clears_refuses: "never_clears g svc \<Longrightarrow> apply_guardrail g svc t src s \<noteq> (Inr u, s')"
  by (auto simp: never_clears_def apply_guardrail_def split: prod.splits sum.splits service_error.splits) (metis fst_conv)+

text \<open>A guardrail with an identifier, for examples.\<close>

definition demo_guardrail :: guardrail_client where
  "demo_guardrail = \<lparr>gr_enabled = True, gr_id = ''g1'', gr_version = ''1''\<rparr>"

end
