(* ===== verification/Truncation.thy ===== *)
theory Truncation
  imports Json Capability
begin

text \<open>
  Tool-result shaping, src/src/core/truncation.py: counting the items of a result, the
  one-line summary that replaces an old result, and trimming the message history of the agentic
  loop.  Messages are those the loop builds: text, tool-use and tool-result blocks.
\<close>

datatype content_item = CText string | CJson json

datatype block =
    BText string
  | BToolUse (use_id: string) (use_name: string) (use_input: json)
  | BToolResult (result_id: string) (result_content: "content_item list") (result_status: string)

record message =
  msg_role :: string
  msg_content :: "block list"

section \<open>Counting items\<close>

definition is_upper :: "char \<Rightarrow> bool" where
  "is_upper c = (let n = of_char c :: nat in 65 \<le> n \<and> n \<le> 90)"

text \<open>The pattern \<open>^[A-Z][A-Z0-9_/-]*$\<close> on a token.\<close>

definition header_token :: "string \<Rightarrow> bool" where
  "header_token t =
     (case t of
        [] \<Rightarrow> False
      | c # cs \<Rightarrow> is_upper c \<and>
          list_all (\<lambda>d. is_upper d \<or> is_digit d \<or> d = CHR ''_'' \<or> d = CHR ''/'' \<or> d = CHR ''-'') cs)"

definition is_table_header :: "string \<Rightarrow> bool" where
  "is_table_header line =
     (let tokens = py_split line
      in if tokens = [] then False
         else if length tokens \<ge> 2 \<and> list_all header_token tokens then True
         else hd tokens \<in> {''NAME'', ''NAMESPACE'', ''STATUS'', ''READY'', ''AGE'', ''NODE''} \<and> length tokens \<ge> 2)"

definition collection_keys :: "string list" where
  "collection_keys = [''items'', ''pods'', ''results'', ''data'', ''nodes'', ''records'']"

fun first_collection :: "string list \<Rightarrow> (string \<times> json) list \<Rightarrow> nat option" where
  "first_collection [] d = None"
| "first_collection (k # ks) d =
     (case dict_get d k of Some (JList xs) \<Rightarrow> Some (length xs) | _ \<Rightarrow> first_collection ks d)"

fun largest_list :: "nat option \<Rightarrow> (string \<times> json) list \<Rightarrow> nat option" where
  "largest_list best [] = best"
| "largest_list best ((k, JList xs) # d) =
     largest_list (case best of None \<Rightarrow> Some (length xs)
                   | Some b \<Rightarrow> if length xs > b then Some (length xs) else best) d"
| "largest_list best (_ # d) = largest_list best d"

definition count_object :: "(string \<times> json) list \<Rightarrow> nat option" where
  "count_object d =
     (let best = (case first_collection collection_keys d of Some n \<Rightarrow> Some n | None \<Rightarrow> largest_list None d)
      in case best of Some n \<Rightarrow> if n > 0 then Some n else None | None \<Rightarrow> None)"

definition count_lines :: "string \<Rightarrow> nat option" where
  "count_lines txt =
     (let lines = filter (\<lambda>ln. py_strip ln \<noteq> []) (py_splitlines txt)
      in if length lines \<le> 1 then None
         else (let data_rows = length lines - (if is_table_header (py_strip (hd lines)) then 1 else 0)
               in if data_rows > 0 then Some data_rows else None))"

definition count_items :: "string \<Rightarrow> nat option" where
  "count_items txt =
     (let stripped = py_strip txt
      in if stripped = [] then None
         else if prefix ''['' stripped then
           (case json_loads stripped of Some (JList xs) \<Rightarrow> Some (length xs) | _ \<Rightarrow> count_lines txt)
         else if prefix ''{'' stripped then
           (case json_loads stripped of
              Some (JObj d) \<Rightarrow> (case count_object d of Some n \<Rightarrow> Some n | None \<Rightarrow> count_lines txt)
            | _ \<Rightarrow> count_lines txt)
         else count_lines txt)"

section \<open>Summaries\<close>

definition clip :: "nat \<Rightarrow> string \<Rightarrow> string" where
  "clip n s = (if length s > n then take (n - 3) s @ ''...'' else s)"

definition sample_values :: "json list \<Rightarrow> string" where
  "sample_values xs = py_join ''; '' (map (\<lambda>v. clip 80 (json_dumps v)) (take 3 xs))"

fun first_nonempty_list :: "(string \<times> json) list \<Rightarrow> json list option" where
  "first_nonempty_list [] = None"
| "first_nonempty_list ((k, JList (x # xs)) # d) = Some (x # xs)"
| "first_nonempty_list (_ # d) = first_nonempty_list d"

definition sample_lines :: "string \<Rightarrow> string" where
  "sample_lines txt =
     clip 240 (py_join ''; '' (take 3 (map py_strip (filter (\<lambda>ln. py_strip ln \<noteq> []) (py_splitlines txt)))))"

definition extract_sample :: "string \<Rightarrow> string" where
  "extract_sample txt =
     (if txt = [] then []
      else if prefix ''['' txt then
        (case json_loads txt of Some (JList (x # xs)) \<Rightarrow> sample_values (x # xs) | _ \<Rightarrow> sample_lines txt)
      else if prefix ''{'' txt then
        (case json_loads txt of
           Some (JObj d) \<Rightarrow> (case first_nonempty_list d of Some xs \<Rightarrow> sample_values xs | None \<Rightarrow> sample_lines txt)
         | _ \<Rightarrow> sample_lines txt)
      else sample_lines txt)"

definition extract_top_keys :: "string \<Rightarrow> string" where
  "extract_top_keys txt =
     (if \<not> prefix ''{'' txt then []
      else (case json_loads txt of Some (JObj d) \<Rightarrow> py_join '','' (take 5 (map fst d)) | _ \<Rightarrow> []))"

definition shape_of :: "string \<Rightarrow> string" where
  "shape_of result_text =
     (case count_items result_text of
        Some n \<Rightarrow> ''shape:'' @ show_nat n @ '' items''
      | None \<Rightarrow> ''shape:'' @ show_nat (length (py_strip result_text)) @ '' chars'')"

definition summarize_for_context :: "string \<Rightarrow> json \<Rightarrow> string \<Rightarrow> string" where
  "summarize_for_context tool_name tool_args result_text =
     (let stripped = py_strip result_text; sample = extract_sample stripped; keys = extract_top_keys stripped
      in py_join '' | ''
           ([''[context-trimmed] '' @ tool_name, ''args:'' @ clip 200 (json_dumps tool_args), shape_of result_text]
            @ (if sample \<noteq> [] then [''sample:'' @ sample] else [])
            @ (if keys \<noteq> [] then [''keys:'' @ keys] else [])))"

section \<open>Trimming the history\<close>

fun is_tool_result :: "block \<Rightarrow> bool" where
  "is_tool_result (BToolResult _ _ _) = True"
| "is_tool_result _ = False"

definition tool_result_turn :: "message \<Rightarrow> bool" where
  "tool_result_turn m \<longleftrightarrow> msg_role m = ''user'' \<and> list_ex is_tool_result (msg_content m)"

fun find_tool_use :: "string \<Rightarrow> block list \<Rightarrow> (string \<times> json) option" where
  "find_tool_use i [] = None"
| "find_tool_use i (BToolUse i' n inp # bs) = (if i' = i then Some (n, inp) else find_tool_use i bs)"
| "find_tool_use i (_ # bs) = find_tool_use i bs"

text \<open>The nearest assistant message before the index, searched backwards.\<close>

definition find_paired_tool_use :: "message list \<Rightarrow> nat \<Rightarrow> string \<Rightarrow> string \<times> json" where
  "find_paired_tool_use messages idx tool_use_id =
     (if tool_use_id = [] then (''unknown'', JObj [])
      else (case filter (\<lambda>m. msg_role m = ''assistant'') (rev (take idx messages)) of
              [] \<Rightarrow> (''unknown'', JObj [])
            | m # _ \<Rightarrow>
                (case find_tool_use tool_use_id (msg_content m) of
                   Some p \<Rightarrow> p | None \<Rightarrow> (''unknown'', JObj []))))"

definition trim_item :: "string \<times> json \<Rightarrow> content_item \<Rightarrow> content_item" where
  "trim_item use it =
     (case it of CText t \<Rightarrow> CText (summarize_for_context (fst use) (snd use) t) | CJson v \<Rightarrow> CJson v)"

definition trim_block :: "message list \<Rightarrow> nat \<Rightarrow> block \<Rightarrow> block" where
  "trim_block messages idx b =
     (case b of
        BToolResult i items st \<Rightarrow>
          BToolResult i (map (trim_item (find_paired_tool_use messages idx i)) items) st
      | _ \<Rightarrow> b)"

definition trim_at :: "message list \<Rightarrow> nat \<Rightarrow> message list" where
  "trim_at messages idx =
     messages[idx := (messages ! idx)\<lparr>msg_content := map (trim_block messages idx) (msg_content (messages ! idx))\<rparr>]"

definition tool_result_indices :: "message list \<Rightarrow> nat list" where
  "tool_result_indices messages =
     filter (\<lambda>i. tool_result_turn (messages ! i)) [1..<length messages - 2]"

definition indices_to_trim :: "message list \<Rightarrow> nat \<Rightarrow> nat list" where
  "indices_to_trim messages keep_last_n =
     (let idxs = tool_result_indices messages; effective_n = max keep_last_n 1
      in if length idxs \<le> effective_n then [] else take (length idxs - effective_n) idxs)"

definition trim_message_history :: "bool \<Rightarrow> message list \<Rightarrow> nat \<Rightarrow> message list" where
  "trim_message_history enabled messages keep_last_n =
     (if \<not> enabled then messages else foldl trim_at messages (indices_to_trim messages keep_last_n))"

fun item_chars :: "content_item \<Rightarrow> nat" where
  "item_chars (CText t) = length t"
| "item_chars (CJson v) = 0"

fun block_chars :: "block \<Rightarrow> nat" where
  "block_chars (BText t) = length t"
| "block_chars (BToolResult i items st) = sum_list (map item_chars items)"
| "block_chars (BToolUse i n inp) = 0"

definition context_is_large :: "message list \<Rightarrow> nat \<Rightarrow> bool" where
  "context_is_large messages max_loop_tokens \<longleftrightarrow>
     sum_list (map (\<lambda>m. sum_list (map block_chars (msg_content m))) messages) div 4 > max_loop_tokens * 8 div 10"

section \<open>Lemmas: the protocol view\<close>

text \<open>
  The protocol view of a message: its role and, for each block, what pairs it with others;
  only the content of a tool result is dropped.
\<close>

definition pairing :: "block \<Rightarrow> block" where
  "pairing b = (case b of BToolResult i items st \<Rightarrow> BToolResult i (map (\<lambda>_. CJson JNull) items) st | _ \<Rightarrow> b)"

definition protocol :: "message \<Rightarrow> message" where
  "protocol m = m\<lparr>msg_content := map pairing (msg_content m)\<rparr>"

lemma pairing_trim_block [simp]: "pairing (trim_block ms i b) = pairing b"
  by (cases b) (simp_all add: pairing_def trim_block_def)

lemma length_trim_at [simp]: "length (trim_at ms i) = length ms"
  by (simp add: trim_at_def)

lemma length_foldl_trim [simp]: "length (foldl trim_at ms is) = length ms"
  by (induction "is" arbitrary: ms) simp_all

lemma protocol_trim_at: "i < length ms \<Longrightarrow> map protocol (trim_at ms i) = map protocol ms"
  by (simp add: trim_at_def map_update protocol_def list_update_same_conv)

lemma protocol_foldl_trim:
  "\<forall>i \<in> set is. i < length ms \<Longrightarrow> map protocol (foldl trim_at ms is) = map protocol ms"
  by (induction "is" arbitrary: ms) (simp_all add: protocol_trim_at)

lemma trim_at_other: "j \<noteq> i \<Longrightarrow> trim_at ms i ! j = ms ! j"
  by (simp add: trim_at_def)

lemma foldl_trim_other: "j \<notin> set is \<Longrightarrow> foldl trim_at ms is ! j = ms ! j"
  by (induction "is" arbitrary: ms) (simp_all add: trim_at_other)

lemma indices_to_trim_subset: "set (indices_to_trim ms n) \<subseteq> set (tool_result_indices ms)"
  by (auto simp: indices_to_trim_def Let_def dest: in_set_takeD)

lemma tool_result_indices_bound:
  "i \<in> set (tool_result_indices ms) \<Longrightarrow> 1 \<le> i \<and> i < length ms - 2 \<and> tool_result_turn (ms ! i)"
  by (auto simp: tool_result_indices_def)

lemma sorted_indices: "sorted_wrt (<) (tool_result_indices ms)"
  unfolding tool_result_indices_def by (intro sorted_wrt_filter) simp

section \<open>Lemmas: sizes\<close>

lemma length_py_join:
  "length (py_join sep xs) = sum_list (map length xs) + length sep * (length xs - 1)"
  by (induction sep xs rule: py_join.induct) simp_all

lemma length_clip: "3 \<le> n \<Longrightarrow> length (clip n s) \<le> n"
  by (auto simp: clip_def)

lemma sum_list_clip: "sum_list (map (\<lambda>v. length (clip 80 (f v))) xs) \<le> 80 * length xs"
proof (induction xs)
  case (Cons x xs)
  then show ?case using length_clip [of 80 "f x"] by simp
qed simp

lemma length_sample_values: "length (sample_values xs) \<le> 244"
proof -
  let ?ys = "take 3 xs"
  have "sum_list (map length (map (\<lambda>v. clip 80 (json_dumps v)) ?ys)) \<le> 80 * length ?ys"
    using sum_list_clip [of json_dumps ?ys] by (simp only: map_map o_def)
  moreover have "length ?ys \<le> 3" by simp
  moreover have "length ''; '' * (length ?ys - 1) = 2 * (length ?ys - 1)" by simp
  ultimately show ?thesis unfolding sample_values_def length_py_join length_map by linarith
qed

lemma length_extract_sample: "length (extract_sample txt) \<le> 244"
proof -
  have "length (sample_lines txt) \<le> 244"
    unfolding sample_lines_def by (rule le_trans [OF length_clip]) simp_all
  then show ?thesis
    using length_sample_values
    by (simp add: extract_sample_def del: json_dumps.simps split: option.split json.split list.split)
qed

lemma length_digits_rev: "n < 10 ^ k \<Longrightarrow> 0 < k \<Longrightarrow> length (digits_rev n) \<le> k"
proof (induction n arbitrary: k rule: digits_rev.induct)
  case (1 n)
  show ?case
  proof (cases "n < 10")
    case True
    then show ?thesis using 1 by (simp add: digits_rev.simps [of n])
  next
    case False
    then obtain j where k: "k = Suc j" "0 < j" using 1(2,3) by (cases k) (auto, cases "k - 1", auto)
    then have "n div 10 < 10 ^ j" using 1(2) by simp
    from 1(1) [OF False this k(2)] False k show ?thesis by (simp add: digits_rev.simps [of n])
  qed
qed

lemma length_show_nat: "n < 10 ^ k \<Longrightarrow> 0 < k \<Longrightarrow> length (show_nat n) \<le> k"
  by (simp add: show_nat_def length_digits_rev)

section \<open>Properties\<close>

text \<open>
  C35: trimming keeps the conversation protocol: the number, roles and block structure of the
  messages, and every identifier that pairs a tool use with its result, are unchanged; the first
  message and the last two are verbatim, and so is every message that is not a tool-result turn.
\<close>

theorem trimming_keeps_protocol:
  "length (trim_message_history on ms n) = length ms \<and>
   map protocol (trim_message_history on ms n) = map protocol ms \<and>
   (\<forall>i. i = 0 \<or> length ms - 2 \<le> i \<or> \<not> tool_result_turn (ms ! i) \<longrightarrow> trim_message_history on ms n ! i = ms ! i)"
proof -
  have b: "\<forall>i \<in> set (indices_to_trim ms n). 1 \<le> i \<and> i < length ms - 2 \<and> tool_result_turn (ms ! i)"
    using indices_to_trim_subset tool_result_indices_bound by blast
  then have "\<forall>i \<in> set (indices_to_trim ms n). i < length ms" by fastforce
  then show ?thesis
    using b by (auto simp: trim_message_history_def protocol_foldl_trim intro!: foldl_trim_other)
qed

theorem trimming_keeps_protocol_witness:
  "trim_message_history True [\<lparr>msg_role = ''user'', msg_content = [BText ''q'']\<rparr>] 1 ! 0 =
     \<lparr>msg_role = ''user'', msg_content = [BText ''q'']\<rparr>"
  using trimming_keeps_protocol [of True "[\<lparr>msg_role = ''user'', msg_content = [BText ''q'']\<rparr>]" 1] by fastforce

text \<open>
  The most recent results stay verbatim: a message that trimming changes is followed, before
  the last two messages, by at least the configured number of tool-result turns, none of which
  is changed.
\<close>

theorem recent_results_stay_verbatim:
  assumes "trim_message_history on ms n ! i \<noteq> ms ! i"
  shows "\<exists>kept. max n 1 \<le> card kept \<and>
    kept \<subseteq> {j. i < j \<and> j < length ms - 2 \<and> tool_result_turn (ms ! j)} \<and>
    (\<forall>j \<in> kept. trim_message_history on ms n ! j = ms ! j)"
proof -
  let ?l = "tool_result_indices ms" and ?n = "max n 1"
  have on: "on" and i: "i \<in> set (indices_to_trim ms n)"
    using assms foldl_trim_other [of i "indices_to_trim ms n" ms] by (auto simp: trim_message_history_def split: if_splits)
  then have big: "length ?l > ?n" and i': "i \<in> set (take (length ?l - ?n) ?l)"
    by (auto simp: indices_to_trim_def Let_def split: if_splits)
  let ?kept = "set (drop (length ?l - ?n) ?l)"
  have s: "sorted_wrt (<) (take (length ?l - ?n) ?l @ drop (length ?l - ?n) ?l)" using sorted_indices by simp
  then have gt: "\<forall>x \<in> set (take (length ?l - ?n) ?l). \<forall>j \<in> ?kept. x < j"
    unfolding sorted_wrt_append by blast
  have d: "distinct ?l" unfolding tool_result_indices_def by simp
  have "card ?kept = ?n" using big d by (simp add: distinct_card)
  moreover have "?kept \<subseteq> {j. i < j \<and> j < length ms - 2 \<and> tool_result_turn (ms ! j)}"
    using gt i' tool_result_indices_bound [of _ ms] in_set_dropD [of _ "length ?l - ?n" ?l] by blast
  moreover have "\<forall>j \<in> ?kept. trim_message_history on ms n ! j = ms ! j"
  proof
    fix j assume "j \<in> ?kept"
    with gt have "j \<notin> set (take (length ?l - ?n) ?l)" by blast
    then have "j \<notin> set (indices_to_trim ms n)" by (auto simp: indices_to_trim_def Let_def split: if_splits)
    then show "trim_message_history on ms n ! j = ms ! j"
      by (simp add: trim_message_history_def foldl_trim_other)
  qed
  ultimately show ?thesis by (intro exI [of _ ?kept]) simp
qed

text \<open>A history with two tool calls, the second of which is the current turn.\<close>

definition demo_history :: "string \<Rightarrow> message list" where
  "demo_history txt =
     [\<lparr>msg_role = ''user'', msg_content = [BText ''q'']\<rparr>,
      \<lparr>msg_role = ''assistant'', msg_content = [BToolUse ''t1'' ''get_pods'' (JObj [])]\<rparr>,
      \<lparr>msg_role = ''user'', msg_content = [BToolResult ''t1'' [CText txt] ''success'']\<rparr>,
      \<lparr>msg_role = ''assistant'', msg_content = [BToolUse ''t2'' ''get_logs'' (JObj [])]\<rparr>,
      \<lparr>msg_role = ''user'', msg_content = [BToolResult ''t2'' [CText ''second''] ''success'']\<rparr>,
      \<lparr>msg_role = ''assistant'', msg_content = [BToolUse ''t3'' ''get_logs'' (JObj [])]\<rparr>,
      \<lparr>msg_role = ''user'', msg_content = [BToolResult ''t3'' [CText ''third''] ''success'']\<rparr>]"

lemma demo_history_indices: "indices_to_trim (demo_history txt) 1 = [2]"
proof -
  have u: "[1..<5] = [1, 2, 3, 4::nat]" by (simp add: upt_rec)
  have "tool_result_indices (demo_history txt) = [2, 4]"
    unfolding tool_result_indices_def
    by (simp add: demo_history_def u tool_result_turn_def eval_nat_numeral)
  then show ?thesis by (simp add: indices_to_trim_def)
qed

lemma demo_history_trim:
  "trim_message_history True (demo_history txt) 1 ! 2 =
     \<lparr>msg_role = ''user'',
      msg_content = [BToolResult ''t1'' [CText (summarize_for_context ''get_pods'' (JObj []) txt)] ''success'']\<rparr>"
  unfolding trim_message_history_def demo_history_indices
  by (simp add: trim_at_def trim_block_def trim_item_def find_paired_tool_use_def demo_history_def eval_nat_numeral)

lemma summary_neq_short: "txt = ''ok'' \<Longrightarrow> summarize_for_context n inp txt \<noteq> txt"
  by (simp add: summarize_for_context_def Let_def shape_of_def)

theorem recent_results_stay_verbatim_witness:
  "\<exists>kept. max 1 1 \<le> card kept \<and>
    kept \<subseteq> {j. 2 < j \<and> j < length (demo_history ''ok'') - 2 \<and> tool_result_turn (demo_history ''ok'' ! j)} \<and>
    (\<forall>j \<in> kept. trim_message_history True (demo_history ''ok'') 1 ! j = demo_history ''ok'' ! j)"
proof (rule recent_results_stay_verbatim)
  show "trim_message_history True (demo_history ''ok'') 1 ! 2 \<noteq> demo_history ''ok'' ! 2"
    unfolding demo_history_trim using summary_neq_short [of "''ok''"] by (simp add: demo_history_def eval_nat_numeral)
qed

text \<open>
  A summary is small: for a result that is not a JSON object, whatever its length (below
  ten to the twelfth), the replacement has at most 550 characters besides the tool's name.
\<close>

theorem summary_is_bounded:
  assumes "\<not> prefix ''{'' (py_strip txt)" "length txt < 10 ^ 12" "\<And>n. count_items txt = Some n \<Longrightarrow> n < 10 ^ 12"
  shows "length (summarize_for_context tool args txt) \<le> length tool + 550"
proof -
  have "length (shape_of txt) \<le> 24"
  proof (cases "count_items txt")
    case None
    have "length (py_strip txt) < 10 ^ 12" using length_py_strip_le [of "txt"] assms(2) by linarith
    from length_show_nat [OF this] show ?thesis by (simp add: shape_of_def None)
  next
    case (Some n)
    from length_show_nat [OF assms(3) [OF Some]] show ?thesis by (simp add: shape_of_def Some)
  qed
  moreover have "length (clip 200 (json_dumps args)) \<le> 200" by (rule length_clip) simp
  moreover have "extract_top_keys (py_strip txt) = []" using assms(1) by (simp add: extract_top_keys_def)
  ultimately show ?thesis
    using length_extract_sample [of "py_strip txt"]
    by (simp add: summarize_for_context_def Let_def length_py_join)
qed

theorem summary_is_bounded_witness:
  "length (summarize_for_context ''get_pods'' (JObj []) ''ok'') \<le> length ''get_pods'' + 550"
  by (rule summary_is_bounded)
    (simp_all add: py_strip_def is_space_def count_items_def count_lines_def py_splitlines_def is_line_break_def Let_def)

end
