(* ===== verification/StepEvents.thy ===== *)
theory StepEvents
  imports Prelude
begin

text \<open>
  The events the streaming agentic loop yields (the dataclasses of
  src/src/core/agentic_loop_streaming.py), shared by the loop that emits them and by the
  server-sent-events encoder that consumes them.
\<close>

datatype step_event =
    StepThinking string
  | StepToolCall (tool_name: string) (args_display: string)
  | StepToolResult string string
  | StepFinalChunk string
  | StepRouting (routed_agent: string) (routed_confidence: rat) (reasoning: string) (sub_query: string)
  | StepDone (finish_reason: string)

fun is_trace :: "step_event \<Rightarrow> bool" where
  "is_trace (StepThinking _) = True"
| "is_trace (StepToolCall _ _) = True"
| "is_trace (StepToolResult _ _) = True"
| "is_trace (StepRouting _ _ _ _) = True"
| "is_trace (StepFinalChunk _) = False"
| "is_trace (StepDone _) = False"

text \<open>Python's \<open>round\<close> to an integer: halves go to the even neighbour.\<close>

definition py_round :: "rat \<Rightarrow> int" where
  "py_round x =
     (let f = \<lfloor>x\<rfloor>; d = x - of_int f
      in if d < 1 / 2 then f else if d > 1 / 2 then f + 1 else if even f then f else f + 1)"

lemma py_round_of_int [simp]: "py_round (of_int n) = n"
  by (simp add: py_round_def)

lemma py_round_near: "\<bar>of_int (py_round x) - x\<bar> \<le> 1 / 2"
  unfolding py_round_def Let_def using of_int_floor_le [of x] by (auto simp: abs_if) linarith+

end
