(* ===== verification/Skills.thy ===== *)
theory Skills
  imports Regex AgenticLoop
begin

text \<open>
  Skills, src/src/core/skills.py: parsing of SKILL.md, discovery, selection by keyword and
  rendering; and the triage of src/src/core/triage.py.  The YAML loader, the file system and the
  environment variable that caps the selection are parameters.
\<close>

section \<open>Skills\<close>

record skill =
  sk_name :: string
  sk_description :: string
  sk_keywords :: "string list"
  sk_body :: string

definition is_token_char :: "char \<Rightarrow> bool" where
  "is_token_char c = (let n = of_char c :: nat in 97 \<le> n \<and> n \<le> 122 \<or> 48 \<le> n \<and> n \<le> 57)"

definition WORD_RE :: rx where
  "WORD_RE = rx_plus (Cls is_token_char)"

definition keyword_matches :: "string \<Rightarrow> string \<Rightarrow> bool" where
  "keyword_matches q kw =
     (let k = py_strip (py_lower kw)
      in if k = [] then False
         else if CHR '' '' \<in> set k then contains k q
         else k \<in> set (findall WORD_RE q))"

definition skill_matches :: "skill \<Rightarrow> string \<Rightarrow> bool" where
  "skill_matches s query = list_ex (keyword_matches (py_lower query)) (sk_keywords s)"

text \<open>
  The front-matter expression.  After the opening dashes a run of white space must hold a line
  feed; the search takes the last line feed of the run first, and from there the nearest closing
  line.
\<close>

fun until_closing :: "string \<Rightarrow> (string \<times> string) option" where
  "until_closing [] = None"
| "until_closing (c # cs) =
     (if prefix (nl @ ''---'') (c # cs) then Some ([], drop 4 (c # cs))
      else (case until_closing cs of None \<Rightarrow> None | Some (meta, body) \<Rightarrow> Some (c # meta, body)))"

fun meta_after :: "string \<Rightarrow> (string \<times> string) option" where
  "meta_after [] = None"
| "meta_after (c # cs) =
     (if \<not> is_space c then None
      else (case meta_after cs of
              Some r \<Rightarrow> Some r
            | None \<Rightarrow> if c = char_nl then until_closing cs else None))"

definition frontmatter :: "string \<Rightarrow> (string \<times> string) option" where
  "frontmatter txt =
     (let t = dropWhile is_space txt in if prefix ''---'' t then meta_after (drop 3 t) else None)"

text \<open>\<open>str\<close> of a loaded value.\<close>

fun py_str_item :: "json \<Rightarrow> string" where
  "py_str_item JNull = ''None''"
| "py_str_item (JBool b) = (if b then ''True'' else ''False'')"
| "py_str_item (JInt n) = show_int n"
| "py_str_item (JReal s) = s"
| "py_str_item (JStr s) = py_repr s"
| "py_str_item (JList xs) = ''['' @ py_join '', '' (map py_str_item xs) @ '']''"
| "py_str_item (JObj ms) = ''{'' @ py_join '', '' (map (\<lambda>(k, v). py_repr k @ '': '' @ py_str_item v) ms) @ ''}''"

definition py_str :: "json \<Rightarrow> string" where
  "py_str v = (case v of JStr s \<Rightarrow> s | _ \<Rightarrow> py_str_item v)"

definition or_else :: "json option \<Rightarrow> json \<Rightarrow> json" where
  "or_else v d = (case v of None \<Rightarrow> d | Some x \<Rightarrow> if json_truthy x then x else d)"

text \<open>The list of keywords; None where iterating the value raises.\<close>

definition keyword_list :: "json \<Rightarrow> string list option" where
  "keyword_list v =
     (case v of
        JStr s \<Rightarrow> Some [s]
      | JList xs \<Rightarrow> Some (map py_str xs)
      | JObj ms \<Rightarrow> Some (map fst ms)
      | _ \<Rightarrow> None)"

type_synonym yaml_loader = "string \<Rightarrow> exn + json"

definition parse_skill :: "yaml_loader \<Rightarrow> string \<Rightarrow> string \<Rightarrow> exn + skill" where
  "parse_skill yaml txt fallback_name =
     (case frontmatter txt of
        None \<Rightarrow> Inr \<lparr>sk_name = fallback_name, sk_description = [], sk_keywords = [], sk_body = py_strip txt\<rparr>
      | Some (raw_meta, body) \<Rightarrow>
          (case yaml raw_meta of
             Inl e \<Rightarrow> Inl e
           | Inr loaded \<Rightarrow>
               (let meta = (case loaded of JObj ms \<Rightarrow> ms | _ \<Rightarrow> [])
                in case keyword_list (or_else (dict_get meta ''keywords'') (JList [])) of
                     None \<Rightarrow> Inl ''TypeError''
                   | Some keywords \<Rightarrow>
                       Inr \<lparr>sk_name = py_str (or_else (dict_get meta ''name'') (JStr fallback_name)),
                            sk_description = py_str (or_else (dict_get meta ''description'') (JStr [])),
                            sk_keywords = keywords, sk_body = py_strip body\<rparr>)))"

text \<open>
  A directory of the skills folder, in sorted order: its name and, when it is a directory with a
  SKILL.md, what reading that file gives.
\<close>

record skill_entry =
  se_name :: string
  se_file :: "(exn + string) option"

type_synonym skill_registry = "(string \<times> skill) list"

definition load_skill :: "yaml_loader \<Rightarrow> skill_registry \<Rightarrow> skill_entry \<Rightarrow> skill_registry" where
  "load_skill yaml r e =
     (case se_file e of
        None \<Rightarrow> r
      | Some (Inl err) \<Rightarrow> r
      | Some (Inr txt) \<Rightarrow>
          (case parse_skill yaml txt (se_name e) of Inl err \<Rightarrow> r | Inr s \<Rightarrow> dict_set r (sk_name s) s))"

definition discover_skills :: "yaml_loader \<Rightarrow> skill_entry list \<Rightarrow> skill_registry" where
  "discover_skills yaml entries = foldl (load_skill yaml) [] entries"

text \<open>Python's slice up to \<open>n\<close>, which counts from the end when negative.\<close>

definition slice_to :: "int \<Rightarrow> 'a list \<Rightarrow> 'a list" where
  "slice_to n xs = (if 0 \<le> n then take (nat n) xs else take (nat (int (length xs) + n)) xs)"

definition select_skills :: "skill_registry \<Rightarrow> int \<Rightarrow> string list \<Rightarrow> string \<Rightarrow> skill list" where
  "select_skills r max_skills allowed query =
     (let selected = filter (\<lambda>s. skill_matches s query) (concat (map (\<lambda>n. case dict_get r n of None \<Rightarrow> [] | Some s \<Rightarrow> [s]) allowed))
      in if max_skills < int (length selected) then slice_to max_skills selected else selected)"

definition render_skills :: "skill list \<Rightarrow> string" where
  "render_skills skills =
     py_join (nl @ nl) (map (\<lambda>s. ''## Skill: '' @ sk_name s @ nl @ sk_body s) skills)"

section \<open>Triage\<close>

definition INVESTIGATION_KEYWORDS :: "string list" where
  "INVESTIGATION_KEYWORDS =
     [''why'', ''por que'', ''porque'', ''causa'', ''latency'', ''latencia'', ''slow'', ''error rate'', ''down'',
      ''crashloop'', ''oom'', ''failing'', ''degraded'', ''after deploy'', ''depois do deploy'', ''started failing'',
      ''comecou a falhar'', ''timeout'', ''500'', ''503'', ''investigate'', ''investigar'', ''rca'', ''root cause'']"

definition TRIVIAL_KEYWORDS :: "string list" where
  "TRIVIAL_KEYWORDS =
     [''how do i'', ''como configurar'', ''how to'', ''como faco'', ''what is'', ''o que e'', ''list'', ''liste'',
      ''show me'', ''mostre'']"

definition MUTATION_REQUEST_KEYWORDS :: "string list" where
  "MUTATION_REQUEST_KEYWORDS = [''authorize you to'', ''go ahead and'', ''please go ahead'']"

definition should_investigate :: "string \<Rightarrow> bool \<Rightarrow> bool" where
  "should_investigate symptom force =
     (if force then True
      else (let lower = py_lower symptom;
                has = (\<lambda>kws. list_ex (\<lambda>kw. contains kw lower) kws)
            in has INVESTIGATION_KEYWORDS \<and> \<not> has TRIVIAL_KEYWORDS \<and> \<not> has MUTATION_REQUEST_KEYWORDS))"

section \<open>Tokens are maximal runs\<close>

text \<open>The greedy match of one or more characters of a class ends where the run ends.\<close>

definition pos_after :: "char option \<Rightarrow> string \<Rightarrow> char option" where
  "pos_after p w = (if w = [] then p else Some (last w))"

lemma rep_match_run:
  "length s < k \<Longrightarrow>
   \<exists>sts. rep_match k (matches (Cls P)) 0 None (p, s) = (pos_after p (takeWhile P s), dropWhile P s) # sts"
proof (induction k arbitrary: p s)
  case (Suc k)
  show ?case
  proof (cases s)
    case (Cons c cs)
    show ?thesis
    proof (cases "P c")
      case True
      from Suc.IH [of cs "Some c"] Suc.prems Cons obtain sts where
        "rep_match k (matches (Cls P)) 0 None (Some c, cs) = (pos_after (Some c) (takeWhile P cs), dropWhile P cs) # sts"
        by auto
      with Cons True show ?thesis by (auto simp: pos_after_def)
    qed (use Cons in \<open>simp add: pos_after_def\<close>)
  qed (simp add: pos_after_def)
qed simp

lemma matches_plus_Cls:
  "matches (rx_plus (Cls P)) (p, s) = [] \<longleftrightarrow> takeWhile P s = []"
  "takeWhile P s \<noteq> [] \<Longrightarrow> \<exists>sts. matches (rx_plus (Cls P)) (p, s) = (pos_after p (takeWhile P s), dropWhile P s) # sts"
proof -
  have "(takeWhile P s = [] \<longrightarrow> matches (rx_plus (Cls P)) (p, s) = []) \<and> (takeWhile P s \<noteq> [] \<longrightarrow>
     (\<exists>sts. matches (rx_plus (Cls P)) (p, s) = (pos_after p (takeWhile P s), dropWhile P s) # sts))"
  proof (cases s)
    case (Cons c cs)
    then show ?thesis
      using rep_match_run [of cs "Suc (Suc (length cs))" P "Some c"]
      by (auto simp: rx_plus_def pos_after_def)
  qed (simp add: rx_plus_def)
  then show "matches (rx_plus (Cls P)) (p, s) = [] \<longleftrightarrow> takeWhile P s = []"
    "takeWhile P s \<noteq> [] \<Longrightarrow> \<exists>sts. matches (rx_plus (Cls P)) (p, s) = (pos_after p (takeWhile P s), dropWhile P s) # sts"
    by auto
qed

lemma search_run:
  "search (rx_plus (Cls P)) p s =
     (let r = dropWhile (\<lambda>c. \<not> P c) s
      in if r = [] then None
         else Some (takeWhile (\<lambda>c. \<not> P c) s, takeWhile P r, Some (last (takeWhile P r)), dropWhile P r))"
proof (induction s arbitrary: p)
  case Nil
  then show ?case using matches_plus_Cls(1) [of P p "[]"] by (simp add: search.simps [of _ _ "[]"])
next
  case (Cons c s)
  show ?case
  proof (cases "P c")
    case True
    then obtain sts where "matches (rx_plus (Cls P)) (p, c # s) = (pos_after p (takeWhile P (c # s)), dropWhile P (c # s)) # sts"
      using matches_plus_Cls(2) [of P "c # s" p] by auto
    moreover have "take (length (c # s) - length (dropWhile P (c # s))) (c # s) = takeWhile P (c # s)"
      by (metis append_eq_conv_conj diff_add_inverse2 length_append takeWhile_dropWhile_id)
    ultimately show ?thesis using True by (simp add: search.simps [of _ _ "c # s"] pos_after_def)
  next
    case False
    then have "matches (rx_plus (Cls P)) (p, c # s) = []" using matches_plus_Cls(1) [of P p "c # s"] by simp
    then show ?thesis using False Cons [of "Some c"] by (simp add: search.simps [of _ _ "c # s"] Let_def)
  qed
qed

text \<open>\<open>whole_run P w s\<close>: \<open>w\<close> is a run of \<open>P\<close> characters of \<open>s\<close> that cannot be extended.\<close>

definition whole_run :: "(char \<Rightarrow> bool) \<Rightarrow> string \<Rightarrow> string \<Rightarrow> bool" where
  "whole_run P w s \<longleftrightarrow> w \<noteq> [] \<and> list_all P w \<and>
     (\<exists>pre post. s = pre @ w @ post \<and> (pre = [] \<or> \<not> P (last pre)) \<and> (post = [] \<or> \<not> P (hd post)))"

lemma whole_run_Cons_not: "\<not> P c \<Longrightarrow> whole_run P w (c # s) \<longleftrightarrow> whole_run P w s"
proof
  assume c: "\<not> P c" and "whole_run P w (c # s)"
  then obtain pre post where w: "w \<noteq> []" "list_all P w" "c # s = pre @ w @ post"
    "pre = [] \<or> \<not> P (last pre)" "post = [] \<or> \<not> P (hd post)" by (auto simp: whole_run_def)
  from w(1-3) c obtain pre' where "pre = c # pre'" "s = pre' @ w @ post"
    by (cases pre) (auto simp: Cons_eq_append_conv)
  with w show "whole_run P w s" unfolding whole_run_def by (auto split: if_splits)
next
  assume c: "\<not> P c" and "whole_run P w s"
  then obtain pre post where w: "w \<noteq> []" "list_all P w" "s = pre @ w @ post"
    "pre = [] \<or> \<not> P (last pre)" "post = [] \<or> \<not> P (hd post)" by (auto simp: whole_run_def)
  then show "whole_run P w (c # s)"
    unfolding whole_run_def using c by (intro conjI exI [of _ "c # pre"] exI [of _ post]) auto
qed

lemma whole_run_skip: "whole_run P w s \<longleftrightarrow> whole_run P w (dropWhile (\<lambda>c. \<not> P c) s)"
  by (induction s) (simp_all add: whole_run_Cons_not)

lemma whole_run_first:
  assumes "list_all P u" "u \<noteq> []" "r = [] \<or> \<not> P (hd r)"
  shows "whole_run P w (u @ r) \<longleftrightarrow> w = u \<or> whole_run P w r"
proof
  assume "whole_run P w (u @ r)"
  then obtain pre post where w: "w \<noteq> []" "list_all P w" "u @ r = pre @ w @ post"
    "pre = [] \<or> \<not> P (last pre)" "post = [] \<or> \<not> P (hd post)" by (auto simp: whole_run_def)
  show "w = u \<or> whole_run P w r"
  proof (cases "length u \<le> length pre")
    case True
    then obtain pre' where "pre = u @ pre'" "r = pre' @ w @ post"
      using w(3) by (auto simp: append_eq_append_conv2 intro: that)
    with w have "whole_run P w r" unfolding whole_run_def
      by (intro conjI exI [of _ pre'] exI [of _ post]) (auto split: if_splits)
    then show ?thesis ..
  next
    case False
    from w(3) obtain u' where "u = pre @ u' \<and> u' @ r = w @ post \<or> u @ u' = pre \<and> r = u' @ w @ post"
      by (auto simp: append_eq_append_conv2)
    with False have u': "u = pre @ u'" "u' \<noteq> []" "u' @ r = w @ post" by auto
    have "pre = []" using w(4) assms(1) u'(1) by (metis last_in_set list_all_append list_all_iff)
    have "u' = w"
    proof (cases "length u' \<le> length w")
      case True
      then obtain v where v: "w = u' @ v" "r = v @ post" using u'(3) by (auto simp: append_eq_append_conv2)
      then have "v = []" using w(2) assms(3) by (cases v) auto
      with v show ?thesis by simp
    next
      case False
      then obtain v where v: "u' = w @ v" "post = v @ r" "v \<noteq> []" using u'(3) by (auto simp: append_eq_append_conv2)
      then have "P (hd post)" using assms(1) u'(1) by (cases v) auto
      with w(5) v show ?thesis by simp
    qed
    with u'(1) \<open>pre = []\<close> show ?thesis by simp
  qed
next
  assume "w = u \<or> whole_run P w r"
  then show "whole_run P w (u @ r)"
  proof
    assume "w = u"
    then show ?thesis using assms unfolding whole_run_def by (intro conjI exI [of _ "[]"] exI [of _ r]) auto
  next
    assume "whole_run P w r"
    then obtain pre post where w: "w \<noteq> []" "list_all P w" "r = pre @ w @ post"
      "pre = [] \<or> \<not> P (last pre)" "post = [] \<or> \<not> P (hd post)" by (auto simp: whole_run_def)
    have "pre \<noteq> []" using w(1-3) assms(3) by (cases w) auto
    with w show ?thesis unfolding whole_run_def by (intro conjI exI [of _ "u @ pre"] exI [of _ post]) auto
  qed
qed

lemma findall_runs:
  "length s \<le> k \<Longrightarrow> w \<in> set (findall_from k (rx_plus (Cls P)) (p, s)) \<longleftrightarrow> whole_run P w s"
proof (induction k arbitrary: p s)
  case 0
  then show ?case by (simp add: whole_run_def)
next
  case (Suc k)
  let ?r = "dropWhile (\<lambda>c. \<not> P c) s"
  show ?case
  proof (cases "?r = []")
    case True
    have "\<not> whole_run P w []" by (simp add: whole_run_def)
    then show ?thesis unfolding whole_run_skip [of P w s] True using True by (simp add: search_run)
  next
    case False
    then have h: "P (hd ?r)" using hd_dropWhile by blast
    then have t: "takeWhile P ?r \<noteq> []" using False by (cases ?r) auto
    have l: "length (dropWhile P ?r) \<le> k"
    proof -
      have "length (takeWhile P ?r) + length (dropWhile P ?r) = length ?r"
        by (metis length_append takeWhile_dropWhile_id)
      moreover have "length ?r \<le> length s" by (rule length_dropWhile_le)
      moreover have "length (takeWhile P ?r) \<noteq> 0" using t by simp
      ultimately show ?thesis using Suc.prems by linarith
    qed
    have "dropWhile P ?r = [] \<or> \<not> P (hd (dropWhile P ?r))" using hd_dropWhile by blast
    then have "whole_run P w (takeWhile P ?r @ dropWhile P ?r) \<longleftrightarrow> w = takeWhile P ?r \<or> whole_run P w (dropWhile P ?r)"
      using t by (intro whole_run_first) (auto simp: list_all_iff dest: set_takeWhileD)
    then show ?thesis using False Suc.IH [OF l] whole_run_skip [of P w s] by (auto simp: search_run Let_def)
  qed
qed

section \<open>Properties\<close>

text \<open>
  A single-word keyword selects a skill exactly when it stands in the query as a whole word: as
  a run of letters and digits that no letter or digit extends, so that "oom" is not found in
  "room".
\<close>

theorem keyword_matches_whole_words:
  "py_strip (py_lower kw) \<noteq> [] \<and> CHR '' '' \<notin> set (py_strip (py_lower kw)) \<Longrightarrow>
   keyword_matches (py_lower query) kw \<longleftrightarrow> whole_run is_token_char (py_strip (py_lower kw)) (py_lower query)"
  using findall_runs [of "py_lower query" "length (py_lower query)" "py_strip (py_lower kw)" is_token_char None]
  by (simp add: keyword_matches_def Let_def WORD_RE_def findall_def)

theorem keyword_matches_whole_words_witness:
  "keyword_matches (py_lower ''pod OOM killed'') ''oom'' \<longleftrightarrow> whole_run is_token_char ''oom'' ''pod oom killed''"
proof -
  have "py_strip (py_lower ''oom'') = ''oom''" "py_lower ''pod OOM killed'' = ''pod oom killed''" by code_simp+
  with keyword_matches_whole_words [of "''oom''" "''pod OOM killed''"] show ?thesis by simp
qed

text \<open>
  A keyword with a hyphen and no space, as many of the shipped skills have, never matches: no token
  of a query contains a hyphen.
\<close>

lemma hyphenated_keyword_never_matches:
  assumes "CHR ''-'' \<in> set (py_strip (py_lower kw))" "CHR '' '' \<notin> set (py_strip (py_lower kw))"
  shows "\<not> keyword_matches q kw"
proof -
  have "\<not> is_token_char CHR ''-''" by code_simp
  then have "\<not> whole_run is_token_char (py_strip (py_lower kw)) q"
    using assms(1) by (auto simp: whole_run_def list_all_iff)
  with assms show ?thesis
    using findall_runs [of q "length q" "py_strip (py_lower kw)" is_token_char None]
    by (auto simp: keyword_matches_def Let_def WORD_RE_def findall_def)
qed

lemma slice_to_take: "0 \<le> n \<Longrightarrow> (if n < int (length xs) then slice_to n xs else xs) = take (nat n) xs"
  by (simp add: slice_to_def)

text \<open>
  A request gets few skills, all its own: the selection is the first "max_skills" of the
  registered skills on the agent's list, in the list's order, that match the query.
\<close>

theorem selected_skills_are_allowed_and_few:
  assumes "0 \<le> max_skills"
  shows "select_skills r max_skills allowed query =
      take (nat max_skills) (filter (\<lambda>s. skill_matches s query) (map the (filter (\<lambda>v. v \<noteq> None) (map (dict_get r) allowed)))) \<and>
    length (select_skills r max_skills allowed query) \<le> nat max_skills"
proof -
  have e: "concat (map (\<lambda>n. case dict_get r n of None \<Rightarrow> [] | Some s \<Rightarrow> [s]) allowed) =
      map the (filter (\<lambda>v. v \<noteq> None) (map (dict_get r) allowed))"
    by (induction allowed) (auto split: option.splits)
  have "select_skills r max_skills allowed query =
      take (nat max_skills) (filter (\<lambda>s. skill_matches s query) (map the (filter (\<lambda>v. v \<noteq> None) (map (dict_get r) allowed))))"
    unfolding select_skills_def Let_def e slice_to_take [OF assms] ..
  then show ?thesis by (simp only: length_take min.cobounded2 simp_thms)
qed

theorem selected_skills_are_allowed_and_few_witness:
  "length (select_skills [(''a'', \<lparr>sk_name = ''a'', sk_description = [], sk_keywords = [''oom''], sk_body = []\<rparr>)] 3
     [''a'', ''b''] ''pod oom'') \<le> nat 3"
  using selected_skills_are_allowed_and_few [of 3] by simp

text \<open>The documentation lets any investigation keyword win; a trivial keyword beats it.\<close>

lemma trivial_keyword_beats_investigation:
  "\<not> should_investigate ''show me why checkout is down'' False \<and> should_investigate ''why is checkout down'' False"
  by code_simp

end
