(* ===== verification/Cache.thy ===== *)
theory Cache
  imports JsonRoundtrip Skills
begin

text \<open>
  The cache of src/src/core/cache.py: JSON texts in Redis under \<open>namespace:key\<close>, every operation
  failing open.  The Redis client is a parameter: its four calls answer or raise.  A client that
  could not be built is None.
\<close>

record 's cache_ops =
  co_get :: "string \<Rightarrow> 's \<Rightarrow> (exn + string option) \<times> 's"
  co_setex :: "string \<Rightarrow> int \<Rightarrow> string \<Rightarrow> 's \<Rightarrow> (exn + unit) \<times> 's"
  co_delete :: "string \<Rightarrow> 's \<Rightarrow> (exn + unit) \<times> 's"
  co_exists :: "string \<Rightarrow> 's \<Rightarrow> (exn + int) \<times> 's"

type_synonym 's cache_store = "'s cache_ops option"

definition full_key :: "string \<Rightarrow> string \<Rightarrow> string" where
  "full_key namespace key = namespace @ '':'' @ key"

text \<open>None stands for Python's None: a stored \<open>null\<close> reads as None too.\<close>

definition cache_get :: "'s cache_store \<Rightarrow> string \<Rightarrow> string \<Rightarrow> 's \<Rightarrow> json option \<times> 's" where
  "cache_get store key namespace s =
     (case store of
        None \<Rightarrow> (None, s)
      | Some r \<Rightarrow>
          (case co_get r (full_key namespace key) s of
             (Inl e, s') \<Rightarrow> (None, s')
           | (Inr None, s') \<Rightarrow> (None, s')
           | (Inr (Some value), s') \<Rightarrow>
               (if value = [] then None
                else (case json_loads value of
                        None \<Rightarrow> None
                      | Some v \<Rightarrow> if v = JNull then None else Some v), s')))"

definition cache_set :: "'s cache_store \<Rightarrow> string \<Rightarrow> json \<Rightarrow> int \<Rightarrow> string \<Rightarrow> 's \<Rightarrow> 's" where
  "cache_set store key value ttl namespace s =
     (case store of
        None \<Rightarrow> s
      | Some r \<Rightarrow> snd (co_setex r (full_key namespace key) ttl (json_dumps value) s))"

definition cache_delete :: "'s cache_store \<Rightarrow> string \<Rightarrow> string \<Rightarrow> 's \<Rightarrow> 's" where
  "cache_delete store key namespace s =
     (case store of None \<Rightarrow> s | Some r \<Rightarrow> snd (co_delete r (full_key namespace key) s))"

definition cache_exists :: "'s cache_store \<Rightarrow> string \<Rightarrow> string \<Rightarrow> 's \<Rightarrow> bool \<times> 's" where
  "cache_exists store key namespace s =
     (case store of
        None \<Rightarrow> (False, s)
      | Some r \<Rightarrow>
          (case co_exists r (full_key namespace key) s of
             (Inl e, s') \<Rightarrow> (False, s')
           | (Inr n, s') \<Rightarrow> (0 < n, s')))"

section \<open>The service\<close>

text \<open>
  The documented behaviour of the service while it is up and no entry expires, through the view
  \<open>look\<close> of its entries; and a service whose every call raises.
\<close>

definition cache_laws :: "'s cache_ops \<Rightarrow> ('s \<Rightarrow> string \<Rightarrow> string option) \<Rightarrow> bool" where
  "cache_laws r look \<longleftrightarrow>
     (\<forall>k s. fst (co_get r k s) = Inr (look s k) \<and> look (snd (co_get r k s)) = look s) \<and>
     (\<forall>k t v s. 0 < t \<longrightarrow> fst (co_setex r k t v s) = Inr () \<and> look (snd (co_setex r k t v s)) = (look s)(k \<mapsto> v)) \<and>
     (\<forall>k s. fst (co_delete r k s) = Inr () \<and> look (snd (co_delete r k s)) = (look s)(k := None)) \<and>
     (\<forall>k s. fst (co_exists r k s) = Inr (if look s k = None then 0 else 1) \<and> look (snd (co_exists r k s)) = look s)"

definition cache_down :: "'s cache_ops \<Rightarrow> bool" where
  "cache_down r \<longleftrightarrow>
     (\<forall>k s. isl (fst (co_get r k s))) \<and> (\<forall>k t v s. isl (fst (co_setex r k t v s))) \<and>
     (\<forall>k s. isl (fst (co_delete r k s))) \<and> (\<forall>k s. isl (fst (co_exists r k s)))"

definition map_cache :: "(string \<Rightarrow> string option) cache_ops" where
  "map_cache =
     \<lparr>co_get = (\<lambda>k s. (Inr (s k), s)),
      co_setex = (\<lambda>k t v s. if 0 < t then (Inr (), s(k \<mapsto> v)) else (Inl ''invalid expire time'', s)),
      co_delete = (\<lambda>k s. (Inr (), s(k := None))),
      co_exists = (\<lambda>k s. (Inr (if s k = None then 0 else 1), s))\<rparr>"

lemma map_cache_laws: "cache_laws map_cache (\<lambda>s. s)"
  by (simp add: cache_laws_def map_cache_def)

text \<open>What a lookup answers in a view of the service.\<close>

definition cached :: "(string \<Rightarrow> string option) \<Rightarrow> string \<Rightarrow> string \<Rightarrow> json option" where
  "cached m key namespace =
     (case m (full_key namespace key) of
        None \<Rightarrow> None
      | Some value \<Rightarrow>
          (if value = [] then None
           else (case json_loads value of None \<Rightarrow> None | Some v \<Rightarrow> if v = JNull then None else Some v)))"

lemma cache_get_up:
  assumes "cache_laws r look"
  shows "fst (cache_get (Some r) key ns s) = cached (look s) key ns" "look (snd (cache_get (Some r) key ns s)) = look s"
proof -
  have "fst (co_get r (full_key ns key) s) = Inr (look s (full_key ns key))"
    "look (snd (co_get r (full_key ns key) s)) = look s"
    using assms by (simp_all add: cache_laws_def)
  then show "fst (cache_get (Some r) key ns s) = cached (look s) key ns" "look (snd (cache_get (Some r) key ns s)) = look s"
    by (auto simp: cache_get_def cached_def split: prod.splits sum.splits option.splits)
qed

lemma cache_set_up:
  "cache_laws r look \<Longrightarrow> 0 < ttl \<Longrightarrow> look (cache_set (Some r) key v ttl ns s) = (look s)(full_key ns key \<mapsto> json_dumps v)"
  by (simp add: cache_laws_def cache_set_def)

lemma json_dumps_not_Nil: "wf_json v \<Longrightarrow> json_dumps v \<noteq> []"
  using dumps_head by fastforce

lemma cached_upd:
  assumes "wf_json v" "v \<noteq> JNull"
  shows "cached (m(full_key ns key \<mapsto> json_dumps v)) key ns = Some v"
  using assms loads_dumps json_dumps_not_Nil by (simp add: cached_def)

lemma cached_upd_other: "full_key ns key \<noteq> k \<Longrightarrow> cached (m(k := x)) key ns = cached m key ns"
  by (simp add: cached_def)

lemma cache_down_get:
  assumes "cache_down r" shows "fst (cache_get (Some r) key ns s) = None"
proof -
  obtain e s' where "co_get r (full_key ns key) s = (Inl e, s')"
    using assms unfolding cache_down_def isl_def by (metis prod.collapse)
  then show ?thesis by (simp add: cache_get_def)
qed

lemma cache_none [simp]:
  "cache_get None key ns s = (None, s)" "cache_set None key v ttl ns s = s" "cache_delete None key ns s = s"
  "cache_exists None key ns s = (False, s)"
  by (simp_all add: cache_get_def cache_set_def cache_delete_def cache_exists_def)

text \<open>A run of stores (with a value) and deletions (without).\<close>

fun cache_run :: "'s cache_store \<Rightarrow> (string \<times> string \<times> json option) list \<Rightarrow> int \<Rightarrow> 's \<Rightarrow> 's" where
  "cache_run store [] ttl s = s"
| "cache_run store ((key, ns, Some v) # ops) ttl s = cache_run store ops ttl (cache_set store key v ttl ns s)"
| "cache_run store ((key, ns, None) # ops) ttl s = cache_run store ops ttl (cache_delete store key ns s)"

lemma cache_run_other:
  assumes "cache_laws r look" "0 < ttl"
  shows "full_key ns key \<notin> (\<lambda>(k, n, v). full_key n k) ` set ops \<Longrightarrow>
    cached (look (cache_run (Some r) ops ttl s)) key ns = cached (look s) key ns"
proof (induction ops arbitrary: s)
  case (Cons op ops)
  obtain k n v where op: "op = (k, n, v)" by (cases op)
  show ?case
  proof (cases v)
    case None
    have "look (cache_delete (Some r) k n s) = (look s)(full_key n k := None)"
      using assms(1) by (simp add: cache_laws_def cache_delete_def)
    with Cons None op show ?thesis by (simp add: cached_def)
  next
    case (Some x)
    have "look (cache_set (Some r) k x ttl n s) = (look s)(full_key n k \<mapsto> json_dumps x)"
      by (rule cache_set_up [OF assms])
    with Cons Some op show ?thesis by (simp add: cached_def)
  qed
qed simp

section \<open>Properties\<close>

text \<open>
  What is cached is what comes back: while the service is up, a JSON value stored under a key
  is read back equal after any later stores and deletions under other keys of the service.
\<close>

theorem cache_reads_back:
  assumes "cache_laws r look" "0 < ttl" "wf_json v" "v \<noteq> JNull"
    and "full_key ns key \<notin> (\<lambda>(k, n, v). full_key n k) ` set ops"
  shows "fst (cache_get (Some r) key ns (cache_run (Some r) ops ttl (cache_set (Some r) key v ttl ns s))) = Some v"
proof -
  have "cached (look (cache_set (Some r) key v ttl ns s)) key ns = Some v"
    unfolding cache_set_up [OF assms(1,2)] by (rule cached_upd [OF assms(3,4)])
  then show ?thesis
    unfolding cache_get_up(1) [OF assms(1)] cache_run_other [OF assms(1,2,5)] .
qed

theorem cache_reads_back_witness:
  "fst (cache_get (Some map_cache) ''k'' ''a''
     (cache_run (Some map_cache) [(''k'', ''b'', Some JNull), (''j'', ''a'', None)] 60
       (cache_set (Some map_cache) ''k'' (JObj [(''x'', JList [JInt (- 12), JStr (nl @ [CHR 0x22])])]) 60 ''a'' Map.empty)))
   = Some (JObj [(''x'', JList [JInt (- 12), JStr (nl @ [CHR 0x22])])])"
  by (rule cache_reads_back [OF map_cache_laws]) (simp_all add: full_key_def)

end
