(* ===== verification/Datasources.thy ===== *)
theory Datasources
  imports Cache "HOL-Library.List_Lexorder" "HOL-Library.Char_ord"
begin

text \<open>
  The other datasource adapters of src/src/core/adapters.py, the cached collection all adapters
  share, and their construction from an agent's configuration.  The SDKs (boto3, kubernetes, httpx)
  are parameters: a call gives the part of the documented response that the code reads, or raises.
  What a call raises is its exception's text.  \<open>FixtureAdapter\<close> is the subclass that
  src/evals/rca_runner.py adds: its collection returns a fixed text.
\<close>

section \<open>Adapters\<close>

datatype source =
    Boto3Adapter "string list"
  | KubernetesAdapter
  | HttpAdapter string string "(string \<times> string) list"
  | AthenaAdapter string string string
  | McpSource mcp_adapter
  | FixtureAdapter string

record adapter =
  ad_source :: source
  ad_cache_ttl :: int
  ad_cache_namespace :: string

datatype k8s_config = ConfigLoaded | ConfigException | ConfigFailed exn

record 's source_env =
  se_cache :: "'s cache_store"
  se_sha256 :: "string \<Rightarrow> string"
  se_getenv :: "string \<Rightarrow> string option"
  se_date :: "nat \<Rightarrow> 's \<Rightarrow> string"
  se_ec2 :: "'s \<Rightarrow> (exn + string list list) \<times> 's"
  se_s3 :: "'s \<Rightarrow> (exn + string list option) \<times> 's"
  se_rds :: "'s \<Rightarrow> (exn + (string \<times> string) list) \<times> 's"
  se_ce :: "string \<Rightarrow> string \<Rightarrow> 's \<Rightarrow> (exn + rat list) \<times> 's"
  se_iam :: "'s \<Rightarrow> (exn + string list) \<times> 's"
  se_incluster :: "'s \<Rightarrow> k8s_config \<times> 's"
  se_kube_config :: "'s \<Rightarrow> (exn + unit) \<times> 's"
  se_k8s_list :: "string \<Rightarrow> 's \<Rightarrow> (exn + string list) \<times> 's"
  se_http_get :: "string \<Rightarrow> (string \<times> string) list \<Rightarrow> 's \<Rightarrow> (exn + nat \<times> string) \<times> 's"
  se_http_error :: "nat \<Rightarrow> string \<Rightarrow> exn"
  se_athena_start :: "string \<Rightarrow> string \<Rightarrow> string \<Rightarrow> 's \<Rightarrow> (exn + string) \<times> 's"
  se_athena_state :: "string \<Rightarrow> 's \<Rightarrow> (exn + string) \<times> 's"
  se_athena_rows :: "string \<Rightarrow> 's \<Rightarrow> (exn + string option list list) \<times> 's"
  se_sleep :: "nat \<Rightarrow> 's \<Rightarrow> 's"
  se_mcp :: "'s mcp_server"

text \<open>\<open>${NAME}\<close> becomes the value of a set environment variable and stays as it is otherwise.\<close>

function interpolate_env :: "(string \<Rightarrow> string option) \<Rightarrow> string \<Rightarrow> string" where
  "interpolate_env getenv [] = []"
| "interpolate_env getenv (c # cs) =
     (let name = takeWhile is_word (drop 2 (c # cs)); rest = dropWhile is_word (drop 2 (c # cs))
      in if prefix ''${'' (c # cs) \<and> name \<noteq> [] \<and> prefix ''}'' rest
         then (case getenv name of Some v \<Rightarrow> v | None \<Rightarrow> ''${'' @ name @ ''}'') @ interpolate_env getenv (tl rest)
         else c # interpolate_env getenv cs)"
  by pat_completeness auto
termination
proof (relation "measure (\<lambda>(g, s). length s)", goal_cases)
  case (2 getenv c cs name rest)
  have "length rest \<le> length cs"
    unfolding 2(2) using length_dropWhile_le [of is_word "drop 2 (c # cs)"] by simp
  with 2(3) show ?case by (auto simp: prefix_def)
qed simp_all

declare interpolate_env.simps(2) [simp del]

section \<open>AWS\<close>

definition show_fixed2 :: "rat \<Rightarrow> string" where
  "show_fixed2 x =
     (let n = nat (py_round (\<bar>x\<bar> * 100)); ds = show_nat (n mod 100)
      in (if x < 0 then ''-'' else []) @ show_nat (n div 100) @ ''.'' @ replicate (2 - length ds) CHR ''0'' @ ds)"

definition map_result :: "('a \<Rightarrow> 'b) \<Rightarrow> (exn + 'a) \<times> 's \<Rightarrow> (exn + 'b) \<times> 's" where
  "map_result f r = (case r of (Inl e, s) \<Rightarrow> (Inl e, s) | (Inr x, s) \<Rightarrow> (Inr (f x), s))"

definition collect_service :: "'s source_env \<Rightarrow> string \<Rightarrow> 's \<Rightarrow> (exn + string) \<times> 's" where
  "collect_service env svc s =
     (if svc = ''ec2'' then
        map_result (\<lambda>reservations. let instances = concat reservations
          in ''[ec2] '' @ show_nat (length instances) @ '' instances (''
               @ show_nat (length (filter (\<lambda>i. i = ''running'') instances)) @ '' running)'') (se_ec2 env s)
      else if svc = ''s3'' then
        map_result (\<lambda>r. let buckets = (case r of Some bs \<Rightarrow> bs | None \<Rightarrow> [])
          in ''[s3] '' @ show_nat (length buckets) @ '' buckets'') (se_s3 env s)
      else if svc = ''rds'' then
        map_result (\<lambda>dbs. let summary = py_join '', '' (map (\<lambda>(i, st). i @ ''('' @ st @ '')'') (take 5 dbs))
          in ''[rds] '' @ show_nat (length dbs) @ '' instances: '' @ summary) (se_rds env s)
      else if svc = ''ce'' then
        map_result (\<lambda>amounts. ''[ce] last 30d cost: $'' @ show_fixed2 (sum_list amounts))
          (se_ce env (se_date env 30 s) (se_date env 0 s) s)
      else if svc = ''iam'' then
        map_result (\<lambda>roles. ''[iam] '' @ show_nat (length roles) @ '' roles'') (se_iam env s)
      else (Inr (''['' @ svc @ ''] unsupported service''), s))"

fun collect_services :: "'s source_env \<Rightarrow> string list \<Rightarrow> 's \<Rightarrow> string list \<times> 's" where
  "collect_services env [] s = ([], s)"
| "collect_services env (svc # svcs) s =
     (case collect_service env svc s of
        (r, s1) \<Rightarrow>
          (let part = (case r of Inr t \<Rightarrow> t | Inl e \<Rightarrow> ''['' @ svc @ ''] error: '' @ e);
               (parts, s2) = collect_services env svcs s1
           in (part # parts, s2)))"

section \<open>Kubernetes\<close>

definition load_config :: "'s source_env \<Rightarrow> 's \<Rightarrow> (exn + unit) \<times> 's" where
  "load_config env s =
     (case se_incluster env s of
        (ConfigLoaded, s1) \<Rightarrow> (Inr (), s1)
      | (ConfigException, s1) \<Rightarrow> se_kube_config env s1
      | (ConfigFailed e, s1) \<Rightarrow> (Inl e, s1))"

definition then_call :: "(exn + 'a) \<times> 's \<Rightarrow> ('a \<Rightarrow> 's \<Rightarrow> (exn + 'b) \<times> 's) \<Rightarrow> (exn + 'b) \<times> 's" where
  "then_call r k = (case r of (Inl e, s) \<Rightarrow> (Inl e, s) | (Inr x, s) \<Rightarrow> k x s)"

definition or_error :: "string \<Rightarrow> (exn + string) \<times> 's \<Rightarrow> string \<times> 's" where
  "or_error tag r = (case r of (Inl e, s) \<Rightarrow> (tag @ '' error: '' @ e, s) | (Inr t, s) \<Rightarrow> (t, s))"

definition collect_kubernetes :: "'s source_env \<Rightarrow> 's \<Rightarrow> string \<times> 's" where
  "collect_kubernetes env s =
     or_error ''[k8s]''
       (then_call (load_config env s) (\<lambda>u s1.
        then_call (se_k8s_list env ''nodes'' s1) (\<lambda>nodes s2.
        then_call (se_k8s_list env ''pods'' s2) (\<lambda>pods s3.
        then_call (se_k8s_list env ''namespaces'' s3) (\<lambda>namespaces s4.
          (Inr (''[k8s] '' @ show_nat (length nodes) @ '' nodes, '' @ show_nat (length pods) @ '' pods, ''
              @ show_nat (length namespaces) @ '' namespaces''), s4))))))"

section \<open>HTTP\<close>

definition collect_http :: "'s source_env \<Rightarrow> string \<Rightarrow> string \<Rightarrow> (string \<times> string) list \<Rightarrow> 's \<Rightarrow> string \<times> 's" where
  "collect_http env nm url headers s =
     or_error (''[http:'' @ nm @ '']'')
       (then_call (se_http_get env url headers s) (\<lambda>(status, body) s1.
          if 200 \<le> status \<and> status < 300 then (Inr (''[http:'' @ nm @ ''] '' @ take 2000 body), s1)
          else (Inl (se_http_error env status url), s1)))"

section \<open>Athena\<close>

definition poll_states :: "string list" where
  "poll_states = [''SUCCEEDED'', ''FAILED'', ''CANCELLED'']"

text \<open>The polling loop with \<open>k\<close> polls left, after the state \<open>state\<close> was read.\<close>

fun athena_poll :: "'s source_env \<Rightarrow> string \<Rightarrow> nat \<Rightarrow> string \<Rightarrow> 's \<Rightarrow> (exn + string) \<times> 's" where
  "athena_poll env qid 0 state s = (Inr state, s)"
| "athena_poll env qid (Suc k) state s =
     (case se_athena_state env qid s of
        (Inl e, s1) \<Rightarrow> (Inl e, s1)
      | (Inr state', s1) \<Rightarrow>
          if state' \<in> set poll_states then (Inr state', s1)
          else athena_poll env qid k state' (se_sleep env 2 s1))"

definition MAX_POLLS :: nat where
  "MAX_POLLS = 15"

text \<open>The rows as text: the header needs every cell, the other rows read a missing cell as empty.\<close>

definition athena_text :: "string \<Rightarrow> string option list list \<Rightarrow> exn + string" where
  "athena_text table rows =
     (case rows of
        [] \<Rightarrow> Inl ''list index out of range''
      | header # rest \<Rightarrow>
          if None \<in> set header then Inl (quoted ''VarCharValue'')
          else Inr (''[athena:'' @ table @ '']'' @ nl @
            py_join nl (py_join '', '' (map the header) #
              map (\<lambda>row. py_join '', '' (map (\<lambda>c. case c of Some t \<Rightarrow> t | None \<Rightarrow> []) row)) rest)))"

definition collect_athena :: "'s source_env \<Rightarrow> string \<Rightarrow> string \<Rightarrow> string \<Rightarrow> 's \<Rightarrow> string \<times> 's" where
  "collect_athena env database table workgroup s =
     or_error (''[athena:'' @ table @ '']'')
       (then_call (se_athena_start env (''SELECT * FROM '' @ table @ '' LIMIT 5'') database workgroup s) (\<lambda>qid s1.
        then_call (athena_poll env qid MAX_POLLS [] s1) (\<lambda>state s2.
          if state \<noteq> ''SUCCEEDED'' then (Inr (''[athena:'' @ table @ ''] query '' @ state), s2)
          else then_call (se_athena_rows env qid s2) (\<lambda>rows s3. (athena_text table rows, s3)))))"

section \<open>Collection\<close>

definition cache_id :: "source \<Rightarrow> string" where
  "cache_id src =
     (case src of
        Boto3Adapter services \<Rightarrow> ''boto3:'' @ py_join '','' (sort services)
      | KubernetesAdapter \<Rightarrow> ''KubernetesAdapter''
      | HttpAdapter nm url headers \<Rightarrow> ''http:'' @ nm @ '':'' @ url
      | AthenaAdapter database table workgroup \<Rightarrow> ''athena:'' @ database @ ''.'' @ table
      | McpSource a \<Rightarrow> ''mcp:'' @ ma_url a @ '':'' @ py_join '','' (sort (ma_tools a))
      | FixtureAdapter canned \<Rightarrow> ''FixtureAdapter'')"

definition raw_collect :: "'s source_env \<Rightarrow> source \<Rightarrow> string \<Rightarrow> 's \<Rightarrow> string \<times> 's" where
  "raw_collect env src query s =
     (case src of
        Boto3Adapter services \<Rightarrow> (case collect_services env services s of (parts, s') \<Rightarrow> (py_join nl parts, s'))
      | KubernetesAdapter \<Rightarrow> collect_kubernetes env s
      | HttpAdapter nm url headers \<Rightarrow> collect_http env nm url headers s
      | AthenaAdapter database table workgroup \<Rightarrow> collect_athena env database table workgroup s
      | McpSource a \<Rightarrow> collect (se_mcp env) a query s
      | FixtureAdapter canned \<Rightarrow> (canned, s))"

definition cache_key :: "'s source_env \<Rightarrow> source \<Rightarrow> string \<Rightarrow> string" where
  "cache_key env src query = se_sha256 env (cache_id src @ ''|'' @ query)"

definition adapter_collect :: "'s source_env \<Rightarrow> adapter \<Rightarrow> string \<Rightarrow> 's \<Rightarrow> string \<times> 's" where
  "adapter_collect env a query s =
     (if ad_cache_ttl a \<le> 0 then raw_collect env (ad_source a) query s
      else (let key = cache_key env (ad_source a) query; ns = ad_cache_namespace a
            in case cache_get (se_cache env) key ns s of
                 (Some hit, s1) \<Rightarrow> (py_str hit, s1)
               | (None, s1) \<Rightarrow>
                   (case raw_collect env (ad_source a) query s1 of
                      (result, s2) \<Rightarrow> (result, cache_set (se_cache env) key (JStr result) (ad_cache_ttl a) ns s2))))"

section \<open>Construction\<close>

definition create_source :: "(string \<Rightarrow> string option) \<Rightarrow> int \<Rightarrow> datasource_config \<Rightarrow> source option" where
  "create_source getenv cache_ttl cfg =
     (if dc_type cfg = ''boto3'' then Some (Boto3Adapter (dc_services cfg))
      else if dc_type cfg = ''kubernetes'' then Some KubernetesAdapter
      else if dc_type cfg = ''http'' then
        Some (HttpAdapter (dc_name cfg) (interpolate_env getenv (dc_url cfg)) (dc_headers cfg))
      else if dc_type cfg = ''athena'' then Some (AthenaAdapter (dc_database cfg) (dc_table cfg) (dc_workgroup cfg))
      else if dc_type cfg = ''mcp'' then
        Some (McpSource (new_mcp_adapter (dc_name cfg) (interpolate_env getenv (dc_url cfg)) (dc_tools cfg)
          (map (\<lambda>(k, v). (k, JStr v)) (dc_tool_arguments cfg)) (dc_inject_query_as cfg) (of_int cache_ttl)))
      else None)"

definition create_adapters ::
    "(string \<Rightarrow> string option) \<Rightarrow> datasource_config list \<Rightarrow> int \<Rightarrow> string \<Rightarrow> adapter list" where
  "create_adapters getenv cfgs cache_ttl cache_namespace =
     map (\<lambda>src. \<lparr>ad_source = src, ad_cache_ttl = cache_ttl, ad_cache_namespace = cache_namespace\<rparr>)
       (List.map_filter (create_source getenv cache_ttl) cfgs)"

section \<open>Properties\<close>

lemma interpolate_plain: "CHR ''$'' \<notin> set s \<Longrightarrow> interpolate_env getenv s = s"
proof (induction s)
  case (Cons c cs)
  then show ?case by (auto simp: interpolate_env.simps(2) prefix_def Let_def)
qed simp

text \<open>An Athena query is polled a bounded number of times, whatever state it stays in.\<close>

lemma athena_poll_bounded:
  assumes "\<And>s. cnt (snd (se_athena_state env qid s)) \<le> cnt s + (1::nat)" "\<And>n s. cnt (se_sleep env n s) = cnt s"
  shows "cnt (snd (athena_poll env qid k state s)) \<le> cnt s + k"
proof (induction k arbitrary: state s)
  case (Suc k)
  obtain r s1 where r: "se_athena_state env qid s = (r, s1)" by fastforce
  have c: "cnt s1 \<le> cnt s + 1" using assms(1) [of s] r by simp
  have "cnt (snd (athena_poll env qid k st (se_sleep env 2 s1))) \<le> cnt s + Suc k" for st
    using Suc [of st "se_sleep env 2 s1"] assms(2) [of 2 s1] c by linarith
  with r c show ?case by (auto split: sum.splits)
qed simp

lemma adapter_collect_hit:
  assumes "0 < ad_cache_ttl a" "se_cache env = Some r" "cache_laws r look"
    and "cached (look s) (cache_key env (ad_source a) query) (ad_cache_namespace a) = Some hit"
  shows "\<exists>s'. adapter_collect env a query s = (py_str hit, s') \<and> look s' = look s"
  using assms cache_get_up [OF assms(3), of "cache_key env (ad_source a) query" "ad_cache_namespace a" s]
  by (auto simp: adapter_collect_def Let_def split: prod.splits option.splits)

lemma adapter_collect_fills:
  assumes "0 < ad_cache_ttl a" "se_cache env = Some r" "cache_laws r look"
    and "adapter_collect env a query s = (t, s1)"
  shows "\<exists>hit. cached (look s1) (cache_key env (ad_source a) query) (ad_cache_namespace a) = Some hit \<and> py_str hit = t"
proof -
  let ?key = "cache_key env (ad_source a) query" and ?ns = "ad_cache_namespace a"
  obtain x s0 where g: "cache_get (Some r) ?key ?ns s = (x, s0)" by fastforce
  have x: "x = cached (look s) ?key ?ns" and s0: "look s0 = look s"
    using cache_get_up [OF assms(3), of ?key ?ns s] g by auto
  show ?thesis
  proof (cases x)
    case (Some hit)
    have "py_str hit = t" "s1 = s0" using assms(1,2,4) g Some by (auto simp: adapter_collect_def Let_def)
    then show ?thesis using Some x s0 by metis
  next
    case None
    obtain res s2 where c: "raw_collect env (ad_source a) query s0 = (res, s2)" by fastforce
    with None assms g have "t = res" "s1 = cache_set (Some r) ?key (JStr res) (ad_cache_ttl a) ?ns s2"
      by (auto simp: adapter_collect_def Let_def)
    moreover have "cached (look (cache_set (Some r) ?key (JStr res) (ad_cache_ttl a) ?ns s2)) ?key ?ns = Some (JStr res)"
      unfolding cache_set_up [OF assms(3,1)] by (rule cached_upd) simp_all
    ultimately show ?thesis by (simp add: py_str_def)
  qed
qed

text \<open>
  While the cache is up, a second collection of any datasource with the same query gives the
  same text without asking the source again: its only effect is the lookup in the cache.
\<close>

theorem repeated_collection_is_cached:
  assumes "0 < ad_cache_ttl a" "se_cache env = Some r" "cache_laws r look"
    and "adapter_collect env a query s = (t, s1)"
  shows "adapter_collect env a query s1 =
    (t, snd (co_get r (full_key (ad_cache_namespace a) (cache_key env (ad_source a) query)) s1))"
proof -
  let ?key = "cache_key env (ad_source a) query" and ?ns = "ad_cache_namespace a"
  obtain hit where h: "cached (look s1) ?key ?ns = Some hit" "py_str hit = t"
    using adapter_collect_fills [OF assms] by blast
  have "fst (cache_get (Some r) ?key ?ns s1) = Some hit" using cache_get_up(1) [OF assms(3)] h by simp
  moreover have "snd (cache_get (Some r) ?key ?ns s1) = snd (co_get r (full_key ?ns ?key) s1)"
    by (auto simp: cache_get_def split: prod.splits sum.splits option.splits)
  ultimately show ?thesis using assms(1,2) h(2)
    by (cases "cache_get (Some r) ?key ?ns s1") (simp add: adapter_collect_def Let_def)
qed

text \<open>The loss of the cache never breaks a collection: the text is what the source gives.\<close>

theorem collection_survives_cache_loss:
  assumes "se_cache env = None \<or> (\<exists>r. se_cache env = Some r \<and> cache_down r)"
  shows "\<exists>s0. fst (adapter_collect env a query s) = fst (raw_collect env (ad_source a) query s0)"
proof (cases "ad_cache_ttl a \<le> 0")
  case False
  obtain x s0 where g: "cache_get (se_cache env) (cache_key env (ad_source a) query) (ad_cache_namespace a) s = (x, s0)"
    by fastforce
  then have "x = None" using assms cache_down_get by (metis cache_none(1) fst_conv)
  with False g have "fst (adapter_collect env a query s) = fst (raw_collect env (ad_source a) query s0)"
    by (simp add: adapter_collect_def Let_def split: prod.splits)
  then show ?thesis by blast
qed (auto simp: adapter_collect_def)

text \<open>
  The cache identity of an MCP source leaves its static arguments out (that of an HTTP source its
  headers): of two sources that differ there, the second gets the text of the first.
\<close>

lemma cache_mixes_mcp_arguments:
  assumes "0 < ttl" "se_cache env = Some r" "cache_laws r look"
    and "a = \<lparr>ad_source = McpSource (new_mcp_adapter nm url tools args1 q 0), ad_cache_ttl = ttl, ad_cache_namespace = ns\<rparr>"
    and "b = \<lparr>ad_source = McpSource (new_mcp_adapter nm url tools args2 q 0), ad_cache_ttl = ttl, ad_cache_namespace = ns\<rparr>"
    and "adapter_collect env a query s = (t, s1)"
  shows "fst (adapter_collect env b query s1) = t"
proof -
  have e: "cache_key env (ad_source b) query = cache_key env (ad_source a) query" "ad_cache_namespace b = ad_cache_namespace a"
    "0 < ad_cache_ttl a" "0 < ad_cache_ttl b"
    using assms(1,4,5) by (simp_all add: cache_key_def cache_id_def new_mcp_adapter_def)
  obtain hit where "cached (look s1) (cache_key env (ad_source a) query) (ad_cache_namespace a) = Some hit" "py_str hit = t"
    using adapter_collect_fills [OF e(3) assms(2,3,6)] by blast
  with adapter_collect_hit [OF e(4) assms(2,3), of s1 query hit] show ?thesis
    unfolding e(1,2) by auto
qed

text \<open>A world for evaluation: a cache and a count of the calls of the sources.\<close>

definition demo_sources :: "((string \<Rightarrow> string option) \<times> nat) source_env" where
  "demo_sources =
     \<lparr>se_cache = Some \<lparr>co_get = (\<lambda>k s. (Inr (fst s k), s)),
        co_setex = (\<lambda>k t v s. if 0 < t then (Inr (), ((fst s)(k \<mapsto> v), snd s)) else (Inl ''invalid expire time'', s)),
        co_delete = (\<lambda>k s. (Inr (), ((fst s)(k := None), snd s))),
        co_exists = (\<lambda>k s. (Inr (if fst s k = None then 0 else 1), s))\<rparr>,
      se_sha256 = (\<lambda>t. t), se_getenv = Map.empty, se_date = (\<lambda>n s. ''2026-01-01''),
      se_ec2 = (\<lambda>s. (Inr [[''running'', ''stopped''], [''running'']], (fst s, snd s + 1))),
      se_s3 = (\<lambda>s. (Inl ''denied'', (fst s, snd s + 1))), se_rds = (\<lambda>s. (Inr [], s)),
      se_ce = (\<lambda>a b s. (Inr [5/2, 1/4], s)), se_iam = (\<lambda>s. (Inr [], s)),
      se_incluster = (\<lambda>s. (ConfigException, s)), se_kube_config = (\<lambda>s. (Inl ''no config'', s)),
      se_k8s_list = (\<lambda>k s. (Inr [], s)), se_http_get = (\<lambda>u h s. (Inr (500, []), s)),
      se_http_error = (\<lambda>n u. ''server error''), se_athena_start = (\<lambda>q d w s. (Inr ''q1'', s)),
      se_athena_state = (\<lambda>i s. (Inr ''RUNNING'', s)), se_athena_rows = (\<lambda>i s. (Inr [], s)), se_sleep = (\<lambda>n s. s),
      se_mcp = \<lparr>sv_list_tools = (\<lambda>u s. (Inr [], s)), sv_call_tool = (\<lambda>u t a s. (CallTimeout, s))\<rparr>\<rparr>"

definition demo_boto3 :: adapter where
  "demo_boto3 = \<lparr>ad_source = Boto3Adapter [''ec2'', ''s3''], ad_cache_ttl = 300, ad_cache_namespace = ''infra''\<rparr>"

lemma demo_collection:
  "adapter_collect demo_sources demo_boto3 ''q'' (Map.empty, 0) =
     (''[ec2] 3 instances (2 running)'' @ nl @ ''[s3] error: denied'',
      (Map.empty(''infra:boto3:ec2,s3|q'' \<mapsto> json_dumps (JStr (''[ec2] 3 instances (2 running)'' @ nl @ ''[s3] error: denied''))), 2))"
proof -
  have n: "show_nat 3 = ''3''" "show_nat 2 = ''2''" by code_simp+
  have k: "cache_key demo_sources (ad_source demo_boto3) ''q'' = ''boto3:ec2,s3|q''"
    by (simp add: cache_key_def demo_sources_def demo_boto3_def cache_id_def)
  show ?thesis
    unfolding adapter_collect_def Let_def k
    by (simp add: demo_boto3_def raw_collect_def collect_service_def map_result_def demo_sources_def
        cache_get_def cache_set_def full_key_def n numeral_3_eq_3 [symmetric] numeral_2_eq_2 [symmetric] del: json_dumps.simps)
qed

theorem repeated_collection_is_cached_witness:
  "\<exists>s1. adapter_collect demo_sources demo_boto3 ''q'' (Map.empty, 0) = (''[ec2] 3 instances (2 running)'' @ nl @ ''[s3] error: denied'', s1) \<and>
     adapter_collect demo_sources demo_boto3 ''q'' s1 = (''[ec2] 3 instances (2 running)'' @ nl @ ''[s3] error: denied'', s1)"
proof -
  obtain r where r: "se_cache demo_sources = Some r" "cache_laws r fst" "\<And>k s. snd (co_get r k s) = s"
    by (auto simp: demo_sources_def cache_laws_def)
  show ?thesis
    using repeated_collection_is_cached [OF _ r(1,2) demo_collection] demo_collection r(3)
    by (simp add: demo_boto3_def)
qed

end
