(* ===== verification/Config.thy ===== *)
theory Config
  imports Prelude
begin

text \<open>
  The configuration of src/src/core/config.py: the fields of \<open>Settings\<close> and their defaults.
  Characters of the prompt texts beyond ASCII are written by their UTF-8 bytes.
\<close>

record settings =
  cfg_aws_region :: "string"
  cfg_bedrock_model_id :: "string"
  cfg_bedrock_classifier_model_id :: "string"
  cfg_bedrock_agent_model_id :: "string"
  cfg_bedrock_synthesis_model_id :: "string"
  cfg_bedrock_tier_fast_model_id :: "string"
  cfg_bedrock_tier_standard_model_id :: "string"
  cfg_bedrock_tier_deep_model_id :: "string"
  cfg_aigent_tier_routing_enabled :: "bool"
  cfg_aigent_tier_deep_enabled :: "bool"
  cfg_aigent_tier_confidence_high :: "rat"
  cfg_calibrated_honesty_instruction :: "string"
  cfg_self_service_instruction :: "string"
  cfg_decisiveness_instruction :: "string"
  cfg_grafana_base_url :: "string"
  cfg_bedrock_prompt_cache_enabled :: "bool"
  cfg_session_token_budget :: "int"
  cfg_history_max_tokens :: "int"
  cfg_guardrail_enabled :: "bool"
  cfg_guardrail_id :: "string option"
  cfg_guardrail_version :: "string"
  cfg_canary_enabled :: "bool"
  cfg_canary_escalation_threshold :: "int"
  cfg_output_filter_enabled :: "bool"
  cfg_response_quality_enabled :: "bool"
  cfg_input_scanner_enabled :: "bool"
  cfg_dynamodb_sessions_table :: "string"
  cfg_dynamodb_endpoint :: "string option"
  cfg_redis_host :: "string"
  cfg_redis_port :: "int"
  cfg_redis_ssl :: "bool"
  cfg_redis_password :: "string option"
  cfg_slack_bot_token :: "string option"
  cfg_slack_signing_secret :: "string option"
  cfg_slack_proactive_channel :: "string option"
  cfg_api_host :: "string"
  cfg_api_port :: "int"
  cfg_supervisor_internal_token :: "string option"
  cfg_supervisor_url :: "string"
  cfg_gateway_max_concurrent :: "int"
  cfg_gateway_job_timeout_seconds :: "int"
  cfg_gateway_first_byte_timeout_seconds :: "int"
  cfg_gateway_idle_stream_timeout_seconds :: "int"
  cfg_bedrock_read_timeout_seconds :: "int"
  cfg_bedrock_connect_timeout_seconds :: "int"
  cfg_gateway_cancel_poll_seconds :: "rat"
  cfg_bedrock_max_concurrent :: "int"
  cfg_rate_limit_per_minute :: "int"
  cfg_daily_budget_usd :: "rat"
  cfg_rate_budget_enabled :: "bool"
  cfg_gitlab_token :: "string option"
  cfg_gitlab_url :: "string"
  cfg_mcp_servers :: "(string \<times> string) list"
  cfg_athena_project_id :: "string"
  cfg_athena_bucket :: "string"
  cfg_athena_region :: "string"
  cfg_athena_database :: "string"
  cfg_athena_table :: "string"
  cfg_athena_workgroup :: "string"
  cfg_docs_portal_url :: "string"
  cfg_docs_portal_url_new :: "string"
  cfg_docs_portal_token :: "string option"
  cfg_finops_knowledge_base_id :: "string option"
  cfg_rag_enabled :: "bool"

text \<open>The defaults; only \<open>redis_host\<close> has none and comes from the environment.\<close>

definition default_settings :: "string \<Rightarrow> settings" where
  "default_settings host =
     \<lparr>cfg_aws_region = ''us-east-1'',
      cfg_bedrock_model_id = ''us.anthropic.claude-sonnet-4-5-20250929-v1:0'',
      cfg_bedrock_classifier_model_id = ''us.anthropic.claude-haiku-4-5-20251001-v1:0'',
      cfg_bedrock_agent_model_id = ''us.anthropic.claude-sonnet-4-5-20250929-v1:0'',
      cfg_bedrock_synthesis_model_id = ''us.anthropic.claude-sonnet-4-5-20250929-v1:0'',
      cfg_bedrock_tier_fast_model_id = ''us.anthropic.claude-haiku-4-5-20251001-v1:0'',
      cfg_bedrock_tier_standard_model_id = ''us.anthropic.claude-sonnet-4-5-20250929-v1:0'',
      cfg_bedrock_tier_deep_model_id = ''us.anthropic.claude-opus-4-5-20251101-v1:0'',
      cfg_aigent_tier_routing_enabled = True,
      cfg_aigent_tier_deep_enabled = False,
      cfg_aigent_tier_confidence_high = 17/20,
      cfg_calibrated_honesty_instruction = ''<calibrated_honesty>'' @ [CHR 0x0A] @
        ''Separate VERIFIED facts (backed by a tool result or datasource response THIS turn) from INFERRED/assumed statements '' @
        [CHR 0xE2, CHR 0x80, CHR 0x94] @ '' label inferences explicitly.'' @ [CHR 0x0A] @
        ''NEVER state a metric value, resource state, or count you did not retrieve this turn. If you didn'' @
        [CHR 0x27] @ ''t verify it, say '' @ [CHR 0x27] @ ''n'' @ [CHR 0xC3, CHR 0xA3] @
        ''o consegui confirmar'' @ [CHR 0x27] @ '' / '' @ [CHR 0x27] @ ''I could not verify'' @ [CHR 0x27] @
        ''.'' @ [CHR 0x0A] @ ''End every answer with one short line: confidence level (alta/m'' @
        [CHR 0xC3, CHR 0xA9] @
        ''dia/baixa or high/medium/low) AND a brief list of claims you could NOT verify this turn (or '' @
        [CHR 0x27] @ ''nada n'' @ [CHR 0xC3, CHR 0xA3] @ ''o-verificado'' @ [CHR 0x27] @ '' / '' @
        [CHR 0x27] @ ''nothing unverified'' @ [CHR 0x27] @ '').'' @ [CHR 0x0A] @ ''</calibrated_honesty>'',
      cfg_self_service_instruction = ''<self_service>'' @ [CHR 0x0A] @ ''You have live read-only tools '' @
        [CHR 0xE2, CHR 0x80, CHR 0x94] @
        '' fetch the data yourself and answer directly. The user may not have CLI access, so lead with the answer from your tools rather than handing them kubectl/aws/helm commands to run. When something needs a UI, or an action you can'' @
        [CHR 0x27] @ ''t take, point to the right place and say which and how:'' @ [CHR 0x0A] @
        ''- The DevOps monitoring dashboards live in Grafana '' @ [CHR 0xE2, CHR 0x80, CHR 0x94] @
        '' recommend the specific dashboard (see the devops-grafana-dashboards skill for the exact folders and UIDs) with its link.'' @
        [CHR 0x0A] @
        ''- Also: Grafana (metrics/logs/traces), ArgoCD (deploy/sync/rollback), Argo Workflows (jobs).'' @
        [CHR 0x0A] @
        ''If nothing quite fits, offer to help build it (a dashboard, a PromQL query, or the change).'' @
        [CHR 0x0A] @ ''</self_service>'',
      cfg_decisiveness_instruction = ''<decisiveness>'' @ [CHR 0x0A] @
        ''Be decisive with tools. Do ONE discovery pass (list metrics/labels/resources) THEN run TARGETED queries '' @
        [CHR 0xE2, CHR 0x80, CHR 0x94] @
        '' do NOT exhaustively enumerate or re-query the same thing with minor variations. Prefer a few high-value tool calls over many. Batch independent lookups in a single turn when possible. As soon as you have enough to answer, STOP and answer '' @
        [CHR 0xE2, CHR 0x80, CHR 0x94] @ '' do not keep gathering '' @ [CHR 0x27] @ ''for completeness'' @
        [CHR 0x27] @ ''.'' @ [CHR 0x0A] @ ''</decisiveness>'',
      cfg_grafana_base_url = [],
      cfg_bedrock_prompt_cache_enabled = True,
      cfg_session_token_budget = 2000000,
      cfg_history_max_tokens = 8000,
      cfg_guardrail_enabled = True,
      cfg_guardrail_id = None,
      cfg_guardrail_version = ''DRAFT'',
      cfg_canary_enabled = True,
      cfg_canary_escalation_threshold = 3,
      cfg_output_filter_enabled = True,
      cfg_response_quality_enabled = True,
      cfg_input_scanner_enabled = True,
      cfg_dynamodb_sessions_table = ''agent-sessions'',
      cfg_dynamodb_endpoint = None,
      cfg_redis_host = host,
      cfg_redis_port = 6379,
      cfg_redis_ssl = True,
      cfg_redis_password = None,
      cfg_slack_bot_token = None,
      cfg_slack_signing_secret = None,
      cfg_slack_proactive_channel = None,
      cfg_api_host = ''0.0.0.0'',
      cfg_api_port = 8000,
      cfg_supervisor_internal_token = None,
      cfg_supervisor_url = ''http://localhost:8001'',
      cfg_gateway_max_concurrent = 20,
      cfg_gateway_job_timeout_seconds = 150,
      cfg_gateway_first_byte_timeout_seconds = 90,
      cfg_gateway_idle_stream_timeout_seconds = 35,
      cfg_bedrock_read_timeout_seconds = 120,
      cfg_bedrock_connect_timeout_seconds = 10,
      cfg_gateway_cancel_poll_seconds = 1/2,
      cfg_bedrock_max_concurrent = 20,
      cfg_rate_limit_per_minute = 60,
      cfg_daily_budget_usd = 50,
      cfg_rate_budget_enabled = True,
      cfg_gitlab_token = None,
      cfg_gitlab_url = ''https://gitlab.com'',
      cfg_mcp_servers = [(''aws-mcp'', ''http://aws-mcp-server.default.svc.cluster.local:8080''), (''k8s-mcp'', ''http://k8s-mcp-server.default.svc.cluster.local:8080'')],
      cfg_athena_project_id = ''123456789012'',
      cfg_athena_bucket = ''s3://company-athena-kubecost'',
      cfg_athena_region = ''us-east-1'',
      cfg_athena_database = ''kubecost'',
      cfg_athena_table = ''kubecost_split'',
      cfg_athena_workgroup = ''primary'',
      cfg_docs_portal_url = ''https://docs.company.internal/'',
      cfg_docs_portal_url_new = ''https://docs.company.com/'',
      cfg_docs_portal_token = None,
      cfg_finops_knowledge_base_id = None,
      cfg_rag_enabled = False\<rparr>"


end
