(* ===== verification/ModelTier.thy ===== *)
theory ModelTier
  imports Config
begin

text \<open>
  Model tiering of src/src/core/model_tier.py: role and tier resolution to a model ID of the
  settings, the start-up validation of the tier models, the price table and the cost of one
  call, and the token estimate.
\<close>

record model_pricing =
  input_per_1m :: rat
  output_per_1m :: rat
  cache_read_per_1m :: rat

text \<open>\<open>MODEL_PRICING\<close>, \<open>_CACHE_WRITE_MULTIPLIER\<close> and \<open>_DEFAULT_PRICING\<close>.\<close>

definition MODEL_PRICING :: "(string \<times> model_pricing) list" where
  "MODEL_PRICING =
     [(''haiku'', \<lparr>input_per_1m = 1, output_per_1m = 5, cache_read_per_1m = 1/10\<rparr>),
      (''sonnet'', \<lparr>input_per_1m = 3, output_per_1m = 15, cache_read_per_1m = 3/10\<rparr>),
      (''opus'', \<lparr>input_per_1m = 5, output_per_1m = 25, cache_read_per_1m = 1/2\<rparr>)]"

definition CACHE_WRITE_MULTIPLIER :: rat where
  "CACHE_WRITE_MULTIPLIER = 5/4"

definition DEFAULT_PRICING :: model_pricing where
  "DEFAULT_PRICING = \<lparr>input_per_1m = 3, output_per_1m = 15, cache_read_per_1m = 3/10\<rparr>"

fun first_family :: "string list \<Rightarrow> string \<Rightarrow> string" where
  "first_family [] lower = ''unknown''"
| "first_family (f # fs) lower = (if contains f lower then f else first_family fs lower)"

definition model_family :: "string \<Rightarrow> string" where
  "model_family model_id = first_family [''haiku'', ''sonnet'', ''opus''] (py_lower model_id)"

definition resolve_model :: "settings \<Rightarrow> string \<Rightarrow> string" where
  "resolve_model st role =
     (if role = ''classifier'' then cfg_bedrock_classifier_model_id st
      else if role = ''agent'' then cfg_bedrock_agent_model_id st
      else if role = ''synthesis'' then cfg_bedrock_synthesis_model_id st
      else cfg_bedrock_agent_model_id st)"

definition resolve_model_for_tier :: "settings \<Rightarrow> string \<Rightarrow> string" where
  "resolve_model_for_tier st tier =
     (if tier = ''fast'' then cfg_bedrock_tier_fast_model_id st
      else if tier = ''deep'' then
        (if \<not> cfg_aigent_tier_deep_enabled st then cfg_bedrock_tier_standard_model_id st
         else cfg_bedrock_tier_deep_model_id st)
      else cfg_bedrock_tier_standard_model_id st)"

datatype tier_error = EmptyTierModel string | UnrecognizedFamily string string

fun check_tiers :: "(string \<times> string) list \<Rightarrow> tier_error + unit" where
  "check_tiers [] = Inr ()"
| "check_tiers ((tier_name, model_id) # rest) =
     (if model_id = [] \<or> py_strip model_id = [] then Inl (EmptyTierModel tier_name)
      else if model_family model_id = ''unknown'' then Inl (UnrecognizedFamily tier_name model_id)
      else check_tiers rest)"

definition validate_tier_models_at_startup :: "settings \<Rightarrow> tier_error + unit" where
  "validate_tier_models_at_startup st =
     check_tiers [(''fast'', cfg_bedrock_tier_fast_model_id st),
       (''standard'', cfg_bedrock_tier_standard_model_id st),
       (''deep'', cfg_bedrock_tier_deep_model_id st)]"

definition get_pricing :: "string \<Rightarrow> model_pricing" where
  "get_pricing model_id =
     (case dict_get MODEL_PRICING (model_family model_id) of Some p \<Rightarrow> p | None \<Rightarrow> DEFAULT_PRICING)"

definition compute_cost :: "string \<Rightarrow> int \<Rightarrow> int \<Rightarrow> int \<Rightarrow> int \<Rightarrow> rat" where
  "compute_cost model_id input_tokens output_tokens cache_read_tokens cache_write_tokens =
     (let p = get_pricing model_id;
          non_cached_input = max 0 (input_tokens - cache_read_tokens - cache_write_tokens)
      in (of_int non_cached_input * input_per_1m p
          + of_int cache_read_tokens * cache_read_per_1m p
          + of_int cache_write_tokens * input_per_1m p * CACHE_WRITE_MULTIPLIER
          + of_int output_tokens * output_per_1m p) / 1000000)"

definition estimate_tokens :: "string \<Rightarrow> int" where
  "estimate_tokens s = (if s = [] then 0 else max 1 (int (length s) div 4))"

section \<open>Lemmas\<close>

lemma model_family_cases:
  "model_family m \<in> {''haiku'', ''sonnet'', ''opus'', ''unknown''}"
  by (simp add: model_family_def)

lemma get_pricing_cases:
  "get_pricing m = (if model_family m = ''haiku'' then \<lparr>input_per_1m = 1, output_per_1m = 5, cache_read_per_1m = 1/10\<rparr>
    else if model_family m = ''opus'' then \<lparr>input_per_1m = 5, output_per_1m = 25, cache_read_per_1m = 1/2\<rparr>
    else \<lparr>input_per_1m = 3, output_per_1m = 15, cache_read_per_1m = 3/10\<rparr>)"
  using model_family_cases [of m] by (auto simp: get_pricing_def MODEL_PRICING_def DEFAULT_PRICING_def)

lemma check_tiers_ok:
  "check_tiers ts = Inr () \<longleftrightarrow>
    (\<forall>(n, m) \<in> set ts. py_strip m \<noteq> [] \<and> model_family m \<noteq> ''unknown'')"
proof (induction ts)
  case Nil
  show ?case by simp
next
  case (Cons p ts)
  have "p = (n, m) \<Longrightarrow> m = [] \<Longrightarrow> py_strip m = []" for n m by (simp add: py_strip_def)
  with Cons show ?case by (cases p) auto
qed

text \<open>
  After a successful start-up validation no tier resolves to a blank or unpriced model:
  whatever tier name is asked for, the model's family has its own entry in the price table,
  so the default price is never used for a tier model.
\<close>

theorem validated_tiers_are_priced:
  assumes "validate_tier_models_at_startup st = Inr ()"
  shows "py_strip (resolve_model_for_tier st tier) \<noteq> [] \<and>
    dict_get MODEL_PRICING (model_family (resolve_model_for_tier st tier)) =
      Some (get_pricing (resolve_model_for_tier st tier))"
proof -
  let ?m = "resolve_model_for_tier st tier"
  have "\<forall>(n, m) \<in> set [(''fast'', cfg_bedrock_tier_fast_model_id st),
       (''standard'', cfg_bedrock_tier_standard_model_id st), (''deep'', cfg_bedrock_tier_deep_model_id st)].
      py_strip m \<noteq> [] \<and> model_family m \<noteq> ''unknown''"
    using assms unfolding validate_tier_models_at_startup_def check_tiers_ok .
  then have "py_strip ?m \<noteq> [] \<and> model_family ?m \<noteq> ''unknown''"
    by (simp add: resolve_model_for_tier_def)
  with model_family_cases [of "resolve_model_for_tier st tier"] show ?thesis
    by (auto simp: get_pricing_def MODEL_PRICING_def)
qed

lemma default_tiers_valid: "validate_tier_models_at_startup (default_settings h) = Inr ()"
  unfolding validate_tier_models_at_startup_def check_tiers_ok default_settings_def model_family_def
  by (simp add: py_lower_def lower_char_def py_strip_def is_space_def Let_def)

theorem validated_tiers_are_priced_witness:
  "dict_get MODEL_PRICING (model_family (resolve_model_for_tier (default_settings ''h'') ''deep'')) =
    Some (get_pricing (resolve_model_for_tier (default_settings ''h'') ''deep''))"
  using validated_tiers_are_priced [OF default_tiers_valid] by simp

text \<open>
  The deep tier is gated: with the switch off, no tier name resolves to the deep model
  unless that is also the standard or the fast one.
\<close>

theorem deep_tier_is_gated:
  assumes "\<not> cfg_aigent_tier_deep_enabled st"
  shows "resolve_model_for_tier st tier \<in> {cfg_bedrock_tier_fast_model_id st, cfg_bedrock_tier_standard_model_id st}"
  using assms by (simp add: resolve_model_for_tier_def)

theorem deep_tier_is_gated_witness:
  "resolve_model_for_tier (default_settings ''h'') ''deep'' \<in>
    {cfg_bedrock_tier_fast_model_id (default_settings ''h''), cfg_bedrock_tier_standard_model_id (default_settings ''h'')}"
  by (rule deep_tier_is_gated) (simp add: default_settings_def)

text \<open>
  Prompt-cache reads never make a call dearer, and a call's cost is never negative.
\<close>

theorem cache_reads_save:
  assumes "0 \<le> cr" and "cr \<le> i" and "0 \<le> out"
  shows "0 \<le> compute_cost m i out cr 0 \<and> compute_cost m i out cr 0 \<le> compute_cost m i out 0 0"
proof -
  have c: "0 \<le> (of_int cr :: rat)" "(of_int cr :: rat) \<le> of_int i" "0 \<le> (of_int out :: rat)"
    using assms by simp_all
  then show ?thesis
    using assms by (simp add: compute_cost_def Let_def get_pricing_cases)
qed

theorem cache_reads_save_witness:
  "0 \<le> compute_cost ''us.claude-haiku'' 1000 50 900 0 \<and>
   compute_cost ''us.claude-haiku'' 1000 50 900 0 \<le> compute_cost ''us.claude-haiku'' 1000 50 0 0"
  by (rule cache_reads_save) simp_all

text \<open>
  The token estimate never exceeds a tokenizer that averages at most 3.5 characters per
  token: dividing by four undercounts.
\<close>

theorem estimate_tokens_undercounts:
  assumes "2 * int (length s) \<le> 7 * real_tokens" and "0 \<le> real_tokens"
  shows "estimate_tokens s \<le> real_tokens"
proof (cases s)
  case Nil
  with assms show ?thesis by (simp add: estimate_tokens_def)
next
  case (Cons c cs)
  then have "1 \<le> real_tokens" using assms(1) by simp
  moreover have "int (length s) div 4 \<le> real_tokens" using assms by linarith
  ultimately show ?thesis by (simp add: estimate_tokens_def)
qed

theorem estimate_tokens_undercounts_witness:
  "estimate_tokens (replicate 700 CHR ''a'') \<le> 200 \<and> estimate_tokens (replicate 700 CHR ''a'') = 175"
  using estimate_tokens_undercounts [of "replicate 700 CHR ''a''" 200]
  by (simp add: estimate_tokens_def)

end
