(* ===== verification/StateStore.thy ===== *)
theory StateStore
  imports Prelude "HOL-Library.List_Lexorder" "HOL-Library.Char_ord" "HOL-Library.Multiset"
begin

text \<open>
  Conversation storage of src/src/core/state_store.py: messages are items of a DynamoDB table
  under the partition key \<open>user#session\<close> and the sort key \<open>agent#timestamp\<close>; reads return the
  newest items in ascending order; every operation is fail-open.  The table service is a
  parameter: two operations, with their documented behaviour as \<open>dynamo_laws\<close>.
\<close>

record quality_assessment =
  qa_confidence :: string
  qa_unverified_claims :: "string list"

record conv_message =
  cm_role :: string
  cm_content :: string
  cm_timestamp :: string
  cm_agent_id :: "string option"
  cm_quality :: "quality_assessment option"

record item =
  it_pk :: string
  it_sk :: string
  it_user_id :: string
  it_session_id :: string
  it_agent_id :: string
  it_role :: string
  it_content :: string
  it_timestamp :: string
  it_ttl :: int

record 's dynamo_ops =
  put_item :: "item \<Rightarrow> 's \<Rightarrow> (exn + unit) \<times> 's"
  query_items :: "string \<Rightarrow> string option \<Rightarrow> bool \<Rightarrow> nat \<Rightarrow> 's \<Rightarrow> (exn + item list) \<times> 's"

text \<open>\<open>now_iso\<close> and \<open>now\<close> are the clock's ISO text and its seconds.\<close>

definition save_chat_message ::
    "'s dynamo_ops \<Rightarrow> string \<Rightarrow> int \<Rightarrow> string \<Rightarrow> string \<Rightarrow> string \<Rightarrow> conv_message \<Rightarrow> 's \<Rightarrow> 's" where
  "save_chat_message d now_iso now user_id session_id agent_id m s =
     snd (put_item d
       \<lparr>it_pk = user_id @ ''#'' @ session_id, it_sk = agent_id @ ''#'' @ now_iso,
        it_user_id = user_id, it_session_id = session_id, it_agent_id = agent_id,
        it_role = cm_role m, it_content = cm_content m, it_timestamp = cm_timestamp m,
        it_ttl = now + 24 * 3600\<rparr> s)"

definition message_of_item :: "item \<Rightarrow> conv_message" where
  "message_of_item it =
     \<lparr>cm_role = it_role it, cm_content = it_content it, cm_timestamp = it_timestamp it,
      cm_agent_id = Some (it_agent_id it), cm_quality = None\<rparr>"

text \<open>\<open>ScanIndexForward=False\<close> is the \<open>False\<close> of the query: descending by sort key.\<close>

definition fetch_chat ::
    "'s dynamo_ops \<Rightarrow> string \<Rightarrow> string \<Rightarrow> string \<Rightarrow> nat \<Rightarrow> 's \<Rightarrow> conv_message list \<times> 's" where
  "fetch_chat d user_id session_id agent_id max_messages s =
     (case query_items d (user_id @ ''#'' @ session_id) (Some agent_id) False max_messages s of
        (Inr its, s') \<Rightarrow> (map message_of_item (rev its), s')
      | (Inl e, s') \<Rightarrow> ([], s'))"

definition fetch_all_chats ::
    "'s dynamo_ops \<Rightarrow> string \<Rightarrow> string \<Rightarrow> nat \<Rightarrow> 's \<Rightarrow> conv_message list \<times> 's" where
  "fetch_all_chats d user_id session_id max_messages s =
     (case query_items d (user_id @ ''#'' @ session_id) None False max_messages s of
        (Inr its, s') \<Rightarrow> (map message_of_item (rev its), s')
      | (Inl e, s') \<Rightarrow> ([], s'))"

section \<open>The table service\<close>

definition same_key :: "item \<Rightarrow> item \<Rightarrow> bool" where
  "same_key a b \<longleftrightarrow> it_pk a = it_pk b \<and> it_sk a = it_sk b"

text \<open>
  Documented behaviour over a view \<open>tbl\<close> of the table's items: PUT replaces the item of the
  same key; a query selects one partition and, optionally, a prefix of the sort key, in
  order of the sort key, and stops at the limit.
\<close>

definition select_items :: "string \<Rightarrow> string option \<Rightarrow> item list \<Rightarrow> item list" where
  "select_items pk pre tb =
     sort_key it_sk (filter (\<lambda>i. it_pk i = pk \<and> (case pre of None \<Rightarrow> True | Some p \<Rightarrow> prefix p (it_sk i))) tb)"

definition dynamo_laws :: "'s dynamo_ops \<Rightarrow> ('s \<Rightarrow> item list) \<Rightarrow> bool" where
  "dynamo_laws d tbl \<longleftrightarrow>
     (\<forall>i s. fst (put_item d i s) = Inr () \<and>
        tbl (snd (put_item d i s)) = i # filter (\<lambda>j. \<not> same_key i j) (tbl s)) \<and>
     (\<forall>pk pre fwd n s. query_items d pk pre fwd n s =
        (Inr (take n (if fwd then select_items pk pre (tbl s) else rev (select_items pk pre (tbl s)))), s))"

definition list_dynamo :: "item list dynamo_ops" where
  "list_dynamo =
     \<lparr>put_item = (\<lambda>i s. (Inr (), i # filter (\<lambda>j. \<not> same_key i j) s)),
      query_items = (\<lambda>pk pre fwd n s.
        (Inr (take n (if fwd then select_items pk pre s else rev (select_items pk pre s))), s))\<rparr>"

lemma list_dynamo_laws: "dynamo_laws list_dynamo (\<lambda>s. s)"
  by (simp add: dynamo_laws_def list_dynamo_def)

section \<open>Lemmas\<close>

lemma append_less_same [simp]: "(a @ x :: string) < a @ y \<longleftrightarrow> x < y"
  by (induction a) auto

lemma sort_key_sorted_keys:
  assumes "mset ys = mset xs" and "sorted_wrt (<) (map f ys)"
  shows "sort_key f xs = (ys :: 'a list)"
proof (rule properties_for_sort_key [OF assms(1) [symmetric, THEN sym]])
  fix k
  assume "k \<in> set ys"
  have d: "distinct (map f ys)" using assms(2) by (simp add: strict_sorted_iff)
  have m: "mset (filter (\<lambda>x. f k = f x) ys) = mset (filter (\<lambda>x. f k = f x) xs)"
    using assms(1) by (simp add: mset_filter)
  have one: "filter (\<lambda>x. f k = f x) ys = [k]"
    using d \<open>k \<in> set ys\<close>
    by (induction ys) (auto simp: filter_empty_conv image_iff)
  have "mset (filter (\<lambda>x. f k = f x) xs) = {#k#}"
    unfolding m [symmetric] one by simp
  then have "filter (\<lambda>x. f k = f x) xs = [k]" by (simp only: mset_single_iff)
  with one show "filter (\<lambda>x. f k = f x) ys = filter (\<lambda>x. f k = f x) xs" by simp
next
  show "sorted (map f ys)" using assms(2) by (simp add: strict_sorted_iff)
qed

text \<open>
  A run of saves in one session: the agent, the clock's texts and the message of each.
\<close>

fun save_all ::
    "'s dynamo_ops \<Rightarrow> string \<Rightarrow> string \<Rightarrow> (string \<times> string \<times> int \<times> conv_message) list \<Rightarrow> 's \<Rightarrow> 's" where
  "save_all d u sid [] s = s"
| "save_all d u sid ((a, ts, now, m) # ms) s =
     save_all d u sid ms (save_chat_message d ts now u sid a m s)"

definition item_of :: "string \<Rightarrow> string \<Rightarrow> string \<times> string \<times> int \<times> conv_message \<Rightarrow> item" where
  "item_of u sid e = (case e of (a, ts, now, m) \<Rightarrow>
     \<lparr>it_pk = u @ ''#'' @ sid, it_sk = a @ ''#'' @ ts, it_user_id = u, it_session_id = sid,
      it_agent_id = a, it_role = cm_role m, it_content = cm_content m, it_timestamp = cm_timestamp m,
      it_ttl = now + 24 * 3600\<rparr>)"

definition sk_of :: "string \<times> string \<times> int \<times> conv_message \<Rightarrow> string" where
  "sk_of e = fst e @ ''#'' @ fst (snd e)"

lemma item_of_simps [simp]: "it_pk (item_of u sid e) = u @ ''#'' @ sid" "it_sk (item_of u sid e) = sk_of e"
  by (simp_all add: item_of_def sk_of_def case_prod_beta)

lemma save_all_simps:
  assumes "dynamo_laws d tbl"
  shows "tbl (save_chat_message d (fst (snd e)) (fst (snd (snd e))) u sid (fst e) (snd (snd (snd e))) s) =
    item_of u sid e # filter (\<lambda>j. \<not> same_key (item_of u sid e) j) (tbl s)"
  using assms by (simp add: dynamo_laws_def save_chat_message_def item_of_def case_prod_beta)

lemma filter_save_all:
  assumes L: "dynamo_laws d tbl"
    and P_def: "P = (\<lambda>i. it_pk i = u @ ''#'' @ sid \<and> prefix agent (it_sk i))"
  shows "\<forall>e \<in> set es. fst e = agent \<or> \<not> prefix agent (sk_of e) \<Longrightarrow>
    distinct (map sk_of (filter (\<lambda>e. fst e = agent) es)) \<Longrightarrow>
    \<forall>j \<in> set (filter P (tbl s)). it_sk j \<notin> sk_of ` set (filter (\<lambda>e. fst e = agent) es) \<Longrightarrow>
    filter P (tbl (save_all d u sid es s)) =
      rev (map (item_of u sid) (filter (\<lambda>e. fst e = agent) es)) @ filter P (tbl s)"
proof (induction es arbitrary: s)
  case Nil
  then show ?case by simp
next
  case (Cons e es)
  obtain a ts now m where e: "e = (a, ts, now, m)" by (cases e)
  let ?i = "item_of u sid e"
  let ?s' = "save_chat_message d ts now u sid a m s"
  have t: "tbl ?s' = ?i # filter (\<lambda>j. \<not> same_key ?i j) (tbl s)"
    using save_all_simps [OF L, of e u sid s] by (simp add: e)
  have f: "filter P (tbl ?s') = (if a = agent then [?i] else []) @ filter P (tbl s)"
  proof (cases "a = agent")
    case True
    then have "P ?i" by (simp add: P_def sk_of_def e)
    moreover have "filter P (filter (\<lambda>j. \<not> same_key ?i j) (tbl s)) = filter P (tbl s)"
      using Cons.prems(3) True by (auto simp: filter_filter e same_key_def intro!: filter_cong)
    ultimately show ?thesis unfolding t using True by simp
  next
    case False
    then have no: "\<not> P ?i" using Cons.prems(1) by (simp add: P_def e)
    then have "filter P (filter (\<lambda>j. \<not> same_key ?i j) (tbl s)) = filter P (tbl s)"
      by (auto simp: filter_filter same_key_def P_def intro!: filter_cong)
    with no show ?thesis unfolding t using False by simp
  qed
  have "filter P (tbl (save_all d u sid es ?s')) =
      rev (map (item_of u sid) (filter (\<lambda>e. fst e = agent) es)) @ filter P (tbl ?s')"
    using Cons.prems by (intro Cons.IH) (auto simp: f e split: if_splits)
  then show ?case by (simp add: e f)
qed

lemma message_of_item_of:
  "message_of_item (item_of u sid e) = (snd (snd (snd e)))\<lparr>cm_agent_id := Some (fst e), cm_quality := None\<rparr>"
  by (cases "snd (snd (snd e))") (simp add: message_of_item_def item_of_def case_prod_beta)

definition last_n :: "nat \<Rightarrow> 'a list \<Rightarrow> 'a list" where
  "last_n n xs = drop (length xs - n) xs"

lemma rev_take_rev: "rev (take n (rev xs)) = last_n n xs"
  by (simp add: last_n_def rev_take)

text \<open>
  Per-agent history round trip.  With the table service up, after any interleaving of
  saves by the agents of a session at increasing times, an agent reads back exactly its own
  last "max_messages" messages, oldest first, provided no other agent's sort keys start with
  its name.
\<close>

theorem agent_history_roundtrip:
  assumes "dynamo_laws d tbl"
    and "list_all (\<lambda>i. it_pk i \<noteq> u @ ''#'' @ sid) (tbl s)"
    and "sorted_wrt (<) (map (\<lambda>e. fst (snd e)) es)"
    and "list_all (\<lambda>e. fst e = agent \<or> \<not> prefix agent (fst e @ ''#'' @ fst (snd e))) es"
  shows "fst (fetch_chat d u sid agent n (save_all d u sid es s)) =
    last_n n (map (\<lambda>(a, ts, now, m). m\<lparr>cm_agent_id := Some a, cm_quality := None\<rparr>)
      (filter (\<lambda>e. fst e = agent) es))"
proof -
  let ?P = "\<lambda>i. it_pk i = u @ ''#'' @ sid \<and> prefix agent (it_sk i)"
  let ?mine = "filter (\<lambda>e. fst e = agent) es"
  have srt: "sorted_wrt (<) (map sk_of ?mine)"
    using assms(3) by (induction es) (auto simp: sk_of_def)
  then have "distinct (map sk_of ?mine)" by (simp add: strict_sorted_iff)
  then have f: "filter ?P (tbl (save_all d u sid es s)) = rev (map (item_of u sid) ?mine)"
    using filter_save_all [OF assms(1) refl, of es agent u sid s] assms(2,4)
    by (auto simp: list_all_iff sk_of_def filter_empty_conv)
  have "select_items (u @ ''#'' @ sid) (Some agent) (tbl (save_all d u sid es s)) = map (item_of u sid) ?mine"
    unfolding select_items_def option.case f
    using srt by (intro sort_key_sorted_keys) (simp_all add: comp_def)
  then have "fst (fetch_chat d u sid agent n (save_all d u sid es s)) =
      map message_of_item (last_n n (map (item_of u sid) ?mine))"
    using assms(1) by (simp add: fetch_chat_def dynamo_laws_def rev_take_rev)
  also have "\<dots> = last_n n (map (\<lambda>(a, ts, now, m). m\<lparr>cm_agent_id := Some a, cm_quality := None\<rparr>) ?mine)"
    by (simp add: last_n_def drop_map [symmetric] comp_def message_of_item_of case_prod_unfold)
  finally show ?thesis .
qed

definition msg :: "string \<Rightarrow> string \<Rightarrow> conv_message" where
  "msg role c = \<lparr>cm_role = role, cm_content = c, cm_timestamp = ''t'', cm_agent_id = None, cm_quality = None\<rparr>"

theorem agent_history_roundtrip_witness:
  "map cm_content (fst (fetch_chat list_dynamo ''u'' ''s'' ''aws'' 2 (save_all list_dynamo ''u'' ''s''
     [(''aws'', ''t1'', 1, msg ''user'' ''a''), (''k8s'', ''t2'', 2, msg ''user'' ''b''),
      (''aws'', ''t3'', 3, msg ''user'' ''c''), (''aws'', ''t4'', 4, msg ''user'' ''d'')] []))) = [''c'', ''d'']"
proof -
  let ?es = "[(''aws'', ''t1'', 1, msg ''user'' ''a''), (''k8s'', ''t2'', 2, msg ''user'' ''b''),
      (''aws'', ''t3'', 3, msg ''user'' ''c''), (''aws'', ''t4'', 4, msg ''user'' ''d'')]"
  have "list_all (\<lambda>i. it_pk i \<noteq> ''u'' @ ''#'' @ ''s'') []"
    "sorted_wrt (<) (map (\<lambda>e. fst (snd e)) ?es)"
    "list_all (\<lambda>e. fst e = ''aws'' \<or> \<not> prefix ''aws'' (fst e @ ''#'' @ fst (snd e))) ?es"
    by (simp_all add: less_char_def)
  from agent_history_roundtrip [OF list_dynamo_laws this, of 2] show ?thesis
    by (simp add: last_n_def msg_def)
qed

text \<open>
  The session-wide history is ordered by sort key, so by agent name first: there is a
  session in which a later message of one agent is returned before an earlier one of another,
  and a limit drops the newest message while it keeps older ones.
\<close>

theorem session_history_not_chronological:
  assumes "dynamo_laws d tbl" and "tbl s = []"
  defines "s' \<equiv> save_all d ''u'' ''s''
    [(''k8s'', ''t1'', 1, msg ''user'' ''first''), (''aws'', ''t2'', 2, msg ''user'' ''second'')] s"
  shows "map cm_content (fst (fetch_all_chats d ''u'' ''s'' 2 s')) = [''second'', ''first''] \<and>
    map cm_content (fst (fetch_all_chats d ''u'' ''s'' 1 s')) = [''first'']"
proof -
  let ?a = "item_of ''u'' ''s'' (''k8s'', ''t1'', 1, msg ''user'' ''first'')"
  let ?b = "item_of ''u'' ''s'' (''aws'', ''t2'', 2, msg ''user'' ''second'')"
  have t: "tbl s' = [?b, ?a]"
    using save_all_simps [OF assms(1), of "(''k8s'', ''t1'', 1, msg ''user'' ''first'')" "''u''" "''s''" s]
      save_all_simps [OF assms(1), of "(''aws'', ''t2'', 2, msg ''user'' ''second'')" "''u''" "''s''"]
    by (simp add: s'_def assms(2) same_key_def sk_of_def)
  have "sort_key it_sk [?b, ?a] = [?b, ?a]"
    by (rule sort_key_sorted_keys) (simp_all add: sk_of_def less_char_def)
  then have sel: "select_items (''u'' @ ''#'' @ ''s'') None (tbl s') = [?b, ?a]"
    by (simp add: select_items_def t)
  have "cm_content (message_of_item ?a) = ''first''" "cm_content (message_of_item ?b) = ''second''"
    by (simp_all add: message_of_item_of msg_def)
  then show ?thesis
    using assms(1) sel by (simp add: fetch_all_chats_def dynamo_laws_def numeral_2_eq_2)
qed

theorem session_history_not_chronological_witness:
  "map cm_content (fst (fetch_all_chats list_dynamo ''u'' ''s'' 1
     (save_all list_dynamo ''u'' ''s''
        [(''k8s'', ''t1'', 1, msg ''user'' ''first''), (''aws'', ''t2'', 2, msg ''user'' ''second'')] []))) = [''first'']"
  using session_history_not_chronological [OF list_dynamo_laws, of "[]"] by simp

end
