(* ===== verification/TokenBudget.thy ===== *)
theory TokenBudget
  imports ModelTier StateStore
begin

text \<open>
  The per-session token budget of src/src/core/token_budget.py: cumulative usage in Redis
  (INCRBY, EXPIRE) or, without a client, in memory; the pre-call check that fails closed; the
  post-call recording; and the truncation of a history to a token window.
\<close>

datatype budget_error = TokenBudgetExceeded string int int

record tracker =
  tb_max :: int
  tb_usage :: "(string \<times> int) list"

text \<open>\<open>max_tokens_per_session or settings.session_token_budget\<close>: zero counts as absent.\<close>

definition new_tracker :: "settings \<Rightarrow> int option \<Rightarrow> tracker" where
  "new_tracker st max_tokens =
     \<lparr>tb_max = (case max_tokens of None \<Rightarrow> cfg_session_token_budget st
                | Some n \<Rightarrow> if n = 0 then cfg_session_token_budget st else n),
      tb_usage = []\<rparr>"

definition tb_key :: "string \<Rightarrow> string" where
  "tb_key session_id = ''token_budget:session:'' @ session_id"

definition SESSION_BUDGET_TTL_SECONDS :: int where
  "SESSION_BUDGET_TTL_SECONDS = 86400"

definition mem_usage :: "tracker \<Rightarrow> string \<Rightarrow> int" where
  "mem_usage t sid = (case dict_get (tb_usage t) sid of None \<Rightarrow> 0 | Some n \<Rightarrow> n)"

text \<open>\<open>int(val) if val is not None else 0\<close>; None here is the exception of the GET or of \<open>int\<close>.\<close>

definition redis_usage :: "'s redis_ops \<Rightarrow> string \<Rightarrow> 's \<Rightarrow> int option \<times> 's" where
  "redis_usage r sid s =
     (case rd_get r (tb_key sid) s of
        (Inl e, s') \<Rightarrow> (None, s')
      | (Inr None, s') \<Rightarrow> (Some 0, s')
      | (Inr (Some v), s') \<Rightarrow> (wire_int v, s'))"

definition get_usage :: "'s redis_ops option \<Rightarrow> tracker \<Rightarrow> string \<Rightarrow> 's \<Rightarrow> int \<times> 's" where
  "get_usage ro t sid s =
     (case ro of None \<Rightarrow> (mem_usage t sid, s)
      | Some r \<Rightarrow>
          (case redis_usage r sid s of (Some n, s') \<Rightarrow> (n, s') | (None, s') \<Rightarrow> (tb_max t, s')))"

definition get_remaining :: "'s redis_ops option \<Rightarrow> tracker \<Rightarrow> string \<Rightarrow> 's \<Rightarrow> int \<times> 's" where
  "get_remaining ro t sid s = (case get_usage ro t sid s of (n, s') \<Rightarrow> (max 0 (tb_max t - n), s'))"

definition tb_check_budget ::
    "'s redis_ops option \<Rightarrow> tracker \<Rightarrow> string \<Rightarrow> 's \<Rightarrow> (budget_error + unit) \<times> 's" where
  "tb_check_budget ro t sid s =
     (case ro of
        None \<Rightarrow>
          (let used = mem_usage t sid
           in if used \<ge> tb_max t then (Inl (TokenBudgetExceeded sid used (tb_max t)), s) else (Inr (), s))
      | Some r \<Rightarrow>
          (case redis_usage r sid s of
             (None, s') \<Rightarrow> (Inl (TokenBudgetExceeded sid (tb_max t) (tb_max t)), s')
           | (Some used, s') \<Rightarrow>
               if used \<ge> tb_max t then (Inl (TokenBudgetExceeded sid used (tb_max t)), s')
               else (Inr (), s')))"

definition record_usage ::
    "'s redis_ops option \<Rightarrow> tracker \<Rightarrow> string \<Rightarrow> int \<Rightarrow> int \<Rightarrow> 's \<Rightarrow> tracker \<times> 's" where
  "record_usage ro t sid input_tokens output_tokens s =
     (let tot = input_tokens + output_tokens;
          pinned = t\<lparr>tb_usage := dict_set (tb_usage t) sid (tb_max t)\<rparr>
      in case ro of
           None \<Rightarrow> (t\<lparr>tb_usage := dict_set (tb_usage t) sid (mem_usage t sid + tot)\<rparr>, s)
         | Some r \<Rightarrow>
             (case rd_incrby r (tb_key sid) tot s of
                (Inl e, s1) \<Rightarrow> (pinned, s1)
              | (Inr cumulative, s1) \<Rightarrow>
                  (case rd_expire r (tb_key sid) SESSION_BUDGET_TTL_SECONDS s1 of
                     (Inl e, s2) \<Rightarrow> (pinned, s2)
                   | (Inr _, s2) \<Rightarrow> (t, s2))))"

definition tb_reset :: "'s redis_ops option \<Rightarrow> tracker \<Rightarrow> string \<Rightarrow> 's \<Rightarrow> tracker \<times> 's" where
  "tb_reset ro t sid s =
     (case ro of None \<Rightarrow> (t\<lparr>tb_usage := dict_del (tb_usage t) sid\<rparr>, s)
      | Some r \<Rightarrow> (t\<lparr>tb_usage := dict_del (tb_usage t) sid\<rparr>, snd (rd_del r (tb_key sid) s)))"

section \<open>History truncation\<close>

text \<open>
  The backward loop: \<open>i\<close> messages are still to be looked at, \<open>tot\<close> is the running count and
  \<open>keep_start\<close> the index of the oldest message kept.
\<close>

fun truncate_loop :: "int list \<Rightarrow> int \<Rightarrow> nat \<Rightarrow> int \<Rightarrow> nat \<Rightarrow> int \<times> nat" where
  "truncate_loop toks max_tokens 0 tot keep_start = (tot, keep_start)"
| "truncate_loop toks max_tokens (Suc i) tot keep_start =
     (if tot + toks ! i > max_tokens then (tot, keep_start)
      else truncate_loop toks max_tokens i (tot + toks ! i) i)"

definition msg_tokens :: "conv_message \<Rightarrow> int" where
  "msg_tokens m = estimate_tokens (cm_content m) + 4"

definition truncate_history_by_tokens ::
    "settings \<Rightarrow> conv_message list \<Rightarrow> int option \<Rightarrow> conv_message list \<times> int" where
  "truncate_history_by_tokens st messages max_tokens =
     (let mx = (case max_tokens of None \<Rightarrow> cfg_history_max_tokens st | Some n \<Rightarrow> n)
      in if messages = [] then ([], 0)
         else (case truncate_loop (map msg_tokens messages) mx (length messages) 0 (length messages) of
                 (tot, keep_start) \<Rightarrow> (drop keep_start messages, tot)))"

section \<open>Lemmas\<close>

lemma estimate_tokens_nonneg: "0 \<le> estimate_tokens s"
  by (simp add: estimate_tokens_def le_max_iff_disj)

lemma msg_tokens_pos: "0 < msg_tokens m"
  using estimate_tokens_nonneg [of "cm_content m"] by (simp add: msg_tokens_def)

lemma truncate_loop_inv:
  assumes "i \<le> length toks" and "tot = sum_list (drop i toks)" and "tot \<le> mx"
    and "truncate_loop toks mx i tot i = (tot2, k)"
  shows "k \<le> i \<and> tot2 = sum_list (drop k toks) \<and> tot2 \<le> mx \<and>
    (0 < k \<longrightarrow> mx < sum_list (drop (k - 1) toks))"
  using assms
proof (induction i arbitrary: tot)
  case 0
  then show ?case by simp
next
  case (Suc i)
  have d: "sum_list (drop i toks) = toks ! i + sum_list (drop (Suc i) toks)"
    using Suc.prems(1) by (subst Cons_nth_drop_Suc [symmetric]) auto
  show ?case
  proof (cases "tot + toks ! i > mx")
    case True
    with Suc.prems d show ?thesis by auto
  next
    case False
    with Suc.prems have "truncate_loop toks mx i (tot + toks ! i) i = (tot2, k)" by simp
    with Suc.IH [of "tot + toks ! i"] False Suc.prems d show ?thesis by (auto simp: add.commute)
  qed
qed

text \<open>
  History truncation keeps the longest recent part that fits: the result is a suffix of
  the history, its reported token count is its own and within the window, and the next older
  message would not have fitted.
\<close>

theorem truncation_keeps_longest_suffix:
  assumes "truncate_history_by_tokens st messages (Some mx) = (kept, tot)" and "0 \<le> mx"
  shows "\<exists>k \<le> length messages. kept = drop k messages \<and>
    tot = sum_list (map msg_tokens kept) \<and> tot \<le> mx \<and>
    (0 < k \<longrightarrow> mx < msg_tokens (messages ! (k - 1)) + tot)"
proof (cases "messages = []")
  case True
  with assms show ?thesis by (simp add: truncate_history_by_tokens_def)
next
  case False
  let ?t = "map msg_tokens messages"
  obtain k where k: "truncate_loop ?t mx (length ?t) 0 (length ?t) = (tot, k)" "kept = drop k messages"
    using assms(1) False by (auto simp: truncate_history_by_tokens_def split: prod.splits)
  from truncate_loop_inv [of "length ?t" ?t 0 mx tot k] k(1) assms(2)
  have inv: "k \<le> length messages" "tot = sum_list (drop k ?t)" "tot \<le> mx"
    "0 < k \<longrightarrow> mx < sum_list (drop (k - 1) ?t)" by simp_all
  have "0 < k \<Longrightarrow> sum_list (drop (k - 1) ?t) = msg_tokens (messages ! (k - 1)) + tot"
    using inv(1,2) by (subst Cons_nth_drop_Suc [symmetric]) auto
  with inv k(2) show ?thesis by (auto simp: drop_map)
qed

theorem truncation_keeps_longest_suffix_witness:
  "\<exists>k \<le> length [msg ''user'' (replicate 40 CHR ''a''), msg ''user'' ''hi'', msg ''user'' ''ok''].
     drop 1 [msg ''user'' (replicate 40 CHR ''a''), msg ''user'' ''hi'', msg ''user'' ''ok''] =
       drop k [msg ''user'' (replicate 40 CHR ''a''), msg ''user'' ''hi'', msg ''user'' ''ok''] \<and>
     10 = sum_list (map msg_tokens (drop 1 [msg ''user'' (replicate 40 CHR ''a''), msg ''user'' ''hi'', msg ''user'' ''ok''])) \<and>
     (10::int) \<le> 12 \<and>
     (0 < k \<longrightarrow> 12 < msg_tokens ([msg ''user'' (replicate 40 CHR ''a''), msg ''user'' ''hi'', msg ''user'' ''ok''] ! (k - 1)) + 10)"
proof (rule truncation_keeps_longest_suffix)
  show "truncate_history_by_tokens (default_settings ''h'') [msg ''user'' (replicate 40 CHR ''a''), msg ''user'' ''hi'', msg ''user'' ''ok'']
      (Some 12) = (drop 1 [msg ''user'' (replicate 40 CHR ''a''), msg ''user'' ''hi'', msg ''user'' ''ok''], 10)"
    by (simp add: truncate_history_by_tokens_def msg_tokens_def msg_def estimate_tokens_def)
qed simp

section \<open>Budget properties\<close>

lemma tb_key_inj [simp]: "tb_key a = tb_key b \<longleftrightarrow> a = b"
  by (simp add: tb_key_def)

definition usage_of :: "('s \<Rightarrow> string \<Rightarrow> rval option) \<Rightarrow> 's \<Rightarrow> string \<Rightarrow> int option" where
  "usage_of look s sid = (case look s (tb_key sid) of None \<Rightarrow> Some 0 | Some v \<Rightarrow> wire_int v)"

lemma redis_usage_up: "redis_laws r look \<Longrightarrow> redis_usage r sid s = (usage_of look s sid, s)"
  by (simp add: redis_usage_def usage_of_def redis_get_law split: option.splits)

lemma record_usage_up:
  assumes L: "redis_laws r look" and "usage_of look s sid = Some c"
  shows "fst (record_usage (Some r) t sid i out s) = t"
    and "usage_of look (snd (record_usage (Some r) t sid i out s)) sid' =
      (if sid' = sid then Some (c + (i + out)) else usage_of look s sid')"
proof -
  have "case look s (tb_key sid) of None \<Rightarrow> c = 0 | Some v \<Rightarrow> wire_int v = Some c"
    using assms(2) by (simp add: usage_of_def split: option.splits)
  note inc = redis_incrby_law [OF L this, of "i + out"]
  obtain s1 where s1: "rd_incrby r (tb_key sid) (i + out) s = (Inr (c + (i + out)), s1)"
    "look s1 = (look s)(tb_key sid \<mapsto> RInt (c + (i + out)))"
    using inc by (metis prod.collapse)
  obtain s2 where s2: "rd_expire r (tb_key sid) SESSION_BUDGET_TTL_SECONDS s1 = (Inr (), s2)"
    "look s2 = look s1"
    using redis_expire_law [OF L] by (metis prod.collapse)
  show "fst (record_usage (Some r) t sid i out s) = t"
    by (simp add: record_usage_def s1(1) s2(1))
  show "usage_of look (snd (record_usage (Some r) t sid i out s)) sid' =
      (if sid' = sid then Some (c + (i + out)) else usage_of look s sid')"
    by (simp add: record_usage_def s1(1) s2(1)) (simp add: usage_of_def s2(2) s1(2) wire_int_def)
qed

text \<open>Calls of any replicas: each has a tracker, a session and its token counts.\<close>

fun record_all :: "'s redis_ops \<Rightarrow> (tracker \<times> string \<times> int \<times> int) list \<Rightarrow> 's \<Rightarrow> 's" where
  "record_all r [] s = s"
| "record_all r ((t, sid, i, out) # calls) s = record_all r calls (snd (record_usage (Some r) t sid i out s))"

definition session_tokens :: "string \<Rightarrow> (tracker \<times> string \<times> int \<times> int) list \<Rightarrow> int" where
  "session_tokens sid calls = sum_list (map (\<lambda>(t, sid', i, out). if sid' = sid then i + out else 0) calls)"

lemma record_all_usage:
  assumes "redis_laws r look" and "\<And>sid. usage_of look s sid \<noteq> None" and "usage_of look s sid = Some c"
  shows "usage_of look (record_all r calls s) sid = Some (c + session_tokens sid calls)"
  using assms(2,3)
proof (induction calls arbitrary: s c)
  case Nil
  then show ?case by (simp add: session_tokens_def)
next
  case (Cons p calls)
  obtain t sid' i out where p: "p = (t, sid', i, out)" by (cases p)
  obtain c' where c': "usage_of look s sid' = Some c'" using Cons.prems(1) [of sid'] by blast
  note up = record_usage_up(2) [OF assms(1) c', of t i out]
  have "usage_of look (snd (record_usage (Some r) t sid' i out s)) sid =
      Some (if sid = sid' then c + (i + out) else c)"
    using up c' Cons.prems(2) by (cases "sid = sid'") auto
  from Cons.IH [OF _ this] up Cons.prems(1) show ?case
    by (auto simp: p session_tokens_def)
qed

text \<open>
  One budget across replicas.  With the service up, the check of a session is refused
  exactly when the tokens recorded for it, by any replicas, have reached the cap; the refusal
  carries that total.
\<close>

theorem token_budget_shared_cap:
  assumes "redis_laws r look" and "\<And>sid. look s (tb_key sid) = None"
  shows "fst (tb_check_budget (Some r) t sid (record_all r calls s)) =
    (if tb_max t \<le> session_tokens sid calls
     then Inl (TokenBudgetExceeded sid (session_tokens sid calls) (tb_max t)) else Inr ())"
proof -
  have u: "\<And>sid. usage_of look s sid = Some 0" using assms(2) by (simp add: usage_of_def)
  have "usage_of look (record_all r calls s) sid = Some (session_tokens sid calls)"
    using record_all_usage [OF assms(1) _ u, where sid = sid and calls = calls] u by simp
  then show ?thesis by (simp add: tb_check_budget_def redis_usage_up [OF assms(1)])
qed

theorem token_budget_shared_cap_witness:
  "fst (tb_check_budget (Some map_redis) \<lparr>tb_max = 100, tb_usage = []\<rparr> ''a''
     (record_all map_redis [(\<lparr>tb_max = 100, tb_usage = []\<rparr>, ''a'', 50, 10),
        (\<lparr>tb_max = 100, tb_usage = [(''a'', 7)]\<rparr>, ''a'', 30, 20), (\<lparr>tb_max = 100, tb_usage = []\<rparr>, ''b'', 9, 9)]
        Map.empty)) = Inl (TokenBudgetExceeded ''a'' 110 100)"
  using token_budget_shared_cap [OF map_redis_laws, of Map.empty "\<lparr>tb_max = 100, tb_usage = []\<rparr>" "''a''"
      "[(\<lparr>tb_max = 100, tb_usage = []\<rparr>, ''a'', 50, 10),
        (\<lparr>tb_max = 100, tb_usage = [(''a'', 7)]\<rparr>, ''a'', 30, 20), (\<lparr>tb_max = 100, tb_usage = []\<rparr>, ''b'', 9, 9)]"]
  by (simp add: session_tokens_def)

text \<open>
  The token budget fails closed: with the service down every check is refused and no
  tokens remain.
\<close>

theorem token_budget_fails_closed:
  assumes "redis_down r" and "0 \<le> tb_max t"
  shows "fst (tb_check_budget (Some r) t sid s) = Inl (TokenBudgetExceeded sid (tb_max t) (tb_max t)) \<and>
    fst (get_remaining (Some r) t sid s) = 0"
proof -
  obtain e s' where "rd_get r (tb_key sid) s = (Inl e, s')" using redis_downD(1) [OF assms(1)] by blast
  then show ?thesis
    by (simp add: tb_check_budget_def get_remaining_def get_usage_def redis_usage_def)
qed

theorem token_budget_fails_closed_witness:
  "fst (tb_check_budget (Some dead_redis) \<lparr>tb_max = 10, tb_usage = []\<rparr> ''a'' ()) = Inl (TokenBudgetExceeded ''a'' 10 10)"
  using token_budget_fails_closed [OF dead_redis_down, of "\<lparr>tb_max = 10, tb_usage = []\<rparr>" "''a''" "()"] by simp

text \<open>
  The usage that a failed recording pins in memory is never read back while a client is
  configured: once the service answers again, the check depends on the service alone, so the
  refusal the recording meant to defer is lost.
\<close>

theorem pinned_usage_is_ignored:
  assumes "rd_incrby r (tb_key sid) (i + out) s = (Inl e, s1)" and "usage_of look s1 sid = Some c"
    and "rd_get r (tb_key sid) s1 = (Inr (look s1 (tb_key sid)), s1)" and "c < tb_max t"
  shows "dict_get (tb_usage (fst (record_usage (Some r) t sid i out s))) sid = Some (tb_max t) \<and>
    fst (tb_check_budget (Some r) (fst (record_usage (Some r) t sid i out s)) sid s1) = Inr ()"
proof -
  have "redis_usage r sid s1 = (Some c, s1)"
    using assms(2,3) by (simp add: redis_usage_def usage_of_def split: option.splits)
  with assms(1,4) show ?thesis
    by (simp add: record_usage_def tb_check_budget_def)
qed

theorem pinned_usage_is_ignored_witness:
  "fst (tb_check_budget (Some (map_redis\<lparr>rd_incrby := \<lambda>k n s. (Inl ''timeout'', s)\<rparr>))
     (fst (record_usage (Some (map_redis\<lparr>rd_incrby := \<lambda>k n s. (Inl ''timeout'', s)\<rparr>))
        \<lparr>tb_max = 10, tb_usage = []\<rparr> ''a'' 500 500 Map.empty)) ''a'' Map.empty) = Inr ()"
  using pinned_usage_is_ignored [of "map_redis\<lparr>rd_incrby := \<lambda>k n s. (Inl ''timeout'', s)\<rparr>" "''a''" 500 500
      Map.empty "''timeout''" Map.empty "\<lambda>s. s" 0 "\<lparr>tb_max = 10, tb_usage = []\<rparr>"]
  by (simp add: map_redis_def usage_of_def)

end
