(* ===== verification/Bedrock.thy ===== *)
theory Bedrock
  imports AgenticLoop TokenBudget
begin

text \<open>
  The model client, src/src/core/bedrock.py: the invoke and converse engines with their retry
  loops, the fallback from prompt caching, the guardrail on input and output, the accounting of
  tokens, and the circuit breaker around both.  The model service is a parameter: two calls, each
  answering or raising.  A \<open>guard_error\<close> is what a call raises: \<open>GuardrailBlocked\<close> the guardrail's
  refusal, \<open>GuardrailRaised\<close> any other exception.  The semaphore (a permit held for the length of a
  call), metrics, prices and log lines are left out.
\<close>

section \<open>Requests and replies\<close>

datatype iblock = IText string | IOther

datatype icontent = CPlain string | CBlocks "iblock list"

record imessage =
  im_role :: string
  im_content :: icontent

record invoke_request =
  iq_messages :: "imessage list"
  iq_system_prompt :: string
  iq_max_tokens :: int
  iq_temperature :: rat
  iq_use_cache :: bool
  iq_match_user_language :: bool
  iq_session_id :: string
  iq_role :: string
  iq_budget_session_id :: "string option"
  iq_skip_input_guardrail :: bool

record invoke_body =
  ib_max_tokens :: int
  ib_temperature :: rat
  ib_system :: string
  ib_cache_control :: bool
  ib_messages :: "imessage list"

text \<open>A reply's text is None where \<open>result['content'][0]['text']\<close> raises.\<close>

record invoke_reply =
  ir_input_tokens :: int
  ir_output_tokens :: int
  ir_text :: "string option"

datatype model_error = ClientError (error_code: string) (error_text: string) | OtherModelError exn

datatype sent_block = GuardContent string | Untagged block

record sent_message =
  sm_role :: string
  sm_content :: "sent_block list"

record converse_request =
  cq_messages :: "message list"
  cq_system_prompt :: string
  cq_max_tokens :: int
  cq_temperature :: rat
  cq_tool_config :: "tool_spec list option"
  cq_session_id :: string
  cq_role :: string
  cq_budget_session_id :: "string option"
  cq_apply_bedrock_guardrail :: bool
  cq_skip_input_guardrail :: bool
  cq_model_id_override :: "string option"

record converse_params =
  pp_model_id :: string
  pp_messages :: "sent_message list"
  pp_system :: string
  pp_max_tokens :: int
  pp_temperature :: rat
  pp_tool_config :: "tool_spec list option"
  pp_guardrail_config :: "(string \<times> string) option"

datatype raw_block =
    RawText string
  | RawToolUse "string option" "string option" "(string \<times> json) list option"
  | RawOther json

record converse_reply =
  cr_stop_reason :: "string option"
  cr_content :: "raw_block list"
  cr_input_tokens :: int
  cr_output_tokens :: int

section \<open>The client\<close>

record 's bedrock_env =
  bd_settings :: settings
  bd_redis :: "'s redis_ops option"
  bd_guardrail :: guardrail_client
  bd_guard_service :: "'s guard_service"
  bd_clock :: "'s \<Rightarrow> rat"
  bd_invoke_model :: "string \<Rightarrow> invoke_body \<Rightarrow> 's \<Rightarrow> (model_error + invoke_reply) \<times> 's"
  bd_converse :: "converse_params \<Rightarrow> 's \<Rightarrow> (model_error + converse_reply) \<times> 's"
  bd_sleep :: "nat \<Rightarrow> 's \<Rightarrow> 's"

record bedrock_client =
  bc_breaker :: breaker
  bc_cache_supported :: "bool option"
  bc_tracker :: tracker

definition max_retries :: nat where
  "max_retries = 3"

definition new_bedrock_client :: "settings \<Rightarrow> bedrock_client" where
  "new_bedrock_client st =
     \<lparr>bc_breaker = new_breaker ''bedrock'' 5 30, bc_cache_supported = None, bc_tracker = new_tracker st None\<rparr>"

definition LANGUAGE_DIRECTIVE :: string where
  "LANGUAGE_DIRECTIVE =
     ''IMPORTANT: Respond in the SAME language as the user'' @ [CHR 0x27] @ ''s question ''
       @ ''(e.g. a Portuguese question gets a Portuguese answer, English gets English). ''
       @ ''These instructions are in English only by convention '' @ [CHR 0xE2, CHR 0x80, CHR 0x94]
       @ '' they do not set your reply language.''"

definition nonempty :: "string list \<Rightarrow> string list" where
  "nonempty ps = filter (\<lambda>p. p \<noteq> []) ps"

fun itexts :: "iblock list \<Rightarrow> string list" where
  "itexts [] = []"
| "itexts (IText t # bs) = t # itexts bs"
| "itexts (IOther # bs) = itexts bs"

definition user_text :: "imessage list \<Rightarrow> string" where
  "user_text messages =
     py_join nl (nonempty (concat (map (\<lambda>m.
       if im_role m \<noteq> ''user'' then []
       else (case im_content m of CPlain t \<Rightarrow> [t] | CBlocks bs \<Rightarrow> itexts bs)) messages)))"

text \<open>The lazy probe of prompt caching: supported until proven otherwise.\<close>

definition is_cache_supported :: "bedrock_client \<Rightarrow> bool \<times> bedrock_client" where
  "is_cache_supported c =
     (case bc_cache_supported c of None \<Rightarrow> (True, c\<lparr>bc_cache_supported := Some True\<rparr>) | Some b \<Rightarrow> (b, c))"

text \<open>The session the tokens of a reply are booked on: \<open>budget_session_id or session_id\<close>.\<close>

definition charged_session :: "string option \<Rightarrow> string \<Rightarrow> string" where
  "charged_session budget_session_id session_id =
     (case budget_session_id of None \<Rightarrow> session_id | Some b \<Rightarrow> if b = [] then session_id else b)"

definition charge ::
    "'s bedrock_env \<Rightarrow> string \<Rightarrow> int \<Rightarrow> int \<Rightarrow> bedrock_client \<Rightarrow> 's \<Rightarrow> bedrock_client \<times> 's" where
  "charge env sid input_tokens output_tokens c s =
     (if sid = [] then (c, s)
      else (case record_usage (bd_redis env) (bc_tracker c) sid input_tokens output_tokens s of
              (t, s') \<Rightarrow> (c\<lparr>bc_tracker := t\<rparr>, s')))"

definition guard ::
    "'s bedrock_env \<Rightarrow> string \<Rightarrow> string \<Rightarrow> 's \<Rightarrow> (guard_error + unit) \<times> 's" where
  "guard env t src s = apply_guardrail (bd_guardrail env) (bd_guard_service env) t src s"

definition RETRYABLE :: "string list" where
  "RETRYABLE = [''ThrottlingException'', ''ServiceUnavailableException'', ''InternalServerException'']"

section \<open>The invoke engine\<close>

text \<open>
  The retry loop with \<open>k\<close> attempts left; \<open>cached\<close> is whether the system block still carries its
  cache marker.
\<close>

fun invoke_attempts ::
    "'s bedrock_env \<Rightarrow> string \<Rightarrow> invoke_body \<Rightarrow> string \<Rightarrow> nat \<Rightarrow> bedrock_client \<Rightarrow> 's \<Rightarrow>
     (guard_error + string) \<times> bedrock_client \<times> 's" where
  "invoke_attempts env model_id body sid 0 c s =
     (Inl (GuardrailRaised (''Failed to invoke Bedrock after '' @ show_nat max_retries @ '' attempts'')), c, s)"
| "invoke_attempts env model_id body sid (Suc k) c s =
     (case bd_invoke_model env model_id body s of
        (Inl (ClientError code err), s1) \<Rightarrow>
          if code = ''ValidationException'' \<and> contains ''cache_control'' err then
            invoke_attempts env model_id (body\<lparr>ib_cache_control := False\<rparr>) sid k (c\<lparr>bc_cache_supported := Some False\<rparr>) s1
          else if code \<in> set RETRYABLE \<and> k \<noteq> 0 then
            invoke_attempts env model_id body sid k c (bd_sleep env (max_retries - Suc k) s1)
          else (Inl (GuardrailRaised err), c, s1)
      | (Inl (OtherModelError e), s1) \<Rightarrow> (Inl (GuardrailRaised e), c, s1)
      | (Inr r, s1) \<Rightarrow>
          (case charge env sid (ir_input_tokens r) (ir_output_tokens r) c s1 of
             (c2, s2) \<Rightarrow>
               (case ir_text r of
                  None \<Rightarrow> (Inl (GuardrailRaised ''KeyError''), c2, s2)
                | Some response_text \<Rightarrow>
                    (case guard env response_text ''OUTPUT'' s2 of
                       (Inl e, s3) \<Rightarrow> (Inl e, c2, s3)
                     | (Inr u, s3) \<Rightarrow> (Inr response_text, c2, s3)))))"

definition invoke_sync ::
    "'s bedrock_env \<Rightarrow> invoke_request \<Rightarrow> bedrock_client \<Rightarrow> 's \<Rightarrow> (guard_error + string) \<times> bedrock_client \<times> 's" where
  "invoke_sync env q c s =
     (let model_id = resolve_model (bd_settings env) (iq_role q);
          system_prompt = (if iq_match_user_language q then iq_system_prompt q @ nl @ nl @ LANGUAGE_DIRECTIVE
                           else iq_system_prompt q);
          (cached, c1) = (if iq_use_cache q \<and> cfg_bedrock_prompt_cache_enabled (bd_settings env)
                          then is_cache_supported c else (False, c));
          body = \<lparr>ib_max_tokens = iq_max_tokens q, ib_temperature = iq_temperature q, ib_system = system_prompt,
                  ib_cache_control = cached, ib_messages = iq_messages q\<rparr>;
          sid = charged_session (iq_budget_session_id q) (iq_session_id q)
      in case (if iq_skip_input_guardrail q then (Inr (), s) else guard env (user_text (iq_messages q)) ''INPUT'' s) of
           (Inl e, s1) \<Rightarrow> (Inl e, c1, s1)
         | (Inr u, s1) \<Rightarrow> invoke_attempts env model_id body sid max_retries c1 s1)"

section \<open>The converse engine\<close>

fun message_texts :: "block list \<Rightarrow> string list" where
  "message_texts [] = []"
| "message_texts (BText t # bs) = t # message_texts bs"
| "message_texts (b # bs) = message_texts bs"

definition extract_converse_user_text :: "message list \<Rightarrow> string" where
  "extract_converse_user_text messages =
     py_join nl (nonempty (concat (map (\<lambda>m. if msg_role m \<noteq> ''user'' then [] else message_texts (msg_content m)) messages)))"

fun tag_block :: "block \<Rightarrow> sent_block" where
  "tag_block (BText t) = GuardContent t"
| "tag_block b = Untagged b"

definition untagged :: "message \<Rightarrow> sent_message" where
  "untagged m = \<lparr>sm_role = msg_role m, sm_content = map Untagged (msg_content m)\<rparr>"

text \<open>The loop from the end to the latest user message, which alone is tagged.\<close>

fun tag_from_end :: "message list \<Rightarrow> sent_message list" where
  "tag_from_end [] = []"
| "tag_from_end (m # ms) =
     (if msg_role m = ''user'' then \<lparr>sm_role = ''user'', sm_content = map tag_block (msg_content m)\<rparr> # map untagged ms
      else untagged m # tag_from_end ms)"

definition tag_latest_user_message_for_guardrail :: "message list \<Rightarrow> sent_message list" where
  "tag_latest_user_message_for_guardrail messages = rev (tag_from_end (rev messages))"

fun parse_raw_block :: "raw_block \<Rightarrow> resp_block" where
  "parse_raw_block (RawText t) = RText t"
| "parse_raw_block (RawToolUse i n inp) =
     RToolUse (case i of None \<Rightarrow> [] | Some x \<Rightarrow> x) (case n of None \<Rightarrow> [] | Some x \<Rightarrow> x)
       (case inp of None \<Rightarrow> [] | Some x \<Rightarrow> x)"
| "parse_raw_block (RawOther j) = ROther"

definition parse_converse_content :: "raw_block list \<Rightarrow> resp_block list" where
  "parse_converse_content raw_blocks = map parse_raw_block raw_blocks"

text \<open>The output guardrail on every non-empty text block, in order.\<close>

fun guard_texts :: "'s bedrock_env \<Rightarrow> resp_block list \<Rightarrow> 's \<Rightarrow> (guard_error + unit) \<times> 's" where
  "guard_texts env [] s = (Inr (), s)"
| "guard_texts env (RText t # bs) s =
     (if t = [] then guard_texts env bs s
      else (case guard env t ''OUTPUT'' s of
              (Inl e, s') \<Rightarrow> (Inl e, s')
            | (Inr u, s') \<Rightarrow> guard_texts env bs s'))"
| "guard_texts env (b # bs) s = guard_texts env bs s"

fun converse_attempts ::
    "'s bedrock_env \<Rightarrow> converse_params \<Rightarrow> string \<Rightarrow> nat \<Rightarrow> bedrock_client \<Rightarrow> 's \<Rightarrow>
     (guard_error + response) \<times> bedrock_client \<times> 's" where
  "converse_attempts env params sid 0 c s =
     (Inl (GuardrailRaised (''Failed to invoke Bedrock Converse after '' @ show_nat max_retries @ '' attempts'')), c, s)"
| "converse_attempts env params sid (Suc k) c s =
     (case bd_converse env params s of
        (Inl (ClientError code err), s1) \<Rightarrow>
          if code \<in> set RETRYABLE \<and> k \<noteq> 0 then converse_attempts env params sid k c (bd_sleep env (max_retries - Suc k) s1)
          else (Inl (GuardrailRaised err), c, s1)
      | (Inl (OtherModelError e), s1) \<Rightarrow> (Inl (GuardrailRaised e), c, s1)
      | (Inr r, s1) \<Rightarrow>
          (case charge env sid (cr_input_tokens r) (cr_output_tokens r) c s1 of
             (c2, s2) \<Rightarrow>
               (let content = parse_converse_content (cr_content r)
                in case guard_texts env content s2 of
                     (Inl e, s3) \<Rightarrow> (Inl e, c2, s3)
                   | (Inr u, s3) \<Rightarrow>
                       (Inr \<lparr>rs_stop_reason = (case cr_stop_reason r of None \<Rightarrow> ''end_turn'' | Some t \<Rightarrow> t),
                             rs_content = content, rs_input_tokens = cr_input_tokens r,
                             rs_output_tokens = cr_output_tokens r\<rparr>, c2, s3))))"

definition use_guardrail :: "settings \<Rightarrow> bool \<Rightarrow> string option" where
  "use_guardrail st apply_bedrock_guardrail =
     (if apply_bedrock_guardrail \<and> cfg_guardrail_enabled st
      then (case cfg_guardrail_id st of None \<Rightarrow> None | Some g \<Rightarrow> if g = [] then None else Some g)
      else None)"

definition converse_sync ::
    "'s bedrock_env \<Rightarrow> converse_request \<Rightarrow> bedrock_client \<Rightarrow> 's \<Rightarrow> (guard_error + response) \<times> bedrock_client \<times> 's" where
  "converse_sync env q c s =
     (let model_id = (case cq_model_id_override q of
            None \<Rightarrow> resolve_model (bd_settings env) (cq_role q)
          | Some m \<Rightarrow> if m = [] then resolve_model (bd_settings env) (cq_role q) else m);
          last_user_text = extract_converse_user_text (cq_messages q);
          guardrail_id = use_guardrail (bd_settings env) (cq_apply_bedrock_guardrail q);
          params = \<lparr>pp_model_id = model_id,
                    pp_messages = (if guardrail_id = None then map untagged (cq_messages q)
                                   else tag_latest_user_message_for_guardrail (cq_messages q)),
                    pp_system = cq_system_prompt q, pp_max_tokens = cq_max_tokens q,
                    pp_temperature = cq_temperature q, pp_tool_config = cq_tool_config q,
                    pp_guardrail_config = map_option (\<lambda>g. (g, cfg_guardrail_version (bd_settings env))) guardrail_id\<rparr>;
          sid = charged_session (cq_budget_session_id q) (cq_session_id q)
      in case (if cq_skip_input_guardrail q \<or> last_user_text = [] then (Inr (), s)
               else guard env last_user_text ''INPUT'' s) of
           (Inl e, s1) \<Rightarrow> (Inl e, c, s1)
         | (Inr u, s1) \<Rightarrow> converse_attempts env params sid max_retries c s1)"

section \<open>The circuit breaker around both\<close>

definition with_breaker ::
    "'s bedrock_env \<Rightarrow> (bedrock_client \<Rightarrow> 's \<Rightarrow> (guard_error + 'a) \<times> bedrock_client \<times> 's) \<Rightarrow>
     bedrock_client \<Rightarrow> 's \<Rightarrow> (guard_error + 'a) \<times> bedrock_client \<times> 's" where
  "with_breaker env engine c s =
     (case mem_allow (bd_clock env s) (bc_breaker c) of
        (ok, b) \<Rightarrow>
          (let c1 = c\<lparr>bc_breaker := b\<rparr>
           in if \<not> ok then (Inl (GuardrailRaised ''Bedrock circuit breaker is OPEN''), c1, s)
              else (case engine c1 s of
                      (Inr r, c2, s2) \<Rightarrow> (Inr r, c2\<lparr>bc_breaker := mem_good (bc_breaker c2)\<rparr>, s2)
                    | (Inl (GuardrailBlocked why src cats), c2, s2) \<Rightarrow> (Inl (GuardrailBlocked why src cats), c2, s2)
                    | (Inl (GuardrailRaised e), c2, s2) \<Rightarrow>
                        (Inl (GuardrailRaised e), c2\<lparr>bc_breaker := mem_bad (bd_clock env s2) (bc_breaker c2)\<rparr>, s2))))"

definition bedrock_invoke ::
    "'s bedrock_env \<Rightarrow> invoke_request \<Rightarrow> bedrock_client \<Rightarrow> 's \<Rightarrow> (guard_error + string) \<times> bedrock_client \<times> 's" where
  "bedrock_invoke env q = with_breaker env (invoke_sync env q)"

definition bedrock_converse ::
    "'s bedrock_env \<Rightarrow> converse_request \<Rightarrow> bedrock_client \<Rightarrow> 's \<Rightarrow> (guard_error + response) \<times> bedrock_client \<times> 's" where
  "bedrock_converse env q = with_breaker env (converse_sync env q)"

section \<open>Any engine behind the breaker\<close>

text \<open>
  Both engines share one contract with the wrapper: they leave the breaker alone.  What follows
  for the wrapper is proved once.
\<close>

locale model_engine =
  fixes env :: "'s bedrock_env"
    and engine :: "bedrock_client \<Rightarrow> 's \<Rightarrow> (guard_error + 'a) \<times> bedrock_client \<times> 's"
  assumes keeps_breaker: "engine c s = (r, c', s') \<Longrightarrow> bc_breaker c' = bc_breaker c"
begin

text \<open>The breaker after a call it let through: a refusal of the guardrail is no fault of the service.\<close>

lemma breaker_after:
  assumes "with_breaker env engine c s = (r, c', s')" "fst (mem_allow (bd_clock env s) (bc_breaker c))"
  shows "bc_breaker c' = (let b = snd (mem_allow (bd_clock env s) (bc_breaker c))
    in case r of Inr _ \<Rightarrow> mem_good b | Inl (GuardrailBlocked why src cats) \<Rightarrow> b
       | Inl (GuardrailRaised e) \<Rightarrow> mem_bad (bd_clock env s') b)"
proof -
  let ?c1 = "c\<lparr>bc_breaker := snd (mem_allow (bd_clock env s) (bc_breaker c))\<rparr>"
  obtain r2 c2 s2 where e: "engine ?c1 s = (r2, c2, s2)" by (rule prod_cases3)
  with keeps_breaker [OF e] assms show ?thesis
    by (auto simp: with_breaker_def case_prod_beta Let_def split: sum.splits guard_error.splits)
qed

lemma open_breaker_refuses:
  "mem_allow (bd_clock env s) (bc_breaker c) = (False, bc_breaker c) \<Longrightarrow>
   with_breaker env engine c s = (Inl (GuardrailRaised ''Bedrock circuit breaker is OPEN''), c, s)"
  by (simp add: with_breaker_def)

end

lemma charge_breaker [simp]: "charge env sid i out c s = (c', s') \<Longrightarrow> bc_breaker c' = bc_breaker c"
  by (auto simp: charge_def split: if_splits prod.splits)

lemma invoke_attempts_breaker:
  "invoke_attempts env m body sid k c s = (r, c', s') \<Longrightarrow> bc_breaker c' = bc_breaker c"
proof (induction env m body sid k c s arbitrary: r c' s' rule: invoke_attempts.induct)
  case (2 env m body sid k c s)
  then show ?case
    by (auto split: prod.splits sum.splits model_error.splits if_splits option.splits dest: charge_breaker)
qed simp

lemma converse_attempts_breaker:
  "converse_attempts env p sid k c s = (r, c', s') \<Longrightarrow> bc_breaker c' = bc_breaker c"
proof (induction env p sid k c s arbitrary: r c' s' rule: converse_attempts.induct)
  case (2 env p sid k c s)
  then show ?case
    by (auto simp: Let_def split: prod.splits sum.splits model_error.splits if_splits dest: charge_breaker)
qed simp

interpretation invoke_engine: model_engine env "invoke_sync env q" for env :: "'s bedrock_env" and q
proof unfold_locales
  fix c s r c' s' assume "invoke_sync env q c s = (r, c', s')"
  then show "bc_breaker c' = bc_breaker c"
    by (auto simp: invoke_sync_def is_cache_supported_def Let_def split: prod.splits sum.splits option.splits if_splits
        dest!: invoke_attempts_breaker)
qed

interpretation converse_engine: model_engine env "converse_sync env q" for env :: "'s bedrock_env" and q
proof unfold_locales
  fix c s r c' s' assume "converse_sync env q c s = (r, c', s')"
  then show "bc_breaker c' = bc_breaker c"
    by (auto simp: converse_sync_def Let_def split: prod.splits sum.splits if_splits dest: converse_attempts_breaker)
qed

section \<open>Lemmas on the engines\<close>

text \<open>\<open>passed env src t\<close>: the guardrail let the text pass at some moment.\<close>

definition passed :: "'s bedrock_env \<Rightarrow> string \<Rightarrow> string \<Rightarrow> bool" where
  "passed env src t \<longleftrightarrow> (\<exists>s s'. guard env t src s = (Inr (), s'))"

lemma passedI: "guard env t src s = (Inr u, s') \<Longrightarrow> passed env src t"
  by (auto simp: passed_def)

lemma invoke_attempts_passed:
  "invoke_attempts env m body sid k c s = (Inr t, c', s') \<Longrightarrow> passed env ''OUTPUT'' t"
proof (induction env m body sid k c s rule: invoke_attempts.induct)
  case (2 env m body sid k c s)
  then show ?case
    by (auto split: prod.splits sum.splits model_error.splits if_splits option.splits dest: passedI)
qed simp

lemma guard_texts_passed:
  "guard_texts env bs s = (Inr u, s') \<Longrightarrow> t \<in> set (block_texts bs) \<Longrightarrow> passed env ''OUTPUT'' t"
proof (induction env bs s rule: guard_texts.induct)
  case (2 env x bs s)
  then show ?case by (auto split: if_splits prod.splits sum.splits dest: passedI)
qed simp_all

lemma converse_attempts_passed:
  "converse_attempts env p sid k c s = (Inr r, c', s') \<Longrightarrow> t \<in> set (block_texts (rs_content r)) \<Longrightarrow>
   passed env ''OUTPUT'' t"
proof (induction env p sid k c s rule: converse_attempts.induct)
  case (2 env p sid k c s)
  then show ?case
    by (auto simp: Let_def split: prod.splits sum.splits model_error.splits if_splits dest: guard_texts_passed)
qed simp

lemma with_breaker_Inr:
  "with_breaker env engine c s = (Inr r, c', s') \<Longrightarrow> \<exists>c1 c2. engine c1 s = (Inr r, c2, s')"
  by (fastforce simp: with_breaker_def Let_def split: prod.splits sum.splits guard_error.splits if_splits)

lemma invoke_attempts_outage:
  assumes "\<And>m body s. isl (fst (bd_invoke_model env m body s))"
  shows "\<exists>e. fst (invoke_attempts env m body sid k c s) = Inl (GuardrailRaised e)"
proof (induction k arbitrary: body c s)
  case (Suc k)
  obtain err s1 where i: "bd_invoke_model env m body s = (Inl err, s1)"
    using assms [of m body s] by (cases "bd_invoke_model env m body s") (auto simp: isl_def)
  show ?case
  proof (cases err)
    case (ClientError code t)
    with i Suc show ?thesis by simp
  qed (use i in simp)
qed simp

text \<open>Every attempt is at most one call of the service.\<close>

lemma invoke_attempts_calls:
  assumes "\<And>m body s. cnt (snd (bd_invoke_model env m body s)) \<le> cnt s + (1::nat)"
    "\<And>n s. cnt (bd_sleep env n s) = cnt s" "\<And>t src s. cnt (snd (guard env t src s)) = cnt s"
    "\<And>sid i out c s. cnt (snd (charge env sid i out c s)) = cnt s"
  shows "cnt (snd (snd (invoke_attempts env m body sid k c s))) \<le> cnt s + k"
proof (induction k arbitrary: body c s)
  case (Suc k)
  obtain x s1 where i: "bd_invoke_model env m body s = (x, s1)" by fastforce
  have s1: "cnt s1 \<le> cnt s + 1" using assms(1) [of m body s] i by simp
  show ?case
  proof (cases x)
    case (Inl err)
    show ?thesis
    proof (cases err)
      case (ClientError code t)
      have "cnt (snd (snd (invoke_attempts env m b sid k c' s1))) \<le> cnt s + Suc k"
        "cnt (snd (snd (invoke_attempts env m b sid k c' (bd_sleep env n s1)))) \<le> cnt s + Suc k" for b c' n
        using Suc.IH [of b c' s1] Suc.IH [of b c' "bd_sleep env n s1"] assms(2) s1 by auto
      with i Inl ClientError s1 show ?thesis by simp
    qed (use i Inl s1 in simp)
  next
    case (Inr reply)
    obtain c2 s2 where c: "charge env sid (ir_input_tokens reply) (ir_output_tokens reply) c s1 = (c2, s2)" by fastforce
    have s2: "cnt s2 = cnt s1" using assms(4) [of sid "ir_input_tokens reply" "ir_output_tokens reply" c s1] c by simp
    show ?thesis
    proof (cases "ir_text reply")
      case (Some t)
      obtain y s3 where g: "guard env t ''OUTPUT'' s2 = (y, s3)" by fastforce
      have "cnt s3 = cnt s2" using assms(3) [of t "''OUTPUT''" s2] g by simp
      with i Inr c Some g s1 s2 show ?thesis by (cases y) simp_all
    qed (use i Inr c s1 s2 in simp)
  qed
qed simp

text \<open>The tokens of a reply are booked, whatever becomes of the reply.\<close>

lemma record_usage_mem:
  "record_usage None t sid i out s =
     (t\<lparr>tb_usage := dict_set (tb_usage t) sid (mem_usage t sid + (i + out))\<rparr>, s)"
  by (simp add: record_usage_def Let_def)

lemma guard_source: "guard env t src s = (Inl (GuardrailBlocked why src' cats), s') \<Longrightarrow> src' = src"
  by (auto simp: guard_def apply_guardrail_def split: if_splits prod.splits sum.splits service_error.splits)

section \<open>Booking\<close>

text \<open>
  \<open>metered env replies\<close>: \<open>replies\<close> reads off the world the token totals of the replies the model
  service has given so far, by either path; nothing but the service adds to it.
\<close>

definition metered :: "'s bedrock_env \<Rightarrow> ('s \<Rightarrow> int list) \<Rightarrow> bool" where
  "metered env replies \<longleftrightarrow>
     (\<forall>m body s. replies (snd (bd_invoke_model env m body s)) = replies s @
        (case fst (bd_invoke_model env m body s) of Inl e \<Rightarrow> [] | Inr r \<Rightarrow> [ir_input_tokens r + ir_output_tokens r])) \<and>
     (\<forall>p s. replies (snd (bd_converse env p s)) = replies s @
        (case fst (bd_converse env p s) of Inl e \<Rightarrow> [] | Inr r \<Rightarrow> [cr_input_tokens r + cr_output_tokens r])) \<and>
     (\<forall>n s. replies (bd_sleep env n s) = replies s) \<and>
     (\<forall>i v src t s. replies (snd (bd_guard_service env i v src t s)) = replies s)"

text \<open>
  What a call that began with client \<open>c\<close> in world \<open>s\<close> has booked: at most one reply was given, its
  tokens and nothing else are on the session the call is charged to, and every other session is as it
  was.  A result, and a refusal of the model's text, stands for one reply; a refusal of the input for
  none.
\<close>

definition charged_exactly ::
    "('s \<Rightarrow> int list) \<Rightarrow> string \<Rightarrow> bedrock_client \<Rightarrow> 's \<Rightarrow> (guard_error + 'a) \<times> bedrock_client \<times> 's \<Rightarrow> bool" where
  "charged_exactly replies sid c s res \<longleftrightarrow>
     (case res of (r, c', s') \<Rightarrow>
        \<exists>ts. replies s' = replies s @ ts \<and> length ts \<le> 1 \<and>
          (\<forall>x. mem_usage (bc_tracker c') x = mem_usage (bc_tracker c) x + (if x = sid \<and> sid \<noteq> [] then sum_list ts else 0)) \<and>
          (case r of
             Inr _ \<Rightarrow> ts \<noteq> []
           | Inl (GuardrailBlocked why src cats) \<Rightarrow> (src = ''OUTPUT'' \<longleftrightarrow> ts \<noteq> [])
           | Inl (GuardrailRaised e) \<Rightarrow> True))"

lemma charged_no_reply:
  "replies s' = replies s \<Longrightarrow> bc_tracker c' = bc_tracker c \<Longrightarrow> charged_exactly replies sid c s (Inl (GuardrailRaised e), c', s')"
  "replies s' = replies s \<Longrightarrow> bc_tracker c' = bc_tracker c \<Longrightarrow>
     charged_exactly replies sid c s (Inl (GuardrailBlocked why ''INPUT'' cats), c', s')"
  by (auto simp: charged_exactly_def)

lemma charged_retry:
  "charged_exactly replies sid c1 s1 res \<Longrightarrow> replies s1 = replies s \<Longrightarrow> bc_tracker c1 = bc_tracker c \<Longrightarrow>
   charged_exactly replies sid c s res"
  by (simp add: charged_exactly_def)

lemma charged_reply:
  assumes "replies s' = replies s @ [i + out]" "\<And>x. mem_usage (bc_tracker c') x = mem_usage (bc_tracker c) x + (if x = sid \<and> sid \<noteq> [] then i + out else 0)"
    and "\<And>why src cats. r = Inl (GuardrailBlocked why src cats) \<Longrightarrow> src = ''OUTPUT''"
  shows "charged_exactly replies sid c s (r, c', s')"
  unfolding charged_exactly_def prod.case
  by (intro exI [of _ "[i + out]"]) (use assms in \<open>auto split: sum.splits guard_error.splits\<close>)

lemma mem_usage_set:
  "mem_usage (t\<lparr>tb_usage := dict_set (tb_usage t) sid n\<rparr>) x = (if x = sid then n else mem_usage t x)"
  by (simp add: mem_usage_def)

lemma charge_books:
  assumes "bd_redis env = None" "charge env sid i out c s = (c', s')"
  shows "s' = s" "mem_usage (bc_tracker c') x = mem_usage (bc_tracker c) x + (if x = sid \<and> sid \<noteq> [] then i + out else 0)"
proof -
  have "s' = s \<and> bc_tracker c' = (if sid = [] then bc_tracker c else
    (bc_tracker c)\<lparr>tb_usage := dict_set (tb_usage (bc_tracker c)) sid (mem_usage (bc_tracker c) sid + (i + out))\<rparr>)"
    using assms(2) unfolding charge_def assms(1) record_usage_mem prod.case by (auto split: if_splits)
  then show "s' = s" "mem_usage (bc_tracker c') x = mem_usage (bc_tracker c) x + (if x = sid \<and> sid \<noteq> [] then i + out else 0)"
    by (simp_all only: mem_usage_set split: if_splits) simp_all
qed

lemma guard_replies:
  assumes "metered env replies" "guard env t src s = (x, s')"
  shows "replies s' = replies s"
proof -
  let ?g = "bd_guardrail env"
  have "s' = s \<or> s' = snd (bd_guard_service env (gr_id ?g) (gr_version ?g) src t s)"
    using assms(2) by (auto simp: guard_def apply_guardrail_def split: if_splits prod.splits sum.splits service_error.splits)
  moreover have "replies (snd (bd_guard_service env (gr_id ?g) (gr_version ?g) src t s)) = replies s"
    using assms(1) unfolding metered_def by blast
  ultimately show ?thesis by auto
qed

lemma guard_texts_replies: "metered env replies \<Longrightarrow> guard_texts env bs s = (x, s') \<Longrightarrow> replies s' = replies s"
  by (induction env bs s arbitrary: x s' rule: guard_texts.induct)
    (auto split: if_splits prod.splits sum.splits dest: guard_replies)

lemma guard_texts_source: "guard_texts env bs s = (Inl (GuardrailBlocked why src cats), s') \<Longrightarrow> src = ''OUTPUT''"
  by (induction env bs s arbitrary: s' rule: guard_texts.induct)
    (auto split: if_splits prod.splits sum.splits dest: guard_source)

lemma invoke_attempts_charged:
  assumes "metered env replies" "bd_redis env = None"
  shows "charged_exactly replies sid c s (invoke_attempts env m body sid k c s)"
proof (induction k arbitrary: body c s)
  case (Suc k)
  obtain x s1 where i: "bd_invoke_model env m body s = (x, s1)" by fastforce
  have n: "replies s1 = replies s @ (case x of Inl e \<Rightarrow> [] | Inr r \<Rightarrow> [ir_input_tokens r + ir_output_tokens r])"
    and z: "replies (bd_sleep env n t) = replies t" for n t
    using assms(1) i by (auto simp: metered_def) (metis fst_conv snd_conv)
  show ?case
  proof (cases x)
    case (Inl err)
    then show ?thesis
      using n z i Suc.IH [THEN charged_retry]
      by (cases err) (auto intro!: charged_no_reply)
  next
    case (Inr reply)
    obtain c2 s2 where c2: "charge env sid (ir_input_tokens reply) (ir_output_tokens reply) c s1 = (c2, s2)" by fastforce
    note b = charge_books [OF assms(2) c2]
    show ?thesis
    proof (cases "ir_text reply")
      case None
      then show ?thesis using i Inr c2 n b by (auto intro!: charged_reply)
    next
      case (Some t)
      obtain y s3 where g: "guard env t ''OUTPUT'' s2 = (y, s3)" by fastforce
      have "replies s3 = replies s @ [ir_input_tokens reply + ir_output_tokens reply]"
        using guard_replies [OF assms(1) g] n b(1) Inr by simp
      then show ?thesis
        using i Inr c2 Some g b(2) guard_source [of env t "''OUTPUT''" s2]
        by (auto intro!: charged_reply split: sum.splits)
    qed
  qed
qed (simp add: charged_no_reply)

lemma converse_attempts_charged:
  assumes "metered env replies" "bd_redis env = None"
  shows "charged_exactly replies sid c s (converse_attempts env p sid k c s)"
proof (induction k arbitrary: c s)
  case (Suc k)
  obtain x s1 where i: "bd_converse env p s = (x, s1)" by fastforce
  have n: "replies s1 = replies s @ (case x of Inl e \<Rightarrow> [] | Inr r \<Rightarrow> [cr_input_tokens r + cr_output_tokens r])"
    and z: "replies (bd_sleep env n t) = replies t" for n t
    using assms(1) i by (auto simp: metered_def) (metis fst_conv snd_conv)
  show ?case
  proof (cases x)
    case (Inl err)
    then show ?thesis
      using n z i Suc.IH [THEN charged_retry]
      by (cases err) (auto intro!: charged_no_reply)
  next
    case (Inr reply)
    obtain c2 s2 where c2: "charge env sid (cr_input_tokens reply) (cr_output_tokens reply) c s1 = (c2, s2)" by fastforce
    note b = charge_books [OF assms(2) c2]
    obtain y s3 where g: "guard_texts env (parse_converse_content (cr_content reply)) s2 = (y, s3)" by fastforce
    have "replies s3 = replies s @ [cr_input_tokens reply + cr_output_tokens reply]"
      using guard_texts_replies [OF assms(1) g] n b(1) Inr by simp
    then show ?thesis
      using i Inr c2 g b(2) guard_texts_source [of env _ s2]
      by (auto simp: Let_def intro!: charged_reply split: sum.splits)
  qed
qed (simp add: charged_no_reply)

lemma with_breaker_charged:
  assumes "\<And>c s. charged_exactly replies sid c s (engine c s)"
  shows "charged_exactly replies sid c s (with_breaker env engine c s)"
proof (cases "mem_allow (bd_clock env s) (bc_breaker c)")
  case (Pair ok b)
  show ?thesis
  proof (cases ok)
    case True
    obtain r c2 s2 where e: "engine (c\<lparr>bc_breaker := b\<rparr>) s = (r, c2, s2)" by (rule prod_cases3)
    from assms [of "c\<lparr>bc_breaker := b\<rparr>" s] Pair True show ?thesis
      by (auto simp: with_breaker_def e charged_exactly_def split: sum.splits guard_error.splits)
  qed (use Pair in \<open>simp add: with_breaker_def charged_no_reply\<close>)
qed

lemma invoke_sync_charged:
  assumes "metered env replies" "bd_redis env = None"
  shows "charged_exactly replies (charged_session (iq_budget_session_id q) (iq_session_id q)) c s (invoke_sync env q c s)"
proof -
  let ?sid = "charged_session (iq_budget_session_id q) (iq_session_id q)"
  obtain cached c1 where c1: "(if iq_use_cache q \<and> cfg_bedrock_prompt_cache_enabled (bd_settings env)
      then is_cache_supported c else (False, c)) = (cached, c1)" by fastforce
  then have t: "bc_tracker c1 = bc_tracker c" by (auto simp: is_cache_supported_def split: if_splits option.splits)
  obtain x s1 where g: "(if iq_skip_input_guardrail q then (Inr (), s) else guard env (user_text (iq_messages q)) ''INPUT'' s) = (x, s1)"
    by fastforce
  then have n: "replies s1 = replies s" using guard_replies [OF assms(1)] by (auto split: if_splits)
  have o: "src = ''INPUT''" if "x = Inl (GuardrailBlocked why src cats)" for why src cats
    using g that by (auto split: if_splits dest: guard_source)
  show ?thesis
  proof (cases x)
    case (Inl e)
    then show ?thesis
      using g n t unfolding invoke_sync_def Let_def c1 prod.case g
      by (cases e) (auto intro!: charged_no_reply dest: o)
  next
    case (Inr u)
    then show ?thesis
      unfolding invoke_sync_def Let_def c1 prod.case g
      by (auto intro: charged_retry [OF invoke_attempts_charged [OF assms] n t])
  qed
qed

lemma converse_sync_charged:
  assumes "metered env replies" "bd_redis env = None"
  shows "charged_exactly replies (charged_session (cq_budget_session_id q) (cq_session_id q)) c s (converse_sync env q c s)"
proof -
  obtain x s1 where g: "(if cq_skip_input_guardrail q \<or> extract_converse_user_text (cq_messages q) = [] then (Inr (), s)
      else guard env (extract_converse_user_text (cq_messages q)) ''INPUT'' s) = (x, s1)" by fastforce
  then have n: "replies s1 = replies s" using guard_replies [OF assms(1)] by (auto split: if_splits)
  have o: "src = ''INPUT''" if "x = Inl (GuardrailBlocked why src cats)" for why src cats
    using g that by (auto split: if_splits dest: guard_source)
  show ?thesis
  proof (cases x)
    case (Inl e)
    then show ?thesis
      using g n unfolding converse_sync_def Let_def prod.case g
      by (cases e) (auto intro!: charged_no_reply dest: o)
  next
    case (Inr u)
    then show ?thesis
      unfolding converse_sync_def Let_def g
      by (auto intro: charged_retry [OF converse_attempts_charged [OF assms] n])
  qed
qed

section \<open>Histories of calls\<close>

text \<open>A call of either kind, with what it raised (None where it answered), and a history of such calls.\<close>

definition failure_of :: "'e + 'a \<Rightarrow> 'e option" where
  "failure_of r = (case r of Inl e \<Rightarrow> Some e | Inr _ \<Rightarrow> None)"

definition client_call ::
    "'s bedrock_env \<Rightarrow> invoke_request + converse_request \<Rightarrow> bedrock_client \<Rightarrow> 's \<Rightarrow> guard_error option \<times> bedrock_client \<times> 's" where
  "client_call env q c s =
     (case q of
        Inl i \<Rightarrow> (case bedrock_invoke env i c s of (r, c', s') \<Rightarrow> (failure_of r, c', s'))
      | Inr p \<Rightarrow> (case bedrock_converse env p c s of (r, c', s') \<Rightarrow> (failure_of r, c', s')))"

fun client_calls ::
    "'s bedrock_env \<Rightarrow> (invoke_request + converse_request) list \<Rightarrow> bedrock_client \<Rightarrow> 's \<Rightarrow>
     guard_error option list \<times> bedrock_client \<times> 's" where
  "client_calls env [] c s = ([], c, s)"
| "client_calls env (q # qs) c s =
     (case client_call env q c s of (e, c1, s1) \<Rightarrow> (case client_calls env qs c1 s1 of (es, c2, s2) \<Rightarrow> (e # es, c2, s2)))"

fun raised :: "guard_error option \<Rightarrow> bool" where
  "raised (Some (GuardrailRaised e)) = True"
| "raised _ = False"

definition service_down :: "'s bedrock_env \<Rightarrow> bool" where
  "service_down env \<longleftrightarrow>
     (\<forall>m body s. isl (fst (bd_invoke_model env m body s))) \<and> (\<forall>p s. isl (fst (bd_converse env p s)))"

lemma converse_attempts_outage:
  assumes "service_down env"
  shows "\<exists>e. fst (converse_attempts env p sid k c s) = Inl (GuardrailRaised e)"
proof (induction k arbitrary: c s)
  case (Suc k)
  obtain err s1 where i: "bd_converse env p s = (Inl err, s1)"
    using assms by (cases "bd_converse env p s") (metis service_down_def fst_conv isl_def)
  show ?case
  proof (cases err)
    case (ClientError code t)
    with i Suc show ?thesis by simp
  qed (use i in simp)
qed simp

lemma client_call_down:
  assumes "service_down env"
  shows "fst (client_call env q c s) \<noteq> None"
proof (cases q)
  case (Inl i)
  have "isl (fst (invoke_sync env i c1 s1))" for c1 s1
    using invoke_attempts_outage [of env] assms
    by (auto simp: invoke_sync_def Let_def service_down_def isl_def split: prod.splits sum.splits) (metis fst_conv)+
  then have "isl (fst (bedrock_invoke env i c s))"
    by (auto simp: bedrock_invoke_def with_breaker_def Let_def isl_def split: prod.splits sum.splits guard_error.splits)
      (metis fst_conv sum.distinct(1))+
  then show ?thesis by (auto simp: client_call_def Inl failure_of_def isl_def split: prod.splits)
next
  case (Inr p)
  have "isl (fst (converse_sync env p c1 s1))" for c1 s1
    using converse_attempts_outage [OF assms]
    by (auto simp: converse_sync_def Let_def isl_def split: prod.splits sum.splits) (metis fst_conv)+
  then have "isl (fst (bedrock_converse env p c s))"
    by (auto simp: bedrock_converse_def with_breaker_def Let_def isl_def split: prod.splits sum.splits guard_error.splits)
      (metis fst_conv sum.distinct(1))+
  then show ?thesis by (auto simp: client_call_def Inr failure_of_def isl_def split: prod.splits)
qed

lemma client_call_breaker:
  assumes "client_call env q c s = (e, c', s')" "fst (mem_allow (bd_clock env s) (bc_breaker c))"
  shows "bc_breaker c' = (let b = snd (mem_allow (bd_clock env s) (bc_breaker c))
    in case e of None \<Rightarrow> mem_good b | Some (GuardrailBlocked why src cats) \<Rightarrow> b
       | Some (GuardrailRaised x) \<Rightarrow> mem_bad (bd_clock env s') b)"
proof (cases q)
  case (Inl i)
  then obtain r where "with_breaker env (invoke_sync env i) c s = (r, c', s')" "e = failure_of r"
    using assms(1) by (auto simp: client_call_def bedrock_invoke_def split: prod.splits)
  from invoke_engine.breaker_after [OF this(1) assms(2)] this(2) show ?thesis
    by (auto simp: failure_of_def Let_def split: sum.splits)
next
  case (Inr p)
  then obtain r where "with_breaker env (converse_sync env p) c s = (r, c', s')" "e = failure_of r"
    using assms(1) by (auto simp: client_call_def bedrock_converse_def split: prod.splits)
  from converse_engine.breaker_after [OF this(1) assms(2)] this(2) show ?thesis
    by (auto simp: failure_of_def Let_def split: sum.splits)
qed

text \<open>What the breaker counts: raised calls, not refusals; and with the service down no call succeeds.\<close>

lemma failed_call_counts:
  assumes "service_down env" "healthy_breaker (bc_breaker c)"
    and "mem_failure_count (bc_breaker c) < failure_threshold (bc_breaker c)" "client_call env q c s = (e, c', s')"
  shows "healthy_breaker (bc_breaker c')" "failure_threshold (bc_breaker c') = failure_threshold (bc_breaker c)"
    "recovery_timeout (bc_breaker c') = recovery_timeout (bc_breaker c)"
    "mem_failure_count (bc_breaker c') = mem_failure_count (bc_breaker c) + (if raised e then 1 else 0)"
proof -
  let ?b = "snd (mem_allow (bd_clock env s) (bc_breaker c))"
  have a: "fst (mem_allow (bd_clock env s) (bc_breaker c))"
    by (rule gate.passes [OF assms(2)]) (use assms(2,3) in \<open>simp add: healthy_breaker_def\<close>)
  have b: "healthy_breaker ?b" using gate.healthy [OF assms(2)] by blast
  have e: "e \<noteq> None" using client_call_down [OF assms(1), of q c s] assms(4) by simp
  have c: "bc_breaker c' = (if raised e then mem_bad (bd_clock env s') ?b else ?b)"
    using client_call_breaker [OF assms(4) a] e by (auto simp: Let_def split: option.splits guard_error.splits)
  note same = gate.healthy [OF b] gate.same_gate [OF b] gate.same_gate [OF assms(2)] gate.same_window [OF b]
    gate.same_window [OF assms(2)] gate.counts [OF b] gate.counts [OF assms(2)]
  show h: "healthy_breaker (bc_breaker c')" using same b c by auto
  show "recovery_timeout (bc_breaker c') = recovery_timeout (bc_breaker c)" using same c by auto
  have nn: "0 \<le> mem_failure_count x \<and> 0 < failure_threshold x" if "healthy_breaker x" for x using that by (simp add: healthy_breaker_def)
  have m: "nat (failure_threshold (bc_breaker c')) = nat (failure_threshold (bc_breaker c))"
    "nat (mem_failure_count (bc_breaker c')) = nat (mem_failure_count (bc_breaker c)) + (if raised e then 1 else 0)"
    using same c by auto
  then show "failure_threshold (bc_breaker c') = failure_threshold (bc_breaker c)"
    "mem_failure_count (bc_breaker c') = mem_failure_count (bc_breaker c) + (if raised e then 1 else 0)"
    using nn [OF h] nn [OF assms(2)] by (auto split: if_splits)
qed

lemma failed_calls_count:
  assumes "service_down env"
  shows "client_calls env qs c s = (es, c', s') \<Longrightarrow> healthy_breaker (bc_breaker c) \<Longrightarrow>
    mem_failure_count (bc_breaker c) + int (length (filter raised es)) < failure_threshold (bc_breaker c) \<Longrightarrow>
    healthy_breaker (bc_breaker c') \<and> failure_threshold (bc_breaker c') = failure_threshold (bc_breaker c) \<and>
    recovery_timeout (bc_breaker c') = recovery_timeout (bc_breaker c) \<and>
    mem_failure_count (bc_breaker c') = mem_failure_count (bc_breaker c) + int (length (filter raised es))"
proof (induction qs arbitrary: c s es c' s')
  case (Cons q qs)
  obtain e c1 s1 where o: "client_call env q c s = (e, c1, s1)" by (rule prod_cases3)
  obtain es1 c2 s2 where os: "client_calls env qs c1 s1 = (es1, c2, s2)" by (rule prod_cases3)
  have es: "es = e # es1" "c' = c2" "s' = s2" using Cons.prems(1) o os by simp_all
  have "mem_failure_count (bc_breaker c) < failure_threshold (bc_breaker c)" using Cons.prems(3) by linarith
  note f = failed_call_counts [OF assms Cons.prems(2) this o]
  show ?case using Cons.IH [OF os f(1)] Cons.prems(3) f os unfolding es by (auto split: if_splits)
qed simp

lemma client_calls_down: "service_down env \<Longrightarrow> client_calls env qs c s = (es, c', s') \<Longrightarrow> None \<notin> set es"
proof (induction qs arbitrary: c s es)
  case (Cons q qs)
  with client_call_down [OF Cons.prems(1), of q c s] show ?case by (fastforce split: prod.splits)
qed simp

lemma client_calls_snoc:
  "client_calls env (qs @ [q]) c s = (os, c', s') \<Longrightarrow>
   \<exists>os1 c1 s1 e. client_calls env qs c s = (os1, c1, s1) \<and> client_call env q c1 s1 = (e, c', s') \<and> os = os1 @ [e]"
proof (induction qs arbitrary: c s os c' s')
  case (Cons x qs)
  obtain e c1 s1 where o: "client_call env x c s = (e, c1, s1)" by (rule prod_cases3)
  obtain es1 c2 s2 where os: "client_calls env (qs @ [q]) c1 s1 = (es1, c2, s2)" by (rule prod_cases3)
  from Cons.IH [OF os] Cons.prems o os show ?case by (fastforce split: prod.splits)
qed (auto split: prod.splits)

lemma never_passed: "never_clears (bd_guardrail env) (bd_guard_service env) \<Longrightarrow> \<not> passed env src t"
  by (auto simp: passed_def guard_def never_clears_refuses)

lemma invoke_releases:
  assumes "bedrock_invoke env q c s = (Inr t, c', s')"
  shows "passed env ''OUTPUT'' t" "iq_skip_input_guardrail q \<or> passed env ''INPUT'' (user_text (iq_messages q))"
proof -
  from assms obtain c1 c2 where i: "invoke_sync env q c1 s = (Inr t, c2, s')"
    using with_breaker_Inr [of env "invoke_sync env q" c s t c' s'] by (auto simp: bedrock_invoke_def)
  then show "passed env ''OUTPUT'' t"
    by (auto simp: invoke_sync_def Let_def split: prod.splits sum.splits if_splits dest!: invoke_attempts_passed)
  show "iq_skip_input_guardrail q \<or> passed env ''INPUT'' (user_text (iq_messages q))"
    using i by (auto simp: invoke_sync_def Let_def split: prod.splits sum.splits if_splits dest: passedI)
qed

lemma converse_releases:
  assumes "bedrock_converse env p c s = (Inr r, c', s')"
  shows "t \<in> set (block_texts (rs_content r)) \<Longrightarrow> passed env ''OUTPUT'' t"
    "cq_skip_input_guardrail p \<or> extract_converse_user_text (cq_messages p) = [] \<or>
      passed env ''INPUT'' (extract_converse_user_text (cq_messages p))"
proof -
  from assms obtain c1 c2 where i: "converse_sync env p c1 s = (Inr r, c2, s')"
    using with_breaker_Inr [of env "converse_sync env p" c s r c' s'] by (auto simp: bedrock_converse_def)
  then show "passed env ''OUTPUT'' t" if "t \<in> set (block_texts (rs_content r))"
    using that by (auto simp: converse_sync_def Let_def split: prod.splits sum.splits if_splits dest: converse_attempts_passed)
  show "cq_skip_input_guardrail p \<or> extract_converse_user_text (cq_messages p) = [] \<or>
      passed env ''INPUT'' (extract_converse_user_text (cq_messages p))"
    using i by (auto simp: converse_sync_def Let_def split: prod.splits sum.splits if_splits dest: passedI)
qed

section \<open>Properties\<close>

text \<open>
  C8: no text leaves the model client unguarded: a text that invoke returns, and every non-empty
  text block of a response that converse returns, has passed the output guardrail; and unless the
  caller asked to skip it, the user's text has passed the input guardrail first.
\<close>

theorem released_text_is_guarded:
  "(bedrock_invoke env q c s = (Inr t, c', s') \<longrightarrow>
      passed env ''OUTPUT'' t \<and> (iq_skip_input_guardrail q \<or> passed env ''INPUT'' (user_text (iq_messages q)))) \<and>
   (bedrock_converse env p c s = (Inr r, c', s') \<longrightarrow>
      (\<forall>t \<in> set (block_texts (rs_content r)). passed env ''OUTPUT'' t) \<and>
      (cq_skip_input_guardrail p \<or> extract_converse_user_text (cq_messages p) = [] \<or>
       passed env ''INPUT'' (extract_converse_user_text (cq_messages p))))"
  by (intro conjI impI ballI) (erule invoke_releases converse_releases, assumption?)+

text \<open>
  C39: an outage stops the calls, by either path: while the model service fails every call, each call that
  the guardrail does not refuse raises, and as soon as as many of them have raised as the threshold allows
  (five for a new client, whatever their order, their kind and the refusals between them), the next call,
  invoke or converse, within the recovery time of thirty seconds is refused at once, leaves the client as
  it is and contacts nothing.
\<close>

theorem outage_opens_the_client:
  assumes "service_down env" "healthy_breaker (bc_breaker c)"
    and "client_calls env (qs @ [q]) c s = (es @ [Some (GuardrailRaised e)], c', s')"
    and "mem_failure_count (bc_breaker c) + int (length (filter raised es)) + 1 = failure_threshold (bc_breaker c)"
    and "bd_clock env w - bd_clock env s' < recovery_timeout (bc_breaker c)"
  shows "None \<notin> set es \<and>
    bedrock_invoke env i c' w = (Inl (GuardrailRaised ''Bedrock circuit breaker is OPEN''), c', w) \<and>
    bedrock_converse env p c' w = (Inl (GuardrailRaised ''Bedrock circuit breaker is OPEN''), c', w)"
proof -
  obtain c1 s1 where a: "client_calls env qs c s = (es, c1, s1)" "client_call env q c1 s1 = (Some (GuardrailRaised e), c', s')"
    using client_calls_snoc [OF assms(3)] by auto
  have f: "healthy_breaker (bc_breaker c1)" "failure_threshold (bc_breaker c1) = failure_threshold (bc_breaker c)"
    "recovery_timeout (bc_breaker c1) = recovery_timeout (bc_breaker c)"
    "mem_failure_count (bc_breaker c1) = mem_failure_count (bc_breaker c) + int (length (filter raised es))"
    using failed_calls_count [OF assms(1) a(1) assms(2)] assms(4) by simp_all
  let ?b = "snd (mem_allow (bd_clock env s1) (bc_breaker c1))"
  have "fst (mem_allow (bd_clock env s1) (bc_breaker c1))"
    by (rule gate.passes [OF f(1)]) (use f assms(2,4) in \<open>simp add: healthy_breaker_def\<close>)
  from client_call_breaker [OF a(2) this] have c': "bc_breaker c' = mem_bad (bd_clock env s') ?b" by (simp add: Let_def)
  have b: "healthy_breaker ?b" using gate.healthy [OF f(1)] by blast
  have "mem_allow (bd_clock env w) (bc_breaker c') = (False, bc_breaker c')"
    unfolding c' by (rule gate.trips [OF b])
      (use gate.counts [OF f(1)] gate.same_gate [OF f(1)] gate.same_window [OF f(1)] f assms(2,4,5) in \<open>auto simp: healthy_breaker_def\<close>)
  with client_calls_down [OF assms(1) a(1)] show ?thesis
    by (simp add: bedrock_invoke_def bedrock_converse_def invoke_engine.open_breaker_refuses converse_engine.open_breaker_refuses)
qed

text \<open>
  One request costs at most three calls of the model service, and none while the breaker
  is open: for any count of the service's calls in its state that nothing else advances.
\<close>

theorem invoke_calls_the_model_at_most_thrice:
  assumes "\<And>m body s. cnt (snd (bd_invoke_model env m body s)) \<le> cnt s + (1::nat)"
    "\<And>n s. cnt (bd_sleep env n s) = cnt s" "\<And>t src s. cnt (snd (guard env t src s)) = cnt s"
    "\<And>sid i out c s. cnt (snd (charge env sid i out c s)) = cnt s"
  shows "cnt (snd (snd (bedrock_invoke env q c s))) \<le>
    cnt s + (if fst (mem_allow (bd_clock env s) (bc_breaker c)) then 3 else 0)"
proof -
  have e: "cnt (snd (snd (invoke_sync env q c s))) \<le> cnt s + 3" for c
  proof -
    obtain x s1 where g: "guard env (user_text (iq_messages q)) ''INPUT'' s = (x, s1)" by fastforce
    then have "cnt s1 = cnt s" using assms(3) by (metis snd_conv)
    have a: "cnt (snd (snd (invoke_attempts env m b sid 3 c' s'))) \<le> cnt s + 3" if "cnt s' = cnt s" for m b sid c' s'
      using invoke_attempts_calls [of cnt, OF assms, of m b sid 3 c' s'] that by simp
    show ?thesis
      using g \<open>cnt s1 = cnt s\<close> by (cases x) (auto simp: invoke_sync_def Let_def max_retries_def case_prod_beta intro: a)
  qed
  show ?thesis
  proof (cases "fst (mem_allow (bd_clock env s) (bc_breaker c))")
    case True
    let ?c1 = "c\<lparr>bc_breaker := snd (mem_allow (bd_clock env s) (bc_breaker c))\<rparr>"
    have "snd (snd (bedrock_invoke env q c s)) = snd (snd (invoke_sync env q ?c1 s))"
      using True by (cases "invoke_sync env q ?c1 s")
        (auto simp: bedrock_invoke_def with_breaker_def case_prod_beta Let_def split: sum.splits guard_error.splits)
    with e [of ?c1] True show ?thesis by simp
  qed (simp add: bedrock_invoke_def with_breaker_def case_prod_beta)
qed

text \<open>
  C25: no answer is free and nothing else costs, by either path and for every request: with the usage kept
  in memory, a call is given at most one reply by the model service, and the tokens of that reply are
  booked, once, on the session the call is charged to (a call without a session books nothing), and no
  other session changes.  A call that ends with
  a result or with the refusal of the model's text was given one reply; one whose input was refused was
  given none and booked nothing, and one that raised booked exactly the reply it was given, if any.
\<close>

theorem answers_are_charged:
  assumes "metered env replies" "bd_redis env = None"
  shows "charged_exactly replies (charged_session (iq_budget_session_id q) (iq_session_id q)) c s (bedrock_invoke env q c s) \<and>
    charged_exactly replies (charged_session (cq_budget_session_id p) (cq_session_id p)) c s (bedrock_converse env p c s)"
  using invoke_sync_charged [OF assms] converse_sync_charged [OF assms]
  by (simp add: bedrock_invoke_def bedrock_converse_def with_breaker_charged)

text \<open>Reading a tagged conversation back, and the texts it marks for the guardrail.\<close>

fun untag_block :: "sent_block \<Rightarrow> block" where
  "untag_block (GuardContent t) = BText t"
| "untag_block (Untagged b) = b"

definition untag :: "sent_message \<Rightarrow> message" where
  "untag m = \<lparr>msg_role = sm_role m, msg_content = map untag_block (sm_content m)\<rparr>"

fun guarded_texts :: "sent_block list \<Rightarrow> string list" where
  "guarded_texts [] = []"
| "guarded_texts (GuardContent t # bs) = t # guarded_texts bs"
| "guarded_texts (Untagged b # bs) = guarded_texts bs"

lemma untag_tag_block [simp]: "untag_block (tag_block b) = b"
  by (cases b) simp_all

lemma untag_untagged [simp]: "untag (untagged m) = m"
  by (simp add: untag_def untagged_def comp_def)

lemma map_untag_untagged [simp]: "map (\<lambda>m. untag (untagged m)) ms = ms"
  by (induction ms) simp_all

lemma untag_tagged: "msg_role m = ''user'' \<Longrightarrow> untag \<lparr>sm_role = ''user'', sm_content = map tag_block (msg_content m)\<rparr> = m"
  by (cases m) (simp add: untag_def comp_def)

lemma untag_tag_from_end: "map untag (tag_from_end ms) = ms"
  by (induction ms) (simp_all add: untag_tagged comp_def)

lemma guarded_tag_block: "guarded_texts (map tag_block bs) = message_texts bs"
  by (induction bs rule: message_texts.induct) simp_all

lemma guarded_untagged: "guarded_texts (map Untagged bs) = []"
  by (induction bs) simp_all

lemma guarded_tag_from_end:
  "concat (map (\<lambda>m. guarded_texts (sm_content m)) (rev (tag_from_end ms))) =
     (case filter (\<lambda>m. msg_role m = ''user'') ms of [] \<Rightarrow> [] | m # _ \<Rightarrow> message_texts (msg_content m))"
  by (induction ms) (simp_all add: untagged_def guarded_tag_block guarded_untagged comp_def concat_eq_Nil_conv)

text \<open>
  Tagging for the service-side guardrail changes nothing but the scope: taking the tags off gives
  the conversation back, and the texts tagged are exactly those of its latest user message.
\<close>

theorem only_the_latest_user_text_is_tagged:
  "map untag (tag_latest_user_message_for_guardrail ms) = ms \<and>
   concat (map (\<lambda>m. guarded_texts (sm_content m)) (tag_latest_user_message_for_guardrail ms)) =
     (case rev (filter (\<lambda>m. msg_role m = ''user'') ms) of [] \<Rightarrow> [] | m # _ \<Rightarrow> message_texts (msg_content m))"
  using untag_tag_from_end [of "rev ms"] guarded_tag_from_end [of "rev ms"]
  by (simp add: tag_latest_user_message_for_guardrail_def rev_map [symmetric] rev_filter)

text \<open>
  The retry without the cache marker is announced as not counted, but it is: after two throttled
  attempts a model that rejects the marker is not asked again, although it would answer.
\<close>

definition picky_service :: "string \<Rightarrow> invoke_body \<Rightarrow> nat \<Rightarrow> (model_error + invoke_reply) \<times> nat" where
  "picky_service m body n =
     (if n < 2 then Inl (ClientError ''ThrottlingException'' ''slow down'')
      else if ib_cache_control body then Inl (ClientError ''ValidationException'' ''cache_control: not permitted'')
      else Inr \<lparr>ir_input_tokens = 10, ir_output_tokens = 5, ir_text = Some ''ok''\<rparr>, n + 1)"

definition demo_bedrock :: "(string \<Rightarrow> invoke_body \<Rightarrow> nat \<Rightarrow> (model_error + invoke_reply) \<times> nat) \<Rightarrow> nat bedrock_env" where
  "demo_bedrock service =
     \<lparr>bd_settings = default_settings ''h'', bd_redis = None, bd_guardrail = \<lparr>gr_enabled = True, gr_id = ''g'', gr_version = ''1''\<rparr>,
      bd_guard_service = (\<lambda>i v src t s. (Inr \<lparr>grr_action = Some ''NONE'', grr_assessments = []\<rparr>, s)),
      bd_clock = of_nat, bd_invoke_model = service, bd_converse = (\<lambda>p s. (Inl (OtherModelError ''down''), s + 1)),
      bd_sleep = (\<lambda>a s. s)\<rparr>"

definition demo_request :: invoke_request where
  "demo_request =
     \<lparr>iq_messages = [\<lparr>im_role = ''user'', im_content = CPlain ''hi''\<rparr>], iq_system_prompt = ''You answer.'',
      iq_max_tokens = 4096, iq_temperature = 7/10, iq_use_cache = True, iq_match_user_language = False,
      iq_session_id = ''s1'', iq_role = ''agent'', iq_budget_session_id = None, iq_skip_input_guardrail = True\<rparr>"

lemma default_cache_enabled [simp]: "cfg_bedrock_prompt_cache_enabled (default_settings h)"
  by (simp add: default_settings_def)

lemma with_breaker_fst:
  "mem_allow (bd_clock env s) (bc_breaker c) = (True, b) \<Longrightarrow>
   fst (with_breaker env engine c s) = fst (engine (c\<lparr>bc_breaker := b\<rparr>) s)"
  by (auto simp: with_breaker_def Let_def split: prod.splits sum.splits guard_error.splits)

lemma new_client_allows:
  "mem_allow t (bc_breaker (new_bedrock_client st)) = (True, bc_breaker (new_bedrock_client st))"
  by (simp add: new_bedrock_client_def new_breaker_def mem_allow_def)

lemma picky_attempts:
  "fst (invoke_attempts (demo_bedrock picky_service) m body ''s1'' 3 c 0) =
     (if ib_cache_control body then Inl (GuardrailRaised (''Failed to invoke Bedrock after '' @ show_nat max_retries @ '' attempts''))
      else Inr ''ok'')"
  by (simp add: numeral_3_eq_3 demo_bedrock_def picky_service_def RETRYABLE_def charge_def case_prod_beta guard_def
      apply_guardrail_def)

lemma cache_fallback_is_counted:
  "fst (bedrock_invoke (demo_bedrock picky_service) demo_request (new_bedrock_client (default_settings ''h'')) 0) =
     Inl (GuardrailRaised ''Failed to invoke Bedrock after 3 attempts'') \<and>
   fst (bedrock_invoke (demo_bedrock picky_service) (demo_request\<lparr>iq_use_cache := False\<rparr>)
     (new_bedrock_client (default_settings ''h'')) 0) = Inr ''ok''"
proof -
  have three: "show_nat 3 = ''3''" by code_simp
  have i: "fst (invoke_sync (demo_bedrock picky_service) (demo_request\<lparr>iq_use_cache := u\<rparr>) c 0) =
    (if u then Inl (GuardrailRaised ''Failed to invoke Bedrock after 3 attempts'') else Inr ''ok'')"
    if "bc_cache_supported c = None" for u c
    using picky_attempts that
    by (simp add: invoke_sync_def demo_request_def is_cache_supported_def charged_session_def
        Let_def demo_bedrock_def max_retries_def three)
  have d: "demo_request\<lparr>iq_use_cache := True\<rparr> = demo_request" by (simp add: demo_request_def)
  show ?thesis
    using i [of _ True] i [of _ False] unfolding d bedrock_invoke_def with_breaker_fst [OF new_client_allows]
    by (simp add: new_bedrock_client_def)
qed

text \<open>The parser of converse responses gives no reasoning block, so the trace never shows one.\<close>

lemma no_reasoning_blocks: "reasoning_texts (parse_converse_content bs) = []"
proof (induction bs)
  case (Cons b bs)
  then show ?case by (cases b) (simp_all add: parse_converse_content_def)
qed (simp add: parse_converse_content_def)

definition answering_service :: "string \<Rightarrow> invoke_body \<Rightarrow> nat \<Rightarrow> (model_error + invoke_reply) \<times> nat" where
  "answering_service m body n = (Inr \<lparr>ir_input_tokens = 10, ir_output_tokens = 5, ir_text = Some ''ok''\<rparr>, n + 1)"

definition failing_service :: "string \<Rightarrow> invoke_body \<Rightarrow> nat \<Rightarrow> (model_error + invoke_reply) \<times> nat" where
  "failing_service m body n = (Inl (OtherModelError ''down''), n + 1)"

lemma answered:
  "fst (bedrock_invoke (demo_bedrock answering_service) demo_request (new_bedrock_client (default_settings ''h'')) 0) = Inr ''ok''"
  unfolding bedrock_invoke_def with_breaker_fst [OF new_client_allows]
  by (simp add: invoke_sync_def demo_request_def is_cache_supported_def new_bedrock_client_def charged_session_def
      Let_def demo_bedrock_def max_retries_def numeral_3_eq_3 answering_service_def charge_def case_prod_beta guard_def
      apply_guardrail_def)

theorem released_text_is_guarded_witness:
  "\<exists>t. fst (bedrock_invoke (demo_bedrock answering_service) demo_request (new_bedrock_client (default_settings ''h'')) 0) = Inr t \<and>
     passed (demo_bedrock answering_service) ''OUTPUT'' t"
proof -
  obtain c' s' where "bedrock_invoke (demo_bedrock answering_service) demo_request
      (new_bedrock_client (default_settings ''h'')) 0 = (Inr ''ok'', c', s')"
    using answered by (metis prod.collapse)
  with released_text_is_guarded [of "demo_bedrock answering_service" demo_request "new_bedrock_client (default_settings ''h'')" 0
    "''ok''" c' s'] answered show ?thesis by blast
qed

text \<open>A world that is the list of the replies' token totals.\<close>

definition metered_bedrock :: "int list bedrock_env" where
  "metered_bedrock =
     \<lparr>bd_settings = default_settings ''h'', bd_redis = None, bd_guardrail = \<lparr>gr_enabled = True, gr_id = ''g'', gr_version = ''1''\<rparr>,
      bd_guard_service = (\<lambda>i v src t s. (Inr \<lparr>grr_action = Some ''NONE'', grr_assessments = []\<rparr>, s)),
      bd_clock = (\<lambda>s. 0),
      bd_invoke_model = (\<lambda>m b s. (Inr \<lparr>ir_input_tokens = 10, ir_output_tokens = 5, ir_text = Some ''ok''\<rparr>, s @ [15])),
      bd_converse = (\<lambda>p s. (Inr \<lparr>cr_stop_reason = None, cr_content = [RawText ''ok''], cr_input_tokens = 7, cr_output_tokens = 1\<rparr>, s @ [8])),
      bd_sleep = (\<lambda>n s. s)\<rparr>"

definition demo_turn :: converse_request where
  "demo_turn =
     \<lparr>cq_messages = [\<lparr>msg_role = ''user'', msg_content = [BText ''hi'']\<rparr>], cq_system_prompt = ''You answer.'', cq_max_tokens = 4096,
      cq_temperature = 7/10, cq_tool_config = None, cq_session_id = ''s1'', cq_role = ''agent'', cq_budget_session_id = Some ''s2'',
      cq_apply_bedrock_guardrail = False, cq_skip_input_guardrail = False, cq_model_id_override = None\<rparr>"

lemma with_breaker_snd:
  "mem_allow (bd_clock env s) (bc_breaker c) = (True, b) \<Longrightarrow>
   snd (snd (with_breaker env engine c s)) = snd (snd (engine (c\<lparr>bc_breaker := b\<rparr>) s))"
  by (auto simp: with_breaker_def Let_def split: prod.splits sum.splits guard_error.splits)

lemma metered_bedrock_metered: "metered metered_bedrock (\<lambda>s. s)"
  by (simp add: metered_def metered_bedrock_def)

lemma metered_guard: "guard metered_bedrock t src s = (Inr (), s)"
  by (simp add: guard_def apply_guardrail_def metered_bedrock_def)

lemma metered_attempt: "snd (snd (converse_attempts metered_bedrock p sid (Suc k) c s)) = s @ [8]"
proof -
  have c: "bd_converse metered_bedrock p s =
      (Inr \<lparr>cr_stop_reason = None, cr_content = [RawText ''ok''], cr_input_tokens = 7, cr_output_tokens = 1\<rparr>, s @ [8])"
    by (simp add: metered_bedrock_def)
  have r: "bd_redis metered_bedrock = None" by (simp add: metered_bedrock_def)
  have "snd (charge metered_bedrock sid i out c1 s1) = s1" for i out c1 s1
    using charge_books(1) [OF r] by (metis prod.collapse)
  then show ?thesis by (simp add: c metered_guard parse_converse_content_def case_prod_beta Let_def)
qed

theorem answers_are_charged_witness:
  "mem_usage (bc_tracker (fst (snd (bedrock_converse metered_bedrock demo_turn (new_bedrock_client (default_settings ''h'')) [])))) ''s2'' = 8 \<and>
   mem_usage (bc_tracker (fst (snd (bedrock_converse metered_bedrock demo_turn (new_bedrock_client (default_settings ''h'')) [])))) ''s1'' = 0"
proof -
  let ?c = "new_bedrock_client (default_settings ''h'')"
  obtain r c' s' where e: "bedrock_converse metered_bedrock demo_turn ?c [] = (r, c', s')" by (rule prod_cases3)
  have "snd (snd (bedrock_converse metered_bedrock demo_turn ?c [])) = [8]"
    unfolding bedrock_converse_def with_breaker_snd [OF new_client_allows]
    by (simp add: converse_sync_def Let_def metered_guard max_retries_def numeral_3_eq_3 metered_attempt del: converse_attempts.simps)
  then have "s' = [8]" by (simp add: e)
  moreover have "charged_session (cq_budget_session_id demo_turn) (cq_session_id demo_turn) = ''s2''"
    by (simp add: charged_session_def demo_turn_def)
  ultimately show ?thesis
    using answers_are_charged [OF metered_bedrock_metered, of demo_request ?c "[]" demo_turn] e
    by (auto simp: charged_exactly_def metered_bedrock_def new_bedrock_client_def new_tracker_def mem_usage_def)
qed

theorem invoke_calls_the_model_at_most_thrice_witness:
  "snd (snd (bedrock_invoke (demo_bedrock picky_service) demo_request (new_bedrock_client (default_settings ''h'')) 0)) \<le> 3"
proof -
  have "snd (snd (bedrock_invoke (demo_bedrock picky_service) demo_request (new_bedrock_client (default_settings ''h'')) 0)) \<le>
    0 + (if fst (mem_allow (bd_clock (demo_bedrock picky_service) 0)
      (bc_breaker (new_bedrock_client (default_settings ''h'')))) then 3 else 0)"
    by (rule invoke_calls_the_model_at_most_thrice [where cnt = "\<lambda>s. s"])
      (auto simp: demo_bedrock_def picky_service_def guard_def apply_guardrail_def charge_def record_usage_mem)
  then show ?thesis by (simp add: new_client_allows)
qed

lemma demo_down: "service_down (demo_bedrock failing_service)"
  by (simp add: service_down_def demo_bedrock_def failing_service_def)

lemma demo_guard: "guard (demo_bedrock service) t src s = (Inr (), s)"
  by (simp add: guard_def apply_guardrail_def demo_bedrock_def)

lemma with_breaker_raised:
  "(\<And>c s. \<exists>e. fst (engine c s) = Inl (GuardrailRaised e)) \<Longrightarrow> \<exists>e. fst (with_breaker env engine c s) = Inl (GuardrailRaised e)"
  unfolding with_breaker_def Let_def
  by (auto split: prod.splits sum.splits guard_error.splits) (metis fst_conv sum.inject sum.distinct guard_error.distinct)+

lemma demo_raises: "raised (fst (client_call (demo_bedrock failing_service) q c s))"
proof (cases q)
  case (Inl i)
  have "\<exists>e. fst (invoke_sync (demo_bedrock failing_service) i c1 s1) = Inl (GuardrailRaised e)" for c1 s1
    using invoke_attempts_outage [of "demo_bedrock failing_service"] demo_down
    by (simp add: invoke_sync_def Let_def demo_guard case_prod_beta service_down_def)
  then have "\<exists>e. fst (bedrock_invoke (demo_bedrock failing_service) i c s) = Inl (GuardrailRaised e)"
    unfolding bedrock_invoke_def by (intro with_breaker_raised)
  then show ?thesis
    by (auto simp: client_call_def Inl failure_of_def split: prod.splits)
next
  case (Inr p)
  have "\<exists>e. fst (converse_sync (demo_bedrock failing_service) p c1 s1) = Inl (GuardrailRaised e)" for c1 s1
    using converse_attempts_outage [OF demo_down]
    by (simp add: converse_sync_def Let_def demo_guard case_prod_beta)
  then have "\<exists>e. fst (bedrock_converse (demo_bedrock failing_service) p c s) = Inl (GuardrailRaised e)"
    unfolding bedrock_converse_def by (intro with_breaker_raised)
  then show ?thesis
    by (auto simp: client_call_def Inr failure_of_def split: prod.splits)
qed

lemma demo_all_raise:
  "client_calls (demo_bedrock failing_service) qs c s = (es, c', s') \<Longrightarrow> length es = length qs \<and> list_all raised es"
proof (induction qs arbitrary: c s es)
  case (Cons q qs)
  with demo_raises [of q c s] show ?case by (fastforce split: prod.splits)
qed simp

theorem outage_opens_the_client_witness:
  "\<exists>es c' s'. client_calls (demo_bedrock failing_service) ([Inl demo_request, Inr demo_turn, Inl demo_request, Inr demo_turn] @ [Inl demo_request])
       (new_bedrock_client (default_settings ''h'')) 0 = (es, c', s') \<and> list_all raised es \<and>
     bedrock_converse (demo_bedrock failing_service) demo_turn c' 20 =
       (Inl (GuardrailRaised ''Bedrock circuit breaker is OPEN''), c', 20)"
proof -
  let ?env = "demo_bedrock failing_service" and ?c = "new_bedrock_client (default_settings ''h'')"
  let ?qs = "[Inl demo_request, Inr demo_turn, Inl demo_request, Inr demo_turn]"
  obtain es c' s' where e: "client_calls ?env (?qs @ [Inl demo_request]) ?c 0 = (es, c', s')" by (rule prod_cases3)
  note a = demo_all_raise [OF e]
  then obtain es1 x where es: "es = es1 @ [x]" "length es1 = 4" "list_all raised es1" "raised x"
    by (cases es rule: rev_cases) auto
  then obtain y where x: "x = Some (GuardrailRaised y)" by (cases x rule: raised.cases) auto
  have "filter raised es1 = es1" using es(3) by (simp add: list_all_iff)
  then have "bedrock_converse ?env demo_turn c' 20 = (Inl (GuardrailRaised ''Bedrock circuit breaker is OPEN''), c', 20)"
    using outage_opens_the_client [OF demo_down _ e [unfolded es(1) x], of 20 demo_request demo_turn] es(2)
    by (simp add: new_bedrock_client_def new_breaker_healthy) (simp add: new_breaker_def demo_bedrock_def)
  with e a show ?thesis by blast
qed

end
