(* ===== verification/Canary.thy ===== *)
theory Canary
  imports Regex Guardrail Config
begin

text \<open>
  Canary tokens, src/src/core/canary.py: hidden markers put around the collected data, found
  again in an answer even with separators between their digits, redacted, and counted per
  session.  The random tokens are arguments; a separator class character is as in the source,
  the zero-width space as its UTF-8 bytes.  Audit records are left out.
\<close>

definition CANARY_PREFIX :: string where
  "CANARY_PREFIX = ''CNRY-''"

definition NUM_CANARIES :: nat where
  "NUM_CANARIES = 2"

definition SEP :: rx where
  "SEP = rx_star (Alt (Cls (\<lambda>c. is_space c \<or> c = CHR ''-'' \<or> c = CHR ''_'' \<or> c = CHR ''.''))
                      (lit [CHR 0xE2, CHR 0x80, CHR 0x8B]))"

definition REDACTED :: string where
  "REDACTED = ''[redacted]''"

fun sep_join :: "string \<Rightarrow> rx" where
  "sep_join [] = Eps"
| "sep_join [c] = lit_ci [c]"
| "sep_join (c # d # cs) = Seq (lit_ci [c]) (Seq SEP (sep_join (d # cs)))"

definition fuzzy_pattern :: "string \<Rightarrow> rx" where
  "fuzzy_pattern token = sep_join (drop (length CANARY_PREFIX) token)"

definition fuzzy_prefix_pattern :: rx where
  "fuzzy_prefix_pattern = Seq (sep_join (butlast CANARY_PREFIX)) (Seq SEP (lit_ci REDACTED))"

section \<open>Injection\<close>

definition canary_marker :: "string \<Rightarrow> string" where
  "canary_marker token = ''<!-- internal-telemetry-id, do not output: '' @ token @ '' -->''"

text \<open>\<open>fresh\<close> holds the tokens the random generator gives.\<close>

definition canary_inject :: "bool \<Rightarrow> string list \<Rightarrow> string \<Rightarrow> string \<times> string list" where
  "canary_inject enabled fresh infra_data =
     (if \<not> enabled then (infra_data, [])
      else (let tokens = take NUM_CANARIES fresh
            in (canary_marker (tokens ! 0) @ nl @ infra_data @ nl @ canary_marker (tokens ! 1), tokens)))"

section \<open>Detection\<close>

definition redact_token :: "string \<Rightarrow> string \<Rightarrow> string" where
  "redact_token token response =
     sub_all fuzzy_prefix_pattern REDACTED (sub_all (fuzzy_pattern token) REDACTED response)"

fun redact_tokens :: "string list \<Rightarrow> string \<Rightarrow> bool \<times> string" where
  "redact_tokens [] response = (False, response)"
| "redact_tokens (token # tokens) response =
     (if contains token response \<or> found (fuzzy_pattern token) response
      then (True, snd (redact_tokens tokens (redact_token token response)))
      else redact_tokens tokens response)"

text \<open>\<open>counts\<close> is the table of detections per session.\<close>

definition canary_detect ::
    "bool \<Rightarrow> int \<Rightarrow> string list \<Rightarrow> string \<Rightarrow> (string \<times> int) list \<Rightarrow> string \<Rightarrow>
     (guard_error + string) \<times> (string \<times> int) list" where
  "canary_detect enabled threshold tokens session_id counts response =
     (if \<not> enabled \<or> tokens = [] then (Inr response, counts)
      else (case redact_tokens tokens response of (leaked, redacted) \<Rightarrow>
              if leaked \<and> session_id \<noteq> [] then
                (let count = (case dict_get counts session_id of None \<Rightarrow> 0 | Some n \<Rightarrow> n) + 1;
                     counts' = dict_set counts session_id count
                 in if count > threshold
                    then (Inl (GuardrailBlocked ''blocked'' ''OUTPUT'' [''canary_repeated_detection'']), counts')
                    else (Inr redacted, counts'))
              else (Inr redacted, counts)))"

section \<open>Lemmas\<close>

text \<open>A token as \<open>_generate_token\<close> makes it: the prefix and 32 hexadecimal digits.\<close>

definition is_hex :: "char \<Rightarrow> bool" where
  "is_hex c = (let n = of_char c :: nat in 48 \<le> n \<and> n \<le> 57 \<or> 97 \<le> n \<and> n \<le> 102)"

definition canary_token :: "string \<Rightarrow> bool" where
  "canary_token t \<longleftrightarrow> (\<exists>hex. t = CANARY_PREFIX @ hex \<and> length hex = 32 \<and> list_all is_hex hex)"

definition filler :: "char set" where
  "filler = {c. is_space c} \<union> {CHR ''-'', CHR ''_'', CHR ''.'', CHR 0xE2, CHR 0x80, CHR 0x8B}"

lemma lang_lit: "lang (lit w) = {w}"
  by (induction w) (auto simp: lit_def)

lemma lang_lit_ci: "lang (lit_ci w) = {v. map lower_char v = map lower_char w}"
proof (induction w)
  case (Cons a w)
  have "lit_ci (a # w) = Seq (Cls (\<lambda>x. lower_char x = lower_char a)) (lit_ci w)" by (simp add: lit_ci_def)
  then have "lang (lit_ci (a # w)) = {[c] @ v | c v. lower_char c = lower_char a \<and> v \<in> lang (lit_ci w)}"
    by (simp only: lang.simps mem_Collect_eq) blast
  also have "\<dots> = {v. map lower_char v = map lower_char (a # w)}"
    unfolding Cons by (auto simp: map_eq_Cons_conv)
  finally show ?case .
qed (simp add: lit_ci_def)

lemma plain_lit [simp]: "plain (lit w)" "plain (lit_ci w)"
  by (induction w) (simp_all add: lit_def lit_ci_def)

lemma rx_pow_chars: "w \<in> rx_pow L k \<Longrightarrow> (\<And>u. u \<in> L \<Longrightarrow> set u \<subseteq> A) \<Longrightarrow> set w \<subseteq> A"
  by (induction k arbitrary: w) force+

lemma SEP_chars: "w \<in> lang SEP \<Longrightarrow> set w \<subseteq> filler"
proof -
  let ?L = "lang (Alt (Cls (\<lambda>c. is_space c \<or> c = CHR ''-'' \<or> c = CHR ''_'' \<or> c = CHR ''.'')) (lit [CHR 0xE2, CHR 0x80, CHR 0x8B]))"
  assume "w \<in> lang SEP"
  then obtain k where "w \<in> rx_pow ?L k" unfolding SEP_def rx_star_def lang.simps(5) by blast
  then show ?thesis by (rule rx_pow_chars) (auto simp: lang_lit filler_def)
qed

lemma SEP_Nil [simp]: "[] \<in> lang SEP"
  unfolding SEP_def rx_star_def lang.simps(5) by (rule UN_I [of 0]) simp_all

lemma plain_SEP [simp]: "plain SEP"
  by (simp add: SEP_def rx_star_def lang_lit)

lemma plain_sep_join [simp]: "plain (sep_join cs)"
  by (induction cs rule: sep_join.induct) simp_all

lemma sep_join_words:
  "w \<in> lang (sep_join cs) \<Longrightarrow> length cs \<le> length w \<and> set w \<subseteq> filler \<union> {c. lower_char c \<in> lower_char ` set cs}"
proof (induction cs arbitrary: w rule: sep_join.induct)
  case (3 c d cs)
  then obtain u v x where w: "w = u @ v @ x" "u \<in> lang (lit_ci [c])" "v \<in> lang SEP" "x \<in> lang (sep_join (d # cs))" by auto
  with 3(1) [OF w(4)] SEP_chars [OF w(3)] show ?case by (auto simp: lang_lit_ci Cons_eq_map_conv)
qed (auto simp: lang_lit_ci)

lemma sep_join_copy: "map lower_char w = map lower_char cs \<Longrightarrow> w \<in> lang (sep_join cs)"
proof (induction cs arbitrary: w rule: sep_join.induct)
  case (3 c d cs)
  then obtain x y where w: "w = x # y" "lower_char x = lower_char c" "map lower_char y = map lower_char (d # cs)"
    by (cases w) auto
  have "[x] \<in> lang (lit_ci [c])" using w(2) by (simp add: lang_lit_ci)
  moreover have "y \<in> lang (sep_join (d # cs))" by (rule 3(1) [OF w(3)])
  ultimately have "[x] @ [] @ y \<in> lang (sep_join (c # d # cs))"
    unfolding sep_join.simps lang.simps(3) using SEP_Nil by blast
  then show ?case using w(1) by simp
qed (auto simp: lang_lit_ci)

lemma hex_lower: "is_hex c \<Longrightarrow> lower_char c = c"
  by (auto simp: is_hex_def lower_char_def Let_def)

lemma hex_lower_not_bracket: "is_hex (lower_char c) \<Longrightarrow> c \<noteq> CHR ''['' \<and> c \<noteq> CHR '']''"
  by (auto simp: is_hex_def lower_char_def Let_def)

lemma filler_not_bracket: "CHR ''['' \<notin> filler" "CHR '']'' \<notin> filler"
  by (auto simp: filler_def is_space_def Let_def)

lemma fuzzy_fenced:
  assumes "canary_token t"
  shows "fenced (lang (fuzzy_pattern t)) REDACTED"
proof -
  from assms obtain hex where t: "t = CANARY_PREFIX @ hex" "length hex = 32" "list_all is_hex hex"
    by (auto simp: canary_token_def)
  have "32 \<le> length w \<and> CHR ''['' \<notin> set w \<and> CHR '']'' \<notin> set w" if w: "w \<in> lang (fuzzy_pattern t)" for w
  proof -
    from w t(1) have "w \<in> lang (sep_join hex)" by (simp add: fuzzy_pattern_def)
    from sep_join_words [OF this] t(2) have l: "32 \<le> length w"
      and s: "set w \<subseteq> filler \<union> {c. lower_char c \<in> lower_char ` set hex}" by simp_all
    have "c \<noteq> CHR ''['' \<and> c \<noteq> CHR '']''" if "c \<in> set w" for c
    proof -
      from that s have "c \<in> filler \<or> lower_char c \<in> lower_char ` set hex" by blast
      then show ?thesis
        using filler_not_bracket hex_lower_not_bracket t(3) hex_lower by (auto simp: list_all_iff)
    qed
    with l show ?thesis by blast
  qed
  then show ?thesis
    unfolding fenced_def REDACTED_def by (force dest: sublist_length_le)
qed

lemma found_iff: "plain r \<Longrightarrow> found r s \<longleftrightarrow> (\<exists>w \<in> lang r. sublist w s)"
  unfolding found_def by (simp add: search_None_iff)

lemma redact_token_removes:
  assumes "canary_token t" "w \<in> lang (fuzzy_pattern t)"
  shows "\<not> sublist w (redact_token t r)"
proof -
  have "\<not> sublist w (sub_all (fuzzy_pattern t) REDACTED r)"
    by (rule sub_all_removes [OF fuzzy_fenced [OF assms(1)] _ assms(2)]) (simp add: fuzzy_pattern_def)
  then show ?thesis unfolding redact_token_def by (rule sub_all_keeps_out [OF fuzzy_fenced [OF assms(1)] assms(2)])
qed

lemma redact_token_keeps_out:
  assumes "canary_token t" "w \<in> lang (fuzzy_pattern t)" "\<not> sublist w r"
  shows "\<not> sublist w (redact_token t' r)"
  unfolding redact_token_def
  by (intro sub_all_keeps_out [OF fuzzy_fenced [OF assms(1)] assms(2)] assms(3))

lemma redact_tokens_keeps_out:
  "canary_token t \<Longrightarrow> w \<in> lang (fuzzy_pattern t) \<Longrightarrow> \<not> sublist w r \<Longrightarrow> \<not> sublist w (snd (redact_tokens ts r))"
  by (induction ts r rule: redact_tokens.induct) (simp_all add: redact_token_keeps_out)

lemma redact_tokens_removes:
  "t \<in> set ts \<Longrightarrow> canary_token t \<Longrightarrow> w \<in> lang (fuzzy_pattern t) \<Longrightarrow> \<not> sublist w (snd (redact_tokens ts r))"
proof (induction ts r rule: redact_tokens.induct)
  case (2 token tokens r)
  show ?case
  proof (cases "token = t")
    case True
    show ?thesis
    proof (cases "contains token r \<or> found (fuzzy_pattern token) r")
      case found: True
      have "\<not> sublist w (redact_token token r)" using True 2(4,5) redact_token_removes by simp
      with found show ?thesis using redact_tokens_keeps_out [OF 2(4,5)] by simp
    next
      case False
      then have "\<not> sublist w r"
        using True 2(5) found_iff [of "fuzzy_pattern t" r] by (auto simp: fuzzy_pattern_def)
      with False show ?thesis using redact_tokens_keeps_out [OF 2(4,5)] by simp
    qed
  next
    case False
    with 2 show ?thesis by (simp del: contains.simps)
  qed
qed simp


section \<open>Properties\<close>

text \<open>
  No canary leaves the program: an answer the detector returns contains no injected token,
  in any letter case and with any separators between its digits, whatever was in the answer;
  an answer without a token is returned as it was.
\<close>

theorem canary_leaves_no_token:
  assumes "list_all canary_token tokens"
    and "canary_detect True threshold tokens session_id counts response = (Inr out, counts')"
  shows "(\<forall>t \<in> set tokens. (\<forall>w \<in> lang (fuzzy_pattern t). \<not> sublist w out) \<and>
      \<not> contains (drop (length CANARY_PREFIX) t) (py_lower out)) \<and>
    ((\<forall>t \<in> set tokens. \<not> found (fuzzy_pattern t) response) \<longrightarrow> out = response)"
proof -
  have out: "out = snd (redact_tokens tokens response)" if "tokens \<noteq> []"
    using assms(2) that by (auto simp: canary_detect_def Let_def split: prod.splits if_splits)
  have no: "\<not> sublist w out" if "t \<in> set tokens" "w \<in> lang (fuzzy_pattern t)" for t w
  proof -
    have "canary_token t" using assms(1) that(1) by (simp add: list_all_iff)
    moreover have "tokens \<noteq> []" using that(1) by auto
    ultimately show ?thesis using redact_tokens_removes [OF that(1) _ that(2), of response] out by simp
  qed
  moreover have "\<not> contains (drop (length CANARY_PREFIX) t) (py_lower out)" if "t \<in> set tokens" for t
  proof
    let ?hex = "drop (length CANARY_PREFIX) t"
    assume "contains ?hex (py_lower out)"
    then obtain xs ys where "map lower_char out = xs @ ?hex @ ys"
      by (auto simp: contains_iff_sublist sublist_def py_lower_def)
    then have "map lower_char (take (length ?hex) (drop (length xs) out)) = ?hex"
      by (metis append_eq_conv_conj drop_map take_map)
    moreover define w where "w = take (length ?hex) (drop (length xs) out)"
    ultimately have o: "sublist w out" "map lower_char w = ?hex"
      by (simp_all, meson sublist_drop sublist_order.order_trans sublist_take)
    have "canary_token t" using assms(1) that by (simp add: list_all_iff)
    then have "map lower_char ?hex = ?hex"
      by (auto simp: canary_token_def list_all_iff hex_lower intro!: map_idI)
    with o(2) have "w \<in> lang (fuzzy_pattern t)" unfolding fuzzy_pattern_def by (intro sep_join_copy) simp
    with no [OF that] o(1) show False by blast
  qed
  moreover have "out = response" if n: "\<forall>t \<in> set tokens. \<not> found (fuzzy_pattern t) response"
  proof -
    have "\<not> contains t response" if t: "t \<in> set tokens" for t
    proof
      assume c: "contains t response"
      have "canary_token t" using assms(1) t by (simp add: list_all_iff)
      then have "t = CANARY_PREFIX @ drop (length CANARY_PREFIX) t" by (auto simp: canary_token_def)
      then have "sublist (drop (length CANARY_PREFIX) t) t" by (metis sublist_appendI append_Nil2)
      with c have "sublist (drop (length CANARY_PREFIX) t) response"
        using sublist_order.order_trans by (auto simp: contains_iff_sublist)
      moreover have "drop (length CANARY_PREFIX) t \<in> lang (fuzzy_pattern t)"
        unfolding fuzzy_pattern_def by (rule sep_join_copy) simp
      ultimately show False using n t found_iff [of "fuzzy_pattern t" response] by (auto simp: fuzzy_pattern_def)
    qed
    with n have "redact_tokens tokens response = (False, response)"
      by (induction tokens) auto
    with out assms(2) show ?thesis by (cases "tokens = []") (auto simp: canary_detect_def)
  qed
  ultimately show ?thesis by blast
qed

definition demo_canary :: string where
  "demo_canary = ''CNRY-0123456789abcdef0123456789abcdef''"

theorem canary_leaves_no_token_witness:
  "\<exists>out. fst (canary_detect True 3 [demo_canary] ''s'' [] (''Trace: '' @ demo_canary)) = Inr out \<and>
     \<not> contains ''0123456789abcdef0123456789abcdef'' (py_lower out)"
proof -
  have t: "drop (length CANARY_PREFIX) demo_canary = ''0123456789abcdef0123456789abcdef''"
    by (simp add: demo_canary_def CANARY_PREFIX_def)
  have l: "list_all canary_token [demo_canary]"
    by (simp add: canary_token_def demo_canary_def CANARY_PREFIX_def is_hex_def)
  obtain out counts' where d: "canary_detect True 3 [demo_canary] ''s'' [] (''Trace: '' @ demo_canary) = (Inr out, counts')"
    by (auto simp: canary_detect_def Let_def split: prod.splits)
  from canary_leaves_no_token [OF l d] d t show ?thesis by auto
qed

text \<open>The detections of a session over a run of answers, each with its own tokens.\<close>

fun canary_run ::
    "int \<Rightarrow> (string list \<times> string \<times> string) list \<Rightarrow> (string \<times> int) list \<Rightarrow>
     (guard_error + string) list \<times> (string \<times> int) list" where
  "canary_run threshold [] counts = ([], counts)"
| "canary_run threshold ((tokens, session_id, response) # rs) counts =
     (let (r, counts1) = canary_detect True threshold tokens session_id counts response;
          (out, counts2) = canary_run threshold rs counts1
      in (r # out, counts2))"

text \<open>The leaking answers of a session that are let through.\<close>

definition leaks_answered :: "string \<Rightarrow> (string list \<times> string \<times> string) list \<Rightarrow> (guard_error + string) list \<Rightarrow> nat" where
  "leaks_answered sid rs out =
     length (filter (\<lambda>((tokens, session_id, response), r).
       session_id = sid \<and> fst (redact_tokens tokens response) \<and> \<not> isl r) (zip rs out))"

lemma canary_run_counts:
  "0 \<le> (case dict_get counts sid of None \<Rightarrow> 0 | Some n \<Rightarrow> n) \<Longrightarrow> sid \<noteq> [] \<Longrightarrow> 0 \<le> threshold \<Longrightarrow>
   int (leaks_answered sid rs (fst (canary_run threshold rs counts)))
     \<le> max 0 (threshold - (case dict_get counts sid of None \<Rightarrow> 0 | Some n \<Rightarrow> n))"
proof (induction threshold rs counts rule: canary_run.induct)
  case (2 threshold tokens session_id response rs counts)
  obtain r counts1 where d: "canary_detect True threshold tokens session_id counts response = (r, counts1)" by fastforce
  obtain leaked red where t: "redact_tokens tokens response = (leaked, red)" by fastforce
  show ?case
  proof (cases "tokens \<noteq> [] \<and> leaked \<and> session_id = sid")
    case True
    then have "counts1 = dict_set counts sid ((case dict_get counts sid of None \<Rightarrow> 0 | Some n \<Rightarrow> n) + 1)"
      "isl r \<longleftrightarrow> (case dict_get counts sid of None \<Rightarrow> 0 | Some n \<Rightarrow> n) + 1 > threshold"
      using d t 2(3) by (auto simp: canary_detect_def Let_def split: if_splits)
    with 2(1) [OF d [symmetric] refl] 2(2-) d t True show ?thesis
      by (auto simp: leaks_answered_def Let_def split: option.splits prod.splits)
  next
    case False
    then have "dict_get counts1 sid = dict_get counts sid" "\<not> (session_id = sid \<and> leaked)"
      using d t by (auto simp: canary_detect_def Let_def split: if_splits)
    with 2(1) [OF d [symmetric] refl] 2(2-) d t show ?thesis
      by (auto simp: leaks_answered_def Let_def split: option.splits prod.splits)
  qed
qed (simp add: leaks_answered_def)

text \<open>
  A session gets a bounded number of free probes: over any run of requests at most
  the threshold's number of leaking answers of one session are let through, redacted; every later
  one is refused.
\<close>

theorem canary_probes_are_bounded:
  assumes "sid \<noteq> []" "0 \<le> threshold"
  shows "int (leaks_answered sid rs (fst (canary_run threshold rs []))) \<le> threshold"
  using canary_run_counts [of "[]" sid threshold rs] assms by simp

theorem canary_probes_are_bounded_witness:
  "int (leaks_answered ''s'' (replicate 5 ([demo_canary], ''s'', demo_canary))
     (fst (canary_run 3 (replicate 5 ([demo_canary], ''s'', demo_canary)) []))) \<le> 3"
  by (rule canary_probes_are_bounded) simp_all

end
