(* ===== verification/OutputFilter.thy ===== *)
theory OutputFilter
  imports Regex Guardrail Config
begin

text \<open>
  The output filter, src/src/core/output_filter.py: the leak patterns, the Luhn check on card
  numbers, and the scan that refuses a response.  Audit records are left out; the matched text is
  not kept.
\<close>

section \<open>Patterns\<close>

definition quote_opt :: rx where
  "quote_opt = rx_opt (one_of [CHR 0x27, CHR 0x22])"

definition spaces :: rx where
  "spaces = rx_star (Cls is_space)"

definition spaces1 :: rx where
  "spaces1 = rx_plus (Cls is_space)"

definition aws_access_key :: rx where
  "aws_access_key = seqs [Alt (lit ''AKIA'') (lit ''ASIA''), rx_times 16 (Cls is_upper_dec)]"

definition aws_secret_key :: rx where
  "aws_secret_key =
     seqs [alts [seqs [lit_ci ''secret'', rx_opt (one_of ''_-''), lit_ci ''access'', rx_opt (one_of ''_-''), lit_ci ''key''],
                 seqs [lit_ci ''aws'', rx_opt (one_of ''_-''), lit_ci ''secret''], lit_ci ''secretkey''],
           quote_opt, spaces, one_of '':='', spaces, quote_opt, rx_times 40 (alnum_or ''/+'')]"

definition private_key :: rx where
  "private_key =
     seqs [lit ''-----BEGIN'', spaces1,
           rx_opt (alts [Seq (lit ''RSA'') spaces1, Seq (lit ''EC'') spaces1, Seq (lit ''DSA'') spaces1,
                         Seq (lit ''OPENSSH'') spaces1]),
           lit ''PRIVATE'', spaces1, lit ''KEY-----'']"

definition generic_secret :: rx where
  "generic_secret =
     seqs [alts [seqs [lit_ci ''api'', rx_opt (one_of ''_-''), lit_ci ''key''],
                 seqs [lit_ci ''secret'', rx_opt (one_of ''_-''), lit_ci ''key''],
                 seqs [lit_ci ''auth'', rx_opt (one_of ''_-''), lit_ci ''token''], lit_ci ''password''],
           spaces, one_of '':='', spaces, quote_opt, Rep 20 None (alnum_or ''/+=_-''), quote_opt]"

definition email :: rx where
  "email =
     seqs [rx_plus (alnum_or ''._%+-''), lit ''@'', rx_plus (alnum_or ''.-''), lit ''.'', Rep 2 None (Cls is_alpha)]"

definition cpf :: rx where
  "cpf =
     (let dot = rx_opt (Cls (\<lambda>c. c = CHR ''.'' \<or> is_space c));
          dash = rx_opt (Cls (\<lambda>c. c = CHR ''.'' \<or> c = CHR ''-'' \<or> is_space c));
          digits = (\<lambda>n. rx_times n (Cls is_dec))
      in seqs [WordB, digits 3, dot, digits 3, dot, digits 3, dash, digits 2, WordB])"

definition credit_card :: rx where
  "credit_card = seqs [WordB, Rep 13 (Some 19) (Seq (Cls is_dec) (rx_opt (one_of '' -''))), WordB]"

definition github_token :: rx where
  "github_token =
     seqs [alts (map lit [''ghp'', ''gho'', ''ghu'', ''ghs'', ''ghr'']), lit ''_'', Rep 36 None (alnum_or ''_'')]"

definition gitlab_token :: rx where
  "gitlab_token = seqs [lit ''glpat-'', Rep 20 None (alnum_or ''-_'')]"

definition LEAK_PATTERNS :: "(string \<times> rx) list" where
  "LEAK_PATTERNS =
     [(''aws_access_key'', aws_access_key), (''aws_secret_key'', aws_secret_key), (''private_key'', private_key),
      (''generic_secret'', generic_secret), (''email'', email), (''cpf'', cpf), (''credit_card'', credit_card),
      (''github_token'', github_token), (''gitlab_token'', gitlab_token)]"

definition MIN_RESPONSE_LENGTH :: nat where
  "MIN_RESPONSE_LENGTH = 10"

section \<open>The Luhn check\<close>

definition digit_of :: "char \<Rightarrow> nat" where
  "digit_of c = of_char c - 48"

definition luhn_double :: "nat \<Rightarrow> nat" where
  "luhn_double d = (if d * 2 > 9 then d * 2 - 9 else d * 2)"

text \<open>The loop over the digits; \<open>i\<close> is the index and \<open>parity\<close> that of the doubled positions.\<close>

fun luhn_sum :: "nat \<Rightarrow> nat \<Rightarrow> nat list \<Rightarrow> nat" where
  "luhn_sum parity i [] = 0"
| "luhn_sum parity i (d # ds) =
     (if i mod 2 = parity then luhn_double d else d) + luhn_sum parity (i + 1) ds"

definition luhn_digits :: "nat list \<Rightarrow> bool" where
  "luhn_digits digits \<longleftrightarrow>
     13 \<le> length digits \<and> length digits \<le> 19 \<and> luhn_sum (length digits mod 2) 0 digits mod 10 = 0"

definition luhn_valid :: "string \<Rightarrow> bool" where
  "luhn_valid candidate \<longleftrightarrow> luhn_digits (map digit_of (filter is_dec candidate))"

section \<open>The scan\<close>

definition find_leaks :: "string \<Rightarrow> string list" where
  "find_leaks txt =
     concat (map (\<lambda>(name, pattern).
       case search pattern None txt of
         None \<Rightarrow> []
       | Some (pre, m, st) \<Rightarrow> if name = ''credit_card'' \<and> \<not> luhn_valid m then [] else [name]) LEAK_PATTERNS)"

definition output_filter_scan :: "bool \<Rightarrow> string \<Rightarrow> guard_error + unit" where
  "output_filter_scan enabled response =
     (if \<not> enabled \<or> length response < MIN_RESPONSE_LENGTH then Inr ()
      else (let detected = find_leaks response
            in if detected \<noteq> []
               then Inl (GuardrailBlocked ''blocked'' ''OUTPUT'' (map (\<lambda>name. ''leak:'' @ name) detected))
               else Inr ()))"

section \<open>Lemmas\<close>

lemma luhn_double_inj: "d \<le> 9 \<Longrightarrow> e \<le> 9 \<Longrightarrow> luhn_double d = luhn_double e \<Longrightarrow> d = e"
  unfolding luhn_double_def by (simp split: if_splits) presburger+

lemma luhn_double_le: "d \<le> 9 \<Longrightarrow> luhn_double d \<le> 9"
  by (auto simp: luhn_double_def)

lemma luhn_sum_append: "luhn_sum p i (xs @ ys) = luhn_sum p i xs + luhn_sum p (i + length xs) ys"
  by (induction p i xs rule: luhn_sum.induct) simp_all

lemma mod10_eq: "a \<le> 9 \<Longrightarrow> b \<le> 9 \<Longrightarrow> (x + a + y) mod 10 = 0 \<Longrightarrow> (x + b + y) mod 10 = (0::nat) \<Longrightarrow> a = b"
proof -
  assume ab: "a \<le> 9" "b \<le> 9" and "(x + a + y) mod 10 = 0" "(x + b + y) mod 10 = 0"
  then obtain q r where "x + a + y = 10 * q" "x + b + y = 10 * r" by (auto simp: mod_eq_0_iff_dvd dvd_def)
  then have "a + 10 * r = b + 10 * q" by linarith
  with ab show "a = b" by arith
qed

lemma find_leaks_card:
  "''credit_card'' \<in> set (find_leaks txt) \<longleftrightarrow>
     (case search credit_card None txt of None \<Rightarrow> False | Some (pre, m, st) \<Rightarrow> luhn_valid m)"
proof -
  have other: "''credit_card'' \<in> set (case search p None txt of None \<Rightarrow> []
      | Some (pre, m, st) \<Rightarrow> if n = ''credit_card'' \<and> \<not> luhn_valid m then [] else [n]) \<longleftrightarrow> False"
    if "n \<noteq> ''credit_card''" for n p
    using that by (auto split: option.splits)
  show ?thesis
    unfolding find_leaks_def LEAK_PATTERNS_def by (cases "search credit_card None txt") (auto simp: other)
qed

section \<open>What a pattern guard promises\<close>

text \<open>
  The two scanners of a model's response promise more than a guard of texts: what they let through
  holds none of their patterns.
\<close>

locale pattern_guard = text_guard scan "''OUTPUT''" for scan :: "bool \<Rightarrow> string \<Rightarrow> guard_error + 'a" +
  fixes pats :: "rx set"
  assumes passes: "scan True txt = Inr v \<Longrightarrow> MIN_RESPONSE_LENGTH \<le> length txt \<Longrightarrow> p \<in> pats \<Longrightarrow> \<not> found p txt"
    and pats_plain: "p \<in> pats \<Longrightarrow> plain p"
begin

lemma passed_free:
  assumes "scan True txt = Inr v" "MIN_RESPONSE_LENGTH \<le> length txt" "p \<in> pats" "w \<in> lang p"
  shows "\<not> sublist w txt"
  using passes [OF assms(1-3)] search_None_iff [OF pats_plain [OF assms(3)]] assms(4) by (simp add: found_def)

end

lemmas leak_pattern_defs =
  aws_access_key_def aws_secret_key_def private_key_def generic_secret_def email_def github_token_def
  gitlab_token_def quote_opt_def spaces_def spaces1_def rx_opt_def rx_plus_def rx_star_def rx_times_def
  one_of_def alnum_or_def

lemma leak_patterns_plain:
  "list_all plain [aws_access_key, aws_secret_key, private_key, generic_secret, email, github_token, gitlab_token]"
  by (simp add: leak_pattern_defs lit_def lit_ci_def)

lemma find_leaks_Nil:
  assumes "find_leaks txt = []"
    "p \<in> set [aws_access_key, aws_secret_key, private_key, generic_secret, email, github_token, gitlab_token]"
  shows "search p None txt = None"
proof -
  have n: "(case search q None txt of None \<Rightarrow> []
      | Some (pre, m, st) \<Rightarrow> if name = ''credit_card'' \<and> \<not> luhn_valid m then [] else [name]) = []"
    if "(name, q) \<in> set LEAK_PATTERNS" for name q
    using assms(1) that by (fastforce simp: find_leaks_def)
  obtain name where "(name, p) \<in> set LEAK_PATTERNS" "name \<noteq> ''credit_card''"
    using assms(2) by (force simp: LEAK_PATTERNS_def)
  with n show ?thesis by (fastforce split: option.splits)
qed

interpretation leak_filter: pattern_guard output_filter_scan
  "set [aws_access_key, aws_secret_key, private_key, generic_secret, email, github_token, gitlab_token]"
proof unfold_locales
  fix t p v
  assume p: "p \<in> set [aws_access_key, aws_secret_key, private_key, generic_secret, email, github_token, gitlab_token]"
  show "plain p" using p leak_patterns_plain by (auto simp: list_all_iff)
  assume s: "output_filter_scan True t = Inr v" and l: "MIN_RESPONSE_LENGTH \<le> length t"
  have "find_leaks t = []"
    using s l by (simp add: output_filter_scan_def Let_def split: if_splits)
  from find_leaks_Nil [OF this p] show "\<not> found p t" by (simp add: found_def)
qed (auto simp: output_filter_scan_def Let_def split: if_splits)

section \<open>Properties\<close>

text \<open>
  The Luhn check catches every single wrong digit: of two digit sequences that differ in one
  place at most one passes.
\<close>

theorem luhn_detects_one_wrong_digit:
  assumes "luhn_digits (xs @ d # ys)" "d \<le> 9" "e \<le> 9" "d \<noteq> e"
  shows "\<not> luhn_digits (xs @ e # ys)"
proof
  assume e: "luhn_digits (xs @ e # ys)"
  let ?p = "length (xs @ d # ys) mod 2"
  define f where "f = (\<lambda>c. if length xs mod 2 = ?p then luhn_double c else c)"
  have s: "luhn_sum ?p 0 (xs @ c # ys) = luhn_sum ?p 0 xs + f c + luhn_sum ?p (length xs + 1) ys" for c
    by (simp add: luhn_sum_append f_def)
  have "f d \<le> 9" "f e \<le> 9" using assms(2,3) luhn_double_le by (simp_all add: f_def)
  moreover have "luhn_sum ?p 0 (xs @ d # ys) mod 10 = 0" "luhn_sum ?p 0 (xs @ e # ys) mod 10 = 0"
    using assms(1) e unfolding luhn_digits_def length_append list.size by blast+
  ultimately have "f d = f e" unfolding s by (rule mod10_eq)
  with assms(2-4) show False using luhn_double_inj by (auto simp: f_def split: if_splits)
qed

theorem luhn_detects_one_wrong_digit_witness:
  "\<not> luhn_digits ([4, 1, 1, 1, 1, 1, 1, 1, 1, 1, 1, 1, 1, 1, 1] @ 2 # [])"
  by (rule luhn_detects_one_wrong_digit [where d = 1]) (simp_all add: luhn_digits_def luhn_double_def)

text \<open>
  An accepted response carries no secret: no substring of it is an AWS key, a private-key
  header, a secret assignment, an email address or a GitHub or GitLab token, as the patterns
  describe them.
\<close>

theorem accepted_response_has_no_secret:
  assumes "output_filter_scan True response = Inr ()" "MIN_RESPONSE_LENGTH \<le> length response"
    "p \<in> set [aws_access_key, aws_secret_key, private_key, generic_secret, email, github_token, gitlab_token]"
    "w \<in> lang p"
  shows "\<not> sublist w response"
  using assms by (rule leak_filter.passed_free)

theorem accepted_response_has_no_secret_witness:
  "output_filter_scan True ''all 3 pods are up'' = Inr () \<and> \<not> sublist ''a@b.io'' ''all 3 pods are up''"
proof -
  have o: "output_filter_scan True ''all 3 pods are up'' = Inr ()" by code_simp
  have "''a@b.io'' \<in> lang email"
  proof -
    have "matches email (None, ''a@b.io'') = [(Some CHR ''o'', [])]" by code_simp
    moreover have "plain email" using leak_patterns_plain by simp
    ultimately show ?thesis using exactD [OF matches_exact, of email "(Some CHR ''o'', [])" "(None, ''a@b.io'')"] by auto
  qed
  with o show ?thesis
    using accepted_response_has_no_secret [of "''all 3 pods are up''" email "''a@b.io''"]
    by (simp add: MIN_RESPONSE_LENGTH_def)
qed

text \<open>
  The filter looks at the first number of a response only: a valid card number behind another
  long number is let through.
\<close>

lemma card_behind_number_passes:
  "''credit_card'' \<notin> set (find_leaks ''job 1234567890123 card 4111111111111111'') \<and>
   ''credit_card'' \<in> set (find_leaks ''card 4111111111111111'')"
proof -
  have "search credit_card None ''job 1234567890123 card 4111111111111111'' =
      Some (''job '', ''1234567890123 '', Some CHR '' '', ''card 4111111111111111'')" by code_simp
  moreover have "search credit_card None ''card 4111111111111111'' =
      Some (''card '', ''4111111111111111'', Some CHR ''1'', [])" by code_simp
  moreover have "\<not> luhn_valid ''1234567890123 ''" "luhn_valid ''4111111111111111''" by code_simp+
  ultimately show ?thesis by (simp add: find_leaks_card)
qed

end
