(* ===== verification/ResponseQuality.thy ===== *)
theory ResponseQuality
  imports OutputFilter StateStore
begin

text \<open>
  The quality guard, src/src/core/response_quality.py: defects that refuse a response (tool-call
  markup, raw error text, resource identifiers that are not in the data the model was given) and
  the assessment of its dollar amounts.  Metrics, digests and audit records are left out.
\<close>

section \<open>Patterns\<close>

definition tool_scaffolding :: rx where
  "tool_scaffolding =
     seqs [lit ''<'', rx_opt (lit ''/''),
           alts (map lit_ci [''use_mcp_tool'', ''tool_call'', ''function_calls'', ''invoke'']), WordB]"

definition raw_adapter_error :: rx where
  "raw_adapter_error =
     seqs [lit ''['', rx_plus (Cls (\<lambda>c. is_word c \<or> c \<in> set '':.-'')), lit '']'', spaces, lit_ci ''error:'']"

definition raw_traceback :: rx where
  "raw_traceback = lit ''Traceback (most recent call last):''"

definition raw_botocore_exception :: rx where
  "raw_botocore_exception = seqs [lit ''botocore.exceptions.'', rx_plus (Cls is_word)]"

definition raw_boto3_error_string :: rx where
  "raw_boto3_error_string =
     seqs [lit ''An error occurred ('', rx_plus (Cls is_word), Alt (lit ''Exception'') (lit ''Error''),
           lit '') when calling'']"

definition raw_taskgroup_exception :: rx where
  "raw_taskgroup_exception = lit ''unhandled errors in a TaskGroup''"

definition QUALITY_PATTERNS :: "(string \<times> rx) list" where
  "QUALITY_PATTERNS =
     [(''tool_scaffolding'', tool_scaffolding), (''raw_adapter_error'', raw_adapter_error),
      (''raw_traceback'', raw_traceback), (''raw_botocore_exception'', raw_botocore_exception),
      (''raw_boto3_error_string'', raw_boto3_error_string),
      (''raw_taskgroup_exception'', raw_taskgroup_exception)]"

definition hex_ci :: rx where
  "hex_ci = Cls (\<lambda>c. is_dec c \<or> lower_char c \<in> set ''abcdef'')"

definition RESOURCE_ID_PATTERN :: rx where
  "RESOURCE_ID_PATTERN =
     Alt (seqs [WordB,
                alts (map lit_ci [''i'', ''vol'', ''sg'', ''snap'', ''subnet'', ''vpc'', ''ami'', ''eni'', ''nat'',
                                  ''igw'', ''rtb'', ''acl'', ''vpce'']),
                lit ''-'', Rep 8 (Some 17) hex_ci, WordB])
         (seqs [lit_ci ''arn:aws:'', rx_plus (alnum_or ''-''), lit '':'', rx_star (alnum_or ''-''), lit '':'',
                rx_times 12 (Cls is_dec), lit '':'', rx_plus (Cls (\<lambda>c. is_word c \<or> c \<in> set ''-/:.*''))])"

definition NUMERIC_CLAIM_PATTERN :: rx where
  "NUMERIC_CLAIM_PATTERN =
     seqs [lit ''$'', Rep 1 (Some 3) (Cls is_dec), rx_star (Seq (lit '','') (rx_times 3 (Cls is_dec))),
           lit ''.'', rx_times 2 (Cls is_dec), WordB]"

definition MAX_UNVERIFIED_CLAIMS :: nat where
  "MAX_UNVERIFIED_CLAIMS = 20"

section \<open>The guard\<close>

definition find_defects :: "string \<Rightarrow> string list" where
  "find_defects txt = map fst (filter (\<lambda>(name, pattern). found pattern txt) QUALITY_PATTERNS)"

definition find_ungrounded_resource_ids :: "string \<Rightarrow> string \<Rightarrow> string list" where
  "find_ungrounded_resource_ids response infra_data =
     filter (\<lambda>m. \<not> contains (py_lower m) (py_lower infra_data)) (findall RESOURCE_ID_PATTERN response)"

definition check_numeric_groundedness :: "string \<Rightarrow> string \<Rightarrow> string list" where
  "check_numeric_groundedness response infra_data =
     filter (\<lambda>claim. \<not> contains claim infra_data) (findall NUMERIC_CLAIM_PATTERN response)"

text \<open>The loop that keeps the first of equal claims; \<open>kept\<close> is also the set of those seen.\<close>

fun distinct_claims :: "string list \<Rightarrow> string list \<Rightarrow> string list" where
  "distinct_claims kept [] = kept"
| "distinct_claims kept (item # items) =
     (let normalized = py_strip item
      in if normalized \<in> set kept then distinct_claims kept items
         else distinct_claims (kept @ [normalized]) items)"

definition assemble_assessment :: "string list \<Rightarrow> quality_assessment" where
  "assemble_assessment ungrounded_numerics =
     (let claims = distinct_claims [] ungrounded_numerics; n = length claims
      in \<lparr>qa_confidence = (if n = 0 then ''high'' else if n \<le> 2 then ''medium'' else ''low''),
          qa_unverified_claims = take MAX_UNVERIFIED_CLAIMS claims\<rparr>)"

definition quality_scan :: "bool \<Rightarrow> string \<Rightarrow> string \<Rightarrow> guard_error + quality_assessment option" where
  "quality_scan enabled response infra_data =
     (if \<not> enabled \<or> length response < MIN_RESPONSE_LENGTH then Inr None
      else (let detected = find_defects response;
                ungrounded_ids = (if infra_data = [] then [] else find_ungrounded_resource_ids response infra_data)
            in if detected \<noteq> [] \<or> ungrounded_ids \<noteq> []
               then Inl (GuardrailBlocked ''blocked'' ''OUTPUT''
                      (map (\<lambda>name. ''quality:'' @ name) detected @
                       (if ungrounded_ids = [] then [] else [''quality:ungrounded_resource_id''])))
               else if infra_data = [] then Inr None
               else Inr (Some (assemble_assessment (check_numeric_groundedness response infra_data)))))"

section \<open>Lemmas\<close>

lemmas quality_pattern_defs =
  raw_adapter_error_def raw_traceback_def raw_botocore_exception_def raw_boto3_error_string_def
  raw_taskgroup_exception_def spaces_def rx_plus_def rx_star_def

interpretation quality_guard: pattern_guard "\<lambda>on txt. quality_scan on txt infra_data"
  "set [raw_adapter_error, raw_traceback, raw_botocore_exception, raw_boto3_error_string, raw_taskgroup_exception]"
  for infra_data :: string
proof unfold_locales
  fix t p v
  assume p: "p \<in> set [raw_adapter_error, raw_traceback, raw_botocore_exception, raw_boto3_error_string,
    raw_taskgroup_exception]"
  then show "plain p" by (auto simp: quality_pattern_defs lit_def lit_ci_def)
  assume "quality_scan True t infra_data = Inr v" "MIN_RESPONSE_LENGTH \<le> length t"
  then have "find_defects t = []" by (simp add: quality_scan_def Let_def split: if_splits)
  then have f: "\<not> found q t" if "(name, q) \<in> set QUALITY_PATTERNS" for name q
    using that by (auto simp: find_defects_def filter_empty_conv)
  obtain name where "(name, p) \<in> set QUALITY_PATTERNS" using p by (force simp: QUALITY_PATTERNS_def)
  from f [OF this] show "\<not> found p t" .
qed (auto simp: quality_scan_def Let_def split: if_splits)

lemma distinct_claims_spec:
  "distinct kept \<Longrightarrow> distinct (distinct_claims kept items) \<and>
     set (distinct_claims kept items) = set kept \<union> py_strip ` set items"
  by (induction kept items rule: distinct_claims.induct) (auto simp: Let_def)

text \<open>A claim begins with a dollar sign and ends with a digit, so there is nothing to strip.\<close>

lemma rx_pow_Cls: "w \<in> rx_pow {[c] | c. P c} k \<Longrightarrow> list_all P w \<and> length w = k"
  by (induction k arbitrary: w) auto

lemma dec_not_space: "is_dec c \<Longrightarrow> \<not> is_space c"
  by (auto simp: is_dec_def is_space_def Let_def)

lemma dropWhile_is_space_hd: "w \<noteq> [] \<Longrightarrow> \<not> is_space (hd w) \<Longrightarrow> dropWhile is_space w = w"
  by (cases w) auto

lemma py_strip_solid: "w \<noteq> [] \<Longrightarrow> \<not> is_space (hd w) \<Longrightarrow> \<not> is_space (last w) \<Longrightarrow> py_strip w = w"
  by (simp add: py_strip_def dropWhile_is_space_hd hd_rev)

lemma numeric_claim_shape:
  assumes "w \<in> lang NUMERIC_CLAIM_PATTERN"
  shows "w \<noteq> [] \<and> hd w = CHR ''$'' \<and> is_dec (last w)"
proof -
  from assms obtain a b v where w: "w = CHR ''$'' # a @ b @ CHR ''.'' # v" and "v \<in> rx_pow {[c] | c. is_dec c} 2"
    by (auto simp: NUMERIC_CLAIM_PATTERN_def rx_times_def lit_def)
  from rx_pow_Cls [OF this(2)] have "list_all is_dec v" "v \<noteq> []" by auto
  then have "is_dec (last v)" by (auto simp: list_all_iff)
  with w \<open>v \<noteq> []\<close> show ?thesis by simp
qed

lemma numeric_claim_strip: "w \<in> set (findall NUMERIC_CLAIM_PATTERN s) \<Longrightarrow> py_strip w = w"
  using numeric_claim_shape [OF findall_lang] dec_not_space
  by (intro py_strip_solid) (force simp: is_space_def)+

text \<open>The dollar amounts a response states that are nowhere in the data.\<close>

definition unsupported_amounts :: "string \<Rightarrow> string \<Rightarrow> string set" where
  "unsupported_amounts response infra_data =
     {c \<in> set (findall NUMERIC_CLAIM_PATTERN response). \<not> sublist c infra_data}"

lemma assessment_claims:
  "distinct (distinct_claims [] (check_numeric_groundedness response infra_data))"
  "set (distinct_claims [] (check_numeric_groundedness response infra_data)) =
     unsupported_amounts response infra_data"
proof -
  let ?U = "unsupported_amounts response infra_data"
  have s: "set (check_numeric_groundedness response infra_data) = ?U"
    by (auto simp: check_numeric_groundedness_def contains_iff_sublist unsupported_amounts_def)
  have "py_strip c = c" if "c \<in> ?U" for c
    using that numeric_claim_strip [of c response] by (simp add: unsupported_amounts_def)
  then have "py_strip ` ?U = (\<lambda>c. c) ` ?U" by (rule image_cong [OF refl])
  with s distinct_claims_spec [of "[]" "check_numeric_groundedness response infra_data"]
  show "distinct (distinct_claims [] (check_numeric_groundedness response infra_data))"
    "set (distinct_claims [] (check_numeric_groundedness response infra_data)) = ?U" by simp_all
qed

lemma quality_scan_by_parts:
  assumes "MIN_RESPONSE_LENGTH \<le> length r" "d \<noteq> []" "find_defects r = []" "find_ungrounded_resource_ids r d = []"
    "check_numeric_groundedness r d = cs"
  shows "quality_scan True r d = Inr (Some (assemble_assessment cs))"
  using assms by (simp add: quality_scan_def)

section \<open>Properties\<close>

text \<open>
  An accepted response is free of raw error text: no substring of it is an adapter's error
  prefix, a traceback line, a botocore exception, a boto3 error sentence or a task-group error;
  and when the data given to the model is known, every resource identifier found in the response
  occurs in that data, up to case.
\<close>

theorem accepted_response_is_clean:
  assumes "quality_scan True response infra_data = Inr q" "MIN_RESPONSE_LENGTH \<le> length response"
  shows "(\<forall>p \<in> set [raw_adapter_error, raw_traceback, raw_botocore_exception, raw_boto3_error_string,
            raw_taskgroup_exception]. \<forall>w \<in> lang p. \<not> sublist w response) \<and>
    (infra_data \<noteq> [] \<longrightarrow>
       (\<forall>m \<in> set (findall RESOURCE_ID_PATTERN response). sublist (py_lower m) (py_lower infra_data)))"
  using quality_guard.passed_free [OF assms] assms
  by (auto simp: quality_scan_def Let_def find_ungrounded_resource_ids_def contains_iff_sublist filter_empty_conv
      split: if_splits simp del: list.set)

theorem accepted_response_is_clean_witness:
  "quality_scan True ''i-0abc1234 is up'' ''I-0ABC1234 on'' = Inr (Some \<lparr>qa_confidence = ''high'', qa_unverified_claims = []\<rparr>) \<and>
   findall RESOURCE_ID_PATTERN ''i-0abc1234 is up'' = [''i-0abc1234''] \<and>
   sublist (py_lower ''i-0abc1234'') (py_lower ''I-0ABC1234 on'')"
proof -
  let ?r = "''i-0abc1234 is up''" and ?d = "''I-0ABC1234 on''"
  have f: "findall RESOURCE_ID_PATTERN ?r = [''i-0abc1234'']" by code_simp
  have d: "find_defects ?r = []" by code_simp
  have i: "find_ungrounded_resource_ids ?r ?d = []"
    unfolding find_ungrounded_resource_ids_def f by code_simp
  have c: "check_numeric_groundedness ?r ?d = []" by code_simp
  have s: "quality_scan True ?r ?d = Inr (Some (assemble_assessment []))"
    by (rule quality_scan_by_parts [OF _ _ d i c]) (simp_all add: MIN_RESPONSE_LENGTH_def)
  from accepted_response_is_clean [OF s] f show ?thesis
    by (simp add: s MIN_RESPONSE_LENGTH_def assemble_assessment_def Let_def)
qed

text \<open>
  The assessment of an accepted response says what the data supports: the unverified claims are
  distinct dollar amounts of the response that are not in the data, all of them up to twenty, and
  the confidence is high, medium or low as there are none, one or two, or more such amounts.
\<close>

theorem assessment_reports_unsupported_amounts:
  assumes "quality_scan True response infra_data = Inr (Some q)"
  shows "distinct (qa_unverified_claims q) \<and>
    set (qa_unverified_claims q) \<subseteq> unsupported_amounts response infra_data \<and>
    length (qa_unverified_claims q) = min 20 (card (unsupported_amounts response infra_data)) \<and>
    qa_confidence q =
      (if card (unsupported_amounts response infra_data) = 0 then ''high''
       else if card (unsupported_amounts response infra_data) \<le> 2 then ''medium'' else ''low'')"
proof -
  let ?c = "distinct_claims [] (check_numeric_groundedness response infra_data)"
  let ?U = "unsupported_amounts response infra_data"
  have q: "q = assemble_assessment (check_numeric_groundedness response infra_data)"
    using assms by (auto simp: quality_scan_def Let_def split: if_splits)
  have c: "distinct ?c" "set ?c = ?U" by (rule assessment_claims)+
  then have l: "length ?c = card ?U" using distinct_card by force
  then have e: "?c = [] \<longleftrightarrow> card ?U = 0" by (metis length_0_conv)
  have "set (qa_unverified_claims q) \<subseteq> ?U"
    using c(2) set_take_subset by (fastforce simp: q assemble_assessment_def Let_def)
  with c(1) l e show ?thesis by (simp add: q assemble_assessment_def Let_def MAX_UNVERIFIED_CLAIMS_def min.commute)
qed

theorem assessment_reports_unsupported_amounts_witness:
  "\<exists>q. quality_scan True ''EC2 $12.50, RDS $99.10'' ''ec2: $12.50'' = Inr (Some q) \<and>
     distinct (qa_unverified_claims q) \<and> qa_unverified_claims q = [''$99.10''] \<and> qa_confidence q = ''medium''"
proof -
  let ?r = "''EC2 $12.50, RDS $99.10''" and ?d = "''ec2: $12.50''"
  have f: "findall RESOURCE_ID_PATTERN ?r = []" by code_simp
  have n: "findall NUMERIC_CLAIM_PATTERN ?r = [''$12.50'', ''$99.10'']" by code_simp
  have d: "find_defects ?r = []" by code_simp
  have i: "find_ungrounded_resource_ids ?r ?d = []" unfolding find_ungrounded_resource_ids_def f by simp
  have c: "check_numeric_groundedness ?r ?d = [''$99.10'']" unfolding check_numeric_groundedness_def n by code_simp
  have s: "quality_scan True ?r ?d = Inr (Some (assemble_assessment [''$99.10'']))"
    by (rule quality_scan_by_parts [OF _ _ d i c]) (simp_all add: MIN_RESPONSE_LENGTH_def)
  have a: "assemble_assessment [''$99.10''] = \<lparr>qa_confidence = ''medium'', qa_unverified_claims = [''$99.10'']\<rparr>" by code_simp
  from assessment_reports_unsupported_amounts [OF s] s show ?thesis unfolding a by simp
qed

end
