(* ===== verification/InputScanner.thy ===== *)
theory InputScanner
  imports Guardrail
begin

text \<open>
  The input scanner, src/src/core/input_scanner.py, on code points: normalisation (NFKC, removal
  of zero-width and direction characters, folding of look-alike letters) and the cheap checks.
  The Unicode data (NFKC, lower case, word characters) is a parameter; a normaliser may raise.
  Audit records are left out.
\<close>

type_synonym code_points = "nat list"

record unicode =
  nfkc :: "code_points \<Rightarrow> exn + code_points"
  lower_case :: "code_points \<Rightarrow> code_points"
  word_cp :: "nat \<Rightarrow> bool"

definition cps :: "string \<Rightarrow> code_points" where
  "cps t = map of_char t"

section \<open>Normalisation\<close>

definition zero_width :: "nat \<Rightarrow> bool" where
  "zero_width c \<longleftrightarrow>
     c \<in> {0x200B, 0x200C, 0x200D, 0xFEFF, 0x2060, 0x180E, 0x00AD} \<or> 0x202A \<le> c \<and> c \<le> 0x202E \<or>
     0x2066 \<le> c \<and> c \<le> 0x2069"

definition HOMOGLYPH_MAP :: "(nat \<times> nat) list" where
  "HOMOGLYPH_MAP =
     zip [0x0410, 0x0412, 0x0421, 0x0415, 0x041D, 0x041A, 0x041C, 0x041E, 0x0420, 0x0422, 0x0425, 0x0430, 0x0435,
          0x043E, 0x0440, 0x0441, 0x0443, 0x0445, 0x0456, 0x0458] (cps ''ABCEHKMOPTXaeopcyxij'') @
     zip [0x0391, 0x0392, 0x0395, 0x0397, 0x0399, 0x039A, 0x039C, 0x039D, 0x039F, 0x03A1, 0x03A4, 0x03A7, 0x03B1,
          0x03BF, 0x03C1] (cps ''ABEHIKMNOPTXaop'')"

definition fold_homoglyph :: "nat \<Rightarrow> nat" where
  "fold_homoglyph c = (case dict_get HOMOGLYPH_MAP c of Some l \<Rightarrow> l | None \<Rightarrow> c)"

definition scanner_normalize :: "unicode \<Rightarrow> code_points \<Rightarrow> exn + code_points" where
  "scanner_normalize u txt =
     map_sum id (\<lambda>result. map fold_homoglyph (filter (\<lambda>c. \<not> zero_width c) result)) (nfkc u txt)"

section \<open>Checks\<close>

definition control_cp :: "nat \<Rightarrow> bool" where
  "control_cp c \<longleftrightarrow> c \<le> 8 \<or> c = 11 \<or> c = 12 \<or> 14 \<le> c \<and> c \<le> 31 \<or> 127 \<le> c \<and> c \<le> 159"

definition CONTROL_CHAR_MIN_LENGTH :: nat where
  "CONTROL_CHAR_MIN_LENGTH = 20"

definition MAX_INPUT_LENGTH :: nat where
  "MAX_INPUT_LENGTH = 10000"

text \<open>More than 5\% control characters.\<close>

definition too_many_controls :: "code_points \<Rightarrow> bool" where
  "too_many_controls s \<longleftrightarrow>
     CONTROL_CHAR_MIN_LENGTH \<le> length s \<and> 1/20 < (rat_of_nat (length (filter control_cp s)) / rat_of_nat (length s))"

text \<open>Some character other than a line feed, fifty times in a row.\<close>

fun repeated_char :: "code_points \<Rightarrow> bool" where
  "repeated_char [] = False"
| "repeated_char (c # cs) = (c \<noteq> 10 \<and> take 49 cs = replicate 49 c \<or> repeated_char cs)"

definition blob_cp :: "nat \<Rightarrow> bool" where
  "blob_cp c \<longleftrightarrow> 65 \<le> c \<and> c \<le> 90 \<or> 97 \<le> c \<and> c \<le> 122 \<or> 48 \<le> c \<and> c \<le> 57 \<or> c = 43 \<or> c = 47 \<or> c = 61"

text \<open>The maximal runs of base64 characters; those of 200 or more are the blobs.\<close>

fun blob_runs :: "code_points \<Rightarrow> code_points \<Rightarrow> code_points list" where
  "blob_runs acc [] = (if acc = [] then [] else [rev acc])"
| "blob_runs acc (c # cs) =
     (if blob_cp c then blob_runs (c # acc) cs
      else if acc = [] then blob_runs [] cs else rev acc # blob_runs [] cs)"

definition base64_blobs :: "code_points \<Rightarrow> code_points list" where
  "base64_blobs s = filter (\<lambda>b. 200 \<le> length b) (blob_runs [] s)"

section \<open>Decoding\<close>

definition b64_value :: "nat \<Rightarrow> nat option" where
  "b64_value c =
     (if 65 \<le> c \<and> c \<le> 90 then Some (c - 65)
      else if 97 \<le> c \<and> c \<le> 122 then Some (c - 71)
      else if 48 \<le> c \<and> c \<le> 57 then Some (c + 4)
      else if c = 43 then Some 62 else if c = 47 then Some 63 else None)"

fun b64_bytes :: "nat list \<Rightarrow> nat list option" where
  "b64_bytes [] = Some []"
| "b64_bytes [a] = None"
| "b64_bytes [a, b] = Some [a * 4 + b div 16]"
| "b64_bytes [a, b, c] = Some [a * 4 + b div 16, b mod 16 * 16 + c div 4]"
| "b64_bytes (a # b # c # d # r) =
     map_option (\<lambda>bs. (a * 4 + b div 16) # (b mod 16 * 16 + c div 4) # (c mod 4 * 64 + d) # bs) (b64_bytes r)"

text \<open>
  Strict decoding: digits, then at most two padding signs that complete the last group of four.
\<close>

definition b64decode :: "code_points \<Rightarrow> nat list option" where
  "b64decode s =
     (let pads = dropWhile (\<lambda>c. c \<noteq> 61) s; vals = map b64_value (takeWhile (\<lambda>c. c \<noteq> 61) s)
      in if length pads \<le> 2 \<and> pads = replicate (length pads) 61 \<and> length s mod 4 = 0 \<and> None \<notin> set vals
         then b64_bytes (map the vals) else None)"

definition utf8_tail :: "nat \<Rightarrow> bool" where
  "utf8_tail b \<longleftrightarrow> 0x80 \<le> b \<and> b < 0xC0"

definition utf8_scalar :: "nat \<Rightarrow> bool" where
  "utf8_scalar c \<longleftrightarrow> c < 0xD800 \<or> 0xDFFF < c \<and> c \<le> 0x10FFFF"

fun utf8_decode :: "nat list \<Rightarrow> code_points option" where
  "utf8_decode [] = Some []"
| "utf8_decode (b # bs) =
     (if b < 0x80 then map_option (Cons b) (utf8_decode bs)
      else if b < 0xC2 then None
      else if b < 0xE0 then
        (case bs of
           c # r \<Rightarrow> if utf8_tail c then map_option (Cons ((b - 0xC0) * 64 + (c - 0x80))) (utf8_decode r) else None
         | _ \<Rightarrow> None)
      else if b < 0xF0 then
        (case bs of
           c # d # r \<Rightarrow>
             (let cp = (b - 0xE0) * 4096 + (c - 0x80) * 64 + (d - 0x80)
              in if utf8_tail c \<and> utf8_tail d \<and> 0x800 \<le> cp \<and> utf8_scalar cp
                 then map_option (Cons cp) (utf8_decode r) else None)
         | _ \<Rightarrow> None)
      else
        (case bs of
           c # d # e # r \<Rightarrow>
             (let cp = (b - 0xF0) * 262144 + (c - 0x80) * 4096 + (d - 0x80) * 64 + (e - 0x80)
              in if utf8_tail c \<and> utf8_tail d \<and> utf8_tail e \<and> 0x10000 \<le> cp \<and> utf8_scalar cp
                 then map_option (Cons cp) (utf8_decode r) else None)
         | _ \<Rightarrow> None))"

definition try_decode_base64 :: "code_points \<Rightarrow> code_points option" where
  "try_decode_base64 blob =
     Option.bind (b64decode (blob @ replicate ((4 - length blob mod 4) mod 4) 61)) utf8_decode"

section \<open>Injection markers\<close>

definition INJECTION_MARKERS :: "code_points list" where
  "INJECTION_MARKERS =
     map cps [''ignore previous'', ''ignore all'', ''disregard'', ''system prompt'', ''you are now'',
       ''new instructions'', ''override'', ''forget everything'', ''act as'', ''jailbreak'', ''dan'', ''bypass'']"

definition cp_boundary :: "(nat \<Rightarrow> bool) \<Rightarrow> nat option \<Rightarrow> nat option \<Rightarrow> bool" where
  "cp_boundary w a b \<longleftrightarrow> case_option False w a \<noteq> case_option False w b"

definition first_cp :: "code_points \<Rightarrow> nat option" where
  "first_cp s = (case s of [] \<Rightarrow> None | c # _ \<Rightarrow> Some c)"

definition last_cp :: "code_points \<Rightarrow> nat option" where
  "last_cp s = (if s = [] then None else Some (last s))"

text \<open>The marker between two word boundaries, where \<open>p\<close> is the character before the text.\<close>

fun marker_at :: "(nat \<Rightarrow> bool) \<Rightarrow> code_points \<Rightarrow> nat option \<Rightarrow> code_points \<Rightarrow> bool" where
  "marker_at w m p s =
     (prefix m s \<and> cp_boundary w p (first_cp s) \<and> cp_boundary w (last_cp m) (first_cp (drop (length m) s)) \<or>
      (case s of [] \<Rightarrow> False | c # cs \<Rightarrow> marker_at w m (Some c) cs))"

declare marker_at.simps [simp del]

definition scanner_refusal :: "string \<Rightarrow> guard_error" where
  "scanner_refusal cat = GuardrailBlocked ''blocked'' ''INPUT'' [''scanner:'' @ cat]"

fun check_base64_blobs :: "unicode \<Rightarrow> code_points list \<Rightarrow> guard_error + unit" where
  "check_base64_blobs u [] = Inr ()"
| "check_base64_blobs u (blob # blobs) =
     (case try_decode_base64 blob of
        None \<Rightarrow> check_base64_blobs u blobs
      | Some decoded \<Rightarrow>
          (case nfkc u decoded of
             Inl e \<Rightarrow> Inl (GuardrailRaised e)
           | Inr decoded_norm \<Rightarrow>
               if list_ex (\<lambda>marker. marker_at (word_cp u) marker None (lower_case u decoded_norm)) INJECTION_MARKERS
               then Inl (scanner_refusal ''base64_injection'')
               else check_base64_blobs u blobs))"

section \<open>The scan\<close>

definition scan_internal :: "unicode \<Rightarrow> code_points \<Rightarrow> guard_error + code_points" where
  "scan_internal u txt =
     (if MAX_INPUT_LENGTH < length txt then Inl (scanner_refusal ''oversized'')
      else (case scanner_normalize u txt of
              Inl e \<Rightarrow> Inl (GuardrailRaised e)
            | Inr normalized \<Rightarrow>
                if too_many_controls normalized then Inl (scanner_refusal ''control_chars'')
                else if repeated_char normalized then Inl (scanner_refusal ''repeated_chars'')
                else (case check_base64_blobs u (base64_blobs normalized) of
                        Inl e \<Rightarrow> Inl e
                      | Inr _ \<Rightarrow> Inr normalized)))"

definition input_scan :: "unicode \<Rightarrow> bool \<Rightarrow> code_points \<Rightarrow> guard_error + code_points" where
  "input_scan u enabled txt =
     (if \<not> enabled then Inr txt
      else (case scan_internal u txt of
              Inl (GuardrailRaised e) \<Rightarrow> Inl (GuardrailBlocked ''unavailable'' ''INPUT'' [''scanner:internal_error''])
            | r \<Rightarrow> r))"

section \<open>Encoders\<close>

text \<open>What the decoders invert: UTF-8 and padded base64.\<close>

definition utf8_encode1 :: "nat \<Rightarrow> nat list" where
  "utf8_encode1 c =
     (if c < 0x80 then [c]
      else if c < 0x800 then [0xC0 + c div 64, 0x80 + c mod 64]
      else if c < 0x10000 then [0xE0 + c div 4096, 0x80 + c div 64 mod 64, 0x80 + c mod 64]
      else [0xF0 + c div 262144, 0x80 + c div 4096 mod 64, 0x80 + c div 64 mod 64, 0x80 + c mod 64])"

definition utf8_encode :: "code_points \<Rightarrow> nat list" where
  "utf8_encode s = concat (map utf8_encode1 s)"

definition b64_digit :: "nat \<Rightarrow> nat" where
  "b64_digit v =
     (if v < 26 then v + 65 else if v < 52 then v + 71 else if v < 62 then v - 4 else if v = 62 then 43 else 47)"

fun b64_vals :: "nat list \<Rightarrow> nat list" where
  "b64_vals [] = []"
| "b64_vals [x] = [x div 4, x mod 4 * 16]"
| "b64_vals [x, y] = [x div 4, x mod 4 * 16 + y div 16, y mod 16 * 4]"
| "b64_vals (x # y # z # r) =
     x div 4 # (x mod 4 * 16 + y div 16) # (y mod 16 * 4 + z div 64) # z mod 64 # b64_vals r"

definition b64encode :: "nat list \<Rightarrow> code_points" where
  "b64encode bs = map b64_digit (b64_vals bs) @ replicate ((3 - length bs mod 3) mod 3) 61"

lemma utf8_decode_encode1:
  assumes "utf8_scalar c"
  shows "utf8_decode (utf8_encode1 c @ r) = map_option (Cons c) (utf8_decode r)"
proof -
  consider "c < 0x80" | "0x80 \<le> c" "c < 0x800" | "0x800 \<le> c" "c < 0x10000" | "0x10000 \<le> c" by linarith
  then show ?thesis
  proof cases
    case 2
    then have "2 \<le> c div 64" "c div 64 < 32" by (simp_all add: div_le_mono [of 128 c 64, simplified] div_less_iff_less_mult)
    with 2 show ?thesis by (simp add: utf8_encode1_def utf8_tail_def)
  next
    case 3
    have "c div 4096 < 16" using 3 by (simp add: div_less_iff_less_mult)
    moreover have "c div 64 div 64 * 4096 + c div 64 mod 64 * 64 + c mod 64 = c"
      using div_mult_mod_eq [of c 64] div_mult_mod_eq [of "c div 64" 64] by linarith
    then have "c div 4096 * 4096 + c div 64 mod 64 * 64 + c mod 64 = c"
      using div_mult2_eq [of c 64 64] by simp
    ultimately show ?thesis using 3 assms by (simp add: utf8_encode1_def utf8_tail_def)
  next
    case 4
    define p where "p = c div 64"
    define q where "q = p div 64"
    define a where "a = q div 64"
    define x where "x = q mod 64"
    define y where "y = p mod 64"
    define z where "z = c mod 64"
    have d: "c div 4096 = q" "c div 262144 = a"
      using div_mult2_eq [of c 64 64] div_mult2_eq [of c 4096 64] by (simp_all add: p_def q_def a_def)
    have "c \<le> 0x10FFFF" using assms 4 by (auto simp: utf8_scalar_def)
    then have "c div 262144 \<le> 0x10FFFF div 262144" by (rule div_le_mono)
    then have a4: "a \<le> 4" by (simp add: d)
    have s: "x < 64" "y < 64" "z < 64" by (simp_all add: x_def y_def z_def)
    have "c = p * 64 + z" "p = q * 64 + y" "q = a * 64 + x"
      by (simp_all add: p_def q_def a_def x_def y_def z_def)
    then have c: "c = a * 262144 + x * 4096 + y * 64 + z" by simp
    have e: "utf8_encode1 c = [0xF0 + a, 0x80 + x, 0x80 + y, 0x80 + z]"
      using 4 by (simp add: utf8_encode1_def d x_def y_def z_def p_def)
    have t: "(0xF0 + a - 0xF0) * 262144 + (0x80 + x - 0x80) * 4096 + (0x80 + y - 0x80) * 64 + (0x80 + z - 0x80) = c"
      using c by simp
    show ?thesis
      unfolding e append_Cons append_Nil utf8_decode.simps list.case Let_def t
      using 4 assms a4 s by (simp add: utf8_tail_def)
  qed (simp add: utf8_encode1_def)
qed

lemma utf8_encode_ascii: "list_all (\<lambda>c. c < 128) s \<Longrightarrow> utf8_encode s = s"
  by (induction s) (simp_all add: utf8_encode_def utf8_encode1_def)

lemma utf8_roundtrip: "list_all utf8_scalar s \<Longrightarrow> utf8_decode (utf8_encode s) = Some s"
  by (induction s) (simp_all add: utf8_encode_def utf8_decode_encode1)

lemma b64_value_digit: "v < 64 \<Longrightarrow> b64_value (b64_digit v) = Some v"
  by (auto simp: b64_value_def b64_digit_def)

lemma b64_digit_blob: "v < 64 \<Longrightarrow> blob_cp (b64_digit v) \<and> b64_digit v \<noteq> 61"
  by (auto simp: blob_cp_def b64_digit_def)

lemma b64_vals_lt: "list_all (\<lambda>b. b < 256) bs \<Longrightarrow> list_all (\<lambda>v. v < 64) (b64_vals bs)"
  by (induction bs rule: b64_vals.induct) auto

lemma b64_split:
  "(y::nat) < 256 \<Longrightarrow> y div 16 div 16 = 0 \<and> y div 16 mod 16 * 16 + y mod 16 = y"
  "(y::nat) < 256 \<Longrightarrow> y div 64 div 4 = 0 \<and> y div 64 mod 4 * 64 + y mod 64 = y"
  "(y::nat) < 256 \<Longrightarrow> y div 4 * 4 + y mod 4 = y"
proof -
  assume y: "y < 256"
  then have q: "y div 16 < 16" "y div 64 < 4" by (simp_all add: div_less_iff_less_mult)
  show "y div 16 div 16 = 0 \<and> y div 16 mod 16 * 16 + y mod 16 = y" using q by simp
  show "y div 64 div 4 = 0 \<and> y div 64 mod 4 * 64 + y mod 64 = y" using q by simp
qed simp

lemma b64_bytes_vals: "list_all (\<lambda>b. b < 256) bs \<Longrightarrow> b64_bytes (b64_vals bs) = Some bs"
  by (induction bs rule: b64_vals.induct) (auto simp: b64_split)

lemma mod3_suc: "Suc (Suc (Suc n)) mod 3 = n mod 3"
  by presburger

lemma b64_padding: "(length (b64_vals bs) + (3 - length bs mod 3) mod 3) mod 4 = 0"
  by (induction bs rule: b64_vals.induct) (simp_all add: mod3_suc)

text \<open>The decoder recovers what the encoder wrote.\<close>

lemma b64_roundtrip:
  assumes "list_all (\<lambda>b. b < 256) bs"
  shows "b64decode (b64encode bs) = Some bs"
proof -
  let ?v = "b64_vals bs" and ?p = "(3 - length bs mod 3) mod 3 :: nat"
  have v: "\<forall>v \<in> set ?v. v < 64" using b64_vals_lt [OF assms] by (simp add: list_all_iff)
  then have d: "61 \<notin> set (map b64_digit ?v)" using b64_digit_blob by fastforce
  have t: "takeWhile (\<lambda>c. c \<noteq> 61) (b64encode bs) = map b64_digit ?v"
    "dropWhile (\<lambda>c. c \<noteq> 61) (b64encode bs) = replicate ?p 61"
    using d by (auto simp: b64encode_def takeWhile_append dropWhile_append takeWhile_eq_all_conv)
  have m: "map b64_value (map b64_digit ?v) = map Some ?v"
    using v b64_value_digit by auto
  have "None \<notin> set (map b64_value (map b64_digit ?v))" unfolding m by auto
  moreover have "map the (map b64_value (map b64_digit ?v)) = ?v" unfolding m by (simp add: comp_def)
  moreover have "length (b64encode bs) mod 4 = 0" using b64_padding [of bs] by (simp add: b64encode_def)
  ultimately show ?thesis
    using b64_bytes_vals [OF assms] by (simp only: b64decode_def t Let_def) simp
qed

lemma utf8_encode_bytes: "list_all utf8_scalar s \<Longrightarrow> list_all (\<lambda>b. b < 256) (utf8_encode s)"
proof (induction s)
  case (Cons c s)
  then have "c \<le> 0x10FFFF" by (auto simp: utf8_scalar_def)
  then have "list_all (\<lambda>b. b < 256) (utf8_encode1 c)"
    by (auto simp: utf8_encode1_def div_less_iff_less_mult)
  with Cons show ?case by (simp add: utf8_encode_def)
qed (simp add: utf8_encode_def)

lemma try_decode_encoded:
  assumes "list_all utf8_scalar s"
  shows "try_decode_base64 (b64encode (utf8_encode s)) = Some s"
proof -
  let ?b = "b64encode (utf8_encode s)"
  have "length ?b mod 4 = 0" using b64_padding [of "utf8_encode s"] by (simp add: b64encode_def)
  then have "?b @ replicate ((4 - length ?b mod 4) mod 4) 61 = ?b" by simp
  then show ?thesis
    using b64_roundtrip [OF utf8_encode_bytes [OF assms]] utf8_roundtrip [OF assms]
    by (simp add: try_decode_base64_def)
qed

section \<open>Lemmas on the checks\<close>

lemma blob_runs_run: "list_all blob_cp b \<Longrightarrow> blob_runs acc (b @ s) = blob_runs (rev b @ acc) s"
  by (induction b arbitrary: acc) simp_all

lemma blob_runs_prefix:
  assumes "b = [] \<or> \<not> blob_cp (last b)"
  shows "\<exists>rs. blob_runs acc (b @ s) = rs @ blob_runs (if b = [] then acc else []) s"
  using assms
proof (induction b arbitrary: acc)
  case (Cons c b)
  show ?case
  proof (cases "b = []")
    case True
    with Cons.prems show ?thesis by (auto intro: exI [of _ "[rev acc]"])
  next
    case False
    with Cons show ?thesis
      using Cons.IH [of "c # acc"] Cons.IH [of "[]"] by (auto split: if_splits) (metis append_Cons)
  qed
qed simp

lemma encoded_run_is_blob:
  assumes "list_all blob_cp b" "b \<noteq> []" "pre = [] \<or> \<not> blob_cp (last pre)" "post = [] \<or> \<not> blob_cp (hd post)"
  shows "b \<in> set (blob_runs [] (pre @ b @ post))"
proof -
  obtain rs where "blob_runs [] (pre @ b @ post) = rs @ blob_runs [] (b @ post)"
    using blob_runs_prefix [OF assms(3), of "[]" "b @ post"] by auto
  moreover have "b \<in> set (blob_runs [] (b @ post))"
    using assms(2,4) blob_runs_run [OF assms(1), of "[]" post] by (cases post) auto
  ultimately show ?thesis by simp
qed

lemma check_blobs_refuses:
  assumes "b \<in> set bs" "try_decode_base64 b = Some d" "nfkc u d = Inr n"
    "m \<in> set INJECTION_MARKERS" "marker_at (word_cp u) m None (lower_case u n)"
  shows "isl (check_base64_blobs u bs)"
  using assms(1)
proof (induction bs)
  case (Cons c bs)
  show ?case
  proof (cases "b = c")
    case True
    with assms show ?thesis by (auto simp: list_ex_iff)
  next
    case False
    with Cons show ?thesis by (auto split: option.splits sum.splits)
  qed
qed simp

lemma marker_at_iff:
  "marker_at w m p s \<longleftrightarrow>
     (\<exists>a b. s = a @ m @ b \<and> cp_boundary w (if a = [] then p else last_cp a) (first_cp (m @ b)) \<and>
        cp_boundary w (last_cp m) (first_cp b))"
proof (induction s arbitrary: p)
  case Nil
  show ?case by (subst marker_at.simps) auto
next
  case (Cons c s)
  show ?case (is "_ \<longleftrightarrow> ?R")
  proof
    assume "marker_at w m p (c # s)"
    then consider "prefix m (c # s)" "cp_boundary w p (first_cp (c # s))"
        "cp_boundary w (last_cp m) (first_cp (drop (length m) (c # s)))"
      | "marker_at w m (Some c) s"
      by (subst (asm) marker_at.simps) auto
    then show ?R
    proof cases
      case 1
      then obtain b where "c # s = m @ b" by (auto simp: prefix_def)
      with 1 show ?thesis by (intro exI [of _ "[]"] exI [of _ b]) simp
    next
      case 2
      then obtain a b where "s = a @ m @ b"
        "cp_boundary w (if a = [] then Some c else last_cp a) (first_cp (m @ b))" "cp_boundary w (last_cp m) (first_cp b)"
        unfolding Cons.IH by blast
      then show ?thesis by (intro exI [of _ "c # a"] exI [of _ b]) (auto simp: last_cp_def split: if_splits)
    qed
  next
    assume ?R
    then obtain a b where ab: "c # s = a @ m @ b"
      "cp_boundary w (if a = [] then p else last_cp a) (first_cp (m @ b))" "cp_boundary w (last_cp m) (first_cp b)" by blast
    show "marker_at w m p (c # s)"
    proof (cases a)
      case Nil
      with ab show ?thesis by (subst marker_at.simps) auto
    next
      case (Cons x a')
      with ab have "marker_at w m (Some c) s"
        unfolding Cons.IH by (intro exI [of _ a'] exI [of _ b]) (auto simp: last_cp_def)
      then show ?thesis by (subst marker_at.simps) simp
    qed
  qed
qed

lemma homoglyph_ascii:
  assumes "c < 128"
  shows "\<not> zero_width c" "dict_get HOMOGLYPH_MAP c = None" "fold_homoglyph c = c"
proof -
  have "list_all (\<lambda>(k, v). 0x391 \<le> k) HOMOGLYPH_MAP" by (simp add: HOMOGLYPH_MAP_def cps_def)
  with assms show d: "dict_get HOMOGLYPH_MAP c = None"
    by (fastforce simp: dict_get_map_of map_of_eq_None_iff list_all_iff)
  then show "fold_homoglyph c = c" by (simp add: fold_homoglyph_def)
  show "\<not> zero_width c" using assms by (auto simp: zero_width_def)
qed

lemma fold_homoglyph_clean:
  assumes "\<not> zero_width c"
  shows "\<not> zero_width (fold_homoglyph c) \<and> dict_get HOMOGLYPH_MAP (fold_homoglyph c) = None"
proof (cases "dict_get HOMOGLYPH_MAP c")
  case (Some v)
  have "list_all (\<lambda>(k, v). v < 128) HOMOGLYPH_MAP" by (simp add: HOMOGLYPH_MAP_def cps_def)
  moreover have "(c, v) \<in> set HOMOGLYPH_MAP" using Some by (simp add: dict_get_map_of map_of_SomeD)
  ultimately have "v < 128" by (auto simp: list_all_iff)
  with homoglyph_ascii Some show ?thesis by (simp add: fold_homoglyph_def)
qed (use assms in \<open>simp add: fold_homoglyph_def\<close>)

lemma scanner_normalize_ascii:
  assumes "nfkc u txt = Inr txt" "list_all (\<lambda>c. c < 128) txt"
  shows "scanner_normalize u txt = Inr txt"
proof -
  have "filter (\<lambda>c. \<not> zero_width c) txt = txt" using assms(2) homoglyph_ascii(1) by (auto simp: filter_id_conv list_all_iff)
  moreover have "map fold_homoglyph txt = txt" using assms(2) homoglyph_ascii(3) by (auto simp: list_all_iff intro: map_idI)
  ultimately show ?thesis using assms(1) by (simp add: scanner_normalize_def)
qed

lemma repeated_char_short: "length s < 50 \<Longrightarrow> \<not> repeated_char s"
proof (induction s)
  case (Cons c s)
  then have "length (take 49 s) < 49" by simp
  then have "take 49 s \<noteq> replicate 49 c" by (metis length_replicate less_irrefl)
  with Cons show ?case by simp
qed simp

lemma repeated_char_iff: "repeated_char s \<longleftrightarrow> (\<exists>c. c \<noteq> 10 \<and> sublist (replicate 50 c) s)"
proof (induction s)
  case (Cons d s)
  have r: "replicate 50 c = c # replicate 49 c" for c :: nat by (simp add: numeral_eq_Suc)
  have "take 49 s = replicate 49 d \<longleftrightarrow> prefix (replicate 49 d) s"
    by (metis length_replicate prefix_def append_eq_conv_conj append_take_drop_id)
  then have "(\<exists>c. c \<noteq> 10 \<and> prefix (replicate 50 c) (d # s)) \<longleftrightarrow> d \<noteq> 10 \<and> take 49 s = replicate 49 d"
    unfolding r by auto
  with Cons show ?case by (auto simp: sublist_Cons_right)
qed (simp add: numeral_eq_Suc)

lemma check_blobs_error:
  "check_base64_blobs u bs = Inl e \<Longrightarrow> e = scanner_refusal ''base64_injection'' \<or> (\<exists>x. e = GuardrailRaised x)"
  by (induction bs) (auto split: option.splits sum.splits if_splits)

interpretation input_guard: text_guard "input_scan u" "''INPUT''" for u :: unicode
proof unfold_locales
  fix t show "\<not> isl (input_scan u False t)" by (simp add: input_scan_def)
next
  fix enabled t e assume "input_scan u enabled t = Inl e"
  then show "\<exists>why cats. cats \<noteq> [] \<and> e = GuardrailBlocked why ''INPUT'' cats"
    using check_blobs_error
    by (fastforce simp: input_scan_def scan_internal_def scanner_refusal_def
        split: sum.splits guard_error.splits if_splits)
qed

section \<open>Properties\<close>

text \<open>
  What the scanner hands on is canonical: no zero-width, direction or look-alike character, no
  character but the line feed fifty times in a row, at most one control character in twenty; and
  the scanner fails closed, whatever the normaliser does: it never lets an error escape as
  anything but a refusal.
\<close>

theorem scanned_text_is_canonical:
  "case input_scan u True txt of
     Inr r \<Rightarrow> (\<forall>c. c \<in> set r \<longrightarrow> \<not> zero_width c \<and> dict_get HOMOGLYPH_MAP c = None) \<and>
       (\<forall>c. c \<noteq> 10 \<longrightarrow> \<not> sublist (replicate 50 c) r) \<and>
       (length r < 20 \<or> length (filter control_cp r) * 20 \<le> length r) \<and> length txt \<le> 10000
   | Inl e \<Rightarrow> (\<exists>why cats. e = GuardrailBlocked why ''INPUT'' cats)"
proof (cases "input_scan u True txt")
  case (Inl e)
  then show ?thesis using input_guard.refusal [OF Inl] by auto
next
  case (Inr r)
  then obtain n where n: "nfkc u txt = Inr n" "r = map fold_homoglyph (filter (\<lambda>c. \<not> zero_width c) n)"
    and c: "length txt \<le> 10000" "\<not> too_many_controls r" "\<not> repeated_char r"
    by (cases "nfkc u txt") (auto simp: input_scan_def scan_internal_def scanner_normalize_def MAX_INPUT_LENGTH_def
        split: sum.splits guard_error.splits if_splits)
  have "length r < 20 \<or> length (filter control_cp r) * 20 \<le> length r"
  proof (rule disjCI)
    assume l: "\<not> length (filter control_cp r) * 20 \<le> length r"
    show "length r < 20"
    proof (rule ccontr)
      assume g: "\<not> length r < 20"
      then have "r \<noteq> []" by auto
      then have p: "0 < rat_of_nat (length r)" by simp
      have "rat_of_nat (length r) < rat_of_nat (length (filter control_cp r) * 20)"
        using l by (simp only: of_nat_less_iff)
      then have "1/20 < rat_of_nat (length (filter control_cp r)) / rat_of_nat (length r)"
        using p by (simp add: field_simps)
      with g c(2) show False by (simp add: too_many_controls_def CONTROL_CHAR_MIN_LENGTH_def)
    qed
  qed
  moreover have "\<not> zero_width c \<and> dict_get HOMOGLYPH_MAP c = None" if "c \<in> set r" for c
    using that n(2) fold_homoglyph_clean by auto
  ultimately show ?thesis using Inr c repeated_char_iff by auto
qed

text \<open>A normaliser that leaves every text alone, as NFKC does on ASCII text.\<close>

definition ascii_unicode :: unicode where
  "ascii_unicode =
     \<lparr>nfkc = Inr, lower_case = map (\<lambda>c. if 65 \<le> c \<and> c \<le> 90 then c + 32 else c),
      word_cp = (\<lambda>c. 48 \<le> c \<and> c \<le> 57 \<or> 65 \<le> c \<and> c \<le> 90 \<or> c = 95 \<or> 97 \<le> c \<and> c \<le> 122)\<rparr>"

theorem scanned_text_is_canonical_witness:
  "input_scan ascii_unicode True [0x200B, 0x0430, 0x62] = Inr [0x61, 0x62] \<and>
   \<not> sublist (replicate 50 (7::nat)) [0x61, 0x62]"
proof -
  have "input_scan ascii_unicode True [0x200B, 0x0430, 0x62] = Inr [0x61, 0x62]"
    by (simp add: input_scan_def scan_internal_def scanner_normalize_def ascii_unicode_def MAX_INPUT_LENGTH_def
        zero_width_def fold_homoglyph_def HOMOGLYPH_MAP_def cps_def too_many_controls_def CONTROL_CHAR_MIN_LENGTH_def
        base64_blobs_def blob_cp_def repeated_char_short del: repeated_char.simps)
  with scanned_text_is_canonical [of "[0x200B, 0x0430, 0x62]" ascii_unicode] show ?thesis by simp
qed

text \<open>
  C14: hiding an instruction in base64 does not pass: when the normalised input holds, as a run of
  base64 characters of its own, the encoding of a text of at least 200 characters' length in which
  (after NFKC and lower case) an injection marker stands between word boundaries, the input is
  refused.
\<close>

theorem encoded_injection_is_refused:
  assumes "scanner_normalize u txt = Inr (pre @ b64encode (utf8_encode payload) @ post)"
    "list_all utf8_scalar payload" "200 \<le> length (b64encode (utf8_encode payload))"
    "pre = [] \<or> \<not> blob_cp (last pre)" "post = [] \<or> \<not> blob_cp (hd post)"
    "nfkc u payload = Inr n" "lower_case u n = a @ m @ b" "m \<in> set INJECTION_MARKERS"
    "cp_boundary (word_cp u) (last_cp a) (first_cp (m @ b))" "cp_boundary (word_cp u) (last_cp m) (first_cp b)"
  shows "\<exists>why cats. input_scan u True txt = Inl (GuardrailBlocked why ''INPUT'' cats)"
proof -
  let ?e = "b64encode (utf8_encode payload)" and ?s = "pre @ b64encode (utf8_encode payload) @ post"
  have "list_all blob_cp ?e"
    using b64_vals_lt [OF utf8_encode_bytes [OF assms(2)]] b64_digit_blob
    by (auto simp: b64encode_def list_all_iff blob_cp_def)
  moreover have "?e \<noteq> []" using assms(3) by auto
  ultimately have "?e \<in> set (base64_blobs ?s)"
    using encoded_run_is_blob [OF _ _ assms(4,5)] assms(3) by (simp add: base64_blobs_def)
  moreover have "marker_at (word_cp u) m None (lower_case u n)"
    unfolding marker_at_iff assms(7)
    by (rule exI [of _ a], rule exI [of _ b]) (use assms(9,10) in \<open>auto simp: last_cp_def\<close>)
  ultimately have "isl (check_base64_blobs u (base64_blobs ?s))"
    using check_blobs_refuses [OF _ try_decode_encoded [OF assms(2)] assms(6,8)] by blast
  then obtain e where "check_base64_blobs u (base64_blobs ?s) = Inl e" by (auto simp: isl_def)
  then have "isl (input_scan u True txt)"
    using assms(1) by (auto simp: input_scan_def scan_internal_def split: guard_error.splits)
  then show ?thesis using input_guard.refusal by (fastforce simp: isl_def)
qed

theorem encoded_injection_is_refused_witness:
  "\<exists>why cats. input_scan ascii_unicode True (b64encode (utf8_encode (cps ''Ignore all'' @ 32 # replicate 199 32))) =
     Inl (GuardrailBlocked why ''INPUT'' cats)"
proof -
  let ?p = "cps ''Ignore all'' @ 32 # replicate 199 32"
  let ?e = "b64encode (utf8_encode ?p)"
  have p: "list_all (\<lambda>c. c < 128) ?p" by (simp add: cps_def list_all_iff)
  then have u: "list_all utf8_scalar ?p" by (auto simp: list_all_iff utf8_scalar_def)
  have l: "length bs \<le> length (b64_vals bs)" for bs by (induction bs rule: b64_vals.induct) simp_all
  have "list_all (\<lambda>v. v < 64) (b64_vals (utf8_encode ?p))" by (rule b64_vals_lt [OF utf8_encode_bytes [OF u]])
  then have "list_all (\<lambda>c. c < 128) ?e" by (auto simp: b64encode_def b64_digit_def list_all_iff)
  then have n: "scanner_normalize ascii_unicode ?e = Inr ([] @ ?e @ [])"
    using scanner_normalize_ascii [of ascii_unicode ?e] by (simp add: ascii_unicode_def)
  have "200 \<le> length (utf8_encode ?p)" unfolding utf8_encode_ascii [OF p] by (simp add: cps_def)
  then have e: "200 \<le> length ?e" using l [of "utf8_encode ?p"] by (simp add: b64encode_def)
  have lc: "lower_case ascii_unicode ?p = [] @ cps ''ignore all'' @ 32 # replicate 199 32"
    by (simp add: ascii_unicode_def cps_def)
  have m: "cps ''ignore all'' \<in> set INJECTION_MARKERS" by (simp add: INJECTION_MARKERS_def)
  have "cp_boundary (word_cp ascii_unicode) (last_cp []) (first_cp (cps ''ignore all'' @ 32 # replicate 199 32))"
    "cp_boundary (word_cp ascii_unicode) (last_cp (cps ''ignore all'')) (first_cp (32 # replicate 199 32))"
    by (simp_all add: ascii_unicode_def cp_boundary_def last_cp_def first_cp_def cps_def)
  then show ?thesis
    by (intro encoded_injection_is_refused [OF n u e _ _ _ lc m]) (simp_all add: ascii_unicode_def)
qed

text \<open>
  Only NFKC and lower case are applied to a decoded blob, so an encoded instruction written with a
  look-alike letter passes; and removing a zero-width character after NFKC can leave a text that
  NFKC would still change.
\<close>

lemma encoded_homoglyph_passes:
  fixes u :: unicode
  defines "payload \<equiv> cps ''ign'' @ 0x043E # cps ''re all''"
  assumes "nfkc u payload = Inr payload" "lower_case u payload = payload"
  shows "check_base64_blobs u [b64encode (utf8_encode payload)] = Inr ()"
proof -
  have "list_all utf8_scalar payload" by (simp add: payload_def cps_def utf8_scalar_def)
  moreover have "\<not> marker_at (word_cp u) m None payload" if "m \<in> set INJECTION_MARKERS" for m
  proof
    assume "marker_at (word_cp u) m None payload"
    then have "contains m payload" by (auto simp: marker_at_iff contains_append)
    moreover have "list_all (\<lambda>m. \<not> contains m payload) INJECTION_MARKERS"
      by (simp add: INJECTION_MARKERS_def payload_def cps_def)
    ultimately show False using that by (auto simp: list_all_iff)
  qed
  ultimately show ?thesis using try_decode_encoded assms(2,3) by (auto simp: list_ex_iff)
qed

lemma scanned_text_not_nfkc:
  assumes "nfkc u [0x65, 0x200B, 0x0301] = Inr [0x65, 0x200B, 0x0301]" "nfkc u [0x65, 0x0301] = Inr [0xE9]"
  shows "input_scan u True [0x65, 0x200B, 0x0301] = Inr [0x65, 0x0301] \<and> nfkc u [0x65, 0x0301] \<noteq> Inr [0x65, 0x0301]"
  using assms
  by (simp add: input_scan_def scan_internal_def scanner_normalize_def MAX_INPUT_LENGTH_def
        zero_width_def fold_homoglyph_def HOMOGLYPH_MAP_def cps_def too_many_controls_def CONTROL_CHAR_MIN_LENGTH_def
        base64_blobs_def blob_cp_def repeated_char_short del: repeated_char.simps)

end
