(* ===== verification/Rca.thy ===== *)
theory Rca
  imports Json StateStore
begin

text \<open>
  The evidence model of src/src/core/investigation.py: evidence and results of a root-cause
  analysis, the timeline, the two confidence scores, and the count of independent signals by
  union-find.  A Python list of mutable evidence objects is a list of records; the timeline
  builder marks the objects it sorts, so it returns the marked pool as well.  Texts compare by
  character code.
\<close>

section \<open>Evidence and results\<close>

record evidence =
  ev_source_agent :: string
  ev_signal_type :: string
  ev_timestamp :: string
  ev_strength :: string
  ev_summary :: string
  ev_is_causal_candidate :: bool
  ev_signal_id :: string
  ev_signal_subtype :: string
  ev_causal_layer :: string
  ev_fault_domain :: string
  ev_timestamp_precision :: string
  ev_raw_query :: string
  ev_derivation_source :: "string option"
  ev_is_recurring :: bool
  ev_first_occurrence :: "string option"
  ev_contradicts_hypothesis :: bool
  ev_contradiction_explained :: bool
  ev_trace_id :: "string option"
  ev_id :: string

text \<open>Evidence as the callers build it: the five required fields, the defaults for the rest.\<close>

definition new_evidence :: "string \<Rightarrow> string \<Rightarrow> string \<Rightarrow> string \<Rightarrow> string \<Rightarrow> evidence" where
  "new_evidence source_agent signal_type timestamp strength summary =
     \<lparr>ev_source_agent = source_agent, ev_signal_type = signal_type, ev_timestamp = timestamp,
      ev_strength = strength, ev_summary = summary, ev_is_causal_candidate = False, ev_signal_id = [],
      ev_signal_subtype = [], ev_causal_layer = [], ev_fault_domain = [], ev_timestamp_precision = [],
      ev_raw_query = [], ev_derivation_source = None, ev_is_recurring = False, ev_first_occurrence = None,
      ev_contradicts_hypothesis = False, ev_contradiction_explained = False, ev_trace_id = None, ev_id = []\<rparr>"

record rca_result =
  rca_hypothesis :: json
  rca_confidence :: string
  rca_evidence :: "evidence list"
  rca_timeline :: "evidence list"
  rca_contradicting :: "evidence list"
  rca_prevention :: json
  rca_confidence_level :: string
  rca_confidence_track :: string
  rca_independent_signal_count :: nat
  rca_temporal_violations :: "string list"

definition json_opt :: "string option \<Rightarrow> json" where
  "json_opt v = (case v of None \<Rightarrow> JNull | Some t \<Rightarrow> JStr t)"

definition evidence_dict :: "evidence \<Rightarrow> json" where
  "evidence_dict e =
     JObj [(''source_agent'', JStr (ev_source_agent e)), (''signal_type'', JStr (ev_signal_type e)),
           (''timestamp'', JStr (ev_timestamp e)), (''strength'', JStr (ev_strength e)),
           (''summary'', JStr (ev_summary e)), (''is_causal_candidate'', JBool (ev_is_causal_candidate e)),
           (''signal_id'', JStr (ev_signal_id e)), (''signal_subtype'', JStr (ev_signal_subtype e)),
           (''causal_layer'', JStr (ev_causal_layer e)), (''fault_domain'', JStr (ev_fault_domain e)),
           (''timestamp_precision'', JStr (ev_timestamp_precision e)), (''raw_query'', JStr (ev_raw_query e)),
           (''derivation_source'', json_opt (ev_derivation_source e)), (''is_recurring'', JBool (ev_is_recurring e)),
           (''first_occurrence'', json_opt (ev_first_occurrence e)),
           (''contradicts_hypothesis'', JBool (ev_contradicts_hypothesis e)),
           (''contradiction_explained'', JBool (ev_contradiction_explained e)),
           (''trace_id'', json_opt (ev_trace_id e)), (''id'', JStr (ev_id e))]"

definition rca_to_dict :: "rca_result \<Rightarrow> json" where
  "rca_to_dict r =
     JObj [(''hypothesis'', rca_hypothesis r), (''confidence'', JStr (rca_confidence r)),
           (''evidence'', JList (map evidence_dict (rca_evidence r))),
           (''timeline'', JList (map evidence_dict (rca_timeline r))),
           (''contradicting'', JList (map evidence_dict (rca_contradicting r))),
           (''prevention'', rca_prevention r), (''confidence_level'', JStr (rca_confidence_level r)),
           (''confidence_track'', JStr (rca_confidence_track r)),
           (''independent_signal_count'', JInt (int (rca_independent_signal_count r))),
           (''temporal_violations'', JList (map JStr (rca_temporal_violations r)))]"

section \<open>Timeline and the first confidence rule\<close>

definition CAUSAL_KEYWORDS :: "string list" where
  "CAUSAL_KEYWORDS =
     [''deploy'', ''release'', ''config change'', ''restart'', ''rollout'', ''merge'', ''upgrade'']"

definition mark_causal :: "evidence \<Rightarrow> evidence" where
  "mark_causal e =
     (if ev_timestamp e \<noteq> [] \<and> list_ex (\<lambda>kw. contains kw (py_lower (ev_summary e))) CAUSAL_KEYWORDS
      then e\<lparr>ev_is_causal_candidate := True\<rparr> else e)"

text \<open>The timeline, and the pool after the marking.\<close>

definition build_timeline :: "evidence list \<Rightarrow> evidence list \<times> evidence list" where
  "build_timeline evidence_list =
     (let pool = map mark_causal evidence_list
      in (sort_key ev_timestamp (filter (\<lambda>e. ev_timestamp e \<noteq> []) pool), pool))"

definition correlate :: "evidence list \<Rightarrow> evidence list \<Rightarrow> string" where
  "correlate evidence_list contradicting =
     (let n = card (set (map (\<lambda>e. (ev_source_agent e, ev_signal_type e)) evidence_list));
          has_contradicting = (contradicting \<noteq> [])
      in if n \<ge> 3 \<and> \<not> has_contradicting then ''alta''
         else if n \<ge> 3 \<and> has_contradicting then ''media''
         else if n = 2 then (if has_contradicting then ''baixa'' else ''media'')
         else ''baixa'')"

section \<open>Independent signals\<close>

definition DERIVATION_PAIRS :: "(string \<times> string) list" where
  "DERIVATION_PAIRS =
     [(''OOMKill'', ''pod_restart''), (''error_rate_spike'', ''error_log''), (''error_rate_spike'', ''error_trace''),
      (''error_log'', ''error_trace''), (''latency_spike'', ''slow_trace''), (''memory_growth'', ''OOMKill''),
      (''node_NotReady'', ''pod_eviction''), (''node_MemoryPressure'', ''OOMKill''), (''cpu_throttle'', ''latency_spike'')]"

definition linked_to :: "string option \<Rightarrow> string \<Rightarrow> bool" where
  "linked_to src i \<longleftrightarrow> (case src of Some (c # t) \<Rightarrow> c # t = i | _ \<Rightarrow> False)"

definition are_derived :: "evidence \<Rightarrow> evidence \<Rightarrow> bool" where
  "are_derived a b \<longleftrightarrow>
     linked_to (ev_derivation_source b) (ev_id a) \<or> linked_to (ev_derivation_source a) (ev_id b) \<or>
     (ev_trace_id a = ev_trace_id b \<and> (case ev_trace_id a of Some (c # t) \<Rightarrow> True | _ \<Rightarrow> False)) \<or>
     (((ev_signal_subtype a, ev_signal_subtype b) \<in> set DERIVATION_PAIRS \<or>
       (ev_signal_subtype b, ev_signal_subtype a) \<in> set DERIVATION_PAIRS) \<and>
      (ev_fault_domain a = [] \<or> ev_fault_domain b = [] \<or> ev_fault_domain a = ev_fault_domain b))"

text \<open>The condition under which the loop of \<open>count_independent\<close> unites two signals.\<close>

definition not_independent :: "evidence \<Rightarrow> evidence \<Rightarrow> bool" where
  "not_independent a b \<longleftrightarrow>
     are_derived a b \<or>
     (ev_causal_layer a \<noteq> [] \<and> ev_causal_layer b \<noteq> [] \<and> ev_causal_layer a = ev_causal_layer b \<and>
      ev_fault_domain a \<noteq> [] \<and> ev_fault_domain b \<noteq> [] \<and> ev_fault_domain a = ev_fault_domain b)"

text \<open>
  \<open>find\<close> with path halving; the loop has no bound of its own, so the function is partial and
  the result carries the updated parent list.
\<close>

partial_function (option) uf_find :: "nat list \<Rightarrow> nat \<Rightarrow> (nat \<times> nat list) option" where
  "uf_find p x =
     (if p ! x = x then Some (x, p)
      else (let p' = p[x := p ! (p ! x)] in uf_find p' (p' ! x)))"

declare uf_find.simps [code]

definition uf_union :: "nat list \<Rightarrow> nat \<Rightarrow> nat \<Rightarrow> nat list option" where
  "uf_union p x y =
     (case uf_find p x of None \<Rightarrow> None
      | Some (rx, p1) \<Rightarrow>
          (case uf_find p1 y of None \<Rightarrow> None
           | Some (ry, p2) \<Rightarrow> Some (if rx \<noteq> ry then p2[rx := ry] else p2)))"

fun unite_pairs :: "evidence list \<Rightarrow> (nat \<times> nat) list \<Rightarrow> nat list \<Rightarrow> nat list option" where
  "unite_pairs evs [] p = Some p"
| "unite_pairs evs ((i, j) # ps) p =
     (if not_independent (evs ! i) (evs ! j)
      then (case uf_union p i j of None \<Rightarrow> None | Some p' \<Rightarrow> unite_pairs evs ps p')
      else unite_pairs evs ps p)"

fun find_roots :: "nat list \<Rightarrow> nat list \<Rightarrow> nat list option" where
  "find_roots p [] = Some []"
| "find_roots p (i # is) =
     (case uf_find p i of None \<Rightarrow> None
      | Some (r, p') \<Rightarrow> (case find_roots p' is of None \<Rightarrow> None | Some rs \<Rightarrow> Some (r # rs)))"

definition index_pairs :: "nat \<Rightarrow> (nat \<times> nat) list" where
  "index_pairs n = concat (map (\<lambda>i. map (Pair i) [i + 1..<n]) [0..<n])"

definition count_independent :: "evidence list \<Rightarrow> nat option" where
  "count_independent evidences =
     (if evidences = [] then Some 0
      else (let n = length evidences
            in case unite_pairs evidences (index_pairs n) [0..<n] of None \<Rightarrow> None
               | Some p \<Rightarrow> (case find_roots p [0..<n] of None \<Rightarrow> None | Some rs \<Rightarrow> Some (card (set rs)))))"

section \<open>Temporal order\<close>

definition earliest_ts :: "evidence list \<Rightarrow> string \<Rightarrow> string option" where
  "earliest_ts evidences layer =
     (let ts = map ev_timestamp (filter (\<lambda>e. ev_causal_layer e = layer \<and> ev_timestamp e \<noteq> []) evidences)
      in if ts = [] then None else Some (Min (set ts)))"

definition violation_text :: "string \<Rightarrow> string \<Rightarrow> string \<Rightarrow> string \<Rightarrow> string" where
  "violation_text x tx y ty =
     ''Temporal violation: earliest '' @ x @ '' ('' @ tx @ '') is AFTER earliest '' @ y @ '' ('' @ ty @ '')''"

definition order_violation :: "string \<Rightarrow> string option \<Rightarrow> string \<Rightarrow> string option \<Rightarrow> string list" where
  "order_violation x ex y ey =
     (case (ex, ey) of
        (Some tx, Some ty) \<Rightarrow> (if tx > ty then [violation_text x tx y ty] else [])
      | _ \<Rightarrow> [])"

definition validate_temporal_order :: "evidence list \<Rightarrow> string list" where
  "validate_temporal_order evidences =
     (let change_earliest = earliest_ts evidences ''change'';
          mechanism_earliest = earliest_ts evidences ''mechanism'';
          impact_earliest = earliest_ts evidences ''impact''
      in order_violation ''CHANGE'' change_earliest ''MECHANISM'' mechanism_earliest @
         order_violation ''MECHANISM'' mechanism_earliest ''IMPACT'' impact_earliest @
         order_violation ''CHANGE'' change_earliest ''IMPACT'' impact_earliest)"

section \<open>The evidence-model score\<close>

definition has_layer :: "string \<Rightarrow> evidence list \<Rightarrow> bool" where
  "has_layer l evidences \<longleftrightarrow> list_ex (\<lambda>e. ev_causal_layer e = l) evidences"

definition score_confidence :: "evidence list \<Rightarrow> (string \<times> string) option" where
  "score_confidence evidences =
     (if evidences = [] then Some (''LOW'', ''INSUFFICIENT'')
      else (let has_change = has_layer ''change'' evidences;
                mechanism_count = length (filter (\<lambda>e. ev_causal_layer e = ''mechanism'') evidences);
                has_impact = has_layer ''impact'' evidences;
                unexplained = length (filter (\<lambda>e. ev_contradicts_hypothesis e \<and> \<not> ev_contradiction_explained e) evidences)
            in if validate_temporal_order evidences \<noteq> [] then Some (''LOW'', ''INSUFFICIENT'')
               else if unexplained > 0 then Some (''LOW'', ''INSUFFICIENT'')
               else (case count_independent evidences of
                       None \<Rightarrow> None
                     | Some indep \<Rightarrow>
                         if has_change \<and> mechanism_count \<ge> 1 \<and> has_impact then
                           Some (if indep \<ge> 3 then (''HIGH'', ''A'') else (''MEDIUM'', ''A''))
                         else if \<not> has_change \<and> mechanism_count \<ge> 2 \<and> has_impact then Some (''HIGH'', ''B'')
                         else if has_change \<and> has_impact \<and> has_layer ''temporal'' evidences then Some (''HIGH'', ''A'')
                         else if length (filter (\<lambda>l. has_layer l evidences) [''change'', ''mechanism'', ''impact'']) \<ge> 2
                         then Some (''MEDIUM'', if has_change then ''A'' else ''B'')
                         else Some (''LOW'', ''INSUFFICIENT''))))"

section \<open>Lemmas: union-find\<close>

text \<open>\<open>rep p k x r\<close>: from \<open>x\<close>, \<open>k\<close> parent steps lead to the root \<open>r\<close>.\<close>

inductive rep :: "nat list \<Rightarrow> nat \<Rightarrow> nat \<Rightarrow> nat \<Rightarrow> bool" for p where
  root: "p ! x = x \<Longrightarrow> rep p 0 x x"
| step: "p ! x \<noteq> x \<Longrightarrow> rep p k (p ! x) r \<Longrightarrow> rep p (Suc k) x r"

lemma rep_at_root: "p ! x = x \<Longrightarrow> rep p k x r \<longleftrightarrow> k = 0 \<and> r = x"
  by (blast elim: rep.cases intro: rep.root)

lemma rep_below: "p ! x \<noteq> x \<Longrightarrow> rep p k x r \<longleftrightarrow> (\<exists>j. k = Suc j \<and> rep p j (p ! x) r)"
  by (blast elim: rep.cases intro: rep.step)

definition uf_inv :: "nat list \<Rightarrow> bool" where
  "uf_inv p \<longleftrightarrow> (\<forall>i < length p. p ! i < length p \<and> (\<exists>r k. rep p k i r))"

lemma rep_unique: "rep p k x r \<Longrightarrow> rep p k' x r' \<Longrightarrow> k = k' \<and> r = r'"
proof (induction arbitrary: k' r' rule: rep.induct)
  case (root x)
  then show ?case by (simp only: rep_at_root)
next
  case (step x k r)
  from step.prems step.hyps(1) obtain j where "k' = Suc j" "rep p j (p ! x) r'" using rep_below by blast
  with step.IH show ?case by blast
qed

lemma rep_root: "rep p k x r \<Longrightarrow> p ! r = r"
  by (induction rule: rep.induct) auto

lemma rep_in: "rep p k x r \<Longrightarrow> uf_inv p \<Longrightarrow> x < length p \<Longrightarrow> r < length p"
  by (induction rule: rep.induct) (auto simp: uf_inv_def)

lemma rep_no_cycle:
  assumes "rep p k x r" "p ! x \<noteq> x"
  shows "p ! (p ! x) \<noteq> x"
proof
  assume c: "p ! (p ! x) = x"
  from assms obtain j where j: "k = Suc j" "rep p j (p ! x) r" by (auto simp: rep_below)
  from j(2) c assms(2) obtain i where "j = Suc i" "rep p i x r" by (auto simp: rep_below [of p "p ! x"])
  with rep_unique [OF assms(1)] j(1) show False by fastforce
qed

definition root_of :: "nat list \<Rightarrow> nat \<Rightarrow> nat \<Rightarrow> bool" where
  "root_of p x r \<longleftrightarrow> (\<exists>k. rep p k x r)"

lemma root_ofI: "rep p k x r \<Longrightarrow> root_of p x r"
  by (auto simp: root_of_def)

lemma root_of_unique: "root_of p x r \<Longrightarrow> root_of p x r' \<Longrightarrow> r = r'"
  using rep_unique by (auto simp: root_of_def)

lemma uf_inv_root: "uf_inv p \<Longrightarrow> x < length p \<Longrightarrow> \<exists>r. root_of p x r \<and> r < length p \<and> p ! r = r"
  using rep_in rep_root unfolding uf_inv_def root_of_def by meson

lemma root_of_root [simp]: "p ! x = x \<Longrightarrow> root_of p x r \<longleftrightarrow> r = x"
  by (auto simp: root_of_def rep_at_root)

lemma root_of_step: "p ! x \<noteq> x \<Longrightarrow> root_of p x r \<longleftrightarrow> root_of p (p ! x) r"
  by (auto simp: root_of_def rep_below)

lemma halve_rep:
  assumes "rep p kx x rx" "p ! x \<noteq> x" "x < length p"
  shows "rep p k y r \<Longrightarrow> \<exists>k' \<le> k. rep (p[x := p ! (p ! x)]) k' y r"
proof (induction rule: rep.induct)
  case (root y)
  with assms(2) have "p[x := p ! (p ! x)] ! y = y" by (metis nth_list_update_neq)
  then show ?case by (auto intro: rep.root)
next
  case (step y k r)
  let ?p = "p[x := p ! (p ! x)]"
  from step.IH obtain k' where k': "k' \<le> k" "rep ?p k' (p ! y) r" by blast
  show ?case
  proof (cases "y = x")
    case False
    then have "rep ?p (Suc k') y r" using step.hyps(1) k'(2) by (simp add: rep.step)
    with k'(1) show ?thesis by auto
  next
    case True
    have nc: "p ! (p ! x) \<noteq> x" by (rule rep_no_cycle [OF assms(1,2)])
    have px: "?p ! x = p ! (p ! x)" "?p ! (p ! x) = p ! (p ! x)" using assms(2,3) by simp_all
    show ?thesis
    proof (cases "p ! (p ! x) = p ! x")
      case p: True
      then have "rep ?p (Suc k') x r" using k'(2) True px nc by (auto intro: rep.step)
      with k'(1) True show ?thesis by auto
    next
      case False
      with k'(2) True px obtain j where j: "k' = Suc j" "rep ?p j (p ! (p ! x)) r"
        by (auto simp: rep_below [of ?p "p ! x"])
      then have "rep ?p (Suc j) x r" using px nc by (auto intro: rep.step)
      with k'(1) j(1) True show ?thesis by (intro exI [of _ "Suc j"]) simp
    qed
  qed
qed

lemma halve_keeps:
  assumes "uf_inv p" "x < length p" "p ! x \<noteq> x"
  defines "p' \<equiv> p[x := p ! (p ! x)]"
  shows "uf_inv p'" and "y < length p \<Longrightarrow> root_of p' y r \<longleftrightarrow> root_of p y r"
proof -
  obtain kx rx where x: "rep p kx x rx" using assms unfolding uf_inv_def by meson
  have fwd: "root_of p y r \<Longrightarrow> root_of p' y r" for y r
    using halve_rep [OF x assms(3,2)] unfolding root_of_def p'_def by meson
  show "uf_inv p'"
    unfolding uf_inv_def
  proof (intro allI impI conjI)
    fix i assume i: "i < length p'"
    then show "p' ! i < length p'" using assms(1,2) unfolding p'_def uf_inv_def by (auto simp: nth_list_update)
    from i uf_inv_root [OF assms(1)] obtain r where "root_of p i r" unfolding p'_def by auto
    with fwd show "\<exists>r k. rep p' k i r" unfolding root_of_def by meson
  qed
  show "root_of p' y r \<longleftrightarrow> root_of p y r" if "y < length p"
    using fwd uf_inv_root [OF assms(1) that] root_of_unique by metis
qed

lemma uf_find_total:
  assumes "rep p k x r" "uf_inv p" "x < length p"
  shows "\<exists>p'. uf_find p x = Some (r, p') \<and> uf_inv p' \<and> length p' = length p \<and>
    (\<forall>y < length p. \<forall>s. root_of p' y s \<longleftrightarrow> root_of p y s)"
  using assms
proof (induction k arbitrary: p x rule: less_induct)
  case (less k)
  show ?case
  proof (cases "p ! x = x")
    case True
    with less.prems(1) have "r = x" by (simp add: rep_at_root)
    with True less.prems show ?thesis by (subst uf_find.simps) simp
  next
    case False
    let ?p = "p[x := p ! (p ! x)]"
    note h = halve_keeps [OF less.prems(2,3) False]
    have b: "p ! x < length p" "p ! (p ! x) < length p" using less.prems(2,3) by (auto simp: uf_inv_def)
    have px: "?p ! x = p ! (p ! x)" using less.prems(3) by simp
    from less.prems(1) False obtain k1 where k1: "k = Suc k1" "rep p k1 (p ! x) r" by (auto simp: rep_below)
    obtain k2 where k2: "k2 \<le> k1" "rep p k2 (p ! (p ! x)) r"
    proof (cases "p ! (p ! x) = p ! x")
      case True
      with k1(2) that show ?thesis by auto
    next
      case False
      with k1(2) obtain i where "k1 = Suc i" "rep p i (p ! (p ! x)) r" by (auto simp: rep_below)
      with that [of i] show ?thesis by simp
    qed
    obtain j where j: "j \<le> k2" "rep ?p j (?p ! x) r"
      using halve_rep [OF less.prems(1) False less.prems(3) k2(2)] px by auto
    have "j < k" using j(1) k2(1) k1(1) by simp
    from less.IH [OF this j(2) h(1)] b px
    obtain p' where p': "uf_find ?p (?p ! x) = Some (r, p')" "uf_inv p'" "length p' = length p"
      "\<forall>y < length p. \<forall>s. root_of p' y s \<longleftrightarrow> root_of ?p y s" by auto
    have "uf_find p x = uf_find ?p (?p ! x)" using False by (subst uf_find.simps) (simp add: Let_def)
    with p' h(2) show ?thesis by auto
  qed
qed

lemma uf_find_ok:
  assumes "uf_inv p" "x < length p"
  obtains r p' where "uf_find p x = Some (r, p')" "root_of p x r" "r < length p" "p ! r = r"
    "uf_inv p'" "length p' = length p" "\<And>y s. y < length p \<Longrightarrow> root_of p' y s \<longleftrightarrow> root_of p y s"
proof -
  obtain r where r: "root_of p x r" "r < length p" "p ! r = r" using uf_inv_root [OF assms] by blast
  then obtain k where "rep p k x r" unfolding root_of_def by blast
  from uf_find_total [OF this assms] that r show ?thesis by blast
qed

lemma link_root_of:
  assumes "p ! rx = rx" "p ! ry = ry" "rx \<noteq> ry" "rx < length p"
  shows "root_of p y r \<Longrightarrow> root_of (p[rx := ry]) y (if r = rx then ry else r)"
proof -
  assume "root_of p y r"
  then obtain k where "rep p k y r" unfolding root_of_def by blast
  then show ?thesis
  proof (induction rule: rep.induct)
    case (root y)
    with assms show ?case
      by (cases "y = rx") (simp_all add: root_of_step [of "p[rx := ry]" rx])
  next
    case (step y k r)
    have "y \<noteq> rx" using step.hyps(1) assms(1) by auto
    with step show ?case using root_of_step [of "p[rx := ry]" y] by simp
  qed
qed

lemma link_keeps:
  assumes "uf_inv p" "p ! rx = rx" "p ! ry = ry" "rx \<noteq> ry" "rx < length p" "ry < length p"
  shows "uf_inv (p[rx := ry])"
    and "y < length p \<Longrightarrow> root_of p y r \<Longrightarrow> root_of (p[rx := ry]) y s \<longleftrightarrow> s = (if r = rx then ry else r)"
proof -
  note l = link_root_of [OF assms(2-5)]
  show "uf_inv (p[rx := ry])"
    unfolding uf_inv_def
  proof (intro allI impI conjI)
    fix i assume i: "i < length (p[rx := ry])"
    with assms(1,6) show "p[rx := ry] ! i < length (p[rx := ry])"
      unfolding uf_inv_def by (cases "i = rx") simp_all
    from i uf_inv_root [OF assms(1)] obtain r where "root_of p i r" by auto
    from l [OF this] show "\<exists>r k. rep (p[rx := ry]) k i r" unfolding root_of_def by meson
  qed
  show "y < length p \<Longrightarrow> root_of p y r \<Longrightarrow> root_of (p[rx := ry]) y s \<longleftrightarrow> s = (if r = rx then ry else r)"
    by (rule iffI, erule root_of_unique, erule l, erule ssubst, erule l)
qed

text \<open>The partition a parent list stands for.\<close>

definition same_set :: "nat list \<Rightarrow> (nat \<times> nat) set" where
  "same_set p = {(x, y). x < length p \<and> y < length p \<and> (\<exists>r. root_of p x r \<and> root_of p y r)}"

definition merge :: "('a \<times> 'a) set \<Rightarrow> 'a \<Rightarrow> 'a \<Rightarrow> ('a \<times> 'a) set" where
  "merge R x y = R \<union> R `` {x} \<times> R `` {y} \<union> R `` {y} \<times> R `` {x}"

lemma equiv_same_set: "uf_inv p \<Longrightarrow> equiv {..<length p} (same_set p)"
  using uf_inv_root root_of_unique
  by (intro equivI refl_onI symI transI) (auto simp: same_set_def, meson, metis)

lemma uf_union_ok:
  assumes "uf_inv p" "x < length p" "y < length p"
  shows "\<exists>p'. uf_union p x y = Some p' \<and> uf_inv p' \<and> length p' = length p \<and> same_set p' = merge (same_set p) x y"
proof -
  obtain rx p1 where 1: "uf_find p x = Some (rx, p1)" "root_of p x rx" "rx < length p" "p ! rx = rx"
    "uf_inv p1" "length p1 = length p" "\<And>y s. y < length p \<Longrightarrow> root_of p1 y s \<longleftrightarrow> root_of p y s"
    using uf_find_ok [OF assms(1,2)] by blast
  have "y < length p1" using assms(3) 1(6) by simp
  then obtain ry p2 where 2: "uf_find p1 y = Some (ry, p2)" "root_of p1 y ry" "ry < length p1"
    "p1 ! ry = ry" "uf_inv p2" "length p2 = length p1" "\<And>y s. y < length p1 \<Longrightarrow> root_of p2 y s \<longleftrightarrow> root_of p1 y s"
    using uf_find_ok [OF 1(5)] by blast
  have same: "root_of p2 z s \<longleftrightarrow> root_of p z s" if "z < length p" for z s
    using 1(6,7) 2(7) that by simp
  have x: "root_of p2 x rx" and y: "root_of p2 y ry" using same 1(2,6) 2(2,7) assms by auto
  have r: "p2 ! rx = rx" "p2 ! ry = ry"
    using x y rep_root unfolding root_of_def by blast+
  show ?thesis
  proof (cases "rx = ry")
    case True
    have "same_set p2 = same_set p" using same 1(6) 2(6) by (auto simp: same_set_def)
    moreover have "merge (same_set p) x y = same_set p"
    proof -
      have "(x, y) \<in> same_set p" using assms(2,3) x y True same by (auto simp: same_set_def)
      then have "same_set p `` {y} = same_set p `` {x}"
        using equiv_class_eq [OF equiv_same_set [OF assms(1)]] by blast
      then show ?thesis using equiv_same_set [OF assms(1)]
        unfolding merge_def by (auto elim!: equivE) (meson symD transD)+
    qed
    ultimately show ?thesis using 1 2 True by (simp add: uf_union_def)
  next
    case False
    let ?p = "p2[rx := ry]"
    have l: "uf_inv ?p" "\<And>z r s. z < length p2 \<Longrightarrow> root_of p2 z r \<Longrightarrow> root_of ?p z s \<longleftrightarrow> s = (if r = rx then ry else r)"
      using link_keeps [OF 2(5) r False] 1(3,6) 2(3,6) by auto
    have len: "length p2 = length p" using 1(6) 2(6) by simp
    have in_set: "(a, b) \<in> same_set ?p \<longleftrightarrow> (a, b) \<in> merge (same_set p) x y" if ab: "a < length p" "b < length p" for a b
    proof -
      obtain ra where ra: "root_of p a ra" using uf_inv_root [OF assms(1) ab(1)] by blast
      obtain rb where rb: "root_of p b rb" using uf_inv_root [OF assms(1) ab(2)] by blast
      have u: "root_of p z s \<longleftrightarrow> s = t" if "root_of p z t" for z s t using that root_of_unique by blast
      have px: "root_of p x s \<longleftrightarrow> s = rx" "root_of p y s \<longleftrightarrow> s = ry" for s
        using x y same assms u by blast+
      have "(a, b) \<in> same_set ?p \<longleftrightarrow> (if ra = rx then ry else ra) = (if rb = rx then ry else rb)"
        using ab len l(2) ra rb same by (auto simp: same_set_def)
      also have "\<dots> \<longleftrightarrow> ra = rb \<or> (ra = rx \<and> rb = ry) \<or> (ra = ry \<and> rb = rx)" by auto
      also have "\<dots> \<longleftrightarrow> (a, b) \<in> merge (same_set p) x y"
        using ab assms u [OF ra] u [OF rb] px by (auto simp: merge_def same_set_def)
      finally show ?thesis .
    qed
    have "same_set ?p = merge (same_set p) x y"
    proof (rule set_eqI)
      fix ab show "ab \<in> same_set ?p \<longleftrightarrow> ab \<in> merge (same_set p) x y"
      proof (cases "fst ab < length p \<and> snd ab < length p")
        case True
        then show ?thesis using in_set [of "fst ab" "snd ab"] by simp
      next
        case False
        then show ?thesis using len by (auto simp: same_set_def merge_def)
      qed
    qed
    then show ?thesis using 1 2 l(1) False len by (simp add: uf_union_def)
  qed
qed

lemma find_roots_ok:
  assumes "uf_inv p" "list_all (\<lambda>i. i < length p) is"
  shows "\<exists>rs. find_roots p is = Some rs \<and> list_all2 (root_of p) is rs"
  using assms
proof (induction "is" arbitrary: p)
  case (Cons i "is")
  then have "i < length p" by simp
  then obtain r p' where p': "uf_find p i = Some (r, p')" "root_of p i r" "uf_inv p'" "length p' = length p"
    "\<And>y s. y < length p \<Longrightarrow> root_of p' y s \<longleftrightarrow> root_of p y s"
    using uf_find_ok [OF Cons.prems(1)] by metis
  from Cons.IH [OF p'(3)] Cons.prems(2) p'(4)
  obtain rs where rs: "find_roots p' is = Some rs" "list_all2 (root_of p') is rs" by auto
  have "list_all2 (root_of p) is rs"
    unfolding list_all2_conv_all_nth
  proof (intro conjI allI impI)
    show "length is = length rs" using rs(2) by (rule list_all2_lengthD)
    fix k assume k: "k < length is"
    then have "is ! k < length p" using Cons.prems(2) by (simp add: list_all_iff)
    with k rs(2) p'(5) show "root_of p (is ! k) (rs ! k)" by (auto simp: list_all2_conv_all_nth)
  qed
  with p' rs show ?case by simp
qed simp

lemma card_roots:
  assumes "uf_inv p" "list_all2 (root_of p) [0..<length p] rs"
  shows "card (set rs) = card ({..<length p} // same_set p)"
proof -
  let ?cls = "\<lambda>r. {x. x < length p \<and> root_of p x r}"
  have rs: "set rs = {r. \<exists>x < length p. root_of p x r}"
  proof (rule set_eqI, rule iffI)
    fix r assume "r \<in> set rs"
    then show "r \<in> {r. \<exists>x < length p. root_of p x r}"
      using assms(2) by (force simp: list_all2_conv_all_nth in_set_conv_nth)
  next
    fix r assume "r \<in> {r. \<exists>x < length p. root_of p x r}"
    then obtain x where "x < length p" "root_of p x r" by blast
    moreover from this assms(2) have "root_of p x (rs ! x)" "x < length rs" by (auto simp: list_all2_conv_all_nth)
    ultimately show "r \<in> set rs" using root_of_unique nth_mem by metis
  qed
  have "{..<length p} // same_set p = ?cls ` set rs"
  proof (rule set_eqI, rule iffI)
    fix A assume "A \<in> {..<length p} // same_set p"
    then obtain x where x: "x < length p" "A = same_set p `` {x}" by (auto elim: quotientE)
    obtain r where r: "root_of p x r" using uf_inv_root [OF assms(1) x(1)] by blast
    then have "A = ?cls r" using x root_of_unique [of p x] by (auto simp: same_set_def)
    with r x(1) rs show "A \<in> ?cls ` set rs" by blast
  next
    fix A assume "A \<in> ?cls ` set rs"
    then obtain r x where r: "A = ?cls r" "x < length p" "root_of p x r" using rs by blast
    then have "A = same_set p `` {x}" using root_of_unique [of p x] by (auto simp: same_set_def)
    with r(2) show "A \<in> {..<length p} // same_set p" by (auto intro: quotientI)
  qed
  moreover have "inj_on ?cls (set rs)"
  proof (rule inj_onI)
    fix r s assume "r \<in> set rs" "s \<in> set rs" and e: "?cls r = ?cls s"
    then obtain x where "x < length p" "root_of p x r" using rs by blast
    with e have "root_of p x s" by blast
    with \<open>root_of p x r\<close> show "r = s" by (rule root_of_unique)
  qed
  ultimately show ?thesis by (simp add: card_image)
qed

section \<open>Reference: classes of the closure\<close>

text \<open>The least equivalence on the positions that contains the dependent pairs.\<close>

definition dependent_pairs :: "evidence list \<Rightarrow> (nat \<times> nat) set" where
  "dependent_pairs evs =
     {(i, j). i < length evs \<and> j < length evs \<and> i < j \<and> not_independent (evs ! i) (evs ! j)}"

definition same_signal :: "evidence list \<Rightarrow> (nat \<times> nat) set" where
  "same_signal evs = Restr ((dependent_pairs evs \<union> (dependent_pairs evs)\<inverse>)\<^sup>*) {..<length evs}"

lemma merge_closure:
  assumes "R = Restr ((E \<union> E\<inverse>)\<^sup>*) A" "x \<in> A" "y \<in> A" "E \<subseteq> A \<times> A"
  shows "merge R x y = Restr ((insert (x, y) E \<union> (insert (x, y) E)\<inverse>)\<^sup>*) A"
proof -
  let ?S = "E \<union> E\<inverse>" and ?T = "insert (x, y) E \<union> (insert (x, y) E)\<inverse>"
  have sym: "sym (?S\<^sup>*)" by (rule sym_rtrancl) (auto simp: sym_def)
  have mono: "?S\<^sup>* \<subseteq> ?T\<^sup>*" by (rule rtrancl_mono) blast
  have xy: "(x, y) \<in> ?T\<^sup>*" "(y, x) \<in> ?T\<^sup>*" by blast+
  have "merge R x y \<subseteq> Restr (?T\<^sup>*) A"
    unfolding merge_def assms(1) using mono xy symD [OF sym]
    by (auto, (meson rtrancl_trans subsetD)+)
  moreover have "(a, b) \<in> merge R x y" if "(a, b) \<in> ?T\<^sup>*" "a \<in> A" for a b
    using that
  proof (induction rule: rtrancl_induct)
    case base
    then show ?case using assms(1) by (auto simp: merge_def)
  next
    case (step b c)
    then have b: "(a, b) \<in> merge R x y" by blast
    have cA: "c \<in> A" and bA: "b \<in> A" using step.hyps(2) assms(2-4) by auto
    consider "(b, c) \<in> ?S" | "b = x" "c = y" | "b = y" "c = x" using step.hyps(2) by auto
    then show ?case
    proof cases
      case 1
      then show ?thesis using b cA bA unfolding merge_def assms(1)
        by (auto intro: rtrancl_into_rtrancl)
    next
      case 2
      then show ?thesis using b assms(2,3) step.prems unfolding merge_def assms(1) using symD [OF sym] by auto
    next
      case 3
      then show ?thesis using b assms(2,3) step.prems unfolding merge_def assms(1) using symD [OF sym] by auto
    qed
  qed
  moreover have "merge R x y \<subseteq> A \<times> A" using assms(1) by (auto simp: merge_def)
  ultimately show ?thesis by auto
qed

lemma unite_pairs_ok:
  assumes "uf_inv p" "length p = length evs" "same_set p = Restr ((E \<union> E\<inverse>)\<^sup>*) {..<length evs}"
    "E \<subseteq> {..<length evs} \<times> {..<length evs}" "list_all (\<lambda>(i, j). i < length evs \<and> j < length evs) ps"
  shows "\<exists>p'. unite_pairs evs ps p = Some p' \<and> uf_inv p' \<and> length p' = length evs \<and>
    same_set p' = (let F = E \<union> {(i, j) \<in> set ps. not_independent (evs ! i) (evs ! j)}
                   in Restr ((F \<union> F\<inverse>)\<^sup>*) {..<length evs})"
  using assms
proof (induction evs ps p arbitrary: E rule: unite_pairs.induct)
  case (1 evs p)
  then show ?case by simp
next
  case (2 evs i j ps p)
  then have ij: "i < length evs" "j < length evs" by auto
  show ?case
  proof (cases "not_independent (evs ! i) (evs ! j)")
    case False
    have "{(a, b) \<in> set ((i, j) # ps). not_independent (evs ! a) (evs ! b)} =
        {(a, b) \<in> set ps. not_independent (evs ! a) (evs ! b)}" using False by auto
    moreover have "list_all (\<lambda>(i, j). i < length evs \<and> j < length evs) ps" using "2.prems"(5) by simp
    ultimately show ?thesis using "2.IH"(2) [OF False "2.prems"(1-4)] False by simp
  next
    case True
    obtain p' where p': "uf_union p i j = Some p'" "uf_inv p'" "length p' = length p"
      "same_set p' = merge (same_set p) i j"
      using uf_union_ok [OF "2.prems"(1), of i j] ij "2.prems"(2) by auto
    have m: "same_set p' = Restr ((insert (i, j) E \<union> (insert (i, j) E)\<inverse>)\<^sup>*) {..<length evs}"
      unfolding p'(4) by (rule merge_closure [OF "2.prems"(3)]) (use ij "2.prems"(4) in auto)
    have "E \<union> {(a, b) \<in> set ((i, j) # ps). not_independent (evs ! a) (evs ! b)} =
        insert (i, j) E \<union> {(a, b) \<in> set ps. not_independent (evs ! a) (evs ! b)}" using True by auto
    moreover have "length p' = length evs" "insert (i, j) E \<subseteq> {..<length evs} \<times> {..<length evs}"
      "list_all (\<lambda>(i, j). i < length evs \<and> j < length evs) ps"
      using p'(3) "2.prems"(2,4,5) ij by auto
    ultimately show ?thesis using "2.IH"(1) [OF True p'(1,2) _ m] True p'(1) by simp
  qed
qed

lemma uf_inv_init: "uf_inv [0..<n]"
  unfolding uf_inv_def
proof (intro allI impI conjI)
  fix i assume "i < length [0..<n]"
  then have "[0..<n] ! i = i" by simp
  then show "[0..<n] ! i < length [0..<n]" "\<exists>r k. rep [0..<n] k i r"
    using \<open>i < length [0..<n]\<close> rep.root [of "[0..<n]" i] by (simp, blast)
qed

lemma same_set_init: "same_set [0..<n] = Restr (({} \<union> {}\<inverse>)\<^sup>*) {..<n}"
  by (auto simp: same_set_def)

lemma set_index_pairs: "set (index_pairs n) = {(i, j). i < j \<and> j < n}"
proof (rule set_eqI)
  fix ab show "ab \<in> set (index_pairs n) \<longleftrightarrow> ab \<in> {(i, j). i < j \<and> j < n}"
  proof (cases ab)
    case (Pair a b)
    have "(a, b) \<in> set (index_pairs n) \<longleftrightarrow> (\<exists>i < n. a = i \<and> i < b \<and> b < n)"
      unfolding index_pairs_def by (auto simp: image_iff)
    then show ?thesis using Pair by auto
  qed
qed

lemma count_independent_classes:
  "count_independent evs = Some (card ({..<length evs} // same_signal evs))"
proof (cases "evs = []")
  case False
  let ?n = "length evs"
  have "list_all (\<lambda>(i, j). i < ?n \<and> j < ?n) (index_pairs ?n)" by (auto simp: list_all_iff set_index_pairs)
  from unite_pairs_ok [OF uf_inv_init _ same_set_init _ this, unfolded length_upt]
  obtain p where p: "unite_pairs evs (index_pairs ?n) [0..<?n] = Some p" "uf_inv p" "length p = ?n"
    "same_set p = (let F = {} \<union> {(i, j) \<in> set (index_pairs ?n). not_independent (evs ! i) (evs ! j)}
                   in Restr ((F \<union> F\<inverse>)\<^sup>*) {..<?n})"
    by auto
  have "{} \<union> {(i, j) \<in> set (index_pairs ?n). not_independent (evs ! i) (evs ! j)} = dependent_pairs evs"
    by (auto simp: set_index_pairs dependent_pairs_def)
  with p(4) have ss: "same_set p = same_signal evs" by (simp add: same_signal_def Let_def)
  have "list_all (\<lambda>i. i < length p) [0..<?n]" using p(3) by (simp add: list_all_iff)
  from find_roots_ok [OF p(2) this] p(3)
  obtain rs where "find_roots p [0..<?n] = Some rs" "list_all2 (root_of p) [0..<length p] rs" by auto
  with card_roots [OF p(2) this(2)] p ss False show ?thesis by (simp add: count_independent_def Let_def)
qed (simp add: count_independent_def)

section \<open>Lemmas: scores\<close>

lemma order_violation_Nil:
  "order_violation x ex y ey = [] \<longleftrightarrow> (case (ex, ey) of (Some tx, Some ty) \<Rightarrow> tx \<le> ty | _ \<Rightarrow> True)"
  by (auto simp: order_violation_def not_less split: option.splits)

text \<open>The earliest timestamp of a layer, if it has one, is that of one of its signals and below the others.\<close>

lemma earliest_ts_Some:
  "earliest_ts evs l = Some t \<longleftrightarrow>
     (\<exists>e \<in> set evs. ev_causal_layer e = l \<and> ev_timestamp e = t \<and> t \<noteq> []) \<and>
     (\<forall>e \<in> set evs. ev_causal_layer e = l \<and> ev_timestamp e \<noteq> [] \<longrightarrow> t \<le> ev_timestamp e)"
proof -
  let ?T = "ev_timestamp ` {e \<in> set evs. ev_causal_layer e = l \<and> ev_timestamp e \<noteq> []}"
  have s: "set (map ev_timestamp (filter (\<lambda>e. ev_causal_layer e = l \<and> ev_timestamp e \<noteq> []) evs)) = ?T" by auto
  have "earliest_ts evs l = (if ?T = {} then None else Some (Min ?T))"
    unfolding earliest_ts_def Let_def s using s by (metis set_empty)
  moreover have "?T \<noteq> {} \<Longrightarrow> Min ?T = t \<longleftrightarrow> t \<in> ?T \<and> (\<forall>u \<in> ?T. t \<le> u)"
    by (rule Min_eq_iff) simp_all
  ultimately show ?thesis by auto
qed

section \<open>Properties\<close>

text \<open>
  C13: the count of independent signals always returns, and it is the number of classes of the
  least equivalence on the signals that joins every dependent pair: path halving, the
  order of the unions and the unweighted links do not matter.
\<close>

theorem independent_signals_are_classes:
  "count_independent evs = Some (card ({..<length evs} // same_signal evs))"
  by (rule count_independent_classes)

text \<open>
  A score is high exactly when the causal chain supports it: the layers are in temporal order,
  no contradiction is left unexplained, an impact is present, and either a change and a mechanism
  come with three independent signals, or two mechanisms come without a change, or a change comes
  with temporal evidence and no mechanism.  The score always returns.
\<close>

theorem high_score_exact:
  "score_confidence evs = Some (''HIGH'', t) \<longleftrightarrow>
     validate_temporal_order evs = [] \<and>
     \<not> list_ex (\<lambda>e. ev_contradicts_hypothesis e \<and> \<not> ev_contradiction_explained e) evs \<and>
     has_layer ''impact'' evs \<and>
     (if has_layer ''change'' evs
      then t = ''A'' \<and> (if has_layer ''mechanism'' evs then 3 \<le> card ({..<length evs} // same_signal evs)
                      else has_layer ''temporal'' evs)
      else t = ''B'' \<and> 2 \<le> length (filter (\<lambda>e. ev_causal_layer e = ''mechanism'') evs))"
proof (cases "evs = []")
  case False
  have m: "has_layer ''mechanism'' evs \<longleftrightarrow> Suc 0 \<le> length (filter (\<lambda>e. ev_causal_layer e = ''mechanism'') evs)"
    by (auto simp: has_layer_def list_ex_iff Suc_le_eq filter_empty_conv)
  have u: "\<not> list_ex (\<lambda>e. ev_contradicts_hypothesis e \<and> \<not> ev_contradiction_explained e) evs \<longleftrightarrow>
      length (filter (\<lambda>e. ev_contradicts_hypothesis e \<and> \<not> ev_contradiction_explained e) evs) = 0"
    by (auto simp: list_ex_iff filter_empty_conv)
  show ?thesis
    unfolding score_confidence_def Let_def count_independent_classes u
    using False m by (cases "has_layer ''change'' evs"; cases "has_layer ''impact'' evs") auto
qed (simp add: score_confidence_def has_layer_def)

text \<open>
  The timeline is the dated evidence in order, nothing lost or invented: it is sorted by timestamp,
  stable, and holds exactly the dated items of the pool, the candidates being the dated items whose
  summary names a change.
\<close>

theorem timeline_is_sorted_pool:
  "case build_timeline evs of (timeline, pool) \<Rightarrow>
     sorted (map ev_timestamp timeline) \<and> mset timeline = filter_mset (\<lambda>e. ev_timestamp e \<noteq> []) (mset pool) \<and>
     (\<forall>t. filter (\<lambda>e. ev_timestamp e = t) timeline = filter (\<lambda>e. ev_timestamp e = t \<and> t \<noteq> []) pool) \<and>
     map (\<lambda>e. e\<lparr>ev_is_causal_candidate := False\<rparr>) pool = map (\<lambda>e. e\<lparr>ev_is_causal_candidate := False\<rparr>) evs"
proof -
  have s: "filter (\<lambda>e. ev_timestamp e = t) (sort_key ev_timestamp (filter (\<lambda>e. ev_timestamp e \<noteq> []) xs)) =
      filter (\<lambda>e. ev_timestamp e = t \<and> t \<noteq> []) xs" for t and xs :: "evidence list"
    unfolding sort_key_stable filter_filter by (rule filter_cong) auto
  show ?thesis by (simp add: build_timeline_def Let_def s mark_causal_def mset_filter)
qed

end
