(* ===== verification/Classifier.thy ===== *)
theory Classifier
  imports Bedrock Capability
begin

text \<open>
  The intent classifier, src/src/core/classifier.py: the routing request to the model, the reading
  of its JSON answer with two fallbacks, the keyword routing used when the model fails, and the
  complexity heuristic.  What the model writes is not checked for type, so the confidence, the
  sub-question and the reasoning are JSON values.  Characters of the prompt beyond ASCII are written
  by their UTF-8 bytes.
\<close>

section \<open>Results\<close>

record agent_match =
  am_agent :: string
  am_confidence :: json
  am_sub_query :: json

record classifier_result =
  cl_agents :: "agent_match list"
  cl_reasoning :: json
  cl_complexity :: string

definition selected_agent :: "classifier_result \<Rightarrow> string" where
  "selected_agent r = (case cl_agents r of [] \<Rightarrow> ''unknown'' | a # _ \<Rightarrow> am_agent a)"

definition confidence :: "classifier_result \<Rightarrow> json" where
  "confidence r = (case cl_agents r of [] \<Rightarrow> JReal ''0.0'' | a # _ \<Rightarrow> am_confidence a)"

section \<open>The prompt\<close>

definition PROMPT_BEFORE_AGENTS :: string where
  "PROMPT_BEFORE_AGENTS =
     ''You are AgentMatcher, an intelligent assistant that analyzes user queries and routes them to ''
     @ ''the most suitable specialist agent(s).'' @ nl @ nl @ ''**CRITICAL**: The user'' @ [CHR 0x27]
     @ ''s input may be a follow-up response to a previous interaction. The conversation history shows ''
     @ ''which agent was previously selected. If the user'' @ [CHR 0x27]
     @ ''s input is a continuation (e.g., '' @ [CHR 0x22] @ ''yes'' @ [CHR 0x22] @ '', '' @ [CHR 0x22] @ ''ok''
     @ [CHR 0x22] @ '', '' @ [CHR 0x22] @ ''tell me more'' @ [CHR 0x22] @ '', '' @ [CHR 0x22] @ ''1''
     @ [CHR 0x22] @ '', '' @ [CHR 0x22] @ ''no'' @ [CHR 0x22] @ '', '' @ [CHR 0x22] @ ''again'' @ [CHR 0x22]
     @ ''), select the SAME agent as before.'' @ nl @ nl @ ''Analyze the user'' @ [CHR 0x27]
     @ ''s input and select one or more agents from:'' @ nl @ nl @ ''<agents>'' @ nl"

definition PROMPT_BEFORE_HISTORY :: string where
  "PROMPT_BEFORE_HISTORY =
     nl @ ''</agents>'' @ nl @ nl @ ''**Guidelines**:'' @ nl
     @ ''1. **Follow-ups**: For short responses like '' @ [CHR 0x22] @ ''yes'' @ [CHR 0x22] @ '', ''
     @ [CHR 0x22] @ ''ok'' @ [CHR 0x22] @ '', '' @ [CHR 0x22] @ ''more'' @ [CHR 0x22] @ '', '' @ [CHR 0x22]
     @ ''1'' @ [CHR 0x22] @ '', '' @ [CHR 0x22] @ ''no'' @ [CHR 0x22] @ '' '' @ [CHR 0xE2, CHR 0x86, CHR 0x92]
     @ '' use the same agent from history (single agent)'' @ nl
     @ ''2. **Single-domain queries** (most common): return 1 agent'' @ nl
     @ ''3. **Cross-domain queries** (e.g., '' @ [CHR 0x22] @ ''why did cost go up after deploy?'' @ [CHR 0x22]
     @ ''): return 2-3 agents'' @ nl @ ''4. **Never return more than 3 agents**'' @ nl
     @ ''5. **Empty agents list = unknown** (unable to classify)'' @ nl
     @ ''6. **Action/mutation-phrased requests still route** '' @ [CHR 0xE2, CHR 0x80, CHR 0x94]
     @ '' a request phrased as an'' @ nl
     @ ''   instruction to perform a write/mutating action within a domain ('' @ [CHR 0x22]
     @ ''terminate this'' @ nl @ ''   instance'' @ [CHR 0x22] @ '', '' @ [CHR 0x22] @ ''delete that pod''
     @ [CHR 0x22] @ '', '' @ [CHR 0x22] @ ''go ahead and purchase the RI'' @ [CHR 0x22] @ '', even urgent or''
     @ nl @ ''   '' @ [CHR 0x22] @ ''I authorize you'' @ [CHR 0x22]
     @ '' framing) still belongs to that domain'' @ [CHR 0x27] @ ''s specialist. Route it'' @ nl
     @ ''   there '' @ [CHR 0xE2, CHR 0x80, CHR 0x94] @ '' the specialist will explain why it can''
     @ [CHR 0x27] @ ''t comply (agents are read-only).'' @ nl
     @ ''   Do NOT return unknown just because the phrasing is an action rather than a query.'' @ nl
     @ ''7. **Confidence**:'' @ nl @ ''   - High (0.9+): Clear requests or obvious follow-ups'' @ nl
     @ ''   - Medium (0.6-0.9): Some ambiguity but likely classification'' @ nl
     @ ''   - Low (<0.6): Vague or multi-faceted requests'' @ nl @ nl
     @ ''**Conversation History** (most recent last):'' @ nl @ ''<history>'' @ nl"

definition PROMPT_AFTER_HISTORY :: string where
  "PROMPT_AFTER_HISTORY =
     nl @ ''</history>'' @ nl @ nl @ ''**Response Format** (JSON only, no preamble):'' @ nl @ ''{'' @ nl
     @ ''  '' @ [CHR 0x22] @ ''agents'' @ [CHR 0x22] @ '': ['' @ nl @ ''    {'' @ [CHR 0x22] @ ''agent''
     @ [CHR 0x22] @ '': '' @ [CHR 0x22] @ ''agent-name'' @ [CHR 0x22] @ '', '' @ [CHR 0x22] @ ''confidence''
     @ [CHR 0x22] @ '': 0.95, '' @ [CHR 0x22] @ ''sub_query'' @ [CHR 0x22] @ '': '' @ [CHR 0x22]
     @ ''Focused 1-2 sentence question for this agent'' @ [CHR 0x22] @ ''}'' @ nl @ ''  ],'' @ nl @ ''  ''
     @ [CHR 0x22] @ ''reasoning'' @ [CHR 0x22] @ '': '' @ [CHR 0x22] @ ''Brief explanation'' @ [CHR 0x22]
     @ '','' @ nl @ ''  '' @ [CHR 0x22] @ ''complexity'' @ [CHR 0x22] @ '': '' @ [CHR 0x22]
     @ ''simple|standard|complex'' @ [CHR 0x22] @ nl @ ''}'' @ nl @ nl
     @ ''**complexity rules** (model-tier routing '' @ [CHR 0xE2, CHR 0x80, CHR 0x94]
     @ '' answer BEFORE agents):'' @ nl @ ''- '' @ [CHR 0x22] @ ''simple'' @ [CHR 0x22]
     @ '': single-agent, factual lookup, expected '' @ [CHR 0xE2, CHR 0x89, CHR 0xA4]
     @ ''1 tool call, high confidence. Examples: '' @ [CHR 0x22] @ ''what'' @ [CHR 0x27]
     @ ''s the CPU of pod X?'' @ [CHR 0x22] @ '', '' @ [CHR 0x22] @ ''list namespaces'' @ [CHR 0x22] @ ''.''
     @ nl @ ''- '' @ [CHR 0x22] @ ''complex'' @ [CHR 0x22]
     @ '': multi-agent fan-out (2+ agents), RCA/investigation, multi-signal correlation, troubleshooting ''
     @ ''('' @ [CHR 0x22] @ ''why is X slow?'' @ [CHR 0x22] @ '', '' @ [CHR 0x22] @ ''what caused the outage?''
     @ [CHR 0x22] @ ''). Root cause analysis and multi-signal investigation are NEVER simple.'' @ nl @ ''- ''
     @ [CHR 0x22] @ ''standard'' @ [CHR 0x22]
     @ '': everything else (single-agent but non-trivial, moderate confidence, 2+ tool calls likely).'' @ nl
     @ ''When in doubt, prefer '' @ [CHR 0x22] @ ''standard'' @ [CHR 0x22] @ '' over '' @ [CHR 0x22]
     @ ''simple'' @ [CHR 0x22] @ '' '' @ [CHR 0xE2, CHR 0x80, CHR 0x94]
     @ '' under-tiering is safer than over-tiering.'' @ nl @ nl @ ''**sub_query rules**:'' @ nl
     @ ''- For EACH selected agent, write a focused, self-contained sub-question (1-2 sentences max) ''
     @ ''that tells the agent exactly what to investigate or answer.'' @ nl @ ''- If the user'' @ [CHR 0x27]
     @ ''s question is time-bound (e.g. '' @ [CHR 0x22] @ ''last 1h'' @ [CHR 0x22] @ '', '' @ [CHR 0x22]
     @ ''since yesterday'' @ [CHR 0x22] @ '', '' @ [CHR 0x22] @ [CHR 0xC3, CHR 0xBA] @ ''ltimas 2h''
     @ [CHR 0x22] @ ''), include the time window in the sub_query.'' @ nl
     @ ''- If the query is a simple follow-up ('' @ [CHR 0x22] @ ''yes'' @ [CHR 0x22] @ '', '' @ [CHR 0x22]
     @ ''ok'' @ [CHR 0x22] @ '', '' @ [CHR 0x22] @ ''more'' @ [CHR 0x22]
     @ ''), leave sub_query as an empty string.'' @ nl
     @ ''- The sub_query should be in the SAME language as the user'' @ [CHR 0x27] @ ''s original question.''
     @ nl @ nl @ ''If unable to classify, return an empty agents list.''"


definition agent_descriptions :: "agent_config list \<Rightarrow> string" where
  "agent_descriptions configs =
     py_join nl (map (\<lambda>a. ''- '' @ ac_name a @ '': '' @ ac_description a) configs)"

definition no_history :: string where
  "no_history = ''No previous conversation''"

definition history_line :: "conv_message \<Rightarrow> string" where
  "history_line m =
     cm_role m @ (case cm_agent_id m of None \<Rightarrow> [] | Some a \<Rightarrow> if a = [] then [] else '' ['' @ a @ '']'') @ '': '' @ cm_content m"

definition classifier_history :: "settings \<Rightarrow> conv_message list \<Rightarrow> string" where
  "classifier_history st messages =
     (if messages = [] then no_history
      else (let truncated = fst (truncate_history_by_tokens st messages (Some 2000))
            in if truncated = [] then no_history else py_join nl (map history_line truncated)))"

definition classifier_prompt :: "settings \<Rightarrow> agent_config list \<Rightarrow> conv_message list \<Rightarrow> string" where
  "classifier_prompt st configs chat_history =
     PROMPT_BEFORE_AGENTS @ agent_descriptions configs @ PROMPT_BEFORE_HISTORY @ classifier_history st chat_history
       @ PROMPT_AFTER_HISTORY"

section \<open>Reading the answer\<close>

text \<open>The text before and after the first occurrence of a non-empty text.\<close>

fun split_at_first :: "string \<Rightarrow> string \<Rightarrow> (string \<times> string) option" where
  "split_at_first needle [] = (if needle = [] then Some ([], []) else None)"
| "split_at_first needle (c # cs) =
     (if prefix needle (c # cs) then Some ([], drop (length needle) (c # cs))
      else (case split_at_first needle cs of None \<Rightarrow> None | Some (a, b) \<Rightarrow> Some (c # a, b)))"

definition fence :: string where
  "fence = [CHR 0x60, CHR 0x60, CHR 0x60]"

text \<open>The content of the first fenced block, without the optional language tag.\<close>

definition fenced_content :: "string \<Rightarrow> string option" where
  "fenced_content txt =
     (case split_at_first fence txt of
        None \<Rightarrow> None
      | Some (a, rest) \<Rightarrow>
          (let rest' = (if prefix ''json'' rest then drop 4 rest else rest)
           in map_option fst (split_at_first fence rest')))"

definition upto_last :: "char \<Rightarrow> string \<Rightarrow> string" where
  "upto_last c s = rev (dropWhile (\<lambda>x. x \<noteq> c) (rev s))"

definition extract_json :: "string \<Rightarrow> string" where
  "extract_json response =
     (let t = py_strip response;
          t' = (case fenced_content t of None \<Rightarrow> t | Some inner \<Rightarrow> py_strip inner);
          from_brace = dropWhile (\<lambda>x. x \<noteq> CHR ''{'') t'
      in if CHR ''}'' \<in> set from_brace then upto_last CHR ''}'' from_brace else t')"

definition heuristic_complexity :: "'a list \<Rightarrow> string \<Rightarrow> string" where
  "heuristic_complexity agents user_input =
     (if 2 \<le> length agents then ''complex''
      else if length agents = 1 \<and> length user_input \<le> 60 then ''simple''
      else ''standard'')"

definition dict_field :: "json \<Rightarrow> string \<Rightarrow> json \<Rightarrow> json" where
  "dict_field v k d = (case v of JObj ms \<Rightarrow> (case dict_get ms k of None \<Rightarrow> d | Some x \<Rightarrow> x) | _ \<Rightarrow> d)"

fun is_dict :: "json \<Rightarrow> bool" where
  "is_dict (JObj ms) = True"
| "is_dict _ = False"

text \<open>What iterating a JSON value gives; None where it raises a TypeError.\<close>

definition json_items :: "json \<Rightarrow> json list option" where
  "json_items v =
     (case v of
        JList xs \<Rightarrow> Some xs
      | JObj ms \<Rightarrow> Some (map (\<lambda>p. JStr (fst p)) ms)
      | JStr s \<Rightarrow> Some (map (\<lambda>c. JStr [c]) s)
      | _ \<Rightarrow> None)"

definition match_of :: "string list \<Rightarrow> json \<Rightarrow> agent_match list" where
  "match_of names a =
     (case dict_field a ''agent'' JNull of
        JStr n \<Rightarrow>
          if n \<in> set names
          then [\<lparr>am_agent = n, am_confidence = dict_field a ''confidence'' (JReal ''0.5''),
                 am_sub_query = dict_field a ''sub_query'' (JStr [])\<rparr>]
          else []
      | _ \<Rightarrow> [])"

definition fallback_parse :: "string list \<Rightarrow> string \<Rightarrow> classifier_result" where
  "fallback_parse names response =
     (case filter (\<lambda>n. contains n (py_lower response)) names of
        n # _ \<Rightarrow> \<lparr>cl_agents = [\<lparr>am_agent = n, am_confidence = JReal ''0.5'', am_sub_query = JStr []\<rparr>],
                  cl_reasoning = JStr ''Fallback parsing'', cl_complexity = ''standard''\<rparr>
      | [] \<Rightarrow> \<lparr>cl_agents = [], cl_reasoning = JStr ''Failed to parse classifier response'', cl_complexity = ''standard''\<rparr>)"

text \<open>
  The JSON path.  A decoding error and a TypeError lead to the fallback; the AttributeError of a
  value that is not an object where one is expected is not caught.
\<close>

definition read_classification :: "string list \<Rightarrow> string \<Rightarrow> string \<Rightarrow> exn + classifier_result" where
  "read_classification names user_input response =
     (case json_loads (extract_json response) of
        None \<Rightarrow> Inr (fallback_parse names response)
      | Some result \<Rightarrow>
          if \<not> is_dict result then Inl ''AttributeError''
          else (case json_items (dict_field result ''agents'' (JList [])) of
                  None \<Rightarrow> Inr (fallback_parse names response)
                | Some agents_raw \<Rightarrow>
                    if \<not> list_all is_dict agents_raw then Inl ''AttributeError''
                    else (let agents = concat (map (match_of names) agents_raw)
                          in Inr \<lparr>cl_agents = agents, cl_reasoning = dict_field result ''reasoning'' JNull,
                               cl_complexity =
                                 (case dict_field result ''complexity'' (JStr []) of
                                    JStr c \<Rightarrow> if c \<in> {''simple'', ''standard'', ''complex''} then c
                                              else heuristic_complexity agents user_input
                                  | _ \<Rightarrow> heuristic_complexity agents user_input)\<rparr>)))"

section \<open>Keyword routing\<close>

definition show_hundredths :: "nat \<Rightarrow> string" where
  "show_hundredths n =
     show_nat (n div 100) @ ''.'' @ (if n mod 10 = 0 then show_nat (n mod 100 div 10)
                                   else show_nat (n mod 100 div 10) @ show_nat (n mod 10))"

definition keyword_score :: "string \<Rightarrow> agent_config \<Rightarrow> nat" where
  "keyword_score lower config = length (filter (\<lambda>kw. contains kw lower) (ac_routing_keywords config))"

definition keyword_fallback :: "agent_config list \<Rightarrow> string \<Rightarrow> classifier_result" where
  "keyword_fallback configs user_input =
     (let lower = py_lower user_input;
          scored = filter (\<lambda>(n, score). 0 < score) (map (\<lambda>c. (ac_name c, keyword_score lower c)) configs)
      in if scored = [] then
           \<lparr>cl_agents = [], cl_reasoning = JStr ''keyword fallback: no match'', cl_complexity = ''standard''\<rparr>
         else (let top = take 3 (sort_key (\<lambda>(n, score). - int score) scored);
                   max_score = snd (hd top)
               in \<lparr>cl_agents = map (\<lambda>(n, score).
                      \<lparr>am_agent = n,
                       am_confidence = JReal (show_hundredths (nat (py_round (of_nat score / of_nat max_score * 60)))),
                       am_sub_query = JStr []\<rparr>) top,
                   cl_reasoning = JStr ''keyword fallback (LLM unavailable)'', cl_complexity = ''standard''\<rparr>))"

section \<open>Classification\<close>

definition classifier_request :: "settings \<Rightarrow> agent_config list \<Rightarrow> string \<Rightarrow> conv_message list \<Rightarrow> string \<Rightarrow> invoke_request" where
  "classifier_request st configs user_input chat_history session_id =
     \<lparr>iq_messages = [\<lparr>im_role = ''user'', im_content = CPlain user_input\<rparr>],
      iq_system_prompt = classifier_prompt st configs chat_history, iq_max_tokens = 4096, iq_temperature = 3/10,
      iq_use_cache = True, iq_match_user_language = False, iq_session_id = session_id, iq_role = ''classifier'',
      iq_budget_session_id = None, iq_skip_input_guardrail = True\<rparr>"

definition classify ::
    "'s bedrock_env \<Rightarrow> registry \<Rightarrow> string \<Rightarrow> conv_message list \<Rightarrow> string \<Rightarrow> bedrock_client \<Rightarrow> 's \<Rightarrow>
     (guard_error + classifier_result) \<times> bedrock_client \<times> 's" where
  "classify env rg user_input chat_history session_id c s =
     (case bedrock_invoke env (classifier_request (bd_settings env) (list_configs rg) user_input chat_history session_id) c s of
        (Inl (GuardrailBlocked why src cats), c', s') \<Rightarrow> (Inl (GuardrailBlocked why src cats), c', s')
      | (Inl (GuardrailRaised e), c', s') \<Rightarrow> (Inr (keyword_fallback (list_configs rg) user_input), c', s')
      | (Inr response, c', s') \<Rightarrow>
          (map_sum GuardrailRaised id (read_classification (registered_names rg) user_input response), c', s'))"

section \<open>Lemmas\<close>

lemma match_of_known: "set (map am_agent (match_of names a)) \<subseteq> set names"
  by (auto simp: match_of_def split: json.splits if_splits)

lemma fallback_parse_known: "set (map am_agent (cl_agents (fallback_parse names r))) \<subseteq> set names"
proof (cases "filter (\<lambda>n. contains n (py_lower r)) names")
  case (Cons n ns)
  then have "n \<in> set names" using filter_is_subset [of "\<lambda>n. contains n (py_lower r)" names] by simp
  with Cons show ?thesis by (simp add: fallback_parse_def)
qed (simp add: fallback_parse_def)

lemma heuristic_cases: "heuristic_complexity as q \<in> {''simple'', ''standard'', ''complex''}"
  by (simp add: heuristic_complexity_def)

lemma read_classification_sound:
  assumes "read_classification names q r = Inr res"
  shows "set (map am_agent (cl_agents res)) \<subseteq> set names \<and> cl_complexity res \<in> {''simple'', ''standard'', ''complex''}"
proof -
  have f: "cl_complexity (fallback_parse names r) = ''standard''" by (simp add: fallback_parse_def split: list.splits)
  consider "res = fallback_parse names r"
    | raw cx rs where "res = \<lparr>cl_agents = concat (map (match_of names) raw), cl_reasoning = rs, cl_complexity = cx\<rparr>"
      "cx \<in> {''simple'', ''standard'', ''complex''}"
    using assms heuristic_cases
    by (auto simp: read_classification_def Let_def split: option.splits if_splits json.splits) blast+
  then show ?thesis
  proof cases
    case 1
    with f fallback_parse_known show ?thesis by simp
  next
    case 2
    with match_of_known show ?thesis by fastforce
  qed
qed

text \<open>The candidates of the keyword routing: the agents with a positive score, best first.\<close>

definition keyword_scored :: "agent_config list \<Rightarrow> string \<Rightarrow> (string \<times> nat) list" where
  "keyword_scored configs user_input =
     filter (\<lambda>(n, score). 0 < score) (map (\<lambda>c. (ac_name c, keyword_score (py_lower user_input) c)) configs)"

lemma keyword_fallback_agents:
  "map am_agent (cl_agents (keyword_fallback configs q)) =
     map fst (take 3 (sort_key (\<lambda>(n, score). - int score) (keyword_scored configs q)))"
  by (auto simp: keyword_fallback_def keyword_scored_def Let_def)

lemma keyword_fallback_known: "set (map am_agent (cl_agents (keyword_fallback configs q))) \<subseteq> set (map ac_name configs)"
proof -
  have "set (take 3 (sort_key (\<lambda>(n, score). - int score) (keyword_scored configs q))) \<subseteq> set (keyword_scored configs q)"
    using set_take_subset by fastforce
  then show ?thesis unfolding keyword_fallback_agents by (fastforce simp: keyword_scored_def)
qed

lemma take_sort_best:
  fixes f :: "'a \<Rightarrow> 'b :: linorder"
  assumes "x \<in> set xs" "x \<notin> set (take k (sort_key f xs))" "y \<in> set (take k (sort_key f xs))"
  shows "f y \<le> f x"
proof -
  have "x \<in> set (drop k (sort_key f xs))"
    using assms(1,2) by (metis Un_iff append_take_drop_id set_append set_sort)
  moreover have "sorted (map f (take k (sort_key f xs) @ drop k (sort_key f xs)))" by simp
  ultimately show ?thesis using assms(3) by (simp only: map_append sorted_append) auto
qed

section \<open>Properties\<close>

text \<open>
  The classifier routes only to registered agents: whatever the model writes, and also when it
  fails, every agent of the result is in the registry and the complexity is one of the three
  levels; and a request the guardrail refuses is refused, never routed by keyword.
\<close>

theorem classifier_routes_to_known_agents:
  assumes "registry_ok rg" "classify env rg q history sid c s = (r, c', s')"
  shows "case r of
     Inr res \<Rightarrow> set (map am_agent (cl_agents res)) \<subseteq> set (registered_names rg) \<and>
       cl_complexity res \<in> {''simple'', ''standard'', ''complex''} \<and>
       (\<nexists>why src cats. fst (bedrock_invoke env (classifier_request (bd_settings env) (list_configs rg) q history sid) c s) =
          Inl (GuardrailBlocked why src cats))
   | Inl e \<Rightarrow> fst (bedrock_invoke env (classifier_request (bd_settings env) (list_configs rg) q history sid) c s) = Inl e \<or>
       e = GuardrailRaised ''AttributeError''"
proof -
  obtain x c1 s1 where i: "bedrock_invoke env (classifier_request (bd_settings env) (list_configs rg) q history sid) c s = (x, c1, s1)"
    by (metis prod.collapse)
  have n: "map ac_name (list_configs rg) = registered_names rg"
    using assms(1) by (auto simp: registry_ok_def list_configs_def registered_names_def)
  have k: "cl_complexity (keyword_fallback (list_configs rg) q) = ''standard''" by (simp add: keyword_fallback_def Let_def)
  show ?thesis
  proof (cases x)
    case (Inr response)
    show ?thesis
    proof (cases "read_classification (registered_names rg) q response")
      case (Inl e)
      then have "e = ''AttributeError''"
        by (auto simp: read_classification_def Let_def split: option.splits if_splits)
      with Inl Inr i assms(2) show ?thesis by (auto simp: classify_def)
    next
      case (Inr res)
      with read_classification_sound [OF Inr] \<open>x = Inr response\<close> i assms(2) show ?thesis by (auto simp: classify_def)
    qed
  next
    case (Inl e)
    with i k keyword_fallback_known [of "list_configs rg" q] assms(2) show ?thesis
      by (cases e) (auto simp: classify_def n)
  qed
qed

text \<open>
  When the model is unavailable the best keyword matches are routed to: at most three agents,
  and no agent left out scores more than one taken.
\<close>

theorem keyword_routing_takes_the_best:
  assumes "(n, score) \<in> set (keyword_scored configs q)"
    "(n, score) \<notin> set (take 3 (sort_key (\<lambda>(n, score). - int score) (keyword_scored configs q)))"
    "(m, taken) \<in> set (take 3 (sort_key (\<lambda>(n, score). - int score) (keyword_scored configs q)))"
  shows "length (cl_agents (keyword_fallback configs q)) \<le> 3 \<and> m \<in> set (map am_agent (cl_agents (keyword_fallback configs q))) \<and>
    score \<le> taken"
proof -
  have "length (map am_agent (cl_agents (keyword_fallback configs q))) \<le> 3" unfolding keyword_fallback_agents by simp
  moreover have "m \<in> set (map am_agent (cl_agents (keyword_fallback configs q)))"
    unfolding keyword_fallback_agents using assms(3) by force
  moreover have "score \<le> taken" using take_sort_best [OF assms] by simp
  ultimately show ?thesis by simp
qed

definition demo_agent :: "string \<Rightarrow> string list \<Rightarrow> agent_config" where
  "demo_agent n kws =
     \<lparr>ac_name = n, ac_description = ''demo'', ac_domain = ''d'', ac_capabilities = [], ac_datasources = [], ac_skills = [],
      ac_routing_keywords = kws, ac_cache_ttl = 60, ac_cache_namespace = n, ac_model_tier = ''standard'', ac_temperature = 7/10,
      ac_read_only = True, ac_evidence_types = [], ac_delegates_to = [], ac_required_env = [], ac_enabled = True, ac_port = 0,
      ac_capability_tier = 0, ac_write_scope = [], ac_hitl = None\<rparr>"

definition demo_registry :: registry where
  "demo_registry = \<lparr>rg_agents = [(''finops'', demo_agent ''finops'' [''cost'']), (''k8s'', demo_agent ''k8s'' [''pod''])],
     rg_prompts = [(''finops'', ''p''), (''k8s'', ''p'')]\<rparr>"

lemma demo_registry_ok: "registry_ok demo_registry"
  by (simp add: registry_ok_def demo_registry_def demo_agent_def valid_config_iff)

theorem classifier_routes_to_known_agents_witness:
  "\<exists>res. fst (classify (demo_bedrock failing_service) demo_registry ''pod cost'' [] ''s'' (new_bedrock_client (default_settings ''h'')) 0) = Inr res \<and>
     set (map am_agent (cl_agents res)) \<subseteq> set (registered_names demo_registry)"
proof -
  let ?env = "demo_bedrock failing_service" and ?c = "new_bedrock_client (default_settings ''h'')"
  obtain r c' s' where k: "classify ?env demo_registry ''pod cost'' [] ''s'' ?c 0 = (r, c', s')" by (metis prod.collapse)
  have i: "fst (bedrock_invoke ?env (classifier_request (bd_settings ?env) (list_configs demo_registry) ''pod cost'' [] ''s'') ?c 0) =
      Inl (GuardrailRaised ''down'')"
    unfolding bedrock_invoke_def with_breaker_fst [OF new_client_allows]
    by (simp add: invoke_sync_def classifier_request_def Let_def demo_bedrock_def max_retries_def numeral_3_eq_3
        failing_service_def case_prod_beta)
  then have "\<exists>res. r = Inr res"
    using k by (auto simp: classify_def split: prod.splits sum.splits guard_error.splits)
  with classifier_routes_to_known_agents [OF demo_registry_ok k] k show ?thesis by auto
qed

theorem keyword_routing_takes_the_best_witness:
  "length (cl_agents (keyword_fallback
     [demo_agent ''a'' [''x'', ''y''], demo_agent ''b'' [''x''], demo_agent ''c'' [''y''], demo_agent ''d'' [''x'']] ''x y'')) \<le> 3 \<and>
   ''a'' \<in> set (map am_agent (cl_agents (keyword_fallback
     [demo_agent ''a'' [''x'', ''y''], demo_agent ''b'' [''x''], demo_agent ''c'' [''y''], demo_agent ''d'' [''x'']] ''x y''))) \<and>
   1 \<le> (2::nat)"
proof -
  let ?cs = "[demo_agent ''a'' [''x'', ''y''], demo_agent ''b'' [''x''], demo_agent ''c'' [''y''], demo_agent ''d'' [''x'']]"
  have k: "keyword_scored ?cs ''x y'' = [(''a'', 2), (''b'', 1), (''c'', 1), (''d'', 1)]" by code_simp
  have s: "take 3 (sort_key (\<lambda>(n, score). - int score) [(''a'', 2), (''b'', 1), (''c'', 1), (''d'', 1)]) =
      [(''a'', 2), (''b'', 1), (''c'', 1)]" by code_simp
  show ?thesis
    by (rule keyword_routing_takes_the_best [where n = "''d''"]) (simp_all only: k s, simp_all)
qed

text \<open>
  An answer that lists the agents by name is not an object per agent: the error is not one of those
  the fallback catches, so the request fails although the answer names a registered agent.
\<close>

lemma agent_names_list_is_not_caught:
  "read_classification [''finops''] ''q'' ([CHR ''{'', CHR 0x22] @ ''agents'' @ [CHR 0x22] @ '': ['' @ [CHR 0x22] @ ''finops''
     @ [CHR 0x22] @ '']}'') = Inl ''AttributeError'' \<and>
   read_classification [''finops''] ''q'' ''use finops'' =
     Inr \<lparr>cl_agents = [\<lparr>am_agent = ''finops'', am_confidence = JReal ''0.5'', am_sub_query = JStr []\<rparr>],
          cl_reasoning = JStr ''Fallback parsing'', cl_complexity = ''standard''\<rparr>"
  by code_simp

end
