(* ===== verification/Kb.thy ===== *)
theory Kb
  imports Decimal GenericAgent Rca Classifier
begin

text \<open>
  The knowledge base, src/src/core/kb: the monthly budget, the redactor, the embedder, drafting and
  refining of items from a finished analysis, the approval thresholds, the store and the block of
  similar cases.  Postgres and the embedding model are parameters: each call answers or raises.  What
  the model writes is not checked for type, so the fields of a delta are JSON values.
\<close>

section \<open>Items\<close>

record kb_item =
  ki_id :: string
  ki_type :: json
  ki_title :: json
  ki_content :: json
  ki_tags :: json
  ki_service_name :: json
  ki_embedding :: "json option"
  ki_metadata :: json
  ki_confidence_score :: number
  ki_status :: string
  ki_superseded_by :: "string option"
  ki_created_at :: "string option"
  ki_updated_at :: "string option"

record kb_delta =
  kd_action :: json
  kd_type :: json
  kd_title :: json
  kd_content :: json
  kd_tags :: json
  kd_service_name :: json
  kd_confidence :: number
  kd_supersedes_id :: "string option"
  kd_reasoning :: json

text \<open>A row of the table; the JSON column comes as its text or decoded.\<close>

record kb_row =
  kr_id :: string
  kr_type :: string
  kr_title :: string
  kr_content :: string
  kr_tags :: "string list option"
  kr_service_name :: "string option"
  kr_metadata :: json
  kr_confidence_score :: number
  kr_status :: string
  kr_similarity :: number

record 's kb_db =
  db_insert :: "kb_item \<Rightarrow> string option \<Rightarrow> string \<Rightarrow> 's \<Rightarrow> (exn + string) \<times> 's"
  db_search :: "string \<Rightarrow> nat \<Rightarrow> string option \<Rightarrow> 's \<Rightarrow> (exn + kb_row list) \<times> 's"
  db_get :: "string \<Rightarrow> 's \<Rightarrow> (exn + kb_row option) \<times> 's"
  db_update_status :: "string \<Rightarrow> string \<Rightarrow> 's \<Rightarrow> (exn + string) \<times> 's"
  db_pending_review :: "nat \<Rightarrow> 's \<Rightarrow> (exn + kb_row list) \<times> 's"

text \<open>\<open>kb_db = None\<close> is the store that could not connect.\<close>

record 's kb_env =
  kb_cache :: "'s cache_store"
  kb_month :: "'s \<Rightarrow> string"
  kb_monthly_budget :: rat
  kb_embed_model_id :: string
  kb_embed_model :: "string \<Rightarrow> string \<Rightarrow> 's \<Rightarrow> (exn + string) \<times> 's"
  kb_db :: "'s kb_db option"
  kb_new_id :: "'s \<Rightarrow> string \<times> 's"

section \<open>Budget\<close>

definition kb_key :: "'s kb_env \<Rightarrow> 's \<Rightarrow> string" where
  "kb_key env s = ''kb:budget:'' @ kb_month env s"

text \<open>What the cache says was spent; None where \<open>float\<close> raises.\<close>

definition kb_spent :: "json option \<Rightarrow> number option" where
  "kb_spent v = py_float (or_else v (JReal ''0.0''))"

definition kb_check_budget :: "'s kb_env \<Rightarrow> rat \<Rightarrow> 's \<Rightarrow> bool \<times> 's" where
  "kb_check_budget env estimated_cost s =
     (case cache_get (kb_cache env) (kb_key env s) ''budget'' s of
        (v, s') \<Rightarrow>
          (case kb_spent v of
             None \<Rightarrow> True
           | Some current \<Rightarrow> number_le (number_plus current estimated_cost) (Finite (kb_monthly_budget env)), s'))"

definition kb_record_cost :: "'s kb_env \<Rightarrow> rat \<Rightarrow> 's \<Rightarrow> 's" where
  "kb_record_cost env cost s =
     (case cache_get (kb_cache env) (kb_key env s) ''budget'' s of
        (v, s') \<Rightarrow>
          (case kb_spent v of
             None \<Rightarrow> s'
           | Some current \<Rightarrow>
               cache_set (kb_cache env) (kb_key env s') (JReal (show_number (number_plus current cost))) 2678400 ''budget'' s'))"

section \<open>Redaction\<close>

definition word_or :: "string \<Rightarrow> rx" where
  "word_or cs = Cls (\<lambda>c. is_word c \<or> c \<in> set cs)"

definition redactions :: "(rx \<times> string) list" where
  "redactions =
     [(seqs [WordB, rx_plus (word_or ''.+-''), lit ''@'', rx_plus (word_or ''-''), lit ''.'', rx_plus (word_or ''.-''), WordB],
       ''<redacted:email>''),
      (seqs [WordB, lit ''AKIA'', rx_times 16 (Cls is_upper_dec), WordB], ''<redacted:aws-key>''),
      (seqs [WordB, lit ''ASIA'', rx_times 16 (Cls is_upper_dec), WordB], ''<redacted:aws-key>''),
      (seqs [WordB, lit ''ghp_'', rx_times 36 (Cls is_alnum), WordB], ''<redacted:github-pat>''),
      (seqs [WordB, lit ''glpat-'', Rep 20 None (alnum_or ''_-''), WordB], ''<redacted:gitlab-pat>''),
      (seqs [lit_ci ''bearer'', rx_plus (Cls is_space), rx_plus (alnum_or ''_.-'')], ''Bearer <redacted:token>''),
      (seqs [WordB, lit ''sk-'', Rep 20 None (Cls is_alnum), WordB], ''<redacted:openai-key>'')]"

definition redact :: "string \<Rightarrow> string" where
  "redact t = foldl (\<lambda>t (pattern, repl). sub_all pattern repl t) t redactions"

text \<open>Of an unchecked value: an empty one is returned as it is, another that is no text raises.\<close>

definition redact_json :: "json \<Rightarrow> json option" where
  "redact_json v =
     (if \<not> json_truthy v then Some v else (case v of JStr t \<Rightarrow> Some (JStr (redact t)) | _ \<Rightarrow> None))"

section \<open>Embedding\<close>

definition embed :: "'s kb_env \<Rightarrow> string \<Rightarrow> 's \<Rightarrow> json option \<times> 's" where
  "embed env t s =
     (if py_strip t = [] then (None, s)
      else (case kb_embed_model env (kb_embed_model_id env)
              (json_dumps (JObj [(''inputText'', JStr (take 8000 t)), (''dimensions'', JInt 1024), (''normalize'', JBool True)])) s of
              (Inl e, s') \<Rightarrow> (None, s')
            | (Inr body, s') \<Rightarrow>
                (case json_loads body of
                   Some (JObj ms) \<Rightarrow>
                     (case dict_get ms ''embedding'' of
                        None \<Rightarrow> Some (JList [])
                      | Some v \<Rightarrow> if v = JNull then None else Some v)
                 | _ \<Rightarrow> None, s')))"

section \<open>Drafting and refining\<close>

text \<open>\<open>response[response.find(c):response.rfind(d) + 1]\<close>; None where \<open>c\<close> is not found.\<close>

definition slice_between :: "char \<Rightarrow> char \<Rightarrow> string \<Rightarrow> string option" where
  "slice_between c d s =
     (case dropWhile (\<lambda>x. x \<noteq> c) s of [] \<Rightarrow> None | t \<Rightarrow> Some (upto_last d t))"

text \<open>A delta of the model's answer; None where reading it raises, which skips it.\<close>

definition delta_of_json :: "json \<Rightarrow> kb_delta option" where
  "delta_of_json d =
     (if \<not> is_dict d then None
      else (case py_float (dict_field d ''confidence'' (JReal ''0.0'')) of
              None \<Rightarrow> None
            | Some f \<Rightarrow>
                Some \<lparr>kd_action = dict_field d ''action'' (JStr ''create''), kd_type = dict_field d ''type'' (JStr ''troubleshooting''),
                  kd_title = dict_field d ''title'' (JStr []), kd_content = dict_field d ''content'' (JStr []),
                  kd_tags = or_else (Some (dict_field d ''tags'' (JList []))) (JList []),
                  kd_service_name = dict_field d ''service_name'' JNull, kd_confidence = f, kd_supersedes_id = None,
                  kd_reasoning = dict_field d ''reasoning'' (JStr [])\<rparr>))"

text \<open>The deltas of an answer; None where its JSON cannot be read or its deltas not be iterated.\<close>

definition read_deltas :: "string \<Rightarrow> kb_delta list option" where
  "read_deltas t =
     (case json_loads t of
        None \<Rightarrow> None
      | Some parsed \<Rightarrow>
          map_option (List.map_filter delta_of_json)
            (json_items (or_else (Some (dict_field parsed ''deltas'' (JList []))) (JList []))))"

definition EXTRACTOR_PROMPT :: string where
  "EXTRACTOR_PROMPT =
     ''You extract structured knowledge items from RCA (Root Cause Analysis) results.'' @ nl @ nl
     @ ''Given an RCA result, identify 1-3 reusable knowledge items (KbDelta) covering: troubleshooting ''
     @ ''patterns, decisions taken, infrastructure facts.'' @ nl @ nl @ ''Output JSON ONLY (no preamble):''
     @ nl @ ''{'' @ nl @ ''  '' @ [CHR 0x22] @ ''deltas'' @ [CHR 0x22] @ '': ['' @ nl @ ''    {'' @ nl
     @ ''      '' @ [CHR 0x22] @ ''action'' @ [CHR 0x22] @ '': '' @ [CHR 0x22] @ ''create'' @ [CHR 0x22]
     @ '','' @ nl @ ''      '' @ [CHR 0x22] @ ''type'' @ [CHR 0x22] @ '': '' @ [CHR 0x22] @ ''troubleshooting''
     @ [CHR 0x22] @ '' | '' @ [CHR 0x22] @ ''decision'' @ [CHR 0x22] @ '' | '' @ [CHR 0x22] @ ''pattern''
     @ [CHR 0x22] @ '' | '' @ [CHR 0x22] @ ''infrastructure'' @ [CHR 0x22] @ '','' @ nl @ ''      ''
     @ [CHR 0x22] @ ''title'' @ [CHR 0x22] @ '': '' @ [CHR 0x22] @ ''short descriptive title'' @ [CHR 0x22]
     @ '','' @ nl @ ''      '' @ [CHR 0x22] @ ''content'' @ [CHR 0x22] @ '': '' @ [CHR 0x22]
     @ ''detailed content with WHEN/THEN structure if troubleshooting'' @ [CHR 0x22] @ '','' @ nl @ ''      ''
     @ [CHR 0x22] @ ''tags'' @ [CHR 0x22] @ '': ['' @ [CHR 0x22] @ ''tag1'' @ [CHR 0x22] @ '', '' @ [CHR 0x22]
     @ ''tag2'' @ [CHR 0x22] @ ''],'' @ nl @ ''      '' @ [CHR 0x22] @ ''service_name'' @ [CHR 0x22] @ '': ''
     @ [CHR 0x22] @ ''service if specific, null if general'' @ [CHR 0x22] @ '','' @ nl @ ''      ''
     @ [CHR 0x22] @ ''confidence'' @ [CHR 0x22] @ '': 0.0-1.0,'' @ nl @ ''      '' @ [CHR 0x22] @ ''reasoning''
     @ [CHR 0x22] @ '': '' @ [CHR 0x22] @ ''why this is worth saving'' @ [CHR 0x22] @ nl @ ''    }'' @ nl
     @ ''  ]'' @ nl @ ''}'' @ nl @ nl @ ''RULES:'' @ nl
     @ ''- Confidence reflects how reusable/general the item is, not the RCA confidence.'' @ nl @ ''- ''
     @ [CHR 0x27] @ ''troubleshooting'' @ [CHR 0x27] @ '' = symptom->diagnosis->fix. '' @ [CHR 0x27]
     @ ''decision'' @ [CHR 0x27] @ '' = architectural choice. '' @ [CHR 0x27] @ ''pattern'' @ [CHR 0x27]
     @ '' = recurring scenario. '' @ [CHR 0x27] @ ''infrastructure'' @ [CHR 0x27] @ '' = factual config.'' @ nl
     @ ''- Skip noise (single-incident specifics with no reuse value) '' @ [CHR 0xE2, CHR 0x80, CHR 0x94]
     @ '' return empty deltas.''"

definition ENRICHER_PROMPT :: string where
  "ENRICHER_PROMPT =
     ''You refine knowledge base drafts. You receive Sonnet'' @ [CHR 0x27]
     @ ''s drafts plus the original RCA. Your job: generalize, identify cross-incident patterns, improve ''
     @ ''wording for future reuse.'' @ nl @ nl @ ''Return the SAME JSON schema as input (deltas[]) but with:''
     @ nl @ ''- Better titles (clear, searchable)'' @ nl
     @ ''- Generalized content (less incident-specific, more reusable)'' @ nl
     @ ''- Updated confidence (lower if too specific, higher if confirmed pattern)'' @ nl
     @ ''- Drop drafts that don'' @ [CHR 0x27] @ ''t add value (filter, don'' @ [CHR 0x27] @ ''t keep all)''
     @ nl @ nl @ ''Return JSON ONLY.''"

definition distill_request :: "string \<Rightarrow> rat \<Rightarrow> string \<Rightarrow> string \<Rightarrow> invoke_request" where
  "distill_request system_prompt temperature role user_msg =
     \<lparr>iq_messages = [\<lparr>im_role = ''user'', im_content = CPlain user_msg\<rparr>], iq_system_prompt = system_prompt,
      iq_max_tokens = 4096, iq_temperature = temperature, iq_use_cache = True, iq_match_user_language = True,
      iq_session_id = [], iq_role = role, iq_budget_session_id = None, iq_skip_input_guardrail = False\<rparr>"

definition rca_text :: "rca_result \<Rightarrow> string" where
  "rca_text rca = redact (json_dumps (rca_to_dict rca))"

definition extract_deltas ::
    "'s bedrock_env \<Rightarrow> 's kb_env \<Rightarrow> rca_result \<Rightarrow> bedrock_client \<Rightarrow> 's \<Rightarrow> kb_delta list \<times> bedrock_client \<times> 's" where
  "extract_deltas be env rca c s =
     (case bedrock_invoke be
         (distill_request EXTRACTOR_PROMPT (2/10) ''agent''
           (''RCA result:'' @ nl @ rca_text rca @ nl @ nl @ ''Extract reusable knowledge items as JSON.'')) c s of
        (Inl e, c', s') \<Rightarrow> ([], c', s')
      | (Inr response, c', s') \<Rightarrow>
          (case slice_between (CHR ''{'') (CHR ''}'') response of
             None \<Rightarrow> []
           | Some t \<Rightarrow> (case read_deltas t of None \<Rightarrow> [] | Some ds \<Rightarrow> ds), c', s'))"

definition delta_dict :: "kb_delta \<Rightarrow> json" where
  "delta_dict d =
     JObj [(''action'', kd_action d), (''type'', kd_type d), (''title'', kd_title d), (''content'', kd_content d),
           (''tags'', kd_tags d), (''service_name'', kd_service_name d), (''confidence'', JReal (show_number (kd_confidence d))),
           (''supersedes_id'', json_opt (kd_supersedes_id d)), (''reasoning'', kd_reasoning d)]"

definition enrich_deltas ::
    "'s bedrock_env \<Rightarrow> 's kb_env \<Rightarrow> kb_delta list \<Rightarrow> rca_result \<Rightarrow> bedrock_client \<Rightarrow> 's \<Rightarrow> kb_delta list \<times> bedrock_client \<times> 's" where
  "enrich_deltas be env drafts rca c s =
     (if drafts = [] then ([], c, s)
      else (case bedrock_invoke be
              (distill_request ENRICHER_PROMPT (3/10) ''synthesis''
                (''Drafts:'' @ nl @ json_dumps (JList (map delta_dict drafts)) @ nl @ nl @ ''Original RCA:'' @ nl
                 @ rca_text rca @ nl @ nl @ ''Return refined deltas.'')) c s of
              (Inl e, c', s') \<Rightarrow> (drafts, c', s')
            | (Inr response, c', s') \<Rightarrow>
                (case slice_between (CHR ''{'') (CHR ''}'') response of
                   None \<Rightarrow> drafts
                 | Some t \<Rightarrow> (case read_deltas t of None \<Rightarrow> drafts | Some ds \<Rightarrow> if ds = [] then drafts else ds), c', s')))"

section \<open>Approval\<close>

definition THRESHOLDS :: "(string \<times> rat) list" where
  "THRESHOLDS = [(''troubleshooting'', 85/100), (''pattern'', 90/100), (''infrastructure'', 80/100), (''decision'', 101/100)]"

text \<open>None is the TypeError of a type that cannot be looked up.\<close>

definition threshold_of :: "json \<Rightarrow> rat option" where
  "threshold_of t =
     (case t of
        JStr n \<Rightarrow> Some (case map_of THRESHOLDS n of None \<Rightarrow> 85/100 | Some x \<Rightarrow> x)
      | JList xs \<Rightarrow> None
      | JObj ms \<Rightarrow> None
      | _ \<Rightarrow> Some (85/100))"

definition decide_status :: "kb_delta \<Rightarrow> string option" where
  "decide_status d =
     (if number_less (kd_confidence d) (Finite (1/2)) then Some ''rejected''
      else map_option (\<lambda>th. if number_le (Finite th) (kd_confidence d) then ''active'' else ''pending_review'')
        (threshold_of (kd_type d)))"

section \<open>The store\<close>

text \<open>The vector's text; None where the value cannot be iterated.\<close>

definition pgvector :: "json \<Rightarrow> string option" where
  "pgvector emb = map_option (\<lambda>xs. ''['' @ py_join '','' (map py_str xs) @ '']'') (json_items emb)"

definition embedding_to_pgvector :: "json option \<Rightarrow> string option option" where
  "embedding_to_pgvector emb = (case emb of None \<Rightarrow> Some None | Some v \<Rightarrow> map_option Some (pgvector v))"

definition kb_insert :: "'s kb_env \<Rightarrow> kb_item \<Rightarrow> 's \<Rightarrow> string option \<times> 's" where
  "kb_insert env item s =
     (case kb_db env of
        None \<Rightarrow> (None, s)
      | Some db \<Rightarrow>
          (case embedding_to_pgvector (ki_embedding item) of
             None \<Rightarrow> (None, s)
           | Some v \<Rightarrow>
               (case db_insert db item v (json_dumps (ki_metadata item)) s of
                  (Inl e, s') \<Rightarrow> (None, s')
                | (Inr i, s') \<Rightarrow> (Some i, s'))))"

text \<open>None where the text of the JSON column cannot be read.\<close>

definition row_to_item :: "kb_row \<Rightarrow> kb_item option" where
  "row_to_item r =
     (case (case kr_metadata r of JStr t \<Rightarrow> json_loads t | m \<Rightarrow> Some m) of
        None \<Rightarrow> None
      | Some meta \<Rightarrow>
          Some \<lparr>ki_id = kr_id r, ki_type = JStr (kr_type r), ki_title = JStr (kr_title r), ki_content = JStr (kr_content r),
            ki_tags = JList (map JStr (case kr_tags r of None \<Rightarrow> [] | Some ts \<Rightarrow> ts)),
            ki_service_name = json_opt (kr_service_name r), ki_embedding = None, ki_metadata = or_else (Some meta) (JObj []),
            ki_confidence_score = kr_confidence_score r, ki_status = kr_status r,
            ki_superseded_by = None, ki_created_at = None, ki_updated_at = None\<rparr>)"

fun rows_to_items :: "kb_row list \<Rightarrow> kb_item list option" where
  "rows_to_items [] = Some []"
| "rows_to_items (r # rs) =
     (case (row_to_item r, rows_to_items rs) of (Some i, Some is) \<Rightarrow> Some (i # is) | _ \<Rightarrow> None)"

definition or_nothing :: "'a list option \<Rightarrow> 'a list" where
  "or_nothing v = (case v of None \<Rightarrow> [] | Some xs \<Rightarrow> xs)"

definition kb_search_similar ::
    "'s kb_env \<Rightarrow> json \<Rightarrow> nat \<Rightarrow> rat \<Rightarrow> string option \<Rightarrow> 's \<Rightarrow> kb_item list \<times> 's" where
  "kb_search_similar env embedding top_k threshold service_name s =
     (case (kb_db env, pgvector embedding) of
        (Some db, Some v) \<Rightarrow>
          (case db_search db v top_k service_name s of
             (Inl e, s') \<Rightarrow> ([], s')
           | (Inr rows, s') \<Rightarrow>
               (or_nothing (rows_to_items (filter (\<lambda>r. number_le (Finite threshold) (kr_similarity r)) rows)), s'))
      | _ \<Rightarrow> ([], s))"

definition kb_get :: "'s kb_env \<Rightarrow> string \<Rightarrow> 's \<Rightarrow> kb_item option \<times> 's" where
  "kb_get env item_id s =
     (case kb_db env of
        None \<Rightarrow> (None, s)
      | Some db \<Rightarrow>
          (case db_get db item_id s of
             (Inr (Some r), s') \<Rightarrow> (row_to_item r, s')
           | (_, s') \<Rightarrow> (None, s')))"

definition kb_update_status :: "'s kb_env \<Rightarrow> string \<Rightarrow> string \<Rightarrow> 's \<Rightarrow> bool \<times> 's" where
  "kb_update_status env item_id status s =
     (case kb_db env of
        None \<Rightarrow> (False, s)
      | Some db \<Rightarrow>
          (case db_update_status db item_id status s of
             (Inl e, s') \<Rightarrow> (False, s')
           | (Inr r, s') \<Rightarrow> (contains ''UPDATE 1'' r, s')))"

definition kb_list_pending_review :: "'s kb_env \<Rightarrow> nat \<Rightarrow> 's \<Rightarrow> kb_item list \<times> 's" where
  "kb_list_pending_review env limit s =
     (case kb_db env of
        None \<Rightarrow> ([], s)
      | Some db \<Rightarrow>
          (case db_pending_review db limit s of
             (Inl e, s') \<Rightarrow> ([], s')
           | (Inr rows, s') \<Rightarrow> (or_nothing (rows_to_items rows), s')))"

section \<open>Similar cases\<close>

definition case_block :: "kb_item \<Rightarrow> string" where
  "case_block item =
     ''<case type='' @ [CHR 0x22] @ py_str (ki_type item) @ [CHR 0x22] @ '' service='' @ [CHR 0x22]
     @ (if json_truthy (ki_service_name item) then py_str (ki_service_name item) else ''general'') @ [CHR 0x22] @ ''>'' @ nl
     @ ''<title>'' @ py_str (ki_title item) @ ''</title>'' @ nl
     @ ''<content>'' @ py_str (ki_content item) @ ''</content>'' @ nl @ ''</case>''"

definition inject_similar_cases ::
    "'s kb_env \<Rightarrow> string \<Rightarrow> string option \<Rightarrow> nat \<Rightarrow> rat \<Rightarrow> 's \<Rightarrow> string \<times> 's" where
  "inject_similar_cases env symptom service_name top_k threshold s =
     (case embed env symptom s of
        (None, s1) \<Rightarrow> ([], s1)
      | (Some emb, s1) \<Rightarrow>
          (case kb_search_similar env emb top_k threshold service_name s1 of
             (items, s2) \<Rightarrow>
               (if items = [] then []
                else ''<similar_cases>'' @ nl @ py_join nl (map case_block items) @ nl @ ''</similar_cases>'' @ nl @ nl
                  @ ''NOTE: similar cases are PRIORS; verify against current evidence before concluding.'', s2)))"

section \<open>Distillation\<close>

text \<open>The pipeline after an analysis, src/src/supervisor/distillation.py.\<close>

definition ESTIMATED_COST_PER_DISTILL :: rat where
  "ESTIMATED_COST_PER_DISTILL = 27/100"

definition distill_delta :: "'s kb_env \<Rightarrow> string option \<Rightarrow> kb_delta \<Rightarrow> 's \<Rightarrow> 's" where
  "distill_delta env investigation_id d s =
     (case decide_status d of
        None \<Rightarrow> s
      | Some status \<Rightarrow>
          if status = ''rejected'' then s
          else (let (emb, s1) = embed env (redact (py_str (kd_title d) @ nl @ py_str (kd_content d))) s
                in case (redact_json (kd_title d), redact_json (kd_content d)) of
                     (Some title, Some content) \<Rightarrow>
                       (case kb_new_id env s1 of
                          (i, s2) \<Rightarrow>
                            snd (kb_insert env
                              \<lparr>ki_id = i, ki_type = kd_type d, ki_title = title, ki_content = content, ki_tags = kd_tags d,
                               ki_service_name = kd_service_name d, ki_embedding = emb,
                               ki_metadata = JObj [(''investigation_id'', json_opt investigation_id), (''reasoning'', kd_reasoning d)],
                               ki_confidence_score = kd_confidence d, ki_status = status,
                               ki_superseded_by = None, ki_created_at = None, ki_updated_at = None\<rparr> s2))
                   | _ \<Rightarrow> s1))"

definition distill_rca ::
    "'s bedrock_env \<Rightarrow> 's kb_env \<Rightarrow> rca_result \<Rightarrow> string option \<Rightarrow> bedrock_client \<Rightarrow> 's \<Rightarrow> bedrock_client \<times> 's" where
  "distill_rca be env rca investigation_id c s =
     (if rca_confidence rca = ''baixa'' then (c, s)
      else (case kb_check_budget env ESTIMATED_COST_PER_DISTILL s of
              (False, s1) \<Rightarrow> (c, s1)
            | (True, s1) \<Rightarrow>
                (case extract_deltas be env rca c s1 of
                   (drafts, c2, s2) \<Rightarrow>
                     if drafts = [] then (c2, s2)
                     else (case enrich_deltas be env drafts rca c2 s2 of
                             (refined, c3, s3) \<Rightarrow>
                               (c3, kb_record_cost env ESTIMATED_COST_PER_DISTILL
                                      (fold (distill_delta env investigation_id) refined s3))))))"

section \<open>Properties\<close>

text \<open>A month of distillations: each asks the budget and, when it is granted, records its cost.\<close>

fun kb_run :: "'s kb_env \<Rightarrow> rat \<Rightarrow> nat \<Rightarrow> 's \<Rightarrow> nat \<times> 's" where
  "kb_run env cost 0 s = (0, s)"
| "kb_run env cost (Suc n) s =
     (case kb_check_budget env cost s of
        (True, s1) \<Rightarrow> (case kb_run env cost n (kb_record_cost env cost s1) of (m, s2) \<Rightarrow> (Suc m, s2))
      | (False, s1) \<Rightarrow> kb_run env cost n s1)"

definition spent_is :: "('s \<Rightarrow> string \<Rightarrow> string option) \<Rightarrow> 's kb_env \<Rightarrow> rat \<Rightarrow> 's \<Rightarrow> bool" where
  "spent_is look env x s \<longleftrightarrow> kb_spent (cached (look s) (kb_key env s) ''budget'') = Some (Finite x)"

lemma kb_check_up:
  assumes "cache_laws r look" "kb_cache env = Some r" "spent_is look env x s"
  shows "fst (kb_check_budget env cost s) \<longleftrightarrow> x + cost \<le> kb_monthly_budget env"
    "look (snd (kb_check_budget env cost s)) = look s"
  using assms cache_get_up [OF assms(1), of "kb_key env s" "''budget''" s]
  by (auto simp: kb_check_budget_def spent_is_def not_less split: prod.splits)

lemma kb_spent_float:
  assumes "0 \<le> x" "x * 10 ^ j \<in> \<int>" "j \<le> 17"
  shows "kb_spent (Some (JReal (show_float x))) = Some (Finite x)"
proof (cases "json_truthy (JReal (show_float x))")
  case True
  then show ?thesis using real_number_show_float [OF assms] by (simp add: kb_spent_def or_else_def py_float_def)
next
  case False
  obtain n fr where s: "show_float x = show_nat n @ ''.'' @ fr" and d: "list_all is_digit (show_nat n)" "list_all is_digit fr"
    using show_float_parts [OF assms(1)] show_nat_digits(1) by force
  have dig: "is_digit c" if "c \<in> set (show_nat n @ fr)" for c using d that by (auto simp: list_all_iff)
  have "c \<noteq> CHR ''e'' \<and> c \<noteq> CHR ''E''" if "c \<in> set (show_float x)" for c
    using that dig [of c] by (auto simp: s is_digit_def)
  then have "takeWhile (\<lambda>c. c \<noteq> CHR ''e'' \<and> c \<noteq> CHR ''E'') (show_float x) = show_float x"
    by (simp add: takeWhile_eq_all_conv)
  with False have z: "\<forall>c \<in> set (show_float x). c = CHR ''0'' \<or> c = CHR ''.'' \<or> c = CHR ''-''" by simp
  have "c = CHR ''0''" if c: "c \<in> set (show_nat n @ fr)" for c
  proof -
    have "c \<in> set (show_float x)" using c by (auto simp: s)
    with z have "c = CHR ''0'' \<or> c = CHR ''.'' \<or> c = CHR ''-''" by blast
    moreover have "c \<noteq> CHR ''.''" "c \<noteq> CHR ''-''" using dig [OF c] by (auto simp: is_digit_def)
    ultimately show ?thesis by blast
  qed
  then have "set (show_nat n @ fr) \<subseteq> {CHR ''0''}" by blast
  then have "show_nat n @ fr = replicate (length (show_nat n @ fr)) CHR ''0''" by (intro replicate_eqI) auto
  then have "read_nat (show_nat n @ fr) = 0" using read_nat_zeros [of _ "[]"] by (metis append_Nil2 read_nat_Nil)
  then have "decimal_value (show_float x) = 0"
    using decimal_value_parts [OF d] by (simp add: s show_nat_digits(2))
  then have "x = 0" using decimal_of_show_float [OF assms] by simp
  moreover have "real_number ''0.0'' = Finite 0" by code_simp
  moreover have "or_else (Some (JReal (show_float x))) (JReal ''0.0'') = JReal ''0.0''"
    using False by (simp only: or_else_def option.case if_False)
  ultimately show ?thesis by (simp add: kb_spent_def py_float_def)
qed

lemma kb_record_up:
  assumes "cache_laws r look" "kb_cache env = Some r" "spent_is look env x s" "\<And>s. kb_month env s = m"
    and "0 \<le> x + cost" "(x + cost) * 10 ^ j \<in> \<int>" "j \<le> 17"
  shows "spent_is look env (x + cost) (kb_record_cost env cost s)"
proof -
  let ?k = "kb_key env s"
  obtain v s1 where g: "cache_get (Some r) ?k ''budget'' s = (v, s1)" by fastforce
  then have v: "kb_spent v = Some (Finite x)" "look s1 = look s"
    using assms(3) cache_get_up [OF assms(1), of ?k "''budget''" s] by (auto simp: spent_is_def)
  have k: "kb_key env t = ''kb:budget:'' @ m" for t by (simp add: kb_key_def assms(4))
  have "kb_record_cost env cost s = cache_set (Some r) ?k (JReal (show_float (x + cost))) 2678400 ''budget'' s1"
    using g v(1) by (simp add: kb_record_cost_def assms(2) k)
  then have "look (kb_record_cost env cost s) = (look s1)(full_key ''budget'' ?k \<mapsto> json_dumps (JReal (show_float (x + cost))))"
    using cache_set_up [OF assms(1)] by simp
  then show ?thesis
    using cached_upd [OF wf_show_float [OF assms(5)], of _ "''budget''" ?k] kb_spent_float [OF assms(5-7)]
    unfolding spent_is_def k by (simp del: json_dumps.simps)
qed

lemma kb_run_spends:
  assumes "cache_laws r look" "kb_cache env = Some r" "\<And>s. kb_month env s = m"
    and "0 < cost" "cost * 10 ^ j \<in> \<int>" "j \<le> 17"
  shows "spent_is look env (of_nat k * cost) s \<Longrightarrow>
    fst (kb_run env cost n s) = min n (nat \<lfloor>kb_monthly_budget env / cost\<rfloor> - k)"
proof (induction n arbitrary: k s)
  case (Suc n)
  let ?q = "nat \<lfloor>kb_monthly_budget env / cost\<rfloor>"
  obtain b s1 where c: "kb_check_budget env cost s = (b, s1)" by fastforce
  have s1: "spent_is look env (of_nat k * cost) s1"
    using Suc.prems kb_check_up(2) [OF assms(1,2) Suc.prems, of cost] c by (simp add: spent_is_def kb_key_def assms(3))
  have "b \<longleftrightarrow> of_nat (Suc k) * cost \<le> kb_monthly_budget env"
    using kb_check_up(1) [OF assms(1,2) Suc.prems, of cost] c by (simp add: algebra_simps)
  also have "\<dots> \<longleftrightarrow> of_nat (Suc k) \<le> kb_monthly_budget env / cost" using assms(4) by (simp add: pos_le_divide_eq)
  also have "\<dots> \<longleftrightarrow> Suc k \<le> ?q"
    using le_floor_iff [of "int (Suc k)" "kb_monthly_budget env / cost"] by (auto simp: Suc_le_eq zless_nat_eq_int_zless)
  finally have b: "b \<longleftrightarrow> Suc k \<le> ?q" .
  show ?case
  proof (cases b)
    case True
    have "(of_nat k * cost + cost) * 10 ^ j = of_nat (Suc k) * (cost * 10 ^ j)" by (simp add: algebra_simps)
    then have "(of_nat k * cost + cost) * 10 ^ j \<in> \<int>" using assms(5) by (simp only: Ints_mult Ints_of_nat)
    from kb_record_up [OF assms(1,2) s1 assms(3) _ this assms(6)] assms(4)
    have "spent_is look env (of_nat (Suc k) * cost) (kb_record_cost env cost s1)" by (simp add: algebra_simps)
    from Suc.IH [OF this] True c b show ?thesis by (auto split: prod.splits)
  qed (use Suc.IH [OF s1] c b in auto)
qed simp

text \<open>
  The monthly budget is a cap: while the cache is up and the month does not change, of any
  number of distillations asking one after the other exactly as many are granted as the budget
  pays for, starting from a month without entry; what the cache then holds never exceeds it.
\<close>

theorem monthly_budget_is_a_cap:
  assumes "cache_laws r look" "kb_cache env = Some r" "\<And>s. kb_month env s = m"
    and "look s (full_key ''budget'' (kb_key env s)) = None"
  shows "fst (kb_run env ESTIMATED_COST_PER_DISTILL n s) = min n (nat \<lfloor>kb_monthly_budget env / ESTIMATED_COST_PER_DISTILL\<rfloor>)"
proof -
  have "real_number ''0.0'' = Finite 0" by code_simp
  with assms(4) have "spent_is look env (of_nat 0 * ESTIMATED_COST_PER_DISTILL) s"
    by (simp add: spent_is_def cached_def kb_spent_def or_else_def py_float_def)
  moreover have "ESTIMATED_COST_PER_DISTILL * 10 ^ 2 \<in> \<int>" by (simp add: ESTIMATED_COST_PER_DISTILL_def)
  moreover have "0 < ESTIMATED_COST_PER_DISTILL" by (simp add: ESTIMATED_COST_PER_DISTILL_def)
  ultimately show ?thesis using kb_run_spends [OF assms(1-3), of _ 2 0 s n] by simp
qed

definition demo_kb :: "(string \<Rightarrow> string option) kb_env" where
  "demo_kb =
     \<lparr>kb_cache = Some map_cache, kb_month = (\<lambda>s. ''202601''), kb_monthly_budget = 50,
      kb_embed_model_id = ''titan'', kb_embed_model = (\<lambda>i b s. (Inl ''down'', s)), kb_db = None, kb_new_id = (\<lambda>s. (''id'', s))\<rparr>"

theorem monthly_budget_is_a_cap_witness:
  "fst (kb_run demo_kb ESTIMATED_COST_PER_DISTILL 500 Map.empty) = 185"
proof -
  have "\<lfloor>(50 :: rat) / (27/100)\<rfloor> = 185" by (simp add: floor_eq_iff)
  then show ?thesis
    using monthly_budget_is_a_cap [OF map_cache_laws, of demo_kb "''202601''" Map.empty 500]
    by (simp add: demo_kb_def ESTIMATED_COST_PER_DISTILL_def)
qed

section \<open>What the pipeline does not look at\<close>

text \<open>A delta that is to supersede an item, or to do nothing, is inserted like a new one.\<close>

lemma action_is_ignored: "distill_delta env i (d\<lparr>kd_action := a, kd_supersedes_id := b\<rparr>) s = distill_delta env i d s"
proof -
  have "decide_status (d\<lparr>kd_action := a, kd_supersedes_id := b\<rparr>) = decide_status d" by (simp add: decide_status_def)
  moreover have "kd_title (d\<lparr>kd_action := a, kd_supersedes_id := b\<rparr>) = kd_title d" "kd_content (d\<lparr>kd_action := a, kd_supersedes_id := b\<rparr>) = kd_content d"
    "kd_type (d\<lparr>kd_action := a, kd_supersedes_id := b\<rparr>) = kd_type d" "kd_tags (d\<lparr>kd_action := a, kd_supersedes_id := b\<rparr>) = kd_tags d"
    "kd_service_name (d\<lparr>kd_action := a, kd_supersedes_id := b\<rparr>) = kd_service_name d"
    "kd_reasoning (d\<lparr>kd_action := a, kd_supersedes_id := b\<rparr>) = kd_reasoning d"
    "kd_confidence (d\<lparr>kd_action := a, kd_supersedes_id := b\<rparr>) = kd_confidence d"
    by simp_all
  ultimately show ?thesis unfolding distill_delta_def by (simp only:)
qed

text \<open>The threshold above one, which is to keep decisions from being approved unseen, is not out of reach.\<close>

lemma decision_is_approved_above_one:
  "kd_type d = JStr ''decision'' \<Longrightarrow> kd_confidence d = Finite 2 \<Longrightarrow> decide_status d = Some ''active''"
  by (simp add: decide_status_def threshold_of_def THRESHOLDS_def)

text \<open>A drafting call that yields no draft costs nothing in the books.\<close>

lemma empty_draft_is_not_charged:
  assumes "rca_confidence rca \<noteq> ''baixa''" "kb_check_budget env ESTIMATED_COST_PER_DISTILL s = (True, s1)"
    and "extract_deltas be env rca c s1 = ([], c2, s2)"
  shows "distill_rca be env rca i c s = (c2, s2)"
  using assms by (simp add: distill_rca_def)

text \<open>What a search returns is as similar as was asked.\<close>

lemma rows_to_items_set: "rows_to_items rs = Some is \<Longrightarrow> \<forall>i \<in> set is. \<exists>r \<in> set rs. row_to_item r = Some i"
  by (induction rs arbitrary: "is") (auto split: option.splits)

lemma search_is_similar:
  assumes "kb_search_similar env emb k th svc s = (items, s')" "i \<in> set items" "kb_db env = Some db"
  shows "\<exists>v rows r. fst (db_search db v k svc s) = Inr rows \<and> r \<in> set rows \<and> row_to_item r = Some i \<and>
    number_le (Finite th) (kr_similarity r)"
proof -
  obtain v rows where v: "pgvector emb = Some v" "db_search db v k svc s = (Inr rows, s')"
    and i: "rows_to_items (filter (\<lambda>r. number_le (Finite th) (kr_similarity r)) rows) = Some items"
    using assms by (auto simp: kb_search_similar_def or_nothing_def split: option.splits sum.splits prod.splits)
  from rows_to_items_set [OF i] assms(2) obtain r where "r \<in> set rows" "number_le (Finite th) (kr_similarity r)" "row_to_item r = Some i"
    by auto
  moreover have "fst (db_search db v k svc s) = Inr rows" using v(2) by simp
  ultimately show ?thesis by blast
qed

end
