(* ===== verification/Investigate.thy ===== *)
theory Investigate
  imports Kb
begin

text \<open>
  Investigations, src/src/supervisor/investigation.py: the fan-out that collects evidence, the reading of
  the answers, and the synthesis of the analysis.  The agents of one fan-out run in the order of the list,
  where the code gathers them concurrently.  An evidence item is read when its four fields are texts, as
  its class declares them; an answer with another kind of value in one of them is left out of the model,
  which then gives the error \<open>UNTYPED_EVIDENCE\<close>.
\<close>

section \<open>Fan-out\<close>

text \<open>
  The agents of the supervisor, by name.  One request to each of a list of agents: the answers in order,
  an exception taking the place of an answer.  A request is None when its text is none (the model's
  sub-question is not checked for type): the agent then raises at once.
\<close>

type_synonym agents = "(string \<times> agent) list"

fun fan_out ::
    "'s agent_env \<Rightarrow> (string \<times> agent_request option) list \<Rightarrow> agents \<Rightarrow> 's agent_state \<Rightarrow>
     (guard_error + conv_message) list \<times> agents \<times> 's agent_state" where
  "fan_out env [] ags st = ([], ags, st)"
| "fan_out env ((n, q) # qs) ags st =
     (case (dict_get ags n, q) of
        (Some ag, Some rq) \<Rightarrow>
          (case agent_process_request env ag rq st of
             (r, ag', st1) \<Rightarrow>
               (case fan_out env qs (dict_set ags n ag') st1 of (rs, ags', st') \<Rightarrow> (r # rs, ags', st')))
      | (None, _) \<Rightarrow> (case fan_out env qs ags st of (rs, ags', st') \<Rightarrow> (Inl (GuardrailRaised ''KeyError'') # rs, ags', st'))
      | (Some ag, None) \<Rightarrow>
          (case fan_out env qs ags st of (rs, ags', st') \<Rightarrow> (Inl (GuardrailRaised ''AttributeError'') # rs, ags', st')))"

text \<open>The first refusal among the answers.\<close>

fun first_refusal :: "(guard_error + 'a) list \<Rightarrow> guard_error option" where
  "first_refusal [] = None"
| "first_refusal (Inl (GuardrailBlocked why src cats) # rs) = Some (GuardrailBlocked why src cats)"
| "first_refusal (r # rs) = first_refusal rs"

section \<open>Evidence\<close>

definition UNTYPED_EVIDENCE :: exn where
  "UNTYPED_EVIDENCE = ''an evidence field is not a text''"

definition text_of :: "json \<Rightarrow> string option" where
  "text_of v = (case v of JStr t \<Rightarrow> Some t | _ \<Rightarrow> None)"

definition evidence_of_json :: "string \<Rightarrow> json \<Rightarrow> evidence option" where
  "evidence_of_json source_agent item =
     (case (text_of (dict_field item ''signal_type'' (JStr ''unknown'')), text_of (dict_field item ''timestamp'' (JStr [])),
            text_of (dict_field item ''strength'' (JStr ''fraca'')), text_of (dict_field item ''summary'' (JStr []))) of
        (Some ty, Some ts, Some strength, Some summary) \<Rightarrow> Some (new_evidence source_agent ty ts strength summary)
      | _ \<Rightarrow> None)"

fun evidence_items :: "string \<Rightarrow> json list \<Rightarrow> evidence list option" where
  "evidence_items source_agent [] = Some []"
| "evidence_items source_agent (item # items) =
     (if \<not> is_dict item then evidence_items source_agent items
      else (case (evidence_of_json source_agent item, evidence_items source_agent items) of
              (Some e, Some es) \<Rightarrow> Some (e # es)
            | _ \<Rightarrow> None))"

definition whole_response :: "string \<Rightarrow> string \<Rightarrow> evidence" where
  "whole_response source_agent t = new_evidence source_agent ''unknown'' [] ''fraca'' (take 500 t)"

text \<open>None is the case of untyped evidence.\<close>

definition parse_evidence :: "string \<Rightarrow> string \<Rightarrow> evidence list option" where
  "parse_evidence response source_agent =
     (let t = py_strip response
      in case slice_between (CHR ''['') (CHR '']'') t of
           Some (c # cs) \<Rightarrow>
             (case json_loads (c # cs) of
                Some (JList items) \<Rightarrow> evidence_items source_agent items
              | _ \<Rightarrow> Some [whole_response source_agent t])
         | _ \<Rightarrow> Some [whole_response source_agent t])"

text \<open>The evidence of all answers; those of failed agents are passed over.\<close>

fun pool_evidence :: "(string \<times> (guard_error + conv_message)) list \<Rightarrow> evidence list option" where
  "pool_evidence [] = Some []"
| "pool_evidence ((n, Inl e) # rs) = pool_evidence rs"
| "pool_evidence ((n, Inr m) # rs) =
     (case (parse_evidence (cm_content m) n, pool_evidence rs) of (Some es, Some es') \<Rightarrow> Some (es @ es') | _ \<Rightarrow> None)"

section \<open>Synthesis\<close>

definition RCA_SYNTHESIZER_PROMPT :: string where
  "RCA_SYNTHESIZER_PROMPT =
     ''You are an RCA (Root Cause Analysis) synthesizer.'' @ nl @ nl @ ''You receive:'' @ nl
     @ ''1. A symptom description'' @ nl
     @ ''2. Evidence collected from N specialist agents (each with timestamp, strength, summary)'' @ nl
     @ ''3. A timeline of temporal events'' @ nl @ nl @ ''Produce a structured RCA result as JSON:'' @ nl
     @ ''{'' @ nl @ ''  '' @ [CHR 0x22] @ ''hypothesis'' @ [CHR 0x22] @ '': '' @ [CHR 0x22]
     @ ''single-sentence root cause hypothesis'' @ [CHR 0x22] @ '','' @ nl @ ''  '' @ [CHR 0x22]
     @ ''reasoning'' @ [CHR 0x22] @ '': '' @ [CHR 0x22] @ ''how the evidence supports the hypothesis''
     @ [CHR 0x22] @ '','' @ nl @ ''  '' @ [CHR 0x22] @ ''contradicting_evidence_indices'' @ [CHR 0x22]
     @ '': [list of indices in evidence array that CONTRADICT the hypothesis],'' @ nl @ ''  '' @ [CHR 0x22]
     @ ''prevention'' @ [CHR 0x22] @ '': ['' @ [CHR 0x22] @ ''actionable item 1'' @ [CHR 0x22] @ '', ''
     @ [CHR 0x22] @ ''actionable item 2'' @ [CHR 0x22] @ '', ...]'' @ nl @ ''}'' @ nl @ nl @ ''RULES:'' @ nl
     @ ''- If evidence is insufficient, say so in hypothesis (e.g., '' @ [CHR 0x22]
     @ ''Insufficient evidence; needs X to confirm'' @ [CHR 0x22] @ '')'' @ nl
     @ ''- Identify contradicting evidence honestly (don'' @ [CHR 0x27] @ ''t ignore it)'' @ nl
     @ ''- Prevention items should be concrete: alert/test/guardrail/runbook'' @ nl
     @ ''- Output ONLY valid JSON, no preamble.''"

definition evidence_line :: "nat \<Rightarrow> evidence \<Rightarrow> string" where
  "evidence_line i e =
     ''['' @ show_nat i @ ''] '' @ ev_source_agent e @ '' | '' @ ev_signal_type e @ '' | '' @ ev_strength e @ '' | ''
     @ ev_timestamp e @ '' | '' @ ev_summary e"

definition evidence_block :: "evidence list \<Rightarrow> string" where
  "evidence_block es =
     (if es = [] then ''(no evidence collected)'' else py_join nl (map2 evidence_line [0..<length es] es))"

definition timeline_block :: "evidence list \<Rightarrow> string" where
  "timeline_block es =
     (if es = [] then ''(no temporal evidence)''
      else py_join nl (map (\<lambda>e. ev_timestamp e @ '' | '' @ ev_source_agent e @ '' | '' @ ev_summary e
             @ (if ev_is_causal_candidate e then '' *** CAUSAL CANDIDATE ***'' else [])) es))"

definition synthesis_message :: "string \<Rightarrow> string \<Rightarrow> evidence list \<Rightarrow> evidence list \<Rightarrow> string" where
  "synthesis_message symptom rag_block es timeline =
     ''<symptom>'' @ nl @ symptom @ nl @ ''</symptom>'' @ nl @ nl
     @ rag_block @ ''<evidence>'' @ nl @ evidence_block es @ nl @ ''</evidence>'' @ nl @ nl
     @ ''<timeline>'' @ nl @ timeline_block timeline @ nl @ ''</timeline>'' @ nl @ nl @ ''Produce the RCA JSON.''"

definition synthesis_request :: "string \<Rightarrow> rat \<Rightarrow> string \<Rightarrow> string \<Rightarrow> invoke_request" where
  "synthesis_request system_prompt temperature session_id user_msg =
     \<lparr>iq_messages = [\<lparr>im_role = ''user'', im_content = CPlain user_msg\<rparr>], iq_system_prompt = system_prompt,
      iq_max_tokens = 4096, iq_temperature = temperature, iq_use_cache = True, iq_match_user_language = True,
      iq_session_id = session_id, iq_role = ''synthesis'', iq_budget_session_id = None, iq_skip_input_guardrail = True\<rparr>"

text \<open>Hypothesis, contradicting indices and prevention of the model's answer.\<close>

definition read_rca :: "string \<Rightarrow> json \<times> json \<times> json" where
  "read_rca response =
     (let fields = (\<lambda>parsed. (dict_field parsed ''hypothesis'' (JStr ''Insufficient evidence to form hypothesis''),
                      or_else (Some (dict_field parsed ''contradicting_evidence_indices'' (JList []))) (JList []),
                      or_else (Some (dict_field parsed ''prevention'' (JList []))) (JList [])))
      in case slice_between (CHR ''{'') (CHR ''}'') response of
           None \<Rightarrow> fields (JObj [])
         | Some t \<Rightarrow>
             (case json_loads t of
                None \<Rightarrow> (JStr (take 500 response), JList [], JList [])
              | Some parsed \<Rightarrow> fields parsed))"

text \<open>
  \<open>[evidence[i] for i in indices if 0 <= i < len(evidence)]\<close>; None where a comparison or the indexing
  raises: an index that is no number, or a float in the range.
\<close>

fun pick_indices :: "evidence list \<Rightarrow> json list \<Rightarrow> evidence list option" where
  "pick_indices es [] = Some []"
| "pick_indices es (i # is) =
     (case json_number i of
        None \<Rightarrow> None
      | Some x \<Rightarrow>
          (if number_le (Finite 0) x \<and> number_less x (Finite (of_nat (length es)))
           then (case (i, pick_indices es is) of
                   (JInt n, Some ps) \<Rightarrow> Some (es ! nat n # ps)
                 | (JBool b, Some ps) \<Rightarrow> Some (es ! (if b then 1 else 0) # ps)
                 | _ \<Rightarrow> None)
           else pick_indices es is))"

definition model_rank :: "string \<Rightarrow> nat" where
  "model_rank level = (if level = ''HIGH'' then 2 else if level = ''MEDIUM'' then 1 else 0)"

definition legacy_rank :: "string \<Rightarrow> nat" where
  "legacy_rank c = (if c = ''alta'' then 2 else if c = ''media'' then 1 else 0)"

definition rank_to_legacy :: "nat \<Rightarrow> string" where
  "rank_to_legacy r = (if r = 0 then ''baixa'' else if r = 1 then ''media'' else ''alta'')"

text \<open>The analysis of an answer; the scores always return (\<open>score_returns\<close> below).\<close>

definition assemble_rca :: "evidence list \<Rightarrow> evidence list \<Rightarrow> string \<Rightarrow> exn + rca_result" where
  "assemble_rca es timeline response =
     (case read_rca response of
        (hypothesis, indices, prevention) \<Rightarrow>
          (case (case json_items indices of None \<Rightarrow> None | Some is \<Rightarrow> pick_indices es is) of
             None \<Rightarrow> Inl ''TypeError''
           | Some contradicting \<Rightarrow>
               (case (score_confidence es, count_independent es) of
                  (Some (level, track), Some n) \<Rightarrow>
                    Inr \<lparr>rca_hypothesis = hypothesis,
                      rca_confidence = rank_to_legacy (min (model_rank level) (legacy_rank (correlate es contradicting))),
                      rca_evidence = es, rca_timeline = timeline, rca_contradicting = contradicting, rca_prevention = prevention,
                      rca_confidence_level = level, rca_confidence_track = track, rca_independent_signal_count = n,
                      rca_temporal_violations = validate_temporal_order es\<rparr>
                | _ \<Rightarrow> Inl ''no score'')))"

definition synthesize_rca ::
    "'s bedrock_env \<Rightarrow> 's kb_env \<Rightarrow> string \<Rightarrow> evidence list \<Rightarrow> evidence list \<Rightarrow> string \<Rightarrow> bedrock_client \<Rightarrow> 's \<Rightarrow>
     (guard_error + rca_result) \<times> bedrock_client \<times> 's" where
  "synthesize_rca be kb symptom es timeline session_id c s =
     (case inject_similar_cases kb symptom None 3 (75/100) s of
        (rag_block, s1) \<Rightarrow>
          (case bedrock_invoke be (synthesis_request RCA_SYNTHESIZER_PROMPT (2/10) session_id
                  (synthesis_message symptom rag_block es timeline)) c s1 of
             (Inl e, c', s') \<Rightarrow> (Inl e, c', s')
           | (Inr response, c', s') \<Rightarrow> (map_sum GuardrailRaised id (assemble_rca es timeline response), c', s')))"

section \<open>The investigation\<close>

record 's squad_env =
  sq_agent :: "'s agent_env"
  sq_kb :: "'s kb_env"
  sq_new_id :: "'s \<Rightarrow> string \<times> 's"
  sq_max_agents :: int

definition evidence_query :: "string \<Rightarrow> string" where
  "evidence_query symptom =
     ''Collect evidence for the following symptom. Return your findings as a JSON list of evidence items, each with fields: ''
     @ ''signal_type (metric|log|trace|event|deploy|infra), timestamp (ISO8601, '' @ [CHR 0x27, CHR 0x27]
     @ '' if not applicable), strength (forte|media|fraca), summary. Symptom: '' @ symptom"

definition evidence_request :: "string \<Rightarrow> string \<Rightarrow> string \<Rightarrow> string option \<Rightarrow> agent_request" where
  "evidence_request symptom session_id investigation_id model_id_override =
     \<lparr>rq_input = evidence_query symptom, rq_session_id = session_id @ ''-inv-'' @ take 8 investigation_id, rq_history = [],
      rq_budget_session_id = Some session_id, rq_model_id_override = model_id_override\<rparr>"

definition chosen_agents :: "'s squad_env \<Rightarrow> agents \<Rightarrow> string list \<Rightarrow> string list" where
  "chosen_agents env ags relevant_agent_names =
     slice_to (sq_max_agents env) (if relevant_agent_names = [] then map fst ags else relevant_agent_names)"

text \<open>\<open>len(v)\<close> raises for a number, a truth value and null.\<close>

definition has_len :: "json \<Rightarrow> bool" where
  "has_len v = (case v of JStr t \<Rightarrow> True | JList xs \<Rightarrow> True | JObj ms \<Rightarrow> True | _ \<Rightarrow> False)"

definition conclude_investigation ::
    "'s squad_env \<Rightarrow> string \<Rightarrow> string \<Rightarrow> (string \<times> (guard_error + conv_message)) list \<Rightarrow> 's agent_state \<Rightarrow>
     (guard_error + rca_result) \<times> 's agent_state" where
  "conclude_investigation env symptom session_id answers st =
     (case pool_evidence answers of
        None \<Rightarrow> (Inl (GuardrailRaised UNTYPED_EVIDENCE), st)
      | Some collected \<Rightarrow>
          (case build_timeline collected of
             (timeline, es) \<Rightarrow>
               (case synthesize_rca (ae_bedrock (sq_agent env)) (sq_kb env) symptom es timeline session_id (as_client st) (as_world st) of
                  (r, c, s) \<Rightarrow>
                    (case r of
                       Inl e \<Rightarrow> Inl e
                     | Inr rca \<Rightarrow> if has_len (rca_hypothesis rca) then Inr rca else Inl (GuardrailRaised ''TypeError''),
                     st\<lparr>as_client := c, as_world := s\<rparr>))))"

definition run_investigation ::
    "'s squad_env \<Rightarrow> string \<Rightarrow> agents \<Rightarrow> string \<Rightarrow> string list \<Rightarrow> string option \<Rightarrow> 's agent_state \<Rightarrow>
     (guard_error + rca_result) \<times> agents \<times> 's agent_state" where
  "run_investigation env symptom0 ags session_id relevant_agent_names model_id_override st =
     (case scan_text (sq_agent env) symptom0 of
        Inl e \<Rightarrow> (Inl e, ags, st)
      | Inr symptom \<Rightarrow>
          (let (iid, s1) = sq_new_id env (as_world st); st1 = st\<lparr>as_world := s1\<rparr>;
               chosen = chosen_agents env ags relevant_agent_names
           in if \<not> set chosen \<subseteq> fst ` set ags then (Inl (GuardrailRaised ''KeyError''), ags, st1)
              else (case fan_out (sq_agent env)
                        (map (\<lambda>n. (n, Some (evidence_request symptom session_id iid model_id_override))) chosen) ags st1 of
                      (results, ags', st2) \<Rightarrow>
                        (case first_refusal results of
                           Some e \<Rightarrow> (Inl e, ags', st2)
                         | None \<Rightarrow>
                             (case conclude_investigation env symptom session_id (zip chosen results) st2 of
                                (r, st3) \<Rightarrow> (r, ags', st3))))))"

section \<open>Lemmas\<close>

lemma score_returns: "\<exists>level track. score_confidence es = Some (level, track)"
  by (auto simp: score_confidence_def count_independent_classes Let_def)

lemma dict_set_same_keys: "dict_get d k \<noteq> None \<Longrightarrow> map fst (dict_set d k v) = map fst d"
  by (induction d k v rule: dict_set.induct) auto

lemma fan_out_names: "fan_out env qs ags st = (rs, ags', st') \<Longrightarrow> map fst ags' = map fst ags"
proof (induction qs arbitrary: ags st rs ags' st')
  case (Cons p qs)
  obtain n q where p: "p = (n, q)" by fastforce
  show ?case
  proof (cases "dict_get ags n = None \<or> q = None")
    case True
    with Cons p show ?thesis by (auto split: prod.splits option.splits)
  next
    case False
    then obtain ag rq where Some: "dict_get ags n = Some ag" "q = Some rq" by auto
    obtain r ag1 st1 where r: "agent_process_request env ag rq st = (r, ag1, st1)" by (cases "agent_process_request env ag rq st") auto
    obtain rs2 ags2 st2 where f: "fan_out env qs (dict_set ags n ag1) st1 = (rs2, ags2, st2)"
      by (cases "fan_out env qs (dict_set ags n ag1) st1") auto
    from Some have "map fst (dict_set ags n ag1) = map fst ags" by (intro dict_set_same_keys) simp
    with Cons.IH [OF f] Cons.prems p Some r f show ?thesis by simp
  qed
qed simp

lemma length_fan_out: "fan_out env qs ags st = (rs, ags', st') \<Longrightarrow> length rs = length qs"
  by (induction qs arbitrary: ags st rs ags' st') (auto split: option.splits prod.splits)

lemma first_refusal_None: "first_refusal rs = None \<Longrightarrow> Inl (GuardrailBlocked w src cats) \<notin> set rs"
  by (induction rs rule: first_refusal.induct) auto

lemma first_refusal_Some: "first_refusal rs = Some e \<Longrightarrow> \<exists>w src cats. e = GuardrailBlocked w src cats \<and> Inl e \<in> set rs"
  by (induction rs rule: first_refusal.induct) auto

definition from_agent :: "string \<Rightarrow> evidence \<Rightarrow> bool" where
  "from_agent n e \<longleftrightarrow> ev_source_agent e = n \<and> ev_causal_layer e = [] \<and> \<not> ev_contradicts_hypothesis e"

lemma from_agent_new: "from_agent n (new_evidence n ty ts strength summary)"
  by (simp add: from_agent_def new_evidence_def)

lemma evidence_items_from: "evidence_items n items = Some es \<Longrightarrow> list_all (from_agent n) es"
proof (induction items arbitrary: es)
  case (Cons item items)
  then show ?case
    by (auto simp: evidence_of_json_def from_agent_new split: if_splits option.splits)
qed simp

lemma parse_evidence_from: "parse_evidence t n = Some es \<Longrightarrow> list_all (from_agent n) es"
  by (auto simp: parse_evidence_def Let_def whole_response_def from_agent_new evidence_items_from
      split: option.splits list.splits json.splits)

lemma pool_evidence_from:
  "pool_evidence answers = Some es \<Longrightarrow> list_all (\<lambda>e. \<exists>n \<in> fst ` set answers. from_agent n e) es"
proof (induction answers arbitrary: es rule: pool_evidence.induct)
  case (3 n m rs)
  then obtain es1 es2 where e: "parse_evidence (cm_content m) n = Some es1" "pool_evidence rs = Some es2" "es = es1 @ es2"
    by (auto split: option.splits)
  from parse_evidence_from [OF e(1)] 3(1) [OF e(2)] e(3) show ?case by (fastforce simp: list_all_iff)
qed (fastforce simp: list_all_iff)+

lemma from_agent_marked:
  "from_agent n (mark_causal e) \<longleftrightarrow> from_agent n e"
  by (simp add: from_agent_def mark_causal_def)

lemma pool_of_timeline: "build_timeline es = (timeline, pool) \<Longrightarrow> pool = map mark_causal es"
  by (simp add: build_timeline_def Let_def)

lemma pick_indices_set: "pick_indices es is = Some ps \<Longrightarrow> set ps \<subseteq> set es"
proof (induction "is" arbitrary: ps)
  case (Cons i "is")
  then show ?case
    by (auto split: option.splits if_splits json.splits simp: not_less)
qed simp

lemma map_sum_Inr: "map_sum f id x = Inr y \<longleftrightarrow> x = Inr y"
  by (cases x) auto

lemma assemble_rca_fields:
  assumes "assemble_rca es tls response = Inr rca"
  shows "rca_evidence rca = es" "rca_timeline rca = tls" "set (rca_contradicting rca) \<subseteq> set es"
    "\<exists>level track. score_confidence es = Some (level, track) \<and> rca_confidence_level rca = level \<and>
       rca_confidence rca = rank_to_legacy (min (model_rank level) (legacy_rank (correlate es (rca_contradicting rca))))"
  using assms by (auto simp: assemble_rca_def dest: pick_indices_set [THEN subsetD] split: prod.splits option.splits)

text \<open>What a returned analysis went through.\<close>

lemma run_investigation_Inr:
  assumes "run_investigation env sy ags sid names ov st = (Inr rca, ags', st')"
  obtains symptom iid st1 rs st2 es timeline response where
    "scan_text (sq_agent env) sy = Inr symptom" "set (chosen_agents env ags names) \<subseteq> fst ` set ags"
    "fan_out (sq_agent env) (map (\<lambda>n. (n, Some (evidence_request symptom sid iid ov))) (chosen_agents env ags names)) ags st1 = (rs, ags', st2)"
    "first_refusal rs = None" "pool_evidence (zip (chosen_agents env ags names) rs) = Some es"
    "build_timeline es = (timeline, rca_evidence rca)" "assemble_rca (rca_evidence rca) timeline response = Inr rca"
    "has_len (rca_hypothesis rca)"
proof -
  from assms obtain symptom where s: "scan_text (sq_agent env) sy = Inr symptom"
    by (auto simp: run_investigation_def split: sum.splits)
  obtain iid s1 where i: "sq_new_id env (as_world st) = (iid, s1)" by fastforce
  let ?ch = "chosen_agents env ags names" and ?st1 = "st\<lparr>as_world := s1\<rparr>"
  obtain rs ags2 st2 where f:
    "fan_out (sq_agent env) (map (\<lambda>n. (n, Some (evidence_request symptom sid iid ov))) ?ch) ags ?st1 = (rs, ags2, st2)"
    by (cases "fan_out (sq_agent env) (map (\<lambda>n. (n, Some (evidence_request symptom sid iid ov))) ?ch) ags ?st1") auto
  have c: "set ?ch \<subseteq> fst ` set ags" and n: "first_refusal rs = None" and a: "ags2 = ags'"
    and r: "conclude_investigation env symptom sid (zip ?ch rs) st2 = (Inr rca, st')"
    using assms s i f by (auto simp: run_investigation_def Let_def split: if_splits option.splits prod.splits)
  from r obtain es where p: "pool_evidence (zip ?ch rs) = Some es"
    by (auto simp: conclude_investigation_def split: option.splits)
  obtain timeline pool where t: "build_timeline es = (timeline, pool)" by fastforce
  from r p t obtain c' s' where y:
    "synthesize_rca (ae_bedrock (sq_agent env)) (sq_kb env) symptom pool timeline sid (as_client st2) (as_world st2) = (Inr rca, c', s')"
    and h: "has_len (rca_hypothesis rca)"
    by (auto simp: conclude_investigation_def split: sum.splits prod.splits if_splits)
  then obtain response where m: "assemble_rca pool timeline response = Inr rca"
    by (auto simp: synthesize_rca_def map_sum_Inr split: prod.splits sum.splits)
  then have "rca_evidence rca = pool" by (rule assemble_rca_fields)
  with that [OF s c _ n p _ _ h] f a t m show thesis by auto
qed

section \<open>A quiet squad\<close>

text \<open>
  A squad without screens and data sources, whose model answers by the temperature it is asked with:
  the requests of the examples run on it.
\<close>

definition quiet_settings :: settings where
  "quiet_settings = (default_settings ''h'')\<lparr>cfg_input_scanner_enabled := False, cfg_output_filter_enabled := False,
     cfg_response_quality_enabled := False, cfg_canary_enabled := False\<rparr>"

definition quiet_bedrock :: "(rat \<Rightarrow> string) \<Rightarrow> 's bedrock_env" where
  "quiet_bedrock ans =
     \<lparr>bd_settings = quiet_settings, bd_redis = None, bd_guardrail = \<lparr>gr_enabled = False, gr_id = [], gr_version = []\<rparr>,
      bd_guard_service = (\<lambda>i v src t s. (Inl (AwsError ''off''), s)), bd_clock = (\<lambda>s. 0),
      bd_invoke_model = (\<lambda>m body s. (Inr \<lparr>ir_input_tokens = 0, ir_output_tokens = 0, ir_text = Some (ans (ib_temperature body))\<rparr>, s)),
      bd_converse = (\<lambda>p s. (Inl (OtherModelError ''down''), s)), bd_sleep = (\<lambda>a s. s)\<rparr>"

definition quiet_sources :: "'s source_env" where
  "quiet_sources =
     \<lparr>se_cache = None, se_sha256 = (\<lambda>t. t), se_getenv = Map.empty, se_date = (\<lambda>n s. ''2026-01-01''),
      se_ec2 = (\<lambda>s. (Inr [], s)), se_s3 = (\<lambda>s. (Inr None, s)), se_rds = (\<lambda>s. (Inr [], s)),
      se_ce = (\<lambda>a b s. (Inr [], s)), se_iam = (\<lambda>s. (Inr [], s)), se_incluster = (\<lambda>s. (ConfigLoaded, s)),
      se_kube_config = (\<lambda>s. (Inr (), s)), se_k8s_list = (\<lambda>k s. (Inr [], s)), se_http_get = (\<lambda>u h s. (Inr (200, []), s)),
      se_http_error = (\<lambda>n u. []), se_athena_start = (\<lambda>q d w s. (Inr [], s)), se_athena_state = (\<lambda>i s. (Inr [], s)),
      se_athena_rows = (\<lambda>i s. (Inr [], s)), se_sleep = (\<lambda>n s. s),
      se_mcp = \<lparr>sv_list_tools = (\<lambda>u s. (Inl (Exc ''ConnectError'' [] [] None), s)), sv_call_tool = (\<lambda>u t a s. (CallTimeout, s))\<rparr>\<rparr>"

definition quiet_env :: "(rat \<Rightarrow> string) \<Rightarrow> 's agent_env" where
  "quiet_env ans =
     \<lparr>ae_bedrock = quiet_bedrock ans, ae_sources = quiet_sources, ae_gate = None, ae_unicode = ascii_unicode,
      ae_fresh_tokens = (\<lambda>s. ([], s)), ae_now_iso = (\<lambda>s. ''2026-01-01T00:00:00''),
      ae_skills_cap = 3, ae_trim = ''true'', ae_keep_last = 5\<rparr>"

definition quiet_agent :: "string \<Rightarrow> agent" where
  "quiet_agent nm = \<lparr>ag_config = demo_config nm, ag_prompt = ''You help.'', ag_adapters = [], ag_skills = None\<rparr>"

definition quiet_client :: "bedrock_client \<Rightarrow> bool" where
  "quiet_client c \<longleftrightarrow> bc_breaker c = new_breaker ''bedrock'' 5 30"

lemma quiet_breaker: "mem_allow t (new_breaker nm n r) = (True, new_breaker nm n r)" "mem_good (new_breaker nm n r) = new_breaker nm n r"
  by (simp_all add: mem_allow_def mem_good_def new_breaker_def)

lemma quiet_bedrock_simps [simp]:
  "bd_settings (quiet_bedrock ans) = quiet_settings" "bd_redis (quiet_bedrock ans) = None"
  "guard (quiet_bedrock ans) t src s = (Inr (), s)"
  "bd_invoke_model (quiet_bedrock ans) m body s =
     (Inr \<lparr>ir_input_tokens = 0, ir_output_tokens = 0, ir_text = Some (ans (ib_temperature body))\<rparr>, s)"
  by (simp_all add: quiet_bedrock_def guard_def apply_guardrail_def)

lemma quiet_charge:
  "\<exists>c'. charge (quiet_bedrock ans) sid i out c s = (c', s) \<and> (quiet_client c \<longrightarrow> quiet_client c')"
proof -
  have f: "snd (charge (quiet_bedrock ans) sid i out c s) = s" by (simp add: charge_def record_usage_mem)
  obtain c' s' where e: "charge (quiet_bedrock ans) sid i out c s = (c', s')" by (rule prod.exhaust)
  with f charge_breaker [OF e] show ?thesis unfolding quiet_client_def by simp
qed

lemma quiet_invoke:
  assumes "quiet_client c"
  shows "\<exists>c'. bedrock_invoke (quiet_bedrock ans) q c s = (Inr (ans (iq_temperature q)), c', s) \<and> quiet_client c'"
proof -
  have a: "\<exists>c'. invoke_attempts (quiet_bedrock ans) m body sid (Suc k) c s = (Inr (ans (ib_temperature body)), c', s) \<and>
      (quiet_client c \<longrightarrow> quiet_client c')" for m body sid k c
  proof -
    obtain c' where "charge (quiet_bedrock ans) sid 0 0 c s = (c', s)" "quiet_client c \<longrightarrow> quiet_client c'"
      using quiet_charge [of ans sid 0 0 c s] by blast
    then show ?thesis by simp
  qed
  obtain cached c1 where c1: "(if iq_use_cache q \<and> cfg_bedrock_prompt_cache_enabled quiet_settings
      then is_cache_supported c else (False, c)) = (cached, c1)" by fastforce
  then have q1: "quiet_client c1"
    using assms by (auto simp: is_cache_supported_def quiet_client_def split: if_splits option.splits)
  have r: "max_retries = Suc 2" by (simp add: max_retries_def)
  let ?sy = "if iq_match_user_language q then iq_system_prompt q @ nl @ nl @ LANGUAGE_DIRECTIVE else iq_system_prompt q"
  let ?body = "\<lparr>ib_max_tokens = iq_max_tokens q, ib_temperature = iq_temperature q, ib_system = ?sy, ib_cache_control = cached,
      ib_messages = iq_messages q\<rparr>"
  obtain c' where "invoke_attempts (quiet_bedrock ans) (resolve_model quiet_settings (iq_role q)) ?body
      (charged_session (iq_budget_session_id q) (iq_session_id q)) (Suc 2) c1 s = (Inr (ans (ib_temperature ?body)), c', s)" "quiet_client c'"
    using a [of _ ?body _ 2 c1] q1 by blast
  then have i: "invoke_sync (quiet_bedrock ans) q c s = (Inr (ans (iq_temperature q)), c', s)" "quiet_client c'"
    unfolding invoke_sync_def Let_def r quiet_bedrock_simps if_cancel
    by (simp_all only: c1 if_cancel prod.case sum.case invoke_body.select_convs)
  have "c\<lparr>bc_breaker := new_breaker ''bedrock'' 5 30\<rparr> = c" using assms by (simp add: quiet_client_def)
  with i(1) have "invoke_sync (quiet_bedrock ans) q (c\<lparr>bc_breaker := new_breaker ''bedrock'' 5 30\<rparr>) s = (Inr (ans (iq_temperature q)), c', s)"
    by metis
  then have "bedrock_invoke (quiet_bedrock ans) q c s =
      (Inr (ans (iq_temperature q)), c'\<lparr>bc_breaker := mem_good (bc_breaker c')\<rparr>, s)"
    using assms by (simp add: bedrock_invoke_def with_breaker_def quiet_client_def quiet_breaker)
  with i(2) show ?thesis by (simp add: quiet_client_def quiet_breaker)
qed

definition quiet_answer :: "string \<Rightarrow> string \<Rightarrow> conv_message" where
  "quiet_answer nm t =
     \<lparr>cm_role = ''assistant'', cm_content = t, cm_timestamp = ''2026-01-01T00:00:00'', cm_agent_id = Some nm, cm_quality = None\<rparr>"

lemma quiet_switches:
  "ae_settings (quiet_env ans) = quiet_settings" "\<not> cfg_input_scanner_enabled quiet_settings"
  "\<not> cfg_output_filter_enabled quiet_settings" "\<not> cfg_response_quality_enabled quiet_settings" "\<not> cfg_canary_enabled quiet_settings"
  by (simp_all add: quiet_env_def quiet_settings_def)

lemma quiet_scan: "scan_text (quiet_env ans) t = Inr t"
proof -
  have "map char_of (map of_char t :: nat list) = t" by (simp only: list.map_comp comp_def char_of_char map_ident)
  then show ?thesis by (simp add: scan_text_def input_scan_def quiet_switches)
qed

lemma quiet_request_of:
  fixes st :: "'s agent_state"
  assumes "quiet_client (as_client st)" "py_strip (rq_input q) \<noteq> []" "ag_config ag = demo_config nm" "mcp_adapters ag = []"
    and collected: "\<And>t s. infra_text (quiet_sources :: 's source_env) (ag_adapters ag) t s = (info, s)"
  shows "\<exists>st'. agent_process_request (quiet_env ans) ag q st = (Inr (quiet_answer nm (ans (1/10))), ag, st') \<and>
    quiet_client (as_client st') \<and> as_world st' = as_world st"
proof -
  let ?env = "quiet_env ans :: 's agent_env"
  have i: "infra_text (ae_sources ?env) (ag_adapters ag) t s = (info, s)" for t s
    using collected by (simp add: quiet_env_def)
  have b: "ae_bedrock ?env = quiet_bedrock ans" by (simp add: quiet_env_def)
  have j: "inject ?env d st = ((d, []), st)" for d st by (simp add: inject_def quiet_switches)
  have w: "st\<lparr>as_world := as_world st\<rparr> = st" by simp
  obtain c where c: "\<And>p ctx. bedrock_invoke (quiet_bedrock ans) (legacy_request ag q p ctx) (as_client st) (as_world st) =
      (Inr (ans (1/10)), c p ctx, as_world st) \<and> quiet_client (c p ctx)"
    using quiet_invoke [OF assms(1), of ans "legacy_request ag q p ctx" "as_world st" for p ctx] assms(3)
    by (simp add: legacy_request_def demo_config_def) metis
  have d: "detect ?env q [] r st' = (Inr r, st')" for r st' by (simp add: detect_def canary_detect_def)
  have f: "finish_answer ?env ag r [] s = Inr (quiet_answer nm r)" for r s
    by (simp add: finish_answer_def output_filter_scan_def quality_scan_def quiet_answer_def quiet_switches)
      (simp add: quiet_env_def assms(3) demo_config_def)
  have "\<exists>st'. answer_paths ?env ag q (rq_input q) st = (Inr (ans (1/10), []), ag, st') \<and>
      quiet_client (as_client st') \<and> as_world st' = as_world st"
    unfolding answer_paths_def legacy_path_def Let_def i assms(4) prod.case w j b using c by (simp add: d)
  then show ?thesis using assms(2) f by (auto simp: agent_process_request_def quiet_scan)
qed

lemma quiet_request:
  assumes "quiet_client (as_client st)" "py_strip (rq_input q) \<noteq> []"
  shows "\<exists>st'. agent_process_request (quiet_env ans) (quiet_agent nm) q st = (Inr (quiet_answer nm (ans (1/10))), quiet_agent nm, st') \<and>
    quiet_client (as_client st') \<and> as_world st' = as_world st"
  using assms
  by (rule quiet_request_of [where info = "[]"])
    (simp_all add: quiet_agent_def mcp_adapters_def map_filter_simps infra_text_def nonempty_def)

definition quiet_kb :: "'s kb_env" where
  "quiet_kb =
     \<lparr>kb_cache = None, kb_month = (\<lambda>s. ''202601''), kb_monthly_budget = 50, kb_embed_model_id = ''titan'',
      kb_embed_model = (\<lambda>i b s. (Inl ''down'', s)), kb_db = None, kb_new_id = (\<lambda>s. (''id'', s))\<rparr>"

definition quiet_squad :: "(rat \<Rightarrow> string) \<Rightarrow> 's squad_env" where
  "quiet_squad ans =
     \<lparr>sq_agent = quiet_env ans, sq_kb = quiet_kb, sq_new_id = (\<lambda>s. (''0123456789'', s)), sq_max_agents = 5\<rparr>"

definition demo_answers :: "rat \<Rightarrow> string" where
  "demo_answers t =
     (if t = 1/10 then ''[{'' @ dump_str ''signal_type'' @ '': '' @ dump_str ''log'' @ '', '' @ dump_str ''summary'' @ '': '' @ dump_str ''oom'' @ ''}]''
      else if t = 2/10 then ''{'' @ dump_str ''hypothesis'' @ '': '' @ dump_str ''leak'' @ ''}'' else ''ok'')"

lemma demo_answers_read:
  "parse_evidence (demo_answers (1/10)) ''k8s'' = Some [new_evidence ''k8s'' ''log'' [] ''fraca'' ''oom'']"
  "assemble_rca [new_evidence ''k8s'' ''log'' [] ''fraca'' ''oom''] [] (demo_answers (2/10)) =
     Inr \<lparr>rca_hypothesis = JStr ''leak'', rca_confidence = ''baixa'', rca_evidence = [new_evidence ''k8s'' ''log'' [] ''fraca'' ''oom''],
       rca_timeline = [], rca_contradicting = [], rca_prevention = JList [], rca_confidence_level = ''LOW'',
       rca_confidence_track = ''INSUFFICIENT'', rca_independent_signal_count = 1, rca_temporal_violations = []\<rparr>"
  by code_simp+

lemma quiet_no_cases: "inject_similar_cases quiet_kb t svc k th s = ([], s)"
  by (simp add: inject_similar_cases_def embed_def quiet_kb_def)

lemma quiet_synthesis:
  assumes "quiet_client c" "assemble_rca es tls (ans (2/10)) = Inr rca"
  shows "\<exists>c'. synthesize_rca (quiet_bedrock ans) quiet_kb symptom es tls sid c s = (Inr rca, c', s) \<and> quiet_client c'"
proof -
  let ?q = "synthesis_request RCA_SYNTHESIZER_PROMPT (2/10) sid (synthesis_message symptom [] es tls)"
  have "iq_temperature ?q = 2/10" by (simp add: synthesis_request_def)
  then obtain c' where "bedrock_invoke (quiet_bedrock ans) ?q c s = (Inr (ans (2/10)), c', s)" "quiet_client c'"
    using quiet_invoke [OF assms(1), of ans ?q s] by metis
  with assms(2) show ?thesis by (simp add: synthesize_rca_def quiet_no_cases)
qed

lemma evidence_query_not_blank: "py_strip (rq_input (evidence_request t sid i ov)) \<noteq> []"
  by (simp add: evidence_request_def evidence_query_def py_strip_def is_space_def)

lemma demo_investigation_of:
  fixes st :: "'s agent_state"
  assumes "quiet_client (as_client st)" "ag_config ag = demo_config ''k8s''" "mcp_adapters ag = []"
    and collected: "\<And>t s. infra_text (quiet_sources :: 's source_env) (ag_adapters ag) t s = (info, s)"
  shows "\<exists>rca st'. run_investigation (quiet_squad demo_answers) t [(''k8s'', ag)] sid [] ov st =
      (Inr rca, [(''k8s'', ag)], st') \<and> quiet_client (as_client st') \<and> as_world st' = as_world st \<and>
      rca_evidence rca = [new_evidence ''k8s'' ''log'' [] ''fraca'' ''oom''] \<and> rca_hypothesis rca = JStr ''leak''"
proof -
  let ?env = "quiet_squad demo_answers :: 's squad_env" and ?ags = "[(''k8s'', ag)]"
  let ?q = "evidence_request t sid ''0123456789'' ov" and ?e = "new_evidence ''k8s'' ''log'' [] ''fraca'' ''oom''"
  have e: "sq_agent ?env = quiet_env demo_answers" "sq_kb ?env = quiet_kb" "sq_new_id ?env = (\<lambda>s. (''0123456789'', s))"
    "chosen_agents ?env ?ags [] = [''k8s'']"
    by (simp_all add: quiet_squad_def chosen_agents_def slice_to_def)
  have w: "st\<lparr>as_world := as_world st\<rparr> = st" by simp
  obtain st1 where r: "agent_process_request (quiet_env demo_answers) ag ?q st =
      (Inr (quiet_answer ''k8s'' (demo_answers (1/10))), ag, st1)"
    and q: "quiet_client (as_client st1)" "as_world st1 = as_world st"
    using quiet_request_of [OF assms(1) evidence_query_not_blank assms(2,3) collected] by metis
  have f: "fan_out (quiet_env demo_answers) [(''k8s'', Some ?q)] ?ags st = ([Inr (quiet_answer ''k8s'' (demo_answers (1/10)))], ?ags, st1)"
    by (simp add: r)
  have p: "pool_evidence [(''k8s'', Inr (quiet_answer ''k8s'' (demo_answers (1/10))))] = Some [?e]"
    by (simp add: quiet_answer_def demo_answers_read(1))
  have m: "build_timeline [?e] = ([], [?e])" by (simp add: build_timeline_def mark_causal_def new_evidence_def)
  have b: "ae_bedrock (quiet_env demo_answers) = quiet_bedrock demo_answers" by (simp add: quiet_env_def)
  from quiet_synthesis [where ans = demo_answers, OF q(1) demo_answers_read(2), of t sid "as_world st1"] obtain rca c' where
    y: "synthesize_rca (quiet_bedrock demo_answers) quiet_kb t [?e] [] sid (as_client st1) (as_world st1) = (Inr rca, c', as_world st1)"
    and h: "rca_hypothesis rca = JStr ''leak''" "rca_evidence rca = [?e]" and c: "quiet_client c'" by auto
  have "conclude_investigation ?env t sid [(''k8s'', Inr (quiet_answer ''k8s'' (demo_answers (1/10))))] st1 =
      (Inr rca, st1\<lparr>as_client := c', as_world := as_world st1\<rparr>)"
    unfolding conclude_investigation_def e p option.case m prod.case b y by (simp add: h has_len_def)
  then have "run_investigation ?env t ?ags sid [] ov st = (Inr rca, ?ags, st1\<lparr>as_client := c', as_world := as_world st1\<rparr>)"
    unfolding run_investigation_def e quiet_scan Let_def sum.case prod.case w by (simp add: f del: fan_out.simps)
  with h c q show ?thesis by auto
qed

lemma demo_investigation:
  assumes "quiet_client (as_client st)"
  shows "\<exists>rca st'. run_investigation (quiet_squad demo_answers) t [(''k8s'', quiet_agent ''k8s'')] sid [] ov st =
      (Inr rca, [(''k8s'', quiet_agent ''k8s'')], st') \<and> quiet_client (as_client st') \<and> as_world st' = as_world st \<and>
      rca_evidence rca = [new_evidence ''k8s'' ''log'' [] ''fraca'' ''oom''] \<and> rca_hypothesis rca = JStr ''leak''"
  using assms
  by (rule demo_investigation_of [where info = "[]"])
    (simp_all add: quiet_agent_def mcp_adapters_def map_filter_simps infra_text_def nonempty_def)

section \<open>Properties\<close>

text \<open>
  C17: an investigation reports only what its agents found: each piece of evidence comes from an agent
  that was asked, the asked agents are registered and no more than the cap, the timeline is the dated
  evidence in order of time, what contradicts the hypothesis is among the evidence, and the agents
  stay the same by name.
\<close>

theorem investigation_is_attributed:
  assumes "run_investigation env sy ags sid names ov st = (Inr rca, ags', st')" "0 \<le> sq_max_agents env"
  shows "ev_source_agent ` set (rca_evidence rca) \<subseteq> set (chosen_agents env ags names) \<and>
    set (chosen_agents env ags names) \<subseteq> fst ` set ags \<and> int (length (chosen_agents env ags names)) \<le> sq_max_agents env \<and>
    set (rca_timeline rca) = {e \<in> set (rca_evidence rca). ev_timestamp e \<noteq> []} \<and> sorted (map ev_timestamp (rca_timeline rca)) \<and>
    set (rca_contradicting rca) \<subseteq> set (rca_evidence rca) \<and> map fst ags' = map fst ags"
  using assms(1)
proof (rule run_investigation_Inr)
  fix symptom iid st1 rs st2 es timeline response
  assume c: "set (chosen_agents env ags names) \<subseteq> fst ` set ags"
    and f: "fan_out (sq_agent env) (map (\<lambda>n. (n, Some (evidence_request symptom sid iid ov))) (chosen_agents env ags names)) ags st1 = (rs, ags', st2)"
    and p: "pool_evidence (zip (chosen_agents env ags names) rs) = Some es"
    and t: "build_timeline es = (timeline, rca_evidence rca)" and m: "assemble_rca (rca_evidence rca) timeline response = Inr rca"
  have "fst ` set (zip (chosen_agents env ags names) rs) \<subseteq> set (chosen_agents env ags names)" by (auto dest: set_zip_leftD)
  with pool_evidence_from [OF p] have "\<forall>e \<in> set es. \<exists>n \<in> set (chosen_agents env ags names). from_agent n (mark_causal e)"
    by (fastforce simp: list_all_iff from_agent_marked)
  then have s: "ev_source_agent ` set (rca_evidence rca) \<subseteq> set (chosen_agents env ags names)"
    by (fastforce simp: pool_of_timeline [OF t] from_agent_def)
  note tls = assemble_rca_fields(2) [OF m] and co = assemble_rca_fields(3) [OF m]
  have n: "int (length (chosen_agents env ags names)) \<le> sq_max_agents env"
    using assms(2) by (simp add: chosen_agents_def slice_to_def)
  show ?thesis
    using s c n co t fan_out_names [OF f] unfolding tls by (auto simp: build_timeline_def Let_def)
qed

theorem investigation_is_attributed_witness:
  "\<exists>rca :: rca_result. rca_evidence rca = [new_evidence ''k8s'' ''log'' [] ''fraca'' ''oom''] \<and>
     ev_source_agent ` set (rca_evidence rca) \<subseteq> {''k8s''}"
proof -
  let ?st = "\<lparr>as_client = new_bedrock_client quiet_settings, as_breakers = [], as_canary = [], as_world = ()\<rparr>"
  have q: "quiet_client (as_client ?st)" by (simp add: quiet_client_def new_bedrock_client_def)
  obtain rca st' where r: "run_investigation (quiet_squad demo_answers) ''oom?'' [(''k8s'', quiet_agent ''k8s'')] ''s1'' [] None ?st =
      (Inr rca, [(''k8s'', quiet_agent ''k8s'')], st')" "rca_evidence rca = [new_evidence ''k8s'' ''log'' [] ''fraca'' ''oom'']"
    using demo_investigation [OF q] by metis
  have "0 \<le> sq_max_agents (quiet_squad demo_answers :: unit squad_env)"
    "chosen_agents (quiet_squad demo_answers :: unit squad_env) [(''k8s'', quiet_agent ''k8s'')] [] = [''k8s'']"
    by (simp_all add: quiet_squad_def chosen_agents_def slice_to_def)
  with investigation_is_attributed [OF r(1)] r(2) show ?thesis by auto
qed

text \<open>
  C18: the model's word never raises the confidence above what the evidence supports: the reported
  level is high exactly when the evidence model scores high, three distinct signals of the agents agree and
  the model names no contradicting evidence.
\<close>

theorem confidence_is_capped_by_the_evidence:
  assumes "synthesize_rca be kb symptom es tls sid c s = (Inr rca, c', s')"
  shows "legacy_rank (rca_confidence rca) \<le> model_rank (rca_confidence_level rca) \<and>
    (rca_confidence rca = ''alta'' \<longleftrightarrow>
       (\<exists>track. score_confidence es = Some (''HIGH'', track)) \<and>
       3 \<le> card ((\<lambda>e. (ev_source_agent e, ev_signal_type e)) ` set es) \<and> rca_contradicting rca = [])"
proof -
  from assms obtain response where m: "assemble_rca es tls response = Inr rca"
    by (auto simp: synthesize_rca_def map_sum_Inr split: prod.splits sum.splits)
  then obtain level track where l: "score_confidence es = Some (level, track)"
    and r: "rca_confidence rca = rank_to_legacy (min (model_rank level) (legacy_rank (correlate es (rca_contradicting rca))))"
      "rca_confidence_level rca = level"
    using assemble_rca_fields(4) by blast
  have k: "legacy_rank (correlate es ps) = 2 \<longleftrightarrow> 3 \<le> card ((\<lambda>e. (ev_source_agent e, ev_signal_type e)) ` set es) \<and> ps = []"
    "legacy_rank (correlate es ps) \<le> 2" for ps
    by (simp_all add: correlate_def Let_def legacy_rank_def)
  have ra: "rank_to_legacy n = ''alta'' \<longleftrightarrow> 2 \<le> n" "legacy_rank (rank_to_legacy n) \<le> n" for n
    by (auto simp: rank_to_legacy_def legacy_rank_def)
  have mr: "2 \<le> model_rank level \<longleftrightarrow> level = ''HIGH''" by (simp add: model_rank_def)
  have "2 \<le> min (model_rank level) (legacy_rank (correlate es (rca_contradicting rca))) \<longleftrightarrow>
      level = ''HIGH'' \<and> 3 \<le> card ((\<lambda>e. (ev_source_agent e, ev_signal_type e)) ` set es) \<and> rca_contradicting rca = []"
    using k [of "rca_contradicting rca"] mr by auto
  with r l ra(1) have "rca_confidence rca = ''alta'' \<longleftrightarrow>
       (\<exists>track. score_confidence es = Some (''HIGH'', track)) \<and>
       3 \<le> card ((\<lambda>e. (ev_source_agent e, ev_signal_type e)) ` set es) \<and> rca_contradicting rca = []" by auto
  moreover have "legacy_rank (rca_confidence rca) \<le> model_rank (rca_confidence_level rca)"
    using ra(2) [of "min (model_rank level) (legacy_rank (correlate es (rca_contradicting rca)))"] r by simp
  ultimately show ?thesis by blast
qed

definition chain_evidence :: "evidence list" where
  "chain_evidence =
     [(new_evidence ''ci'' ''deploy'' ''10:00'' ''forte'' ''v2'')\<lparr>ev_causal_layer := ''change'', ev_fault_domain := ''a''\<rparr>,
      (new_evidence ''k8s'' ''metric'' ''10:01'' ''forte'' ''oom'')\<lparr>ev_causal_layer := ''mechanism'', ev_fault_domain := ''b''\<rparr>,
      (new_evidence ''web'' ''log'' ''10:02'' ''forte'' ''500s'')\<lparr>ev_causal_layer := ''impact'', ev_fault_domain := ''c''\<rparr>]"

theorem confidence_is_capped_by_the_evidence_witness:
  "\<exists>c' rca. synthesize_rca (quiet_bedrock (\<lambda>t. ''{}'')) quiet_kb ''slow'' chain_evidence chain_evidence ''s1''
       (new_bedrock_client quiet_settings) () = (Inr rca, c', ()) \<and> rca_confidence rca = ''alta''"
proof -
  have q: "quiet_client (new_bedrock_client quiet_settings)" by (simp add: quiet_client_def new_bedrock_client_def)
  have "map_sum id (\<lambda>r. (rca_confidence r, rca_contradicting r)) (assemble_rca chain_evidence chain_evidence ''{}'') = Inr (''alta'', [])"
    by code_simp
  then obtain rca where a: "assemble_rca chain_evidence chain_evidence ''{}'' = Inr rca" "rca_confidence rca = ''alta''"
    by (cases "assemble_rca chain_evidence chain_evidence ''{}''") auto
  obtain c' where "synthesize_rca (quiet_bedrock (\<lambda>t. ''{}'')) quiet_kb ''slow'' chain_evidence chain_evidence ''s1''
      (new_bedrock_client quiet_settings) () = (Inr rca, c', ())"
    using quiet_synthesis [where ans = "\<lambda>t. ''{}''", OF q a(1)] by metis
  with confidence_is_capped_by_the_evidence [OF this] a(2) show ?thesis by blast
qed

lemma investigations_are_low:
  assumes "run_investigation env sy ags sid names ov st = (Inr rca, ags', st')"
  shows "rca_confidence rca = ''baixa''"
  using assms
proof (rule run_investigation_Inr)
  fix es timeline response rs
  assume p: "pool_evidence (zip (chosen_agents env ags names) rs) = Some es"
    and t: "build_timeline es = (timeline, rca_evidence rca)" and m: "assemble_rca (rca_evidence rca) timeline response = Inr rca"
  have "\<forall>e \<in> set (rca_evidence rca). ev_causal_layer e = []"
    using pool_evidence_from [OF p] unfolding pool_of_timeline [OF t]
    by (fastforce simp: list_all_iff from_agent_def mark_causal_def)
  then have l: "\<not> has_layer n (rca_evidence rca)" "filter (\<lambda>e. ev_causal_layer e = n) (rca_evidence rca) = []" if "n \<noteq> []" for n
    using that by (auto simp: has_layer_def list_ex_iff filter_empty_conv)
  then have "score_confidence (rca_evidence rca) = Some (''LOW'', ''INSUFFICIENT'')"
    by (simp add: score_confidence_def count_independent_classes Let_def)
  then show "rca_confidence rca = ''baixa''"
    using assemble_rca_fields(4) [OF m] by (auto simp: model_rank_def rank_to_legacy_def)
qed

text \<open>
  C19: no investigation feeds the knowledge base: evidence read from the agents carries no causal layer,
  so the evidence model scores it low, every analysis is reported with low confidence, and the
  distillation started for it returns at its first test with nothing done.
\<close>

theorem investigations_never_feed_the_knowledge_base:
  assumes "run_investigation env sy ags sid names ov st = (Inr rca, ags', st')"
  shows "rca_confidence rca = ''baixa'' \<and> distill_rca be kb rca i c s = (c, s)"
  using investigations_are_low [OF assms] by (simp add: distill_rca_def)

theorem investigations_never_feed_the_knowledge_base_witness:
  "\<exists>rca :: rca_result. rca_evidence rca \<noteq> [] \<and> distill_rca (quiet_bedrock demo_answers) quiet_kb rca None (new_bedrock_client quiet_settings) () =
     (new_bedrock_client quiet_settings, ())"
proof -
  let ?st = "\<lparr>as_client = new_bedrock_client quiet_settings, as_breakers = [], as_canary = [], as_world = ()\<rparr>"
  have q: "quiet_client (as_client ?st)" by (simp add: quiet_client_def new_bedrock_client_def)
  obtain rca st' where r: "run_investigation (quiet_squad demo_answers) ''oom?'' [(''k8s'', quiet_agent ''k8s'')] ''s1'' [] None ?st =
      (Inr rca, [(''k8s'', quiet_agent ''k8s'')], st')" "rca_evidence rca = [new_evidence ''k8s'' ''log'' [] ''fraca'' ''oom'']"
    using demo_investigation [OF q] by metis
  have "distill_rca (quiet_bedrock demo_answers) quiet_kb rca None (new_bedrock_client quiet_settings) () = (new_bedrock_client quiet_settings, ())"
    using investigations_never_feed_the_knowledge_base [OF r(1)] by (rule conjunct2)
  then show ?thesis by (intro exI [of _ rca] conjI) (simp_all add: r(2))
qed

end
