(* ===== verification/Alerts.thy ===== *)
theory Alerts
  imports Investigate
begin

text \<open>
  The Alertmanager webhook, src/src/supervisor/alert_handler.py, and the Slack post-back of
  slack_notifier.py: parsed payloads, the symptom of an alert, the deduplication by fingerprint through
  the cache, the dispatch of one investigation per new firing alert.  The investigation and the post
  are parameters of the handler, as in the code; non-ASCII characters are their UTF-8 bytes.
\<close>

section \<open>Payloads\<close>

record alertmanager_alert =
  al_status :: string
  al_labels :: "(string \<times> string) list"
  al_annotations :: "(string \<times> string) list"
  al_starts_at :: "string option"
  al_ends_at :: "string option"
  al_fingerprint :: string
  al_generator_url :: "string option"

record alertmanager_payload =
  pl_version :: string
  pl_group_key :: "string option"
  pl_status :: string
  pl_receiver :: "string option"
  pl_group_labels :: "(string \<times> string) list"
  pl_common_labels :: "(string \<times> string) list"
  pl_common_annotations :: "(string \<times> string) list"
  pl_external_url :: "string option"
  pl_alerts :: "alertmanager_alert list"

text \<open>A chain of \<open>or\<close> over texts that may be missing, and \<open>{**a, **b}\<close>.\<close>

fun first_text :: "string option list \<Rightarrow> string \<Rightarrow> string" where
  "first_text [] d = d"
| "first_text (Some t # ts) d = (if t = [] then first_text ts d else t)"
| "first_text (None # ts) d = first_text ts d"

definition merged :: "(string \<times> 'a) list \<Rightarrow> (string \<times> 'a) list \<Rightarrow> (string \<times> 'a) list" where
  "merged a b = fold (\<lambda>(k, v) d. dict_set d k v) b a"

definition text_at :: "(string \<times> string) list \<Rightarrow> string \<Rightarrow> string \<Rightarrow> string" where
  "text_at d k missing = (case dict_get d k of None \<Rightarrow> missing | Some t \<Rightarrow> t)"

definition alert_to_symptom :: "alertmanager_alert \<Rightarrow> (string \<times> string) list \<Rightarrow> string" where
  "alert_to_symptom alert common_labels =
     (let labels = merged common_labels (al_labels alert);
          summary = first_text [dict_get (al_annotations alert) ''summary'', dict_get (al_annotations alert) ''description'']
                      (text_at labels ''alertname'' ''unknown alert'');
          service = first_text [dict_get labels ''service'', dict_get labels ''job'', dict_get labels ''app''] ''unknown service'';
          namespace = text_at labels ''namespace'' [];
          started = (case al_starts_at alert of None \<Rightarrow> [] | Some t \<Rightarrow> t);
          ns_part = (if namespace = [] then [] else '' in namespace '' @ namespace)
      in ''Alert fired: '' @ summary @ ''. Service: '' @ service @ ns_part @ ''. Severity: ''
         @ text_at labels ''severity'' ''unknown'' @ ''. Started at: '' @ started
         @ ''. Investigate root cause considering metrics, logs, recent deploys, and infrastructure events.'')"

section \<open>Deduplication and dispatch\<close>

text \<open>The window in seconds, from the environment.\<close>

definition alert_key :: "string \<Rightarrow> string" where
  "alert_key fingerprint = ''alert:fp:'' @ fingerprint"

definition is_duplicate :: "'s cache_store \<Rightarrow> int \<Rightarrow> string \<Rightarrow> 's \<Rightarrow> bool \<times> 's" where
  "is_duplicate cache dedup_ttl fingerprint s =
     (case cache_get cache (alert_key fingerprint) ''alerts'' s of
        (Some v, s') \<Rightarrow> (True, s')
      | (None, s') \<Rightarrow> (False, cache_set cache (alert_key fingerprint) (JStr ''1'') dedup_ttl ''alerts'' s'))"

record alert_counts =
  ac_triggered :: nat
  ac_deduplicated :: nat
  ac_resolved_skipped :: nat

type_synonym 's investigator = "string \<Rightarrow> string \<Rightarrow> 's \<Rightarrow> (guard_error + rca_result) \<times> 's"
type_synonym 's poster = "alertmanager_alert \<Rightarrow> rca_result \<Rightarrow> alertmanager_payload \<Rightarrow> 's \<Rightarrow> (exn + unit) \<times> 's"

fun handle_alerts ::
    "'s cache_store \<Rightarrow> int \<Rightarrow> 's investigator \<Rightarrow> 's poster option \<Rightarrow> alertmanager_payload \<Rightarrow>
     alertmanager_alert list \<Rightarrow> alert_counts \<Rightarrow> 's \<Rightarrow> alert_counts \<times> 's" where
  "handle_alerts cache dedup_ttl run post payload [] n s = (n, s)"
| "handle_alerts cache dedup_ttl run post payload (alert # alerts) n s =
     (if al_status alert = ''resolved'' then
        handle_alerts cache dedup_ttl run post payload alerts (n\<lparr>ac_resolved_skipped := ac_resolved_skipped n + 1\<rparr>) s
      else (case is_duplicate cache dedup_ttl (al_fingerprint alert) s of
              (True, s1) \<Rightarrow> handle_alerts cache dedup_ttl run post payload alerts (n\<lparr>ac_deduplicated := ac_deduplicated n + 1\<rparr>) s1
            | (False, s1) \<Rightarrow>
                (case run (alert_to_symptom alert (pl_common_labels payload)) (al_fingerprint alert) s1 of
                   (Inl e, s2) \<Rightarrow> handle_alerts cache dedup_ttl run post payload alerts n s2
                 | (Inr rca, s2) \<Rightarrow>
                     handle_alerts cache dedup_ttl run post payload alerts (n\<lparr>ac_triggered := ac_triggered n + 1\<rparr>)
                       (case post of None \<Rightarrow> s2 | Some f \<Rightarrow> snd (f alert rca payload s2)))))"

definition handle_alert_payload ::
    "'s cache_store \<Rightarrow> int \<Rightarrow> 's investigator \<Rightarrow> 's poster option \<Rightarrow> alertmanager_payload \<Rightarrow> 's \<Rightarrow> alert_counts \<times> 's" where
  "handle_alert_payload cache dedup_ttl run post payload s =
     handle_alerts cache dedup_ttl run post payload (pl_alerts payload)
       \<lparr>ac_triggered = 0, ac_deduplicated = 0, ac_resolved_skipped = 0\<rparr> s"

definition counts_json :: "alert_counts \<Rightarrow> (string \<times> json) list" where
  "counts_json n =
     [(''triggered'', JInt (int (ac_triggered n))), (''deduplicated'', JInt (int (ac_deduplicated n))),
      (''resolved_skipped'', JInt (int (ac_resolved_skipped n)))]"

section \<open>Post-back\<close>

definition CONFIDENCE_EMOJI :: "(string \<times> string) list" where
  "CONFIDENCE_EMOJI = [(''alta'', '':red_circle:''), (''media'', '':large_orange_circle:''), (''baixa'', '':large_yellow_circle:'')]"

text \<open>None where the prevention items cannot be iterated.\<close>

definition format_text :: "alertmanager_alert \<Rightarrow> rca_result \<Rightarrow> string option" where
  "format_text alert rca =
     (let emoji = text_at CONFIDENCE_EMOJI (rca_confidence rca) '':question:'';
          alert_name = text_at (al_labels alert) ''alertname'' ''alert'';
          service = first_text [dict_get (al_labels alert) ''service'', dict_get (al_labels alert) ''job'', dict_get (al_labels alert) ''app''] ''-'';
          severity = text_at (al_labels alert) ''severity'' ''-'';
          bullet = [CHR 0xE2, CHR 0x80, CHR 0xA2, CHR '' '']; dash = [CHR 0xE2, CHR 0x80, CHR 0x94]
      in map_option
           (\<lambda>ps. ''*'' @ emoji @ '' RCA '' @ dash @ '' '' @ alert_name @ ''* (service: `'' @ service @ ''`, severity: `'' @ severity @ ''`)'' @ nl @ nl
              @ ''*Hypothesis:* '' @ py_str (rca_hypothesis rca) @ nl
              @ ''*Confidence:* `'' @ rca_confidence rca @ ''`'' @ nl
              @ ''*Evidence count:* '' @ show_nat (length (rca_evidence rca)) @ '' (timeline: '' @ show_nat (length (rca_timeline rca))
              @ '', contradicting: '' @ show_nat (length (rca_contradicting rca)) @ '')'' @ nl
              @ ''*Prevention:*'' @ nl
              @ first_text [Some (py_join nl (map (\<lambda>p. bullet @ py_str p) ps))] ''_(none suggested)_'')
           (json_items (or_else (Some (rca_prevention rca)) (JList []))))"

definition format_block :: "alertmanager_alert \<Rightarrow> rca_result \<Rightarrow> json option" where
  "format_block alert rca =
     map_option
       (\<lambda>t. JObj [(''text'', JStr t),
          (''blocks'', JList [JObj [(''type'', JStr ''section''), (''text'', JObj [(''type'', JStr ''mrkdwn''), (''text'', JStr t)])]])])
       (format_text alert rca)"

text \<open>The webhook URL comes stripped from the environment; the post answers or raises, and both are swallowed.\<close>

definition post_rca_to_slack :: "string \<Rightarrow> (string \<Rightarrow> json \<Rightarrow> 's \<Rightarrow> (exn + unit) \<times> 's) \<Rightarrow> 's poster" where
  "post_rca_to_slack webhook_url post alert rca payload s =
     (if webhook_url = [] then (Inr (), s)
      else (case format_block alert rca of
              None \<Rightarrow> (Inr (), s)
            | Some body \<Rightarrow> (Inr (), snd (post webhook_url body s))))"

section \<open>What is investigated\<close>

text \<open>The fingerprints of the firing alerts that are new, in order, and how many alerts fire.\<close>

definition firing :: "alertmanager_alert \<Rightarrow> bool" where
  "firing alert \<longleftrightarrow> al_status alert \<noteq> ''resolved''"

fun new_fingerprints :: "(string \<Rightarrow> bool) \<Rightarrow> alertmanager_alert list \<Rightarrow> string list" where
  "new_fingerprints seen [] = []"
| "new_fingerprints seen (a # as) =
     (if \<not> firing a \<or> seen (al_fingerprint a) then new_fingerprints seen as
      else al_fingerprint a # new_fingerprints (seen(al_fingerprint a := True)) as)"

definition seen_in :: "(string \<Rightarrow> string option) \<Rightarrow> string \<Rightarrow> bool" where
  "seen_in m fingerprint \<longleftrightarrow> cached m (alert_key fingerprint) ''alerts'' \<noteq> None"

lemma new_fingerprints_fresh: "distinct (new_fingerprints seen as) \<and> (\<forall>f \<in> set (new_fingerprints seen as). \<not> seen f)"
proof (induction as arbitrary: seen)
  case (Cons a as)
  let ?seen = "seen(al_fingerprint a := True)"
  have marked: "f \<noteq> al_fingerprint a \<and> \<not> seen f" if "\<not> ?seen f" for f
    using that by (cases "f = al_fingerprint a") simp_all
  from Cons [of ?seen] marked have "distinct (new_fingerprints ?seen as)"
    "\<And>f. f \<in> set (new_fingerprints ?seen as) \<Longrightarrow> f \<noteq> al_fingerprint a \<and> \<not> seen f" by blast+
  with Cons [of seen] show ?case by (auto simp del: fun_upd_apply)
qed simp

lemma upd_holding: "P f \<Longrightarrow> P(f := True) = P"
  by (simp add: fun_upd_idem_iff)

lemma seen_in_upd: "seen_in (m(full_key ''alerts'' (alert_key f) \<mapsto> json_dumps (JStr ''1''))) = (seen_in m)(f := True)"
proof (rule ext)
  fix g
  show "seen_in (m(full_key ''alerts'' (alert_key f) \<mapsto> json_dumps (JStr ''1''))) g = ((seen_in m)(f := True)) g"
  proof (cases "g = f")
    case True
    have "cached (m(full_key ''alerts'' (alert_key f) \<mapsto> json_dumps (JStr ''1''))) (alert_key f) ''alerts'' = Some (JStr ''1'')"
      by (rule cached_upd) simp_all
    with True show ?thesis by (simp add: seen_in_def del: json_dumps.simps)
  next
    case False
    then have "full_key ''alerts'' (alert_key g) \<noteq> full_key ''alerts'' (alert_key f)" by (simp add: full_key_def alert_key_def)
    then show ?thesis using False by (simp add: seen_in_def cached_upd_other del: json_dumps.simps)
  qed
qed

text \<open>
  A journal of the investigations, kept anywhere in the world: every run adds its fingerprint, nothing
  else touches it, and neither the run nor the post touches the cache's entries for alerts.
\<close>

definition journaled ::
    "'s cache_ops \<Rightarrow> ('s \<Rightarrow> string \<Rightarrow> string option) \<Rightarrow> ('s \<Rightarrow> string list) \<Rightarrow> 's investigator \<Rightarrow> 's poster option \<Rightarrow> bool" where
  "journaled r look journal run post \<longleftrightarrow>
     (\<forall>k s. journal (snd (co_get r k s)) = journal s) \<and> (\<forall>k t v s. journal (snd (co_setex r k t v s)) = journal s) \<and>
     (\<forall>y f s. journal (snd (run y f s)) = journal s @ [f] \<and> seen_in (look (snd (run y f s))) = seen_in (look s)) \<and>
     (\<forall>g a rca p s. post = Some g \<longrightarrow> journal (snd (g a rca p s)) = journal s \<and> seen_in (look (snd (g a rca p s))) = seen_in (look s))"

lemma journaled_is_duplicate:
  assumes "cache_laws r look" "0 < ttl" "journaled r look journal run post"
  shows "fst (is_duplicate (Some r) ttl f s) = seen_in (look s) f"
    "journal (snd (is_duplicate (Some r) ttl f s)) = journal s"
    "seen_in (look (snd (is_duplicate (Some r) ttl f s))) = (seen_in (look s))(f := True)"
proof -
  obtain v s' where g: "cache_get (Some r) (alert_key f) ''alerts'' s = (v, s')" by (cases "cache_get (Some r) (alert_key f) ''alerts'' s")
  with cache_get_up [OF assms(1), of "alert_key f" "''alerts''" s] have v: "v = cached (look s) (alert_key f) ''alerts''" "look s' = look s" by simp_all
  have "journal s' = journal (snd (cache_get (Some r) (alert_key f) ''alerts'' s))" by (simp add: g)
  also have "\<dots> = journal s"
    using assms(3) by (auto simp: journaled_def cache_get_def split: prod.splits sum.splits option.splits) (metis snd_conv)+
  finally have l: "journal s' = journal s" .
  have l2: "journal (cache_set (Some r) (alert_key f) (JStr ''1'') ttl ''alerts'' s') = journal s'"
    using assms(3) by (simp add: journaled_def cache_set_def)
  show "fst (is_duplicate (Some r) ttl f s) = seen_in (look s) f" "journal (snd (is_duplicate (Some r) ttl f s)) = journal s"
    using v l l2 by (auto simp: is_duplicate_def g seen_in_def split: option.splits)
  show "seen_in (look (snd (is_duplicate (Some r) ttl f s))) = (seen_in (look s))(f := True)"
  proof (cases v)
    case None
    then have "look (snd (is_duplicate (Some r) ttl f s)) = (look s)(full_key ''alerts'' (alert_key f) \<mapsto> json_dumps (JStr ''1''))"
      using cache_set_up [OF assms(1,2), of "alert_key f" "JStr ''1''" "''alerts''" s'] v(2)
      by (simp add: is_duplicate_def g del: json_dumps.simps)
    then show ?thesis by (simp only: seen_in_upd)
  next
    case (Some x)
    then have "seen_in (look s) f" using v(1) by (simp add: seen_in_def)
    with Some show ?thesis by (simp add: is_duplicate_def g v(2) upd_holding)
  qed
qed

lemma handle_alerts_journal:
  assumes "cache_laws r look" "0 < ttl" "journaled r look journal run post"
    and "handle_alerts (Some r) ttl run post payload as n s = (n', s')"
  shows "journal s' = journal s @ new_fingerprints (seen_in (look s)) as \<and>
    ac_resolved_skipped n' = ac_resolved_skipped n + length (filter (\<lambda>a. \<not> firing a) as) \<and>
    ac_deduplicated n' + length (new_fingerprints (seen_in (look s)) as) = ac_deduplicated n + length (filter firing as) \<and>
    ac_triggered n' \<le> ac_triggered n + length (new_fingerprints (seen_in (look s)) as)"
  using assms(4)
proof (induction as arbitrary: n s)
  case (Cons a as)
  note D = journaled_is_duplicate [OF assms(1-3), of "al_fingerprint a" s]
  show ?case
  proof (cases "firing a")
    case False
    with Cons.prems Cons.IH [of "n\<lparr>ac_resolved_skipped := ac_resolved_skipped n + 1\<rparr>" s] show ?thesis by (simp add: firing_def)
  next
    case f: True
    obtain dup s1 where d: "is_duplicate (Some r) ttl (al_fingerprint a) s = (dup, s1)" by (cases "is_duplicate (Some r) ttl (al_fingerprint a) s")
    note D = D [unfolded d fst_conv snd_conv]
    show ?thesis
    proof (cases dup)
      case True
      with D have "seen_in (look s1) = seen_in (look s)" by (simp add: upd_holding)
      with True f d D Cons.prems Cons.IH [of "n\<lparr>ac_deduplicated := ac_deduplicated n + 1\<rparr>" s1] show ?thesis by (simp add: firing_def)
    next
      case False
      obtain res s2 where run: "run (alert_to_symptom a (pl_common_labels payload)) (al_fingerprint a) s1 = (res, s2)"
        by (cases "run (alert_to_symptom a (pl_common_labels payload)) (al_fingerprint a) s1")
      then have s2: "journal s2 = journal s1 @ [al_fingerprint a]" "seen_in (look s2) = seen_in (look s1)"
        using assms(3) unfolding journaled_def by (metis snd_conv)+
      show ?thesis
      proof (cases res)
        case (Inl e)
        with False f d D run s2 Cons.prems Cons.IH [of n s2] show ?thesis by (auto simp: firing_def simp del: fun_upd_apply)
      next
        case (Inr rca)
        define s3 where "s3 = (case post of None \<Rightarrow> s2 | Some g \<Rightarrow> snd (g a rca payload s2))"
        have "journal s3 = journal s2" "seen_in (look s3) = seen_in (look s2)"
          using assms(3) by (auto simp: s3_def journaled_def split: option.splits)
        with False f d D run s2 Inr Cons.prems Cons.IH [of "n\<lparr>ac_triggered := ac_triggered n + 1\<rparr>" s3] show ?thesis
          by (auto simp: firing_def s3_def [symmetric] simp del: fun_upd_apply)
      qed
    qed
  qed
qed simp

text \<open>
  C23: every new firing alert is investigated exactly once: while the cache is up, the investigations a
  payload starts are, in order, those of its firing fingerprints that are new, no fingerprint twice and
  none seen within the window; the other firing alerts are counted as duplicates, and a resolved alert
  is only counted.
\<close>

theorem new_alerts_are_investigated_once:
  assumes "cache_laws r look" "0 < ttl" "journaled r look journal run post"
    and "handle_alert_payload (Some r) ttl run post payload s = (n, s')"
  shows "\<exists>fs. journal s' = journal s @ fs \<and> fs = new_fingerprints (seen_in (look s)) (pl_alerts payload) \<and> distinct fs \<and>
    (\<forall>f \<in> set fs. \<not> seen_in (look s) f) \<and> ac_triggered n \<le> length fs \<and>
    ac_resolved_skipped n = length (filter (\<lambda>a. \<not> firing a) (pl_alerts payload)) \<and>
    ac_deduplicated n + length fs = length (filter firing (pl_alerts payload))"
  using handle_alerts_journal [OF assms(1-3) assms(4) [unfolded handle_alert_payload_def]]
    new_fingerprints_fresh [of "seen_in (look s)" "pl_alerts payload"] by simp

text \<open>A cache of entries beside a journal, and a payload of four alerts, one of them resolved and two of one fingerprint.\<close>

definition paired_cache :: "((string \<Rightarrow> string option) \<times> string list) cache_ops" where
  "paired_cache =
     \<lparr>co_get = (\<lambda>k s. (Inr (fst s k), s)),
      co_setex = (\<lambda>k t v s. if 0 < t then (Inr (), ((fst s)(k \<mapsto> v), snd s)) else (Inl ''invalid expire time'', s)),
      co_delete = (\<lambda>k s. (Inr (), ((fst s)(k := None), snd s))),
      co_exists = (\<lambda>k s. (Inr (if fst s k = None then 0 else 1), s))\<rparr>"

definition noted :: "rca_result \<Rightarrow> ((string \<Rightarrow> string option) \<times> string list) investigator" where
  "noted rca symptom f s = (if f = ''f2'' then Inl (GuardrailRaised ''TimeoutError'') else Inr rca, (fst s, snd s @ [f]))"

definition demo_rca :: rca_result where
  "demo_rca =
     \<lparr>rca_hypothesis = JStr ''a busy loop'', rca_confidence = ''baixa'', rca_evidence = [], rca_timeline = [],
      rca_contradicting = [], rca_prevention = JList [], rca_confidence_level = ''LOW'', rca_confidence_track = ''none'',
      rca_independent_signal_count = 0, rca_temporal_violations = []\<rparr>"

definition demo_alert :: "string \<Rightarrow> string \<Rightarrow> alertmanager_alert" where
  "demo_alert status f =
     \<lparr>al_status = status, al_labels = [(''alertname'', ''HighCPU'')], al_annotations = [], al_starts_at = None, al_ends_at = None,
      al_fingerprint = f, al_generator_url = None\<rparr>"

definition demo_payload :: alertmanager_payload where
  "demo_payload =
     \<lparr>pl_version = ''4'', pl_group_key = None, pl_status = ''firing'', pl_receiver = None, pl_group_labels = [], pl_common_labels = [],
      pl_common_annotations = [], pl_external_url = None,
      pl_alerts = [demo_alert ''firing'' ''f1'', demo_alert ''resolved'' ''f3'', demo_alert ''firing'' ''f1'', demo_alert ''firing'' ''f2'']\<rparr>"

lemma paired_cache_laws: "cache_laws paired_cache fst" "journaled paired_cache fst snd (noted rca) None"
  by (simp_all add: cache_laws_def paired_cache_def journaled_def noted_def)

theorem new_alerts_are_investigated_once_witness:
  "\<exists>n s'. handle_alert_payload (Some paired_cache) 3600 (noted demo_rca) None demo_payload (Map.empty, []) = (n, s') \<and>
     snd s' = [''f1'', ''f2''] \<and> ac_deduplicated n = 1 \<and> ac_resolved_skipped n = 1"
proof -
  obtain n s' where h: "handle_alert_payload (Some paired_cache) 3600 (noted demo_rca) None demo_payload (Map.empty, []) = (n, s')"
    by (rule prod.exhaust)
  note once = new_alerts_are_investigated_once [OF paired_cache_laws(1) _ paired_cache_laws(2) h]
  have "snd s' = [''f1'', ''f2'']" "ac_resolved_skipped n = 1" "ac_deduplicated n + length (snd s') = 3"
    using once by (auto simp: demo_payload_def demo_alert_def firing_def seen_in_def cached_def)
  then have "snd s' = [''f1'', ''f2''] \<and> ac_deduplicated n = 1 \<and> ac_resolved_skipped n = 1" by auto
  with h show ?thesis by blast
qed

text \<open>
  A failed investigation is not retried: the fingerprint is marked before the investigation runs, so a
  second delivery of the alert within the window only counts as a duplicate.
\<close>

lemma failed_alert_is_not_retried:
  "fst (handle_alert_payload (Some paired_cache) 3600 (noted rca) None (demo_payload\<lparr>pl_alerts := [demo_alert ''firing'' ''f2'']\<rparr>)
     (snd (handle_alert_payload (Some paired_cache) 3600 (noted rca) None (demo_payload\<lparr>pl_alerts := [demo_alert ''firing'' ''f2'']\<rparr>) (Map.empty, [])))) =
   \<lparr>ac_triggered = 0, ac_deduplicated = 1, ac_resolved_skipped = 0\<rparr>"
proof -
  have "json_loads (json_dumps (JStr ''1'')) = Some (JStr ''1'')" by (rule loads_dumps) simp
  moreover have "json_dumps (JStr ''1'') \<noteq> []" by (rule json_dumps_not_Nil) simp
  ultimately show ?thesis
    by (simp add: handle_alert_payload_def demo_payload_def demo_alert_def is_duplicate_def cache_get_def cache_set_def
      paired_cache_def noted_def del: json_dumps.simps)
qed

end
