(* ===== verification/OpenAICompat.thy ===== *)
theory OpenAICompat
  imports StateStore StepEvents Json
begin

text \<open>
  The OpenAI-compatible bridge, src/src/supervisor/openai_compat.py: model ids and targets,
  collapsing the messages into one user input, the chat completion with its quality
  extension, and the two server-sent-event encoders.  A frame is the chunk it carries (its JSON
  text, printed by pydantic, is not modelled); completion ids and clock readings are arguments.
\<close>

section \<open>Trace presentation\<close>

definition wrench :: string where
  "wrench = [CHR 0xF0, CHR 0x9F, CHR 0x94, CHR 0xA7]"

definition trace_style :: "string option \<Rightarrow> string" where
  "trace_style env = py_lower (case env of None \<Rightarrow> ''think'' | Some v \<Rightarrow> v)"

definition trace_off :: "string \<Rightarrow> bool" where
  "trace_off style \<longleftrightarrow> style = ''off''"

definition trace_open :: "string \<Rightarrow> string" where
  "trace_open style =
     (if style = ''think'' then ''<think>'' @ nl @ wrench @ '' Tool trace'' @ nl @ nl
      else if style = ''details'' then
        ''<details>'' @ nl @ ''<summary>'' @ wrench @ '' Tool trace</summary>'' @ nl @ nl
      else if style = ''plain'' then wrench @ '' Tool trace'' @ nl
      else if style = ''off'' then []
      else ''<think>'' @ nl @ wrench @ '' Tool trace'' @ nl @ nl)"

definition trace_close :: "string \<Rightarrow> string" where
  "trace_close style =
     (if style = ''think'' then nl @ ''</think>'' @ nl @ nl
      else if style = ''details'' then nl @ ''</details>'' @ nl @ nl
      else if style = ''plain'' then nl @ nl
      else if style = ''off'' then []
      else nl @ ''</think>'' @ nl @ nl)"

section \<open>Requests, chunks and responses\<close>

definition MODEL_PREFIX :: string where
  "MODEL_PREFIX = ''aigent-squad''"

definition OWNER :: string where
  "OWNER = ''aigent-squad''"

record chat_message =
  role :: string
  content :: string

record delta_content =
  dc_role :: "string option"
  dc_content :: "string option"

record chunk_choice =
  ck_index :: int
  ck_delta :: delta_content
  ck_finish_reason :: "string option"

record chat_completion_chunk =
  cc_id :: string
  cc_object :: string
  cc_created :: int
  cc_model :: string
  cc_choices :: "chunk_choice list"

record chat_completion_request =
  rq_model :: string
  rq_messages :: "chat_message list"
  rq_stream :: bool
  rq_temperature :: "rat option"
  rq_max_tokens :: "int option"
  rq_user :: "string option"

record completion_choice =
  ch_index :: int
  ch_role :: string
  ch_content :: string
  ch_finish_reason :: string

record usage_info =
  prompt_tokens :: int
  completion_tokens :: int
  total_tokens :: int

record chat_completion_response =
  cr_id :: string
  cr_object :: string
  cr_created :: int
  cr_model :: string
  cr_choices :: "completion_choice list"
  cr_usage :: usage_info
  cr_x_aigent :: "json option"

record model_object =
  mo_id :: string
  mo_object :: string
  mo_created :: int
  mo_owned_by :: string

definition dump_choice :: "completion_choice \<Rightarrow> json" where
  "dump_choice c =
     JObj [(''index'', JInt (ch_index c)),
           (''message'', JObj [(''role'', JStr (ch_role c)), (''content'', JStr (ch_content c))]),
           (''finish_reason'', JStr (ch_finish_reason c))]"

definition dump_usage :: "usage_info \<Rightarrow> json" where
  "dump_usage u =
     JObj [(''prompt_tokens'', JInt (prompt_tokens u)), (''completion_tokens'', JInt (completion_tokens u)),
           (''total_tokens'', JInt (total_tokens u))]"

definition model_dump :: "chat_completion_response \<Rightarrow> (string \<times> json) list" where
  "model_dump r =
     [(''id'', JStr (cr_id r)), (''object'', JStr (cr_object r)), (''created'', JInt (cr_created r)),
      (''model'', JStr (cr_model r)), (''choices'', JList (map dump_choice (cr_choices r))),
      (''usage'', dump_usage (cr_usage r))] @
     (case cr_x_aigent r of None \<Rightarrow> [] | Some x \<Rightarrow> [(''x_aigent'', x)])"

section \<open>Model ids\<close>

definition list_models :: "string list \<Rightarrow> model_object list" where
  "list_models agent_names =
     map (\<lambda>mid. \<lparr>mo_id = mid, mo_object = ''model'', mo_created = 0, mo_owned_by = OWNER\<rparr>)
       (MODEL_PREFIX # map (\<lambda>name. MODEL_PREFIX @ ''-'' @ name) agent_names)"

definition resolve_target :: "string \<Rightarrow> string list \<Rightarrow> string option" where
  "resolve_target model agent_names =
     (if model = MODEL_PREFIX then None
      else if prefix (MODEL_PREFIX @ ''-'') model then
        (let agent = drop (length MODEL_PREFIX + 1) model
         in if agent \<in> set agent_names then Some agent else None)
      else None)"

section \<open>Prompt translation\<close>

definition messages_to_user_input :: "chat_message list \<Rightarrow> string" where
  "messages_to_user_input messages =
     (let users = [content m. m \<leftarrow> messages, role m = ''user'' \<and> content m \<noteq> []]
      in if users \<noteq> [] then py_strip (last users)
         else (let non_system = [content m. m \<leftarrow> messages, role m \<noteq> ''system'' \<and> content m \<noteq> []]
               in if non_system \<noteq> [] then py_strip (last non_system) else []))"

section \<open>Completions\<close>

text \<open>
  The supervisor's result is a dict whose values are JSON on the deployed path; in the same
  process the assessment is the dataclass itself.
\<close>

datatype result_value = VJson json | VAssessment quality_assessment

type_synonym result = "(string \<times> result_value) list"

definition extract_text :: "result \<Rightarrow> exn + string" where
  "extract_text r =
     (case dict_get r ''response'' of
        None \<Rightarrow> Inr []
      | Some (VJson (JStr t)) \<Rightarrow> Inr t
      | Some (VJson v) \<Rightarrow> if json_truthy v then Inl ''ValidationError'' else Inr []
      | Some (VAssessment q) \<Rightarrow> Inl ''ValidationError'')"

definition quality_json :: "json \<Rightarrow> json list \<Rightarrow> json" where
  "quality_json confidence claims =
     JObj [(''quality'', JObj [(''confidence'', confidence), (''unverified_claims'', JList claims)])]"

text \<open>The body of the try block: Inl is the exception its handler logs and swallows.\<close>

definition surface_assessment :: "result_value \<Rightarrow> exn + json" where
  "surface_assessment a =
     (case a of
        VJson (JObj d) \<Rightarrow>
          (case dict_get d ''confidence'' of
             None \<Rightarrow> Inl ''KeyError''
           | Some confidence \<Rightarrow>
               (case dict_get d ''unverified_claims'' of
                  None \<Rightarrow> Inr (quality_json confidence [])
                | Some claims \<Rightarrow>
                    if \<not> json_truthy claims then Inr (quality_json confidence [])
                    else (case claims of
                            JList xs \<Rightarrow> Inr (quality_json confidence xs)
                          | _ \<Rightarrow> Inl ''TypeError'')))
      | VJson _ \<Rightarrow> Inl ''AttributeError''
      | VAssessment q \<Rightarrow>
          Inr (quality_json (JStr (qa_confidence q)) (map JStr (qa_unverified_claims q))))"

definition x_aigent_of :: "result \<Rightarrow> json option" where
  "x_aigent_of r =
     (case dict_get r ''quality_assessment'' of
        None \<Rightarrow> None
      | Some (VJson JNull) \<Rightarrow> None
      | Some a \<Rightarrow> (case surface_assessment a of Inl e \<Rightarrow> None | Inr x \<Rightarrow> Some x))"

definition build_completion ::
    "string \<Rightarrow> int \<Rightarrow> result \<Rightarrow> string \<Rightarrow> exn + chat_completion_response" where
  "build_completion cid now r model =
     (case extract_text r of
        Inl e \<Rightarrow> Inl e
      | Inr t \<Rightarrow>
          Inr \<lparr>cr_id = cid, cr_object = ''chat.completion'', cr_created = now, cr_model = model,
               cr_choices = [\<lparr>ch_index = 0, ch_role = ''assistant'', ch_content = t, ch_finish_reason = ''stop''\<rparr>],
               cr_usage = \<lparr>prompt_tokens = 0, completion_tokens = 0, total_tokens = 0\<rparr>,
               cr_x_aigent = x_aigent_of r\<rparr>)"

section \<open>Server-sent events\<close>

datatype frame = Data chat_completion_chunk | Done_Sentinel

text \<open>The text a client assembles from the frames of a stream.\<close>

fun frame_text :: "frame \<Rightarrow> string" where
  "frame_text (Data c) =
     concat (map (\<lambda>ch. case dc_content (ck_delta ch) of Some t \<Rightarrow> t | None \<Rightarrow> []) (cc_choices c))"
| "frame_text Done_Sentinel = []"

definition make_chunk ::
    "string \<Rightarrow> int \<Rightarrow> string \<Rightarrow> string option \<Rightarrow> string option \<Rightarrow> string option \<Rightarrow> frame" where
  "make_chunk cid created model rl ct fin =
     Data \<lparr>cc_id = cid, cc_object = ''chat.completion.chunk'', cc_created = created, cc_model = model,
           cc_choices = [\<lparr>ck_index = 0, ck_delta = \<lparr>dc_role = rl, dc_content = ct\<rparr>, ck_finish_reason = fin\<rparr>]\<rparr>"

definition sse_stream :: "string \<Rightarrow> int \<Rightarrow> result \<Rightarrow> string \<Rightarrow> frame list \<times> exn option" where
  "sse_stream cid created r model =
     (let mk = make_chunk cid created model;
          prelude = mk (Some ''assistant'') (Some []) None
      in case extract_text r of
           Inl e \<Rightarrow> ([prelude], Some e)
         | Inr t \<Rightarrow>
             (prelude # (if t \<noteq> [] then [mk None (Some t) None] else [])
                @ [mk None None (Some ''stop''), Done_Sentinel], None))"

text \<open>The text of one trace event.\<close>

fun trace_line :: "step_event \<Rightarrow> string" where
  "trace_line (StepRouting agent confidence why q) =
     [CHR 0xF0, CHR 0x9F, CHR 0xA7, CHR 0xAD] @ '' Routed to **'' @ agent @ ''** (confidence ''
       @ show_int (py_round (confidence * 100)) @ ''%)''
       @ (if q \<noteq> [] then '' '' @ [CHR 0xE2, CHR 0x80, CHR 0x94] @ '' foco: '' @ [CHR 0x22] @ q @ [CHR 0x22] else [])
       @ nl"
| "trace_line (StepThinking t) = [CHR 0xF0, CHR 0x9F, CHR 0x92, CHR 0xAD] @ '' '' @ t @ nl"
| "trace_line (StepToolCall t args) =
     (if args \<noteq> [] then wrench @ '' '' @ t @ ''('' @ args @ '')'' @ nl else wrench @ '' '' @ t @ ''()'' @ nl)"
| "trace_line (StepToolResult t summary) = summary @ nl"
| "trace_line (StepFinalChunk t) = []"
| "trace_line (StepDone r) = []"

text \<open>
  The loop of \<open>sse_stream_agentic\<close>: \<open>opened\<close> and \<open>shut\<close> are its two flags, and \<open>fin\<close> is the
  exception the event generator ends with, or None when it is exhausted.
\<close>

fun sse_loop ::
    "string \<Rightarrow> (string option \<Rightarrow> string option \<Rightarrow> string option \<Rightarrow> frame) \<Rightarrow> bool \<Rightarrow> bool \<Rightarrow>
     step_event list \<Rightarrow> exn option \<Rightarrow> frame list \<times> exn option" where
  "sse_loop style mk opened shut [] fin =
     (case fin of
        Some e \<Rightarrow> ([], Some e)
      | None \<Rightarrow>
          ((if opened \<and> \<not> shut then [mk None (Some (trace_close style)) None] else [])
             @ [mk None None (Some ''stop''), Done_Sentinel], None))"
| "sse_loop style mk opened shut (e # es) fin =
     (if is_trace e then
        (if trace_off style then sse_loop style mk opened shut es fin
         else (let (fs, x) = sse_loop style mk True shut es fin
               in ((if opened then [] else [mk None (Some (trace_open style)) None])
                     @ mk None (Some (trace_line e)) None # fs, x)))
      else (case e of
              StepFinalChunk t \<Rightarrow>
                (let (fs, x) = sse_loop style mk opened (if opened then True else shut) es fin
                 in ((if opened \<and> \<not> shut then [mk None (Some (trace_close style)) None] else [])
                       @ mk None (Some t) None # fs, x))
            | StepDone r \<Rightarrow>
                ((if opened \<and> \<not> shut then [mk None (Some (trace_close style)) None] else [])
                   @ [mk None None (Some r), Done_Sentinel], None)
            | _ \<Rightarrow> sse_loop style mk opened shut es fin))"

definition sse_stream_agentic ::
    "string \<Rightarrow> string \<Rightarrow> int \<Rightarrow> step_event list \<Rightarrow> exn option \<Rightarrow> string \<Rightarrow> frame list \<times> exn option" where
  "sse_stream_agentic style cid created events fin model =
     (let mk = make_chunk cid created model;
          (fs, x) = sse_loop style mk False False events fin
      in (mk (Some ''assistant'') (Some []) None # fs, x))"

section \<open>Lemmas\<close>

lemma resolve_target_iff:
  "resolve_target m names = Some a \<longleftrightarrow> m = MODEL_PREFIX @ ''-'' @ a \<and> a \<in> set names"
proof
  assume "resolve_target m names = Some a"
  then obtain "prefix (MODEL_PREFIX @ ''-'') m" "drop (length MODEL_PREFIX + 1) m = a" "a \<in> set names"
    by (auto simp: resolve_target_def Let_def split: if_splits)
  then show "m = MODEL_PREFIX @ ''-'' @ a \<and> a \<in> set names"
    by (auto simp: prefix_def)
qed (auto simp: resolve_target_def)

lemma extract_text_set_quality [simp]:
  "extract_text (dict_set r ''quality_assessment'' a) = extract_text r"
  "extract_text (dict_del r ''quality_assessment'') = extract_text r"
  by (simp_all add: extract_text_def)

lemma x_aigent_of_set:
  "x_aigent_of (dict_set r ''quality_assessment'' a) =
     (if a = VJson JNull then None else (case surface_assessment a of Inl e \<Rightarrow> None | Inr x \<Rightarrow> Some x))"
  by (auto simp: x_aigent_of_def split: result_value.splits json.splits)

lemma surface_dataclass_as_dict:
  "surface_assessment (VJson (JObj [(''confidence'', JStr (qa_confidence q)),
      (''unverified_claims'', JList (map JStr (qa_unverified_claims q)))])) = surface_assessment (VAssessment q)"
  by (simp add: surface_assessment_def)

lemmas sse_defs = sse_stream_agentic_def Let_def case_prod_beta

lemma sse_loop_answers:
  "list_all (\<lambda>e. \<not> is_trace e \<and> (\<forall>r. e \<noteq> StepDone r)) fs \<Longrightarrow>
   sse_loop style mk True True (fs @ es) fin =
     (map (\<lambda>e. mk None (Some (case e of StepFinalChunk t \<Rightarrow> t)) None) fs @ fst (sse_loop style mk True True es fin),
      snd (sse_loop style mk True True es fin))"
  by (induction fs) (auto simp: case_prod_beta split: step_event.splits)

lemma sse_loop_trace:
  "\<not> trace_off style \<Longrightarrow> list_all is_trace tr \<Longrightarrow>
   sse_loop style mk True False (tr @ es) fin =
     (map (\<lambda>e. mk None (Some (trace_line e)) None) tr @ fst (sse_loop style mk True False es fin),
      snd (sse_loop style mk True False es fin))"
  by (induction tr) (auto simp: case_prod_beta)

lemma sse_loop_finals:
  "fst (sse_loop style mk opened shut (map StepFinalChunk ts @ [StepDone r]) fin) =
     (if opened \<and> \<not> shut then [mk None (Some (trace_close style)) None] else [])
       @ map (\<lambda>t. mk None (Some t) None) ts @ [mk None None (Some r), Done_Sentinel]"
  by (induction ts arbitrary: opened shut) (auto simp: case_prod_beta)

lemma sse_loop_shape:
  "\<exists>ts r. sse_loop style mk opened shut es None =
     (map (\<lambda>t. mk None (Some t) None) ts @ [mk None None (Some r), Done_Sentinel], None)"
proof (induction es arbitrary: opened shut)
  case Nil
  show ?case
  proof (cases "opened \<and> \<not> shut")
    case True
    then show ?thesis
      by (intro exI [of _ "[trace_close style]"] exI [of _ "''stop''"]) simp
  next
    case False
    then show ?thesis by (intro exI [of _ "[]"] exI [of _ "''stop''"]) simp
  qed
next
  case (Cons e es)
  have go: "\<exists>ts r. (pre @ fst (sse_loop style mk o2 s2 es None), snd (sse_loop style mk o2 s2 es None)) =
      (map (\<lambda>t. mk None (Some t) None) ts @ [mk None None (Some r), Done_Sentinel], None)"
    if "pre = map (\<lambda>t. mk None (Some t) None) ps" for pre ps o2 s2
  proof -
    from Cons.IH [of o2 s2] obtain ts r where
      "sse_loop style mk o2 s2 es None =
         (map (\<lambda>t. mk None (Some t) None) ts @ [mk None None (Some r), Done_Sentinel], None)" by blast
    with that show ?thesis by (intro exI [of _ "ps @ ts"] exI [of _ r]) simp
  qed
  have pick: "(if b then [] else [mk None (Some t) None]) = map (\<lambda>t. mk None (Some t) None) (if b then [] else [t])"
    "(if b then [mk None (Some t) None] else []) = map (\<lambda>t. mk None (Some t) None) (if b then [t] else [])" for b t
    by simp_all
  show ?case
  proof (cases "is_trace e")
    case True
    show ?thesis
    proof (cases "trace_off style")
      case True
      with \<open>is_trace e\<close> Cons.IH show ?thesis by simp
    next
      case False
      with \<open>is_trace e\<close>
        go [of "(if opened then [] else [mk None (Some (trace_open style)) None]) @ [mk None (Some (trace_line e)) None]"
              "(if opened then [] else [trace_open style]) @ [trace_line e]" True shut]
      show ?thesis by (simp add: case_prod_beta pick)
    qed
  next
    case False
    then consider (fc) t where "e = StepFinalChunk t" | (dn) r where "e = StepDone r" by (cases e) auto
    then show ?thesis
    proof cases
      case fc
      with go [of "(if opened \<and> \<not> shut then [mk None (Some (trace_close style)) None] else []) @ [mk None (Some t) None]"
              "(if opened \<and> \<not> shut then [trace_close style] else []) @ [t]" opened "if opened then True else shut"]
      show ?thesis by (simp add: case_prod_beta pick)
    next
      case dn
      then show ?thesis
        by (intro exI [of _ "if opened \<and> \<not> shut then [trace_close style] else []"] exI [of _ r]) simp
    qed
  qed
qed

text \<open>
  The texts a stream forwards when the trace is off: those of the final chunks before the first
  terminal event.
\<close>

fun answer_texts :: "step_event list \<Rightarrow> string list" where
  "answer_texts [] = []"
| "answer_texts (StepDone r # es) = []"
| "answer_texts (StepFinalChunk t # es) = t # answer_texts es"
| "answer_texts (e # es) = answer_texts es"

lemma sse_loop_off:
  "trace_off style \<Longrightarrow> sse_loop style mk False False es None =
     (map (\<lambda>t. mk None (Some t) None) (answer_texts es) @
      [mk None None (Some (case filter (\<lambda>e. \<exists>r. e = StepDone r) es of StepDone r # _ \<Rightarrow> r | _ \<Rightarrow> ''stop'')),
       Done_Sentinel], None)"
  by (induction es rule: answer_texts.induct) auto

section \<open>Properties\<close>

text \<open>
  Model ids and targets are inverse: the target of an id is the agent exactly when the id is
  the one the listing gives that agent, every listed id of an agent resolves to it, and every
  other id, the bare one included, is routed automatically.
\<close>

theorem model_ids_roundtrip:
  "resolve_target m names = Some a \<longleftrightarrow>
     a \<in> set names \<and> m = MODEL_PREFIX @ ''-'' @ a \<and>
     m \<in> set (map mo_id (list_models names))"
  by (auto simp: resolve_target_iff list_models_def)

text \<open>
  No system message reaches the squad: removing all of them leaves the user input the same,
  and the input is empty or the stripped content of a message that is not a system message.
\<close>

theorem system_messages_dropped:
  "messages_to_user_input ms = messages_to_user_input (filter (\<lambda>m. role m \<noteq> ''system'') ms) \<and>
   messages_to_user_input ms \<in> insert [] {py_strip (content m) |m. m \<in> set ms \<and> role m \<noteq> ''system''}"
proof
  have u: "[content m. m \<leftarrow> filter (\<lambda>m. role m \<noteq> ''system'') ms, role m = ''user'' \<and> content m \<noteq> []] =
      [content m. m \<leftarrow> ms, role m = ''user'' \<and> content m \<noteq> []]"
    by (induction ms) auto
  have n: "[content m. m \<leftarrow> filter (\<lambda>m. role m \<noteq> ''system'') ms, role m \<noteq> ''system'' \<and> content m \<noteq> []] =
      [content m. m \<leftarrow> ms, role m \<noteq> ''system'' \<and> content m \<noteq> []]"
    by (induction ms) auto
  show "messages_to_user_input ms = messages_to_user_input (filter (\<lambda>m. role m \<noteq> ''system'') ms)"
    unfolding messages_to_user_input_def u n ..
next
  have "last [content m. m \<leftarrow> ms, P m] \<in> {content m |m. m \<in> set ms \<and> P m}"
    if "[content m. m \<leftarrow> ms, P m] \<noteq> []" for P
    using last_in_set [OF that] by auto
  from this [of "\<lambda>m. role m = ''user'' \<and> content m \<noteq> []"] this [of "\<lambda>m. role m \<noteq> ''system'' \<and> content m \<noteq> []"]
  show "messages_to_user_input ms \<in> insert [] {py_strip (content m) |m. m \<in> set ms \<and> role m \<noteq> ''system''}"
    unfolding messages_to_user_input_def Let_def by (auto simp del: concat_eq_Nil_conv) 
qed

text \<open>
  The quality extension does not depend on the shape the assessment arrives in: the
  dataclass of the same process and the JSON object of the deployed path give the same
  completion, which carries exactly its confidence and its claims.
\<close>

theorem assessment_shapes_agree:
  "build_completion cid now (dict_set r ''quality_assessment'' (VAssessment q)) model =
   build_completion cid now (dict_set r ''quality_assessment''
     (VJson (JObj [(''confidence'', JStr (qa_confidence q)),
                   (''unverified_claims'', JList (map JStr (qa_unverified_claims q)))]))) model \<and>
   x_aigent_of (dict_set r ''quality_assessment'' (VAssessment q)) =
     Some (quality_json (JStr (qa_confidence q)) (map JStr (qa_unverified_claims q)))"
  by (cases "extract_text r") (simp_all add: build_completion_def x_aigent_of_set surface_assessment_def)

text \<open>
  An assessment never fails an answer: whatever it is, the completion exists exactly when it
  exists without one, with the same answer; a string in place of the list of claims is dropped.
\<close>

theorem assessment_never_fails_answer:
  "map_sum id cr_choices (build_completion cid now (dict_set r ''quality_assessment'' a) model) =
   map_sum id cr_choices (build_completion cid now (dict_del r ''quality_assessment'') model) \<and>
   (a = VJson (JObj [(''confidence'', c), (''unverified_claims'', JStr (ch # t))]) \<longrightarrow>
     x_aigent_of (dict_set r ''quality_assessment'' a) = None)"
  by (auto simp: build_completion_def x_aigent_of_set surface_assessment_def split: sum.splits)

theorem assessment_never_fails_answer_witness:
  "x_aigent_of (dict_set [] ''quality_assessment''
     (VJson (JObj [(''confidence'', JStr ''low''), (''unverified_claims'', JStr ''a claim'')]))) = None"
  using assessment_never_fails_answer [of "[]" 0 "[]" _ "[]" "JStr ''low''" "CHR ''a''" "'' claim''"] by blast

text \<open>
  Every stream is well formed: whatever the events and the trace style, when the events end
  without an exception the encoder sends the role prelude, content deltas, exactly one
  finish frame and the closing sentinel.
\<close>

theorem sse_well_formed:
  "\<exists>ts r. sse_stream_agentic style cid created es None model =
     (make_chunk cid created model (Some ''assistant'') (Some []) None
        # map (\<lambda>t. make_chunk cid created model None (Some t) None) ts
        @ [make_chunk cid created model None None (Some r), Done_Sentinel], None)"
proof -
  obtain ts r where "sse_loop style (make_chunk cid created model) False False es None =
     (map (\<lambda>t. make_chunk cid created model None (Some t) None) ts
        @ [make_chunk cid created model None None (Some r), Done_Sentinel], None)"
    using sse_loop_shape by blast
  then show ?thesis by (auto simp: sse_defs)
qed

text \<open>
  A run whose trace events precede its answer renders as one block: the opening text, a
  line for each trace event, the closing text, and then the answer's chunks alone; with no
  trace event, or the style off, the answer's chunks alone.
\<close>

theorem sse_trace_then_answer:
  assumes "list_all is_trace tr"
  shows "fst (sse_stream_agentic style cid created (tr @ map StepFinalChunk ts @ [StepDone r]) fin model) =
    make_chunk cid created model (Some ''assistant'') (Some []) None
      # map (\<lambda>t. make_chunk cid created model None (Some t) None)
          ((if tr = [] \<or> trace_off style then [] else trace_open style # map trace_line tr @ [trace_close style]) @ ts)
      @ [make_chunk cid created model None None (Some r), Done_Sentinel]"
proof -
  let ?mk = "make_chunk cid created model"
  have off: "sse_loop style ?mk False False (tr @ es) fin = sse_loop style ?mk False False es fin"
    if "trace_off style" for es
    using assms that by (induction tr) auto
  show ?thesis
  proof (cases "tr = [] \<or> trace_off style")
    case True
    then show ?thesis using off by (auto simp: sse_defs sse_loop_finals)
  next
    case False
    then obtain e tr' where tr: "tr = e # tr'" by (cases tr) auto
    with False assms show ?thesis
      by (simp add: sse_defs sse_loop_trace sse_loop_finals o_def)
  qed
qed

theorem sse_trace_then_answer_witness:
  "length (fst (sse_stream_agentic ''think'' ''c'' 0
     ([StepToolCall ''get_pods'' []] @ map StepFinalChunk [''ok''] @ [StepDone ''stop'']) None ''m'')) = 7"
  by (subst sse_trace_then_answer) (simp_all add: trace_off_def)

text \<open>
  With the trace off nothing but the answer is streamed: the content deltas are the texts of
  the final chunks before the first terminal event, in order, wherever trace events stand.
\<close>

theorem sse_off_streams_answer_only:
  assumes "trace_off style"
  shows "\<exists>r. sse_stream_agentic style cid created es None model =
     (make_chunk cid created model (Some ''assistant'') (Some []) None
        # map (\<lambda>t. make_chunk cid created model None (Some t) None) (answer_texts es)
        @ [make_chunk cid created model None None (Some r), Done_Sentinel], None)"
  using sse_loop_off [OF assms] by (auto simp: sse_defs)

theorem sse_off_streams_answer_only_witness:
  "\<exists>r. sse_stream_agentic ''off'' ''c'' 0 [StepThinking ''t'', StepFinalChunk ''ok''] None ''m'' =
     (make_chunk ''c'' 0 ''m'' (Some ''assistant'') (Some []) None
        # map (\<lambda>t. make_chunk ''c'' 0 ''m'' None (Some t) None) [''ok'']
        @ [make_chunk ''c'' 0 ''m'' None None (Some r), Done_Sentinel], None)"
  using sse_off_streams_answer_only [of "''off''" "''c''" 0 "[StepThinking ''t'', StepFinalChunk ''ok'']" "''m''"]
  by (simp add: trace_off_def)

text \<open>
  A trace event after the first chunk of the answer is sent outside the block, which was closed
  and is not opened again.
\<close>

lemma sse_late_trace_outside_block:
  assumes "\<not> trace_off style" "is_trace e1" "is_trace e2"
  shows "fst (sse_stream_agentic style cid created [e1, StepFinalChunk t, e2, StepDone r] fin model) =
    make_chunk cid created model (Some ''assistant'') (Some []) None
      # map (\<lambda>t. make_chunk cid created model None (Some t) None)
          [trace_open style, trace_line e1, trace_close style, t, trace_line e2]
      @ [make_chunk cid created model None None (Some r), Done_Sentinel]"
  using assms by (simp add: sse_defs)

end
