(* ===== verification/Supervisor.thy ===== *)
theory Supervisor
  imports Investigate OpenAICompat
begin

text \<open>
  The supervisor, src/src/supervisor/agent.py, with the synthesizer of several answers (synthesizer.py) and
  the delegation helper (core/agent_tools.py).  A request is admitted (budget, scanner, ingress
  guardrail), then goes to the forced agent, to an investigation, or to the agents the classifier
  names.  The result is the dict the code returns.  Metrics, log records and spans are left out; the
  distillation started after an investigation runs right after it.
\<close>

section \<open>State\<close>

record 's supervisor_env =
  su_squad :: "'s squad_env"
  su_registry :: registry
  su_dynamo :: "'s dynamo_ops"
  su_now :: "'s \<Rightarrow> int"

record 's supervisor =
  sp_agents :: agents
  sp_state :: "'s agent_state"

abbreviation su_agent :: "'s supervisor_env \<Rightarrow> 's agent_env" where
  "su_agent env \<equiv> sq_agent (su_squad env)"

abbreviation su_bedrock :: "'s supervisor_env \<Rightarrow> 's bedrock_env" where
  "su_bedrock env \<equiv> ae_bedrock (su_agent env)"

abbreviation su_settings :: "'s supervisor_env \<Rightarrow> settings" where
  "su_settings env \<equiv> ae_settings (su_agent env)"

abbreviation sp_world :: "'s supervisor \<Rightarrow> 's" where
  "sp_world sp \<equiv> as_world (sp_state sp)"

definition in_world :: "'s \<Rightarrow> 's supervisor \<Rightarrow> 's supervisor" where
  "in_world s sp = sp\<lparr>sp_state := (sp_state sp)\<lparr>as_world := s\<rparr>\<rparr>"

definition with_client :: "bedrock_client \<Rightarrow> 's \<Rightarrow> 's supervisor \<Rightarrow> 's supervisor" where
  "with_client c s sp = sp\<lparr>sp_state := (sp_state sp)\<lparr>as_client := c, as_world := s\<rparr>\<rparr>"

section \<open>Results\<close>

definition plain_result :: "string \<Rightarrow> string \<Rightarrow> json \<Rightarrow> result" where
  "plain_result agent response conf =
     [(''agent'', VJson (JStr agent)), (''response'', VJson (JStr response)), (''confidence'', VJson conf)]"

definition error_result :: "string \<Rightarrow> string \<Rightarrow> string \<Rightarrow> result" where
  "error_result agent response error =
     plain_result agent response (JReal ''0.0'') @ [(''error'', VJson (JStr error))]"

definition budget_result :: result where
  "budget_result =
     error_result ''supervisor''
       ''This session has reached its token budget. Please start a new session to continue.'' ''token_budget_exceeded''"

definition unsure_result :: "json \<Rightarrow> result" where
  "unsure_result conf =
     plain_result ''supervisor''
       (''I'' @ [CHR 0x27] @ ''m not sure how to help with that. Could you please rephrase your question?'') conf"

definition unexpected_result :: "exn \<Rightarrow> result" where
  "unexpected_result e = error_result ''supervisor'' ''An unexpected error occurred. Please try again.'' e"

text \<open>The handler of \<open>process_request\<close>: a refusal passes, any other exception becomes a result.\<close>

definition catch_errors :: "guard_error + result \<Rightarrow> guard_error + result" where
  "catch_errors r = (case r of Inl (GuardrailRaised e) \<Rightarrow> Inr (unexpected_result e) | _ \<Rightarrow> r)"

section \<open>Model tiers\<close>

text \<open>None as a model means the role decides; the error is the TypeError of a confidence that is no number.\<close>

definition tier_of :: "settings \<Rightarrow> classifier_result \<Rightarrow> string option" where
  "tier_of st cls =
     (let complexity = cl_complexity cls; high = cfg_aigent_tier_confidence_high st
      in case (if complexity = ''simple'' then py_at_least (confidence cls) high else Some False) of
           None \<Rightarrow> None
         | Some True \<Rightarrow> Some ''fast''
         | Some False \<Rightarrow>
             map_option (\<lambda>deep. if deep then ''deep'' else ''standard'')
               (if complexity = ''complex'' then Some True else py_below (confidence cls) high))"

definition resolve_tier_model :: "settings \<Rightarrow> classifier_result \<Rightarrow> guard_error + string option" where
  "resolve_tier_model st cls =
     (if \<not> cfg_aigent_tier_routing_enabled st then Inr None
      else (case tier_of st cls of
              None \<Rightarrow> Inl (GuardrailRaised ''TypeError'')
            | Some tier \<Rightarrow> Inr (Some (resolve_model_for_tier st tier))))"

definition forced_classification :: "string \<Rightarrow> string \<Rightarrow> classifier_result" where
  "forced_classification agent user_input =
     (let forced_match = \<lparr>am_agent = agent, am_confidence = JReal ''1.0'', am_sub_query = JStr []\<rparr>
      in \<lparr>cl_agents = [forced_match], cl_reasoning = JStr (''forced to '' @ agent),
          cl_complexity = heuristic_complexity [forced_match] user_input\<rparr>)"

definition investigation_classification :: "string \<Rightarrow> classifier_result" where
  "investigation_classification why =
     \<lparr>cl_agents = [\<lparr>am_agent = ''investigation'', am_confidence = JReal ''0.9'', am_sub_query = JStr []\<rparr>],
      cl_reasoning = JStr why, cl_complexity = ''complex''\<rparr>"

section \<open>Conversation storage\<close>

definition save_message :: "'s supervisor_env \<Rightarrow> string \<Rightarrow> string \<Rightarrow> string \<Rightarrow> string \<Rightarrow> string \<Rightarrow> 's supervisor \<Rightarrow> 's supervisor" where
  "save_message env user_id session_id agent rl txt sp =
     (let now_iso = ae_now_iso (su_agent env) (sp_world sp)
      in in_world (save_chat_message (su_dynamo env) now_iso (su_now env (sp_world sp)) user_id session_id agent
           \<lparr>cm_role = rl, cm_content = txt, cm_timestamp = now_iso, cm_agent_id = Some agent, cm_quality = None\<rparr> (sp_world sp)) sp)"

definition agent_chat :: "'s supervisor_env \<Rightarrow> string \<Rightarrow> string \<Rightarrow> string \<Rightarrow> 's supervisor \<Rightarrow> conv_message list \<times> 's supervisor" where
  "agent_chat env user_id session_id agent sp =
     (case fetch_chat (su_dynamo env) user_id session_id agent 20 (sp_world sp) of (h, s) \<Rightarrow> (h, in_world s sp))"

section \<open>Asking agents\<close>

definition request_of :: "string \<Rightarrow> string \<Rightarrow> conv_message list \<Rightarrow> string option \<Rightarrow> agent_request" where
  "request_of input session_id history model_id_override =
     \<lparr>rq_input = input, rq_session_id = session_id, rq_history = history, rq_budget_session_id = None,
      rq_model_id_override = model_id_override\<rparr>"

text \<open>The sub-question where there is one, the user's text otherwise; None is a sub-question that is no text.\<close>

definition focused :: "json \<Rightarrow> string \<Rightarrow> string option" where
  "focused sq user_input = (if json_truthy sq then text_of sq else Some user_input)"

definition single_agent_call ::
    "'s supervisor_env \<Rightarrow> string \<Rightarrow> classifier_result \<Rightarrow> string \<Rightarrow> string \<Rightarrow> string \<Rightarrow> string option \<Rightarrow> 's supervisor \<Rightarrow>
     (guard_error + result) \<times> 's supervisor" where
  "single_agent_call env agent cls user_input user_id session_id model_id_override sp =
     (case agent_chat env user_id session_id agent sp of
        (history, sp1) \<Rightarrow>
          (let q = map_option (\<lambda>t. request_of t session_id history model_id_override)
                 (focused (case cl_agents cls of [] \<Rightarrow> JStr [] | a # _ \<Rightarrow> am_sub_query a) user_input)
           in if agent \<notin> fst ` set (sp_agents sp1) then (Inl (GuardrailRaised ''KeyError''), sp1)
              else (case fan_out (su_agent env) [(agent, q)] (sp_agents sp1) (sp_state sp1) of
                      (rs, ags, st) \<Rightarrow>
                        (let sp2 = \<lparr>sp_agents = ags, sp_state = st\<rparr>
                         in case hd rs of
                              Inl (GuardrailBlocked why src cats) \<Rightarrow> (Inl (GuardrailBlocked why src cats), sp2)
                            | Inl (GuardrailRaised e) \<Rightarrow>
                                (Inr (error_result agent (''Error processing request in '' @ agent @ '' agent.'') e), sp2)
                            | Inr m \<Rightarrow>
                                (Inr (plain_result agent (cm_content m) (confidence cls)
                                    @ [(''reasoning'', VJson (cl_reasoning cls))]
                                    @ (case cm_quality m of None \<Rightarrow> [] | Some qa \<Rightarrow> [(''quality_assessment'', VAssessment qa)])),
                                 save_message env user_id session_id agent ''assistant'' (cm_content m) sp2)))))"

section \<open>Several agents\<close>

definition SYNTHESIZER_PROMPT :: string where
  "SYNTHESIZER_PROMPT =
     ''You are a response synthesizer. You receive a user query and N specialist agent responses, and ''
     @ ''produce a single coherent answer.'' @ nl @ nl @ ''RULES:'' @ nl
     @ ''1. Preserve attribution: mention which agent contributed what when relevant'' @ nl
     @ ''2. Merge complementary information; don'' @ [CHR 0x27]
     @ ''t repeat the same fact from multiple agents'' @ nl
     @ ''3. If agents disagree, surface the disagreement'' @ nl @ ''4. Keep it concise but complete'' @ nl
     @ ''5. Don'' @ [CHR 0x27] @ ''t add information not present in the agent responses'' @ nl @ nl
     @ ''If any agents are listed as FAILED, include a brief note that the response is partial.''"

definition synthesizer_message :: "string \<Rightarrow> (string \<times> string) list \<Rightarrow> string list \<Rightarrow> string" where
  "synthesizer_message query responses failed =
     ''User query:'' @ nl @ ''<user_query>'' @ nl @ query @ nl @ ''</user_query>'' @ nl @ nl @ ''Agent responses:'' @ nl
     @ py_join (nl @ nl) (map (\<lambda>(n, resp). ''<agent name='' @ [CHR 0x22] @ n @ [CHR 0x22] @ ''>'' @ nl @ resp @ nl @ ''</agent>'') responses)
     @ (if failed = [] then [] else nl @ nl @ ''FAILED agents: '' @ py_join '', '' failed)
     @ nl @ nl @ ''Synthesize a single answer for the user.''"

definition synthesize ::
    "'s bedrock_env \<Rightarrow> string \<Rightarrow> (string \<times> string) list \<Rightarrow> string list \<Rightarrow> string \<Rightarrow> bedrock_client \<Rightarrow> 's \<Rightarrow>
     (guard_error + string) \<times> bedrock_client \<times> 's" where
  "synthesize be query responses failed session_id c s =
     (if responses = [] then (Inr ''All agents failed to respond. Please try again.'', c, s)
      else bedrock_invoke be (synthesis_request SYNTHESIZER_PROMPT (3/10) session_id (synthesizer_message query responses failed)) c s)"

fun answered_by :: "(string \<times> (guard_error + conv_message)) list \<Rightarrow> (string \<times> string) list" where
  "answered_by [] = []"
| "answered_by ((n, Inl e) # rs) = answered_by rs"
| "answered_by ((n, Inr m) # rs) = (n, cm_content m) # answered_by rs"

fun failed_agents :: "(string \<times> (guard_error + conv_message)) list \<Rightarrow> string list" where
  "failed_agents [] = []"
| "failed_agents ((n, Inl e) # rs) = n # failed_agents rs"
| "failed_agents ((n, Inr m) # rs) = failed_agents rs"

definition fan_out_result :: "agent_match list \<Rightarrow> string \<Rightarrow> string list \<Rightarrow> guard_error + result" where
  "fan_out_result ms final_response failed =
     (case py_min (am_confidence (hd ms)) (map am_confidence (tl ms)) of
        None \<Rightarrow> Inl (GuardrailRaised ''TypeError'')
      | Some lowest \<Rightarrow>
          Inr [(''agent'', VJson (JStr ''supervisor'')), (''response'', VJson (JStr final_response)),
               (''agents_consulted'', VJson (JList (map (\<lambda>m. JStr (am_agent m)) ms))),
               (''agents_failed'', VJson (JList (map JStr failed))), (''confidence'', VJson lowest)])"

definition fan_out_call ::
    "'s supervisor_env \<Rightarrow> agent_match list \<Rightarrow> string \<Rightarrow> string \<Rightarrow> string \<Rightarrow> string option \<Rightarrow> 's supervisor \<Rightarrow>
     (guard_error + result) \<times> 's supervisor" where
  "fan_out_call env ms user_input user_id session_id model_id_override sp =
     (case fan_out (su_agent env)
         (map (\<lambda>m. (am_agent m, map_option (\<lambda>t. request_of t session_id [] model_id_override) (focused (am_sub_query m) user_input))) ms)
         (sp_agents sp) (sp_state sp) of
        (rs, ags, st) \<Rightarrow>
          (let sp1 = \<lparr>sp_agents = ags, sp_state = st\<rparr>; answers = zip (map am_agent ms) rs; failed = failed_agents answers
           in case first_refusal rs of
                Some e \<Rightarrow> (Inl e, sp1)
              | None \<Rightarrow>
                  (case synthesize (su_bedrock env) user_input (answered_by answers) failed session_id (as_client st) (as_world st) of
                     (Inl e, c, s) \<Rightarrow> (Inl e, with_client c s sp1)
                   | (Inr final_response, c, s) \<Rightarrow>
                       (fan_out_result ms final_response failed,
                        save_message env user_id session_id (am_agent (hd ms)) ''assistant'' final_response (with_client c s sp1)))))"

section \<open>A request\<close>

text \<open>The scanner and the ingress guardrail: the text they let through.\<close>

definition admit :: "'s supervisor_env \<Rightarrow> string \<Rightarrow> 's supervisor \<Rightarrow> (guard_error + string) \<times> 's supervisor" where
  "admit env user_input sp =
     (case scan_text (su_agent env) user_input of
        Inl e \<Rightarrow> (Inl e, sp)
      | Inr t \<Rightarrow>
          (case guard (su_bedrock env) t ''INPUT'' (sp_world sp) of
             (Inl e, s) \<Rightarrow> (Inl e, in_world s sp)
           | (Inr u, s) \<Rightarrow> (Inr t, in_world s sp)))"

definition MAX_AGENTS :: nat where
  "MAX_AGENTS = 3"

definition classify_request ::
    "'s supervisor_env \<Rightarrow> string \<Rightarrow> string \<Rightarrow> string \<Rightarrow> 's supervisor \<Rightarrow> (guard_error + classifier_result) \<times> 's supervisor" where
  "classify_request env user_input user_id session_id sp =
     (case fetch_all_chats (su_dynamo env) user_id session_id 50 (sp_world sp) of
        (chat_history, s1) \<Rightarrow>
          (case classify (su_bedrock env) (su_registry env) user_input chat_history session_id (as_client (sp_state sp)) s1 of
             (r, c, s2) \<Rightarrow> (r, with_client c s2 sp)))"

definition known_matches :: "classifier_result \<Rightarrow> 's supervisor \<Rightarrow> agent_match list" where
  "known_matches cls sp = filter (\<lambda>m. am_agent m \<in> fst ` set (sp_agents sp)) (take MAX_AGENTS (cl_agents cls))"

definition is_forced :: "string option \<Rightarrow> 's supervisor \<Rightarrow> string option" where
  "is_forced force_agent sp =
     (case force_agent of None \<Rightarrow> None
      | Some a \<Rightarrow> if a \<noteq> [] \<and> a \<in> fst ` set (sp_agents sp) then Some a else None)"

definition forced_request ::
    "'s supervisor_env \<Rightarrow> string \<Rightarrow> string \<Rightarrow> string \<Rightarrow> string \<Rightarrow> 's supervisor \<Rightarrow> (guard_error + result) \<times> 's supervisor" where
  "forced_request env agent user_input user_id session_id sp =
     (let direct = forced_classification agent user_input
      in case resolve_tier_model (su_settings env) direct of
           Inl e \<Rightarrow> (Inl e, sp)
         | Inr model \<Rightarrow>
             single_agent_call env agent direct user_input user_id session_id model
               (save_message env user_id session_id agent ''user'' user_input sp))"

definition investigation_result :: "rca_result \<Rightarrow> result" where
  "investigation_result rca =
     [(''agent'', VJson (JStr ''investigation'')), (''response'', VJson (rca_hypothesis rca)),
      (''confidence'', VJson (JStr (rca_confidence rca))), (''rca'', VJson (rca_to_dict rca))]"

definition investigation_request ::
    "'s supervisor_env \<Rightarrow> string \<Rightarrow> string \<Rightarrow> 's supervisor \<Rightarrow> (guard_error + result) \<times> 's supervisor" where
  "investigation_request env user_input session_id sp =
     (case resolve_tier_model (su_settings env) (investigation_classification ''investigation mode'') of
        Inl e \<Rightarrow> (Inl e, sp)
      | Inr model \<Rightarrow>
          (case run_investigation (su_squad env) user_input (sp_agents sp) session_id [] model (sp_state sp) of
             (Inl e, ags, st) \<Rightarrow> (Inl e, \<lparr>sp_agents = ags, sp_state = st\<rparr>)
           | (Inr rca, ags, st) \<Rightarrow>
               (case distill_rca (su_bedrock env) (sq_kb (su_squad env)) rca None (as_client st) (as_world st) of
                  (c, s) \<Rightarrow> (Inr (investigation_result rca), with_client c s \<lparr>sp_agents = ags, sp_state = st\<rparr>))))"

definition routed_request ::
    "'s supervisor_env \<Rightarrow> string \<Rightarrow> string \<Rightarrow> string \<Rightarrow> 's supervisor \<Rightarrow> (guard_error + result) \<times> 's supervisor" where
  "routed_request env user_input user_id session_id sp =
     (case classify_request env user_input user_id session_id sp of
        (Inl e, sp1) \<Rightarrow> (Inl e, sp1)
      | (Inr cls, sp1) \<Rightarrow>
          if cl_agents cls = [] \<or> selected_agent cls = ''unknown'' then (Inr (unsure_result (confidence cls)), sp1)
          else (case known_matches cls sp1 of
                  [] \<Rightarrow> (Inr (unsure_result (JReal ''0.0'')), sp1)
                | m # ms \<Rightarrow>
                    (let sp2 = save_message env user_id session_id (am_agent m) ''user'' user_input sp1
                     in case resolve_tier_model (su_settings env) cls of
                          Inl e \<Rightarrow> (Inl e, sp2)
                        | Inr model \<Rightarrow>
                            if ms = [] then single_agent_call env (am_agent m) cls user_input user_id session_id model sp2
                            else fan_out_call env (m # ms) user_input user_id session_id model sp2)))"

definition dispatch ::
    "'s supervisor_env \<Rightarrow> string \<Rightarrow> string \<Rightarrow> string \<Rightarrow> string \<Rightarrow> string option \<Rightarrow> 's supervisor \<Rightarrow>
     (guard_error + result) \<times> 's supervisor" where
  "dispatch env user_input user_id session_id mode force_agent sp =
     (case is_forced force_agent sp of
        Some agent \<Rightarrow> forced_request env agent user_input user_id session_id sp
      | None \<Rightarrow>
          if should_investigate user_input (mode = ''investigate'') then investigation_request env user_input session_id sp
          else routed_request env user_input user_id session_id sp)"

definition session_budget :: "'s supervisor_env \<Rightarrow> string \<Rightarrow> 's supervisor \<Rightarrow> bool \<times> 's supervisor" where
  "session_budget env session_id sp =
     (case tb_check_budget (bd_redis (su_bedrock env)) (bc_tracker (as_client (sp_state sp))) session_id (sp_world sp) of
        (r, s) \<Rightarrow> (\<not> isl r, in_world s sp))"

definition supervisor_process_request ::
    "'s supervisor_env \<Rightarrow> string \<Rightarrow> string \<Rightarrow> string \<Rightarrow> string \<Rightarrow> string option \<Rightarrow> 's supervisor \<Rightarrow>
     (guard_error + result) \<times> 's supervisor" where
  "supervisor_process_request env user_input user_id session_id mode force_agent sp =
     (case session_budget env session_id sp of
        (False, sp1) \<Rightarrow> (Inr budget_result, sp1)
      | (True, sp1) \<Rightarrow>
          (case admit env user_input sp1 of
             (Inl e, sp2) \<Rightarrow> (catch_errors (Inl e), sp2)
           | (Inr t, sp2) \<Rightarrow>
               (case dispatch env t user_id session_id mode force_agent sp2 of (r, sp3) \<Rightarrow> (catch_errors r, sp3))))"

section \<open>A streaming request\<close>

text \<open>
  What the streaming twin returns: nothing (the caller then asks for a plain answer), or the events of
  the stream with the exception that ends it.  The events of the agent are computed when the stream is
  handed out.  A routing event carries its confidence as a number: another value, like a
  sub-question that is no text with the scanner off, is left out of the model.
\<close>

type_synonym stream = "step_event list \<times> guard_error option"

definition UNTYPED_ROUTING :: exn where
  "UNTYPED_ROUTING = ''the confidence is not a number''"

definition text_or_empty :: "json \<Rightarrow> string" where
  "text_or_empty v = (if json_truthy v then py_str v else [])"

definition routing_event :: "agent_match \<Rightarrow> classifier_result \<Rightarrow> step_event option" where
  "routing_event m cls =
     (case json_number (am_confidence m) of
        Some (Finite x) \<Rightarrow> Some (StepRouting (am_agent m) x (text_or_empty (cl_reasoning cls)) (text_or_empty (am_sub_query m)))
      | _ \<Rightarrow> None)"

text \<open>The scanner fails closed on a value that is no text.\<close>

definition untyped_query :: "'s supervisor_env \<Rightarrow> guard_error" where
  "untyped_query env =
     (if cfg_input_scanner_enabled (su_settings env)
      then GuardrailBlocked ''unavailable'' ''INPUT'' [''scanner:internal_error''] else GuardrailRaised ''AttributeError'')"

definition stream_agent ::
    "'s supervisor_env \<Rightarrow> string \<Rightarrow> string option \<Rightarrow> string \<Rightarrow> string \<Rightarrow> string option \<Rightarrow> 's supervisor \<Rightarrow>
     (guard_error + stream) \<times> 's supervisor" where
  "stream_agent env agent query user_id session_id model_id_override sp =
     (case agent_chat env user_id session_id agent sp of
        (history, sp1) \<Rightarrow>
          (case (query, dict_get (sp_agents sp1) agent) of
             (Some t, Some ag) \<Rightarrow>
               (case agent_process_streaming (su_agent env) ag (request_of t session_id history model_id_override) (sp_state sp1) of
                  (r, ag', st) \<Rightarrow> (r, \<lparr>sp_agents = dict_set (sp_agents sp1) agent ag', sp_state = st\<rparr>))
           | _ \<Rightarrow> (Inl (untyped_query env), sp1)))"

definition streams :: "'s supervisor \<Rightarrow> string \<Rightarrow> bool" where
  "streams sp agent \<longleftrightarrow> (case dict_get (sp_agents sp) agent of None \<Rightarrow> False | Some ag \<Rightarrow> has_agentic_tools ag)"

definition forced_stream ::
    "'s supervisor_env \<Rightarrow> string \<Rightarrow> string \<Rightarrow> string \<Rightarrow> string \<Rightarrow> 's supervisor \<Rightarrow>
     (guard_error + stream option) \<times> 's supervisor" where
  "forced_stream env agent user_input user_id session_id sp =
     (if \<not> streams sp agent then (Inr None, sp)
      else (case resolve_tier_model (su_settings env) (forced_classification agent user_input) of
              Inl e \<Rightarrow> (Inl e, sp)
            | Inr model \<Rightarrow>
                (case stream_agent env agent (Some user_input) user_id session_id model
                        (save_message env user_id session_id agent ''user'' user_input sp) of
                   (r, sp') \<Rightarrow> (map_sum id Some r, sp'))))"

definition routed_stream ::
    "'s supervisor_env \<Rightarrow> string \<Rightarrow> string \<Rightarrow> string \<Rightarrow> 's supervisor \<Rightarrow> (guard_error + stream option) \<times> 's supervisor" where
  "routed_stream env user_input user_id session_id sp =
     (case classify_request env user_input user_id session_id sp of
        (Inl e, sp1) \<Rightarrow> (Inl e, sp1)
      | (Inr cls, sp1) \<Rightarrow>
          if cl_agents cls = [] \<or> selected_agent cls = ''unknown'' then (Inr None, sp1)
          else (case known_matches cls sp1 of
                  [m] \<Rightarrow>
                    if \<not> streams sp1 (am_agent m) then (Inr None, sp1)
                    else (case resolve_tier_model (su_settings env) cls of
                            Inl e \<Rightarrow> (Inl e, sp1)
                          | Inr model \<Rightarrow>
                              (case stream_agent env (am_agent m) (focused (am_sub_query m) user_input) user_id session_id model
                                      (save_message env user_id session_id (am_agent m) ''user'' user_input sp1) of
                                 (Inl e, sp2) \<Rightarrow> (Inl e, sp2)
                               | (Inr (evs, e), sp2) \<Rightarrow>
                                   (case routing_event m cls of
                                      None \<Rightarrow> (Inl (GuardrailRaised UNTYPED_ROUTING), sp2)
                                    | Some ev \<Rightarrow> (Inr (Some (ev # evs, e)), sp2))))
                | _ \<Rightarrow> (Inr None, sp1)))"

definition supervisor_process_streaming ::
    "'s supervisor_env \<Rightarrow> string \<Rightarrow> string \<Rightarrow> string \<Rightarrow> string \<Rightarrow> string option \<Rightarrow> 's supervisor \<Rightarrow>
     (guard_error + stream option) \<times> 's supervisor" where
  "supervisor_process_streaming env user_input user_id session_id mode force_agent sp =
     (case session_budget env session_id sp of
        (False, sp1) \<Rightarrow> (Inr None, sp1)
      | (True, sp1) \<Rightarrow>
          (case admit env user_input sp1 of
             (Inl e, sp2) \<Rightarrow> (Inl e, sp2)
           | (Inr t, sp2) \<Rightarrow>
               (case is_forced force_agent sp2 of
                  Some agent \<Rightarrow> forced_stream env agent t user_id session_id sp2
                | None \<Rightarrow>
                    if should_investigate t (mode = ''investigate'') then (Inr None, sp2)
                    else routed_stream env t user_id session_id sp2)))"

section \<open>Delegation\<close>

text \<open>
  An agent asks another (core/agent_tools.py).  The depth of the calls is a context variable: an
  argument here, with the depth inside the call beside the answer.
\<close>

definition agent_tools_ask ::
    "'s supervisor_env \<Rightarrow> nat \<Rightarrow> string \<Rightarrow> string \<Rightarrow> string \<Rightarrow> 's supervisor \<Rightarrow> (guard_error + string) \<times> 's supervisor" where
  "agent_tools_ask env depth agent query session_id sp =
     (if 1 \<le> depth then
        (Inl (GuardrailRaised (''Max agent-as-tools depth reached (depth='' @ show_nat depth @ ''). Cannot call '' @ agent @ ''.'')), sp)
      else (case dict_get (sp_agents sp) agent of
              None \<Rightarrow> (Inl (GuardrailRaised (''Unknown agent: '' @ agent)), sp)
            | Some ag \<Rightarrow>
                (case agent_process_request (su_agent env) ag (request_of query session_id [] None) (sp_state sp) of
                   (r, ag', st) \<Rightarrow> (map_sum id cm_content r, \<lparr>sp_agents = dict_set (sp_agents sp) agent ag', sp_state = st\<rparr>))))"

section \<open>The agents stay\<close>

lemma same_mcp_trans: "same_mcp a b \<Longrightarrow> same_mcp b c \<Longrightarrow> same_mcp a c"
  unfolding same_mcp_def by force

lemma same_adapter_trans: "same_adapter a b \<Longrightarrow> same_adapter b c \<Longrightarrow> same_adapter a c"
  unfolding same_adapter_def by (auto intro: same_mcp_trans) (metis same_mcp_trans)

lemma same_agent_trans: "same_agent a b \<Longrightarrow> same_agent b c \<Longrightarrow> same_agent a c"
  unfolding same_agent_def using list_all2_trans [of same_adapter same_adapter same_adapter] same_adapter_trans by fastforce

text \<open>The same agents under the same names, in the same order.\<close>

definition same_agents :: "agents \<Rightarrow> agents \<Rightarrow> bool" where
  "same_agents ags ags' \<longleftrightarrow> list_all2 (\<lambda>p q. fst p = fst q \<and> same_agent (snd p) (snd q)) ags ags'"

lemma same_agents_refl [simp]: "same_agents ags ags"
  by (simp add: same_agents_def list.rel_refl)

lemma same_agents_trans: "same_agents a b \<Longrightarrow> same_agents b c \<Longrightarrow> same_agents a c"
  unfolding same_agents_def
  by (rule list_all2_trans [of _ _ "\<lambda>p q. fst p = fst q \<and> same_agent (snd p) (snd q)"]) (auto intro: same_agent_trans)

lemma same_agents_set: "dict_get ags n = Some ag \<Longrightarrow> same_agent ag ag' \<Longrightarrow> same_agents ags (dict_set ags n ag')"
  unfolding same_agents_def by (induction ags) (auto simp: list.rel_refl)

lemma fan_out_same: "fan_out env qs ags st = (rs, ags', st') \<Longrightarrow> same_agents ags ags'"
proof (induction qs arbitrary: ags st rs ags' st')
  case (Cons p qs)
  obtain n q where p: "p = (n, q)" by fastforce
  show ?case
  proof (cases "dict_get ags n = None \<or> q = None")
    case True
    with Cons p show ?thesis by (auto split: prod.splits option.splits)
  next
    case False
    then obtain ag rq where d: "dict_get ags n = Some ag" "q = Some rq" by auto
    obtain r ag1 st1 where r: "agent_process_request env ag rq st = (r, ag1, st1)" by (cases "agent_process_request env ag rq st") auto
    obtain rs2 ags2 st2 where f: "fan_out env qs (dict_set ags n ag1) st1 = (rs2, ags2, st2)"
      by (cases "fan_out env qs (dict_set ags n ag1) st1") auto
    from same_agents_trans [OF same_agents_set [OF d(1) process_request_same [OF r]] Cons.IH [OF f]] Cons.prems p d r f
    show ?thesis by simp
  qed
qed simp

named_theorems agents_of

lemma agents_of_world [agents_of]:
  "sp_agents (in_world s sp) = sp_agents sp" "sp_agents (with_client c s sp) = sp_agents sp"
  "sp_agents (save_message env u sid a rl t sp) = sp_agents sp"
  by (simp_all add: in_world_def with_client_def save_message_def Let_def)

lemma agent_chat_agents [agents_of]: "agent_chat env u sid a sp = (h, sp') \<Longrightarrow> sp_agents sp' = sp_agents sp"
  by (auto simp: agent_chat_def agents_of split: prod.splits)

lemma admit_agents [agents_of]: "admit env t sp = (r, sp') \<Longrightarrow> sp_agents sp' = sp_agents sp"
  by (auto simp: admit_def agents_of split: prod.splits sum.splits)

lemma budget_agents [agents_of]: "session_budget env sid sp = (b, sp') \<Longrightarrow> sp_agents sp' = sp_agents sp"
  by (auto simp: session_budget_def agents_of split: prod.splits)

lemma classify_agents [agents_of]: "classify_request env t u sid sp = (r, sp') \<Longrightarrow> sp_agents sp' = sp_agents sp"
  by (auto simp: classify_request_def agents_of split: prod.splits)

lemma single_agent_same:
  "single_agent_call env a cls t u sid model sp = (r, sp') \<Longrightarrow> same_agents (sp_agents sp) (sp_agents sp')"
  unfolding single_agent_call_def Let_def
  by (auto dest!: fan_out_same agent_chat_agents simp: agents_of simp del: fan_out.simps
      split: prod.splits if_splits sum.splits guard_error.splits)

lemma fan_out_call_same:
  "fan_out_call env ms t u sid model sp = (r, sp') \<Longrightarrow> same_agents (sp_agents sp) (sp_agents sp')"
  unfolding fan_out_call_def Let_def
  by (auto dest!: fan_out_same simp: agents_of simp del: fan_out.simps split: prod.splits option.splits sum.splits)

lemma run_investigation_same:
  "run_investigation env sy ags sid names ov st = (r, ags', st') \<Longrightarrow> same_agents ags ags'"
  unfolding run_investigation_def Let_def
  by (auto dest!: fan_out_same simp del: fan_out.simps split: sum.splits prod.splits if_splits option.splits)

lemma dispatch_same:
  assumes "dispatch env t u sid mode force sp = (r, sp')"
  shows "same_agents (sp_agents sp) (sp_agents sp')"
proof -
  have f: "same_agents (sp_agents sp) (sp_agents sp')" if "forced_request env a t u sid sp = (r, sp')" for a
    using that by (auto simp: forced_request_def Let_def agents_of dest!: single_agent_same split: sum.splits)
  have i: "same_agents (sp_agents sp) (sp_agents sp')" if "investigation_request env t sid sp = (r, sp')"
    using that by (auto simp: investigation_request_def agents_of dest!: run_investigation_same split: sum.splits prod.splits)
  have q: "same_agents (sp_agents sp) (sp_agents sp')" if "routed_request env t u sid sp = (r, sp')"
    using that
    by (auto simp: routed_request_def Let_def agents_of dest!: single_agent_same fan_out_call_same classify_agents
        split: sum.splits prod.splits list.splits if_splits)
  show ?thesis using assms f i q by (auto simp: dispatch_def split: option.splits if_splits)
qed

lemma stream_agent_same:
  "stream_agent env a q u sid model sp = (r, sp') \<Longrightarrow> same_agents (sp_agents sp) (sp_agents sp')"
  unfolding stream_agent_def
  by (auto dest!: agent_chat_agents process_streaming_same intro: same_agents_set split: prod.splits option.splits)

lemma process_request_agents:
  "supervisor_process_request env t u sid mode force sp = (r, sp') \<Longrightarrow> same_agents (sp_agents sp) (sp_agents sp')"
  unfolding supervisor_process_request_def
  by (auto dest!: budget_agents admit_agents dispatch_same split: prod.splits bool.splits sum.splits)

lemma process_streaming_agents:
  assumes "supervisor_process_streaming env t u sid mode force sp = (r, sp')"
  shows "same_agents (sp_agents sp) (sp_agents sp')"
proof -
  have f: "same_agents (sp_agents sp) (sp_agents sp')" if "forced_stream env a t u sid sp = (r, sp')" for a t sp
    using that by (auto simp: forced_stream_def agents_of dest!: stream_agent_same split: if_splits sum.splits prod.splits)
  have q: "same_agents (sp_agents sp) (sp_agents sp')" if "routed_stream env t u sid sp = (r, sp')" for t sp
    using that
    by (auto simp: routed_stream_def agents_of dest!: stream_agent_same classify_agents
        split: sum.splits prod.splits list.splits if_splits option.splits)
  show ?thesis
    using assms unfolding supervisor_process_streaming_def
    by (auto dest!: budget_agents admit_agents f q split: prod.splits bool.splits sum.splits option.splits if_splits)
qed

lemma ask_agents: "agent_tools_ask env d a q sid sp = (r, sp') \<Longrightarrow> same_agents (sp_agents sp) (sp_agents sp')"
  unfolding agent_tools_ask_def
  by (auto dest!: process_request_same intro: same_agents_set split: if_splits option.splits prod.splits)

section \<open>What a result went through\<close>

lemma catch_errors_cases:
  "catch_errors r = Inl e \<Longrightarrow> r = Inl e \<and> (\<exists>why src cats. e = GuardrailBlocked why src cats)"
  "catch_errors r = Inr res \<Longrightarrow> r = Inr res \<or> (\<exists>e. res = unexpected_result e)"
  by (auto simp: catch_errors_def split: sum.splits guard_error.splits)

lemma admit_Inr: "admit env t sp = (Inr q, sp') \<Longrightarrow> scan_text (su_agent env) t = Inr q \<and> passed (su_bedrock env) ''INPUT'' q"
  by (auto simp: admit_def intro: passedI split: sum.splits prod.splits)

lemma process_request_cases:
  assumes "supervisor_process_request env t u sid mode force sp = (Inr res, sp')"
  obtains "res = budget_result" | e where "res = unexpected_result e"
  | q sp1 where "scan_text (su_agent env) t = Inr q" "passed (su_bedrock env) ''INPUT'' q"
      "dispatch env q u sid mode force sp1 = (Inr res, sp')"
  using assms unfolding supervisor_process_request_def
  by (auto dest!: catch_errors_cases(2) dest: admit_Inr split: prod.splits bool.splits sum.splits)

lemma no_reasoning:
  "dict_get budget_result ''reasoning'' = None" "dict_get (unexpected_result e) ''reasoning'' = None"
  "dict_get (unsure_result c) ''reasoning'' = None" "dict_get (investigation_result rca) ''reasoning'' = None"
  "dict_get (error_result a b c') ''reasoning'' = None"
  by (simp_all add: budget_result_def unexpected_result_def unsure_result_def investigation_result_def error_result_def plain_result_def)

lemma fan_out_no_reasoning: "fan_out_call env ms t u sid model sp = (Inr res, sp') \<Longrightarrow> dict_get res ''reasoning'' = None"
  by (auto simp: fan_out_call_def fan_out_result_def Let_def simp del: fan_out.simps split: prod.splits option.splits sum.splits)

text \<open>
  One agent's answer, in full: an agent of the squad, a request of the session, what its answer paths
  gave, the screens it passed and the result that carries it.
\<close>

definition answered_in_full ::
    "'s supervisor_env \<Rightarrow> 's supervisor \<Rightarrow> string \<Rightarrow> result \<Rightarrow> string \<Rightarrow> string \<Rightarrow> bool" where
  "answered_in_full env sp sid res name asked \<longleftrightarrow>
     dict_get res ''agent'' = Some (VJson (JStr name)) \<and>
     (\<exists>ag rq st input response messages ag' st' qa.
        dict_get (sp_agents sp) name = Some ag \<and> rq_input rq = asked \<and> rq_session_id rq = sid \<and>
        scan_text (su_agent env) asked = Inr input \<and>
        answer_paths (su_agent env) ag rq input st = (Inr (response, messages), ag', st') \<and>
        dict_get res ''response'' = Some (VJson (JStr response)) \<and>
        output_filter_scan (cfg_output_filter_enabled (su_settings env)) response = Inr () \<and>
        quality_scan (cfg_response_quality_enabled (su_settings env)) response (extract_tool_result_text messages) = Inr qa \<and>
        dict_get res ''quality_assessment'' = map_option VAssessment qa)"

lemma single_answer_in_full:
  assumes "single_agent_call env a cls t u sid model sp = (Inr res, sp')" "dict_get res ''reasoning'' \<noteq> None"
  obtains asked where "focused (case cl_agents cls of [] \<Rightarrow> JStr [] | a # _ \<Rightarrow> am_sub_query a) t = Some asked"
    "answered_in_full env sp sid res a asked"
proof -
  obtain history sp1 where h: "agent_chat env u sid a sp = (history, sp1)" by fastforce
  let ?f = "focused (case cl_agents cls of [] \<Rightarrow> JStr [] | a # _ \<Rightarrow> am_sub_query a) t"
  let ?q = "map_option (\<lambda>t. request_of t sid history model) ?f"
  obtain rs ags st where f: "fan_out (su_agent env) [(a, ?q)] (sp_agents sp1) (sp_state sp1) = (rs, ags, st)" by (rule prod_cases3)
  from assms h f obtain m where m: "hd rs = Inr m"
    and res: "res = plain_result a (cm_content m) (confidence cls) @ [(''reasoning'', VJson (cl_reasoning cls))]
      @ (case cm_quality m of None \<Rightarrow> [] | Some qa \<Rightarrow> [(''quality_assessment'', VAssessment qa)])"
    by (auto simp: single_agent_call_def Let_def error_result_def plain_result_def simp del: fan_out.simps
        split: if_splits sum.splits guard_error.splits)
  from f m obtain ag asked ag1 st1 where ag: "dict_get (sp_agents sp1) a = Some ag" "?f = Some asked"
    and r: "agent_process_request (su_agent env) ag (request_of asked sid history model) (sp_state sp1) = (Inr m, ag1, st1)"
    by (auto split: option.splits prod.splits)
  from r obtain input response messages st2 where i: "scan_text (su_agent env) asked = Inr input"
    and p: "answer_paths (su_agent env) ag (request_of asked sid history model) input (sp_state sp1) = (Inr (response, messages), ag1, st2)"
    and fin: "finish_answer (su_agent env) ag response messages (as_world st2) = Inr m"
    by (auto simp: agent_process_request_def request_of_def split: if_splits sum.splits prod.splits)
  note sc = finish_answer_screened [OF fin]
  have "dict_get res ''agent'' = Some (VJson (JStr a))" "dict_get res ''response'' = Some (VJson (JStr response))"
    "dict_get res ''quality_assessment'' = map_option VAssessment (cm_quality m)"
    using res sc(1) by (auto simp: plain_result_def split: option.splits)
  moreover have "dict_get (sp_agents sp) a = Some ag" using ag(1) agent_chat_agents [OF h] by simp
  moreover have "rq_input (request_of asked sid history model) = asked" "rq_session_id (request_of asked sid history model) = sid"
    by (simp_all add: request_of_def)
  ultimately have "answered_in_full env sp sid res a asked"
    unfolding answered_in_full_def using i p sc(4,5) by blast
  from that [OF ag(2) this] show thesis .
qed

lemma dispatch_answer_of:
  assumes "dispatch env t u sid mode force sp = (Inr res, sp')" "dict_get res ''reasoning'' \<noteq> None"
  obtains a cls model sp1 where "single_agent_call env a cls t u sid model sp1 = (Inr res, sp')" "sp_agents sp1 = sp_agents sp"
    "\<forall>f. is_forced force sp = Some f \<longrightarrow> a = f \<and> cls = forced_classification f t"
proof (cases "is_forced force sp")
  case (Some f)
  with assms that show thesis
    by (force simp: dispatch_def forced_request_def Let_def agents_of split: sum.splits)
next
  case None
  with assms no_reasoning have r: "routed_request env t u sid sp = (Inr res, sp')"
    by (auto simp: dispatch_def investigation_request_def split: if_splits sum.splits prod.splits)
  obtain r1 sp1 where c: "classify_request env t u sid sp = (r1, sp1)" by fastforce
  from r c assms(2) obtain cls m ms model where
    "(if ms = [] then single_agent_call env (am_agent m) cls t u sid model (save_message env u sid (am_agent m) ''user'' t sp1)
      else fan_out_call env (m # ms) t u sid model (save_message env u sid (am_agent m) ''user'' t sp1)) = (Inr res, sp')"
    by (auto simp: routed_request_def Let_def no_reasoning split: sum.splits if_splits list.splits)
  with assms(2) have
    "single_agent_call env (am_agent m) cls t u sid model (save_message env u sid (am_agent m) ''user'' t sp1) = (Inr res, sp')"
    by (cases "ms = []") (auto dest!: fan_out_no_reasoning)
  from that [OF this] None show thesis by (simp add: agents_of classify_agents [OF c])
qed

lemma answered_request:
  assumes "supervisor_process_request env t u sid mode force sp = (Inr res, sp')" "dict_get res ''reasoning'' \<noteq> None"
  obtains q a asked where "scan_text (su_agent env) t = Inr q" "passed (su_bedrock env) ''INPUT'' q"
    "answered_in_full env sp sid res a asked" "\<forall>f. is_forced force sp = Some f \<longrightarrow> a = f \<and> asked = q"
proof -
  obtain ok sp1 where b: "session_budget env sid sp = (ok, sp1)" by fastforce
  obtain r sp2 where d: "admit env t sp1 = (r, sp2)" by fastforce
  from assms b d no_reasoning obtain q where q: "r = Inr q" "dispatch env q u sid mode force sp2 = (Inr res, sp')"
    unfolding supervisor_process_request_def
    by (auto dest!: catch_errors_cases(2) split: bool.splits sum.splits prod.splits)
  have same: "sp_agents sp2 = sp_agents sp" using budget_agents [OF b] admit_agents [OF d] by simp
  obtain a cls model sp3 where c: "single_agent_call env a cls q u sid model sp3 = (Inr res, sp')" "sp_agents sp3 = sp_agents sp2"
    "\<forall>f. is_forced force sp2 = Some f \<longrightarrow> a = f \<and> cls = forced_classification f q"
    by (rule dispatch_answer_of [OF q(2) assms(2)])
  obtain asked where a: "focused (case cl_agents cls of [] \<Rightarrow> JStr [] | a # _ \<Rightarrow> am_sub_query a) q = Some asked"
    "answered_in_full env sp3 sid res a asked" by (rule single_answer_in_full [OF c(1) assms(2)])
  have "answered_in_full env sp sid res a asked" using a(2) c(2) same by (simp add: answered_in_full_def)
  moreover have "is_forced force sp2 = is_forced force sp" using same by (simp add: is_forced_def split: option.splits)
  then have "\<forall>f. is_forced force sp = Some f \<longrightarrow> a = f \<and> asked = q"
    using c(3) a(1) by (auto simp: forced_classification_def Let_def focused_def)
  ultimately show thesis using that admit_Inr d q(1) by blast
qed

lemma screened_answer:
  assumes "supervisor_process_request env t u sid mode force sp = (Inr res, sp')" "dict_get res ''reasoning'' \<noteq> None"
  obtains q response evidence qa where "scan_text (su_agent env) t = Inr q" "passed (su_bedrock env) ''INPUT'' q"
    "dict_get res ''response'' = Some (VJson (JStr response))"
    "output_filter_scan (cfg_output_filter_enabled (su_settings env)) response = Inr ()"
    "quality_scan (cfg_response_quality_enabled (su_settings env)) response evidence = Inr qa"
    "dict_get res ''quality_assessment'' = map_option VAssessment qa"
proof -
  obtain q a asked where "scan_text (su_agent env) t = Inr q" "passed (su_bedrock env) ''INPUT'' q"
    "answered_in_full env sp sid res a asked" by (rule answered_request [OF assms])
  with that show thesis unfolding answered_in_full_def by blast
qed

section \<open>When nothing clears\<close>

text \<open>What is left of the supervisor when only the budget, the scanner and the ingress guardrail ran.\<close>

definition only_admitted :: "'s supervisor_env \<Rightarrow> string \<Rightarrow> string \<Rightarrow> 's supervisor \<Rightarrow> 's supervisor" where
  "only_admitted env t sid sp =
     (case session_budget env sid sp of
        (False, sp1) \<Rightarrow> sp1
      | (True, sp1) \<Rightarrow>
          (case scan_text (su_agent env) t of
             Inl e \<Rightarrow> sp1
           | Inr q \<Rightarrow> in_world (snd (guard (su_bedrock env) q ''INPUT'' (sp_world sp1))) sp1))"

lemma scan_refuses_input: "scan_text env t = Inl e \<Longrightarrow> \<exists>why cats. e = GuardrailBlocked why ''INPUT'' cats"
  using input_guard.refusal by (fastforce simp: scan_text_def map_sum_def split: sum.splits)

lemma admit_never_clears:
  assumes "never_clears (bd_guardrail (su_bedrock env)) (bd_guard_service (su_bedrock env))" "session_budget env sid sp = (True, sp1)"
    and "admit env t sp1 = (r, sp2)"
  obtains why cats where "r = Inl (GuardrailBlocked why ''INPUT'' cats)" "sp2 = only_admitted env t sid sp"
  | q e where "r = Inl (GuardrailRaised e)" "sp2 = only_admitted env t sid sp" "scan_text (su_agent env) t = Inr q"
      "fst (guard (su_bedrock env) q ''INPUT'' (sp_world sp1)) = Inl (GuardrailRaised e)"
proof (cases "scan_text (su_agent env) t")
  case (Inl e)
  then obtain why cats where e: "e = GuardrailBlocked why ''INPUT'' cats" using scan_refuses_input by blast
  show thesis by (rule that(1) [of why cats]) (use assms(2,3) Inl e in \<open>auto simp: admit_def only_admitted_def split: sum.splits\<close>)
next
  case (Inr q)
  obtain g s where g: "guard (su_bedrock env) q ''INPUT'' (sp_world sp1) = (g, s)" by fastforce
  with never_passed [OF assms(1)] obtain e where e: "g = Inl e" by (cases g) (auto dest: passedI)
  have "r = Inl e" "sp2 = only_admitted env t sid sp"
    using assms(2,3) Inr g e by (simp_all add: admit_def only_admitted_def)
  with that Inr g e show thesis by (cases e) (auto dest!: guard_source)
qed

section \<open>Properties\<close>

text \<open>
  C15: nothing is answered unadmitted: the only exception a request raises is a guardrail refusal, and
  every result but the two error replies, and every stream, belongs to a text that the scanner accepted
  and the guardrail passed.
\<close>

theorem requests_are_admitted:
  "(case fst (supervisor_process_request env t u sid mode force sp) of
      Inl e \<Rightarrow> \<exists>why src cats. e = GuardrailBlocked why src cats
    | Inr res \<Rightarrow> res = budget_result \<or> (\<exists>e. res = unexpected_result e) \<or>
        (\<exists>q. scan_text (su_agent env) t = Inr q \<and> passed (su_bedrock env) ''INPUT'' q)) \<and>
   (case fst (supervisor_process_streaming env t u sid mode force sp) of
      Inr (Some str) \<Rightarrow> \<exists>q. scan_text (su_agent env) t = Inr q \<and> passed (su_bedrock env) ''INPUT'' q
    | _ \<Rightarrow> True)"
proof (rule conjI)
  obtain r sp' where p: "supervisor_process_request env t u sid mode force sp = (r, sp')" by fastforce
  show "case fst (supervisor_process_request env t u sid mode force sp) of
      Inl e \<Rightarrow> \<exists>why src cats. e = GuardrailBlocked why src cats
    | Inr res \<Rightarrow> res = budget_result \<or> (\<exists>e. res = unexpected_result e) \<or>
        (\<exists>q. scan_text (su_agent env) t = Inr q \<and> passed (su_bedrock env) ''INPUT'' q)"
  proof (cases r)
    case (Inl e)
    with p show ?thesis
      by (auto simp: supervisor_process_request_def dest!: catch_errors_cases(1) split: prod.splits bool.splits sum.splits)
  next
    case (Inr res)
    with p process_request_cases [of env t u sid mode force sp res sp'] show ?thesis by auto
  qed
  show "case fst (supervisor_process_streaming env t u sid mode force sp) of
      Inr (Some str) \<Rightarrow> \<exists>q. scan_text (su_agent env) t = Inr q \<and> passed (su_bedrock env) ''INPUT'' q
    | _ \<Rightarrow> True"
    by (auto simp: supervisor_process_streaming_def dest: admit_Inr split: prod.splits bool.splits sum.splits option.splits if_splits)
qed

text \<open>
  The squad outlives its requests: whatever a request, a stream or a delegated question does and
  however it ends, the supervisor has the same agents under the same names, each with its configuration,
  prompt, skills and data sources; only tool catalogues that were read are kept.
\<close>

theorem supervisor_keeps_its_agents:
  "same_agents (sp_agents sp) (sp_agents (snd (supervisor_process_request env t u sid mode force sp))) \<and>
   same_agents (sp_agents sp) (sp_agents (snd (supervisor_process_streaming env t u sid mode force sp))) \<and>
   same_agents (sp_agents sp) (sp_agents (snd (agent_tools_ask env depth agent t sid sp)))"
  using process_request_agents process_streaming_agents ask_agents by (metis prod.collapse)

text \<open>
  C16: an agent's answer reaches the user as the screens left it.  Where a result carries the reasoning of
  the routing, the agent it names is one of the squad, asked in this session with a question the scanner
  accepted (the user's own where an agent is forced, and then it is that agent); the response is what the
  answer paths of that agent gave, it has passed the output filter, and the quality guard judged it
  against the tool results of that very run: the assessment that guard gave is the one beside the
  response, and there is none only where the guard gave none.
\<close>

theorem direct_answers_are_screened:
  assumes "supervisor_process_request env t u sid mode force sp = (Inr res, sp')" "dict_get res ''reasoning'' \<noteq> None"
  shows "\<exists>q name ag rq st input response messages ag' st' qa.
    scan_text (su_agent env) t = Inr q \<and>
    dict_get res ''agent'' = Some (VJson (JStr name)) \<and> dict_get (sp_agents sp) name = Some ag \<and>
    (\<forall>f. is_forced force sp = Some f \<longrightarrow> name = f \<and> rq_input rq = q) \<and>
    rq_session_id rq = sid \<and> scan_text (su_agent env) (rq_input rq) = Inr input \<and>
    answer_paths (su_agent env) ag rq input st = (Inr (response, messages), ag', st') \<and>
    dict_get res ''response'' = Some (VJson (JStr response)) \<and>
    output_filter_scan (cfg_output_filter_enabled (su_settings env)) response = Inr () \<and>
    quality_scan (cfg_response_quality_enabled (su_settings env)) response (extract_tool_result_text messages) = Inr qa \<and>
    dict_get res ''quality_assessment'' = map_option VAssessment qa"
proof -
  obtain q a asked where a: "scan_text (su_agent env) t = Inr q" "answered_in_full env sp sid res a asked"
    "\<forall>f. is_forced force sp = Some f \<longrightarrow> a = f \<and> asked = q" by (rule answered_request [OF assms])
  from a(2) obtain ag rq st input response messages ag' st' qa where
    "dict_get res ''agent'' = Some (VJson (JStr a))" "dict_get (sp_agents sp) a = Some ag" "rq_input rq = asked"
    "rq_session_id rq = sid" "scan_text (su_agent env) asked = Inr input"
    "answer_paths (su_agent env) ag rq input st = (Inr (response, messages), ag', st')"
    "dict_get res ''response'' = Some (VJson (JStr response))"
    "output_filter_scan (cfg_output_filter_enabled (su_settings env)) response = Inr ()"
    "quality_scan (cfg_response_quality_enabled (su_settings env)) response (extract_tool_result_text messages) = Inr qa"
    "dict_get res ''quality_assessment'' = map_option VAssessment qa"
    unfolding answered_in_full_def by blast
  with a(1,3) show ?thesis by blast
qed

text \<open>
  C38: a guardrail that never clears stops the whole squad.  With the guardrail on and without identifier,
  or its service erring or intervening on every text, whatever the user asks and whichever agent is forced:
  a plain request ends with the budget reply, with a refusal of the input, or, where the service raised
  something else than an AWS error, with the reply that reports it; a stream is refused, raises what the
  service raised, or is not started for want of budget.  In each case the budget store and, once per
  admissible request, the guardrail service are all that was called: no table, classifier, agent or model,
  and without an identifier not even the guardrail.  The model client itself gives no text in any state.
\<close>

theorem guardrail_outage_stops_the_squad:
  assumes "never_clears (bd_guardrail (su_bedrock env)) (bd_guard_service (su_bedrock env))"
  shows "(case supervisor_process_request env t u sid mode force sp of (r, sp') \<Rightarrow>
      sp' = only_admitted env t sid sp \<and>
      (r = Inr budget_result \<and> \<not> fst (session_budget env sid sp) \<or>
       (\<exists>why cats. r = Inl (GuardrailBlocked why ''INPUT'' cats)) \<or>
       (\<exists>q e. r = Inr (unexpected_result e) \<and>
         fst (guard (su_bedrock env) q ''INPUT'' (sp_world (snd (session_budget env sid sp)))) = Inl (GuardrailRaised e)))) \<and>
    (case supervisor_process_streaming env t u sid mode force sp of (r, sp') \<Rightarrow>
      sp' = only_admitted env t sid sp \<and> (if fst (session_budget env sid sp) then isl r else r = Inr None)) \<and>
    (gr_id (bd_guardrail (su_bedrock env)) = [] \<longrightarrow> only_admitted env t sid sp = snd (session_budget env sid sp)) \<and>
    isl (fst (bedrock_invoke (su_bedrock env) iq c s)) \<and>
    (case fst (bedrock_converse (su_bedrock env) cq c s) of Inl e \<Rightarrow> True | Inr r \<Rightarrow> block_texts (rs_content r) = [])"
proof (intro conjI)
  obtain ok sp1 where b: "session_budget env sid sp = (ok, sp1)" by fastforce
  obtain r2 sp2 where d: "admit env t sp1 = (r2, sp2)" by fastforce
  have full: "sp2 = only_admitted env t sid sp \<and> ((\<exists>why cats. r2 = Inl (GuardrailBlocked why ''INPUT'' cats)) \<or>
      (\<exists>q e. r2 = Inl (GuardrailRaised e) \<and> fst (guard (su_bedrock env) q ''INPUT'' (sp_world sp1)) = Inl (GuardrailRaised e)))" if ok
  proof -
    from b that have "session_budget env sid sp = (True, sp1)" by simp
    from admit_never_clears [OF assms this d] show ?thesis by metis
  qed
  show "case supervisor_process_request env t u sid mode force sp of (r, sp') \<Rightarrow>
      sp' = only_admitted env t sid sp \<and>
      (r = Inr budget_result \<and> \<not> fst (session_budget env sid sp) \<or>
       (\<exists>why cats. r = Inl (GuardrailBlocked why ''INPUT'' cats)) \<or>
       (\<exists>q e. r = Inr (unexpected_result e) \<and>
         fst (guard (su_bedrock env) q ''INPUT'' (sp_world (snd (session_budget env sid sp)))) = Inl (GuardrailRaised e)))"
  proof (cases ok)
    case True
    with b d full show ?thesis by (auto simp: supervisor_process_request_def catch_errors_def)
  next
    case False
    with b show ?thesis by (simp add: supervisor_process_request_def only_admitted_def)
  qed
  show "case supervisor_process_streaming env t u sid mode force sp of (r, sp') \<Rightarrow>
      sp' = only_admitted env t sid sp \<and> (if fst (session_budget env sid sp) then isl r else r = Inr None)"
  proof (cases ok)
    case True
    with b d full show ?thesis by (auto simp: supervisor_process_streaming_def)
  next
    case False
    with b show ?thesis by (simp add: supervisor_process_streaming_def only_admitted_def)
  qed
  show "gr_id (bd_guardrail (su_bedrock env)) = [] \<longrightarrow> only_admitted env t sid sp = snd (session_budget env sid sp)"
    using b assms
    by (auto simp: only_admitted_def guard_def apply_guardrail_def never_clears_def in_world_def split: bool.splits sum.splits)
  show "isl (fst (bedrock_invoke (su_bedrock env) iq c s))"
    using invoke_releases never_passed [OF assms] by (metis prod.collapse sum.collapse(2) sum.disc(1))
  show "case fst (bedrock_converse (su_bedrock env) cq c s) of Inl e \<Rightarrow> True | Inr r \<Rightarrow> block_texts (rs_content r) = []"
  proof (cases "fst (bedrock_converse (su_bedrock env) cq c s)")
    case (Inr r)
    then obtain c' s' where r: "bedrock_converse (su_bedrock env) cq c s = (Inr r, c', s')" by (metis prod.collapse)
    have "x \<notin> set (block_texts (rs_content r))" for x
      using converse_releases(1) [OF r] never_passed [OF assms] by blast
    then have "set (block_texts (rs_content r)) = {}" by (auto simp: set_eq_iff)
    with Inr show ?thesis by simp
  qed simp
qed

definition questions_only :: "'s dynamo_ops \<Rightarrow> 's dynamo_ops" where
  "questions_only d = d\<lparr>put_item := (\<lambda>i s. if it_role i = ''user'' then put_item d i s else (Inr (), s))\<rparr>"

lemma questions_only_simps:
  "query_items (questions_only d) = query_items d" "fetch_chat (questions_only d) = fetch_chat d"
  "fetch_all_chats (questions_only d) = fetch_all_chats d"
  "cm_role m = ''user'' \<Longrightarrow> save_chat_message (questions_only d) ts now u sid a m s = save_chat_message d ts now u sid a m s"
  by (simp_all add: questions_only_def fetch_chat_def fetch_all_chats_def save_chat_message_def fun_eq_iff)

text \<open>
  A stream leaves no answer behind: of the messages of a streamed request only the user's is ever
  stored, so a table that refuses every other message makes no difference to it.
\<close>

theorem streaming_stores_no_answer:
  "supervisor_process_streaming (env\<lparr>su_dynamo := questions_only (su_dynamo env)\<rparr>) t u sid mode force sp =
   supervisor_process_streaming env t u sid mode force sp"
proof -
  let ?env = "env\<lparr>su_dynamo := questions_only (su_dynamo env)\<rparr>"
  have e: "su_squad ?env = su_squad env" "su_registry ?env = su_registry env" "su_now ?env = su_now env"
    "su_dynamo ?env = questions_only (su_dynamo env)" by simp_all
  have c: "agent_chat ?env = agent_chat env" "classify_request ?env = classify_request env"
    "admit ?env = admit env" "session_budget ?env = session_budget env"
    unfolding fun_eq_iff agent_chat_def classify_request_def admit_def session_budget_def e questions_only_simps by simp_all
  have m: "save_message ?env u sid a ''user'' t = save_message env u sid a ''user'' t" for a t
    unfolding fun_eq_iff save_message_def Let_def e by (simp add: questions_only_simps)
  have s: "stream_agent ?env = stream_agent env"
    unfolding fun_eq_iff stream_agent_def untyped_query_def e c by simp
  show ?thesis unfolding supervisor_process_streaming_def forced_stream_def routed_stream_def e c m s ..
qed

text \<open>
  The question an agent is asked is also the last message of the history it is given: it is stored
  before the history is read.
\<close>

lemma question_is_in_its_own_history:
  assumes "dynamo_laws (su_dynamo env) tbl" "\<forall>i \<in> set (tbl (sp_world sp)). it_pk i \<noteq> u @ ''#'' @ sid"
  shows "map cm_content (fst (agent_chat env u sid a (save_message env u sid a ''user'' t sp))) = [t]"
proof -
  let ?pk = "u @ ''#'' @ sid" and ?iso = "ae_now_iso (su_agent env) (sp_world sp)"
  let ?i = "\<lparr>it_pk = ?pk, it_sk = a @ ''#'' @ ?iso, it_user_id = u, it_session_id = sid, it_agent_id = a, it_role = ''user'',
    it_content = t, it_timestamp = ?iso, it_ttl = su_now env (sp_world sp) + 24 * 3600\<rparr>"
  let ?sp = "save_message env u sid a ''user'' t sp"
  have w: "sp_world ?sp = snd (put_item (su_dynamo env) ?i (sp_world sp))"
    by (simp add: save_message_def Let_def in_world_def save_chat_message_def)
  have tb: "tbl (sp_world ?sp) = ?i # filter (\<lambda>j. \<not> same_key ?i j) (tbl (sp_world sp))"
    using assms(1) unfolding w dynamo_laws_def by blast
  have "filter (\<lambda>i. it_pk i = ?pk \<and> prefix a (it_sk i)) (filter (\<lambda>j. \<not> same_key ?i j) (tbl (sp_world sp))) = []"
    using assms(2) by (auto simp: filter_empty_conv)
  then have "select_items ?pk (Some a) (tbl (sp_world ?sp)) = [?i]"
    unfolding select_items_def tb by simp
  moreover have "query_items (su_dynamo env) ?pk (Some a) False 20 (sp_world ?sp) =
      (Inr (take 20 (rev (select_items ?pk (Some a) (tbl (sp_world ?sp))))), sp_world ?sp)"
    using assms(1) unfolding dynamo_laws_def by simp
  ultimately show ?thesis by (simp add: agent_chat_def fetch_chat_def message_of_item_def)
qed

section \<open>A quiet supervisor\<close>

text \<open>The quiet squad of the investigations, with a table that is a list of items.\<close>

definition quiet_supervisor_env :: "(rat \<Rightarrow> string) \<Rightarrow> item list supervisor_env" where
  "quiet_supervisor_env ans =
     \<lparr>su_squad = quiet_squad ans, su_registry = empty_registry, su_dynamo = list_dynamo, su_now = (\<lambda>s. 0)\<rparr>"

definition quiet_supervisor :: "string list \<Rightarrow> item list supervisor" where
  "quiet_supervisor names =
     \<lparr>sp_agents = map (\<lambda>n. (n, quiet_agent n)) names,
      sp_state = \<lparr>as_client = new_bedrock_client quiet_settings, as_breakers = [], as_canary = [], as_world = []\<rparr>\<rparr>"

lemma quiet_budget: "session_budget (quiet_supervisor_env ans) sid (quiet_supervisor names) = (True, quiet_supervisor names)"
proof -
  have "(0::int) < cfg_session_token_budget quiet_settings" by (simp add: quiet_settings_def default_settings_def)
  then show ?thesis
    by (simp add: session_budget_def quiet_supervisor_env_def quiet_squad_def quiet_env_def quiet_supervisor_def
        new_bedrock_client_def new_tracker_def tb_check_budget_def mem_usage_def Let_def in_world_def)
qed

lemma quiet_admit: "admit (quiet_supervisor_env ans) t sp = (Inr t, sp)"
proof -
  have e: "su_agent (quiet_supervisor_env ans) = quiet_env ans" by (simp add: quiet_supervisor_env_def quiet_squad_def)
  have b: "ae_bedrock (quiet_env ans) = quiet_bedrock ans" by (simp add: quiet_env_def)
  show ?thesis unfolding admit_def e b quiet_scan by (simp add: in_world_def)
qed

lemma forced_tier: "\<exists>model. resolve_tier_model st (forced_classification a t) = Inr model"
  by (auto simp: resolve_tier_model_def tier_of_def forced_classification_def confidence_def heuristic_complexity_def
      py_at_least_def py_below_def Let_def split: option.splits bool.splits)

lemma quiet_forced:
  assumes "py_strip t \<noteq> []"
  shows "\<exists>sp'. supervisor_process_request (quiet_supervisor_env ans) t u sid mode (Some ''k8s'') (quiet_supervisor [''k8s'']) =
    (Inr (plain_result ''k8s'' (ans (1/10)) (JReal ''1.0'') @ [(''reasoning'', VJson (JStr ''forced to k8s''))]), sp')"
proof -
  let ?env = "quiet_supervisor_env ans" and ?sp = "quiet_supervisor [''k8s'']" and ?cls = "forced_classification ''k8s'' t"
  have e: "su_agent ?env = quiet_env ans" by (simp add: quiet_supervisor_env_def quiet_squad_def)
  obtain model where r: "resolve_tier_model (su_settings ?env) ?cls = Inr model" using forced_tier by blast
  let ?sp1 = "save_message ?env u sid ''k8s'' ''user'' t ?sp"
  obtain h sp2 where h: "agent_chat ?env u sid ''k8s'' ?sp1 = (h, sp2)" by fastforce
  have a: "sp_agents sp2 = [(''k8s'', quiet_agent ''k8s'')]"
    using agent_chat_agents [OF h] by (simp add: agents_of quiet_supervisor_def)
  have c: "as_client (sp_state sp2) = new_bedrock_client quiet_settings"
    using h by (auto simp: agent_chat_def in_world_def save_message_def Let_def quiet_supervisor_def split: prod.splits)
  then have "quiet_client (as_client (sp_state sp2))" by (simp add: quiet_client_def new_bedrock_client_def)
  moreover have "py_strip (rq_input (request_of t sid h model)) \<noteq> []" using assms by (simp add: request_of_def)
  ultimately obtain st where q: "agent_process_request (quiet_env ans) (quiet_agent ''k8s'') (request_of t sid h model) (sp_state sp2) =
      (Inr (quiet_answer ''k8s'' (ans (1/10))), quiet_agent ''k8s'', st)"
    using quiet_request by metis
  have f: "fan_out (quiet_env ans) [(''k8s'', Some (request_of t sid h model))] (sp_agents sp2) (sp_state sp2) =
      ([Inr (quiet_answer ''k8s'' (ans (1/10)))], [(''k8s'', quiet_agent ''k8s'')], st)"
    by (simp add: a q)
  have sq: "focused (case cl_agents ?cls of [] \<Rightarrow> JStr [] | a # _ \<Rightarrow> am_sub_query a) t = Some t"
    by (simp add: forced_classification_def Let_def focused_def)
  have cc: "confidence ?cls = JReal ''1.0''" "cl_reasoning ?cls = JStr ''forced to k8s''"
    by (simp_all add: forced_classification_def Let_def confidence_def)
  obtain sp' where "single_agent_call ?env ''k8s'' ?cls t u sid model ?sp1 =
      (Inr (plain_result ''k8s'' (ans (1/10)) (JReal ''1.0'') @ [(''reasoning'', VJson (JStr ''forced to k8s''))]), sp')"
    unfolding single_agent_call_def h prod.case Let_def sq option.map e f cc
    using a by (simp add: quiet_answer_def)
  then have "forced_request ?env ''k8s'' t u sid ?sp =
      (Inr (plain_result ''k8s'' (ans (1/10)) (JReal ''1.0'') @ [(''reasoning'', VJson (JStr ''forced to k8s''))]), sp')"
    unfolding forced_request_def Let_def r by simp
  moreover have "is_forced (Some ''k8s'') ?sp = Some ''k8s''" by (simp add: is_forced_def quiet_supervisor_def)
  ultimately have "dispatch ?env t u sid mode (Some ''k8s'') ?sp =
      (Inr (plain_result ''k8s'' (ans (1/10)) (JReal ''1.0'') @ [(''reasoning'', VJson (JStr ''forced to k8s''))]), sp')"
    unfolding dispatch_def by simp
  then show ?thesis
    unfolding supervisor_process_request_def quiet_budget quiet_admit by (simp add: catch_errors_def)
qed

theorem direct_answers_are_screened_witness:
  "\<exists>res sp' st rq input messages ag' st'.
     supervisor_process_request (quiet_supervisor_env (\<lambda>t. ''all pods run'')) ''pods?'' ''u'' ''s1'' ''query'' (Some ''k8s'')
       (quiet_supervisor [''k8s'']) = (Inr res, sp') \<and> rq_session_id rq = ''s1'' \<and>
     answer_paths (quiet_env (\<lambda>t. ''all pods run'') :: item list agent_env) (quiet_agent ''k8s'') rq input st = (Inr (''all pods run'', messages), ag', st') \<and>
     quality_scan False ''all pods run'' (extract_tool_result_text messages) = Inr None"
proof -
  let ?env = "quiet_supervisor_env (\<lambda>t. ''all pods run'')"
  have "py_strip ''pods?'' \<noteq> []" by (simp add: py_strip_def is_space_def)
  from quiet_forced [OF this, of "\<lambda>t. ''all pods run''" "''u''" "''s1''" "''query''"] obtain res sp' where
    p: "supervisor_process_request ?env ''pods?'' ''u'' ''s1'' ''query'' (Some ''k8s'') (quiet_supervisor [''k8s'']) = (Inr res, sp')"
    and res: "res = plain_result ''k8s'' ''all pods run'' (JReal ''1.0'') @ [(''reasoning'', VJson (JStr ''forced to k8s''))]"
    by blast
  have g: "dict_get res ''reasoning'' \<noteq> None" "dict_get res ''agent'' = Some (VJson (JStr ''k8s''))"
    "dict_get res ''response'' = Some (VJson (JStr ''all pods run''))" "dict_get res ''quality_assessment'' = None"
    by (simp_all add: res plain_result_def)
  have e: "su_agent ?env = quiet_env (\<lambda>t. ''all pods run'')" by (simp add: quiet_supervisor_env_def quiet_squad_def)
  have o: "cfg_response_quality_enabled (ae_settings (quiet_env (\<lambda>t. ''all pods run''))) = False" by (simp add: quiet_switches)
  have k: "dict_get (sp_agents (quiet_supervisor [''k8s''])) ''k8s'' = Some (quiet_agent ''k8s'')" by (simp add: quiet_supervisor_def)
  from direct_answers_are_screened [OF p g(1), unfolded e o g(2-4)] k obtain rq st input messages ag' st' where
    "rq_session_id rq = ''s1''"
    "answer_paths (quiet_env (\<lambda>t. ''all pods run'') :: item list agent_env) (quiet_agent ''k8s'') rq input st = (Inr (''all pods run'', messages), ag', st')"
    "quality_scan False ''all pods run'' (extract_tool_result_text messages) = Inr None"
    by clarsimp
  with p show ?thesis by blast
qed

text \<open>The quiet supervisor, its guardrail switched on without an identifier.\<close>

definition unguardable_env :: "item list supervisor_env" where
  "unguardable_env =
     (let env = quiet_supervisor_env demo_answers; be = su_bedrock env
      in env\<lparr>su_squad := (su_squad env)\<lparr>sq_agent := (su_agent env)\<lparr>ae_bedrock := be\<lparr>bd_guardrail := demo_guardrail\<lparr>gr_id := []\<rparr>\<rparr>\<rparr>\<rparr>\<rparr>)"

theorem guardrail_outage_stops_the_squad_witness:
  "fst (session_budget unguardable_env ''s1'' (quiet_supervisor [''k8s''])) \<and>
   (\<exists>r. supervisor_process_request unguardable_env ''pods?'' ''u'' ''s1'' ''query'' (Some ''k8s'') (quiet_supervisor [''k8s'']) =
     (r, quiet_supervisor [''k8s'']) \<and> ((\<exists>why cats. r = Inl (GuardrailBlocked why ''INPUT'' cats)) \<or> (\<exists>e. r = Inr (unexpected_result e))))"
proof -
  let ?sp = "quiet_supervisor [''k8s'']"
  have d: "never_clears (bd_guardrail (su_bedrock unguardable_env)) (bd_guard_service (su_bedrock unguardable_env))"
    by (simp add: never_clears_def unguardable_env_def demo_guardrail_def Let_def)
  have b: "session_budget unguardable_env ''s1'' ?sp = (True, ?sp)"
    using quiet_budget [of demo_answers "''s1''" "[''k8s'']"]
    by (simp add: session_budget_def unguardable_env_def Let_def)
  obtain r sp' where p: "supervisor_process_request unguardable_env ''pods?'' ''u'' ''s1'' ''query'' (Some ''k8s'') ?sp = (r, sp')" by fastforce
  have i: "gr_id (bd_guardrail (su_bedrock unguardable_env)) = []"
    by (simp add: unguardable_env_def demo_guardrail_def Let_def)
  from guardrail_outage_stops_the_squad [OF d, where t = "''pods?''" and u = "''u''" and sid = "''s1''" and mode = "''query''"
    and force = "Some ''k8s''" and sp = ?sp] p b i
  show ?thesis by auto
qed

end
