(* ===== verification/SessionLock.thy ===== *)
theory SessionLock
  imports Prelude
begin

text \<open>
  The distributed session lock of src/src/core/session_lock.py: acquisition by SET NX EX,
  release by a Lua script that compares the stored token before it deletes, both fail-open.
  The interleavings of several holders, the expiry of the key included, are a step relation.
\<close>

record session_lock =
  sl_session_id :: string
  sl_ttl :: int
  sl_raise :: bool
  sl_token :: string
  sl_acquired :: bool

datatype lock_error = SessionLockConflict string

text \<open>The constructor; \<open>token\<close> is the fresh \<open>uuid4().hex\<close>.\<close>

definition new_session_lock :: "string \<Rightarrow> int \<Rightarrow> bool \<Rightarrow> string \<Rightarrow> session_lock" where
  "new_session_lock sid ttl rai token =
     \<lparr>sl_session_id = sid, sl_ttl = ttl, sl_raise = rai, sl_token = token, sl_acquired = False\<rparr>"

definition lock_key :: "session_lock \<Rightarrow> string" where
  "lock_key l = ''session_lock:'' @ sl_session_id l"

text \<open>\<open>_RELEASE_LUA\<close>: DEL only when the stored value is ours.\<close>

definition release_lua :: "string \<Rightarrow> script" where
  "release_lua token cur =
     (if cur = Some (RText token) then (Inr [RInt 1], None) else (Inr [RInt 0], cur))"

definition acquire :: "'s redis_ops option \<Rightarrow> session_lock \<Rightarrow> 's \<Rightarrow> bool \<times> session_lock \<times> 's" where
  "acquire ro l s =
     (case ro of None \<Rightarrow> (True, l\<lparr>sl_acquired := True\<rparr>, s)
      | Some r \<Rightarrow>
          (case rd_set_nx r (lock_key l) (sl_ttl l) (RText (sl_token l)) s of
             (Inr ok, s') \<Rightarrow> (ok, l\<lparr>sl_acquired := ok\<rparr>, s')
           | (Inl e, s') \<Rightarrow> (True, l\<lparr>sl_acquired := True\<rparr>, s')))"

definition release :: "'s redis_ops option \<Rightarrow> session_lock \<Rightarrow> 's \<Rightarrow> 's" where
  "release ro l s =
     (case ro of None \<Rightarrow> s
      | Some r \<Rightarrow>
          if \<not> sl_acquired l then s
          else snd (rd_eval r (release_lua (sl_token l)) (lock_key l) s))"

definition lock_aenter ::
    "'s redis_ops option \<Rightarrow> session_lock \<Rightarrow> 's \<Rightarrow> (lock_error + session_lock) \<times> session_lock \<times> 's" where
  "lock_aenter ro l s =
     (case acquire ro l s of (acquired, l', s') \<Rightarrow>
        if \<not> acquired \<and> sl_raise l' then (Inl (SessionLockConflict (sl_session_id l')), l', s')
        else (Inr l', l', s'))"

definition lock_aexit :: "'s redis_ops option \<Rightarrow> session_lock \<Rightarrow> 's \<Rightarrow> 's" where
  "lock_aexit ro l s = release ro l s"

section \<open>Many holders\<close>

text \<open>
  Lock objects numbered by \<open>nat\<close> on one service.  An object acquires or releases; the
  service may expire a session's key at any time.
\<close>

datatype lock_move = MAcquire nat bool | MRelease nat | MExpire string

inductive lock_step ::
    "'s redis_ops \<Rightarrow> ('s \<Rightarrow> string \<Rightarrow> rval option) \<Rightarrow> (nat \<Rightarrow> session_lock) \<times> 's \<Rightarrow> lock_move \<Rightarrow>
     (nat \<Rightarrow> session_lock) \<times> 's \<Rightarrow> bool"
  for r :: "'s redis_ops" and look :: "'s \<Rightarrow> string \<Rightarrow> rval option" where
  step_acquire: "acquire (Some r) (ls i) s = (ok, l', s') \<Longrightarrow>
     lock_step r look (ls, s) (MAcquire i ok) (ls(i := l'), s')"
| step_release: "release (Some r) (ls i) s = s' \<Longrightarrow> lock_step r look (ls, s) (MRelease i) (ls, s')"
| step_expire: "look s' = (look s)(''session_lock:'' @ sid := None) \<Longrightarrow>
     lock_step r look (ls, s) (MExpire sid) (ls, s')"

inductive_cases acquire_stepE: "lock_step r look c (MAcquire i ok) c'"
inductive_cases release_stepE: "lock_step r look c (MRelease i) c'"
inductive_cases expire_stepE: "lock_step r look c (MExpire sid) c'"

inductive lock_run ::
    "'s redis_ops \<Rightarrow> ('s \<Rightarrow> string \<Rightarrow> rval option) \<Rightarrow> (nat \<Rightarrow> session_lock) \<times> 's \<Rightarrow> lock_move list \<Rightarrow>
     (nat \<Rightarrow> session_lock) \<times> 's \<Rightarrow> bool"
  for r :: "'s redis_ops" and look :: "'s \<Rightarrow> string \<Rightarrow> rval option" where
  run_nil: "lock_run r look c [] c"
| run_cons: "lock_step r look c m c' \<Longrightarrow> lock_run r look c' ms c'' \<Longrightarrow> lock_run r look c (m # ms) c''"

text \<open>Object \<open>i\<close> holds its session: it was told so and the key still carries its token.\<close>

definition holds :: "('s \<Rightarrow> string \<Rightarrow> rval option) \<Rightarrow> nat \<Rightarrow> (nat \<Rightarrow> session_lock) \<times> 's \<Rightarrow> bool" where
  "holds look i c \<longleftrightarrow> sl_acquired (fst c i) \<and>
     look (snd c) (lock_key (fst c i)) = Some (RText (sl_token (fst c i)))"

lemma lock_key_eq [simp]: "lock_key l = lock_key m \<longleftrightarrow> sl_session_id l = sl_session_id m"
  by (simp add: lock_key_def)

lemma acquire_up:
  assumes "redis_laws r look"
  shows "fst (acquire (Some r) l s) = (look s (lock_key l) = None)"
    and "fst (snd (acquire (Some r) l s)) = l\<lparr>sl_acquired := (look s (lock_key l) = None)\<rparr>"
    and "look (snd (snd (acquire (Some r) l s))) =
      (if look s (lock_key l) = None then (look s)(lock_key l \<mapsto> RText (sl_token l)) else look s)"
  using redis_set_nx_law [OF assms, of "lock_key l" "sl_ttl l" "RText (sl_token l)" s]
  by (auto simp: acquire_def split: prod.splits sum.splits)

lemma release_up:
  assumes "redis_laws r look"
  shows "look (release (Some r) l s) =
    (if sl_acquired l \<and> look s (lock_key l) = Some (RText (sl_token l))
     then (look s)(lock_key l := None) else look s)"
  by (auto simp: release_def release_lua_def redis_eval_law [OF assms])

lemma frame_locks [frame]:
  assumes "lock_step r look (ls, s) m (ls', s')" and "redis_laws r look"
  shows "sl_session_id (ls' k) = sl_session_id (ls k) \<and> sl_token (ls' k) = sl_token (ls k)"
  using assms
proof (cases rule: lock_step.cases)
  case (step_acquire i ok l')
  then have "l' = (ls i)\<lparr>sl_acquired := ok\<rparr>"
    using acquire_up(1,2) [OF assms(2), of "ls i" s] by simp
  with step_acquire show ?thesis by simp
qed auto

text \<open>Steps of others cannot take the key from its holder.\<close>

lemma holds_step:
  assumes L: "redis_laws r look" and st: "lock_step r look c m c'" and h: "holds look i c"
    and tok: "\<forall>j. j \<noteq> i \<longrightarrow> sl_token (fst c j) \<noteq> sl_token (fst c i)"
    and quiet: "m \<noteq> MRelease i" "m \<noteq> MExpire (sl_session_id (fst c i))" "\<forall>ok. m \<noteq> MAcquire i ok"
  shows "holds look i c' \<and>
    (\<forall>j ok. m = MAcquire j ok \<and> sl_session_id (fst c j) = sl_session_id (fst c i) \<longrightarrow> \<not> ok)"
  using st
proof (cases rule: lock_step.cases)
  case (step_acquire ls j s ok l' s')
  with quiet(3) have "j \<noteq> i" by blast
  with step_acquire h acquire_up [OF L, of "ls j" s] show ?thesis
    by (auto simp: holds_def lock_key_def)
next
  case (step_release ls j s s')
  with quiet(1) have "j \<noteq> i" by blast
  with step_release h tok show ?thesis
    using release_up [OF L, of "ls j" s] by (auto simp: holds_def lock_key_def split: if_splits)
next
  case (step_expire s' s sid ls)
  with h quiet(2) show ?thesis by (auto simp: holds_def lock_key_def)
qed

definition keeps_quiet :: "nat \<Rightarrow> string \<Rightarrow> lock_move \<Rightarrow> bool" where
  "keeps_quiet i sid m \<longleftrightarrow> m \<noteq> MRelease i \<and> m \<noteq> MExpire sid \<and> m \<noteq> MAcquire i True \<and> m \<noteq> MAcquire i False"

text \<open>
  C22: mutual exclusion of the session lock.  With the service up and tokens distinct, once
  an object holds a session it keeps holding it through any interleaving in which it neither
  releases nor re-acquires and its key does not expire: no other object's acquire on that
  session succeeds, and no other object's release, even of a lock it lost, deletes the key.
\<close>

theorem session_lock_excludes:
  assumes "redis_laws r look" and "lock_run r look c ms c'" and "holds look i c"
    and "\<forall>j. j \<noteq> i \<longrightarrow> sl_token (fst c j) \<noteq> sl_token (fst c i)"
    and "list_all (keeps_quiet i (sl_session_id (fst c i))) ms"
  shows "holds look i c' \<and>
    (\<forall>j. sl_session_id (fst c j) = sl_session_id (fst c i) \<longrightarrow> MAcquire j True \<notin> set ms)"
  using assms(2-5)
proof (induction rule: lock_run.induct)
  case (run_nil c)
  then show ?case by simp
next
  case (run_cons c m c' ms c'')
  have q: "m \<noteq> MRelease i" "m \<noteq> MExpire (sl_session_id (fst c i))" "\<forall>ok. m \<noteq> MAcquire i ok"
    using run_cons.prems(3) by (auto simp: keeps_quiet_def)
  from holds_step [OF assms(1) run_cons.hyps(1) run_cons.prems(1,2) q]
  have h: "holds look i c'"
    "\<forall>j ok. m = MAcquire j ok \<and> sl_session_id (fst c j) = sl_session_id (fst c i) \<longrightarrow> \<not> ok" by blast+
  have fr: "sl_session_id (fst c' k) = sl_session_id (fst c k) \<and> sl_token (fst c' k) = sl_token (fst c k)" for k
    using frame_locks [of r look "fst c" "snd c" m "fst c'" "snd c'" k] run_cons.hyps(1) assms(1) by simp
  have "holds look i c'' \<and>
    (\<forall>j. sl_session_id (fst c' j) = sl_session_id (fst c' i) \<longrightarrow> MAcquire j True \<notin> set ms)"
    using run_cons.prems(2,3) h(1) fr by (intro run_cons.IH) auto
  with h(2) fr show ?case by auto
qed

theorem session_lock_excludes_witness:
  "\<exists>c c'. lock_run map_redis (\<lambda>s. s) c [MAcquire 1 False, MRelease 1] c' \<and> holds (\<lambda>s. s) 0 c \<and>
     holds (\<lambda>s. s) 0 c'"
proof -
  define l where "l = new_session_lock ''s'' 60 True"
  define ls where "ls = (\<lambda>i::nat. if i = 0 then (l ''t0'')\<lparr>sl_acquired := True\<rparr> else l (replicate i CHR ''x''))"
  define st where "st = [''session_lock:s'' \<mapsto> RText ''t0'']"
  define c' where "c' = (ls(1 := (ls 1)\<lparr>sl_acquired := False\<rparr>), st)"
  have defs: "sl_session_id (ls k) = ''s''" "sl_ttl (ls k) = 60" "lock_key (ls k) = ''session_lock:s''" for k
    by (simp_all add: ls_def l_def new_session_lock_def lock_key_def)
  have a: "acquire (Some map_redis) (ls 1) st = (False, (ls 1)\<lparr>sl_acquired := False\<rparr>, st)"
    by (simp add: acquire_def defs st_def map_redis_def)
  have rel: "release (Some map_redis) (fst c' 1) st = st"
    by (simp add: release_def c'_def)
  have run: "lock_run map_redis (\<lambda>s. s) (ls, st) [MAcquire 1 False, MRelease 1] c'"
    using lock_step.step_acquire [where ls = ls and i = 1, OF a]
      lock_step.step_release [where ls = "fst c'" and i = 1, OF rel]
    by (auto simp: c'_def intro!: lock_run.intros)
  have h: "holds (\<lambda>s. s) 0 (ls, st)"
    by (simp add: holds_def st_def defs(3)) (simp add: ls_def l_def new_session_lock_def)
  have tok: "\<forall>j. j \<noteq> 0 \<longrightarrow> sl_token (fst (ls, st) j) \<noteq> sl_token (fst (ls, st) 0)"
  proof (intro allI impI)
    fix j :: nat
    assume "j \<noteq> 0"
    then show "sl_token (fst (ls, st) j) \<noteq> sl_token (fst (ls, st) 0)"
      by (cases j) (simp_all add: ls_def l_def new_session_lock_def)
  qed
  have q: "list_all (keeps_quiet 0 (sl_session_id (fst (ls, st) 0))) [MAcquire 1 False, MRelease 1]"
    by (simp add: keeps_quiet_def)
  from session_lock_excludes [OF map_redis_laws run h tok q] run h show ?thesis by blast
qed

text \<open>
  Entering the lock of a session another token holds raises the conflict when the lock
  was built to raise, and changes nothing in the service.
\<close>

theorem session_lock_conflict:
  assumes "redis_laws r look" and "look s (lock_key l) = Some v" and "sl_raise l"
  shows "fst (lock_aenter (Some r) l s) = Inl (SessionLockConflict (sl_session_id l)) \<and>
    look (snd (snd (lock_aenter (Some r) l s))) = look s"
  using acquire_up [OF assms(1), of l s] assms(2,3)
  by (auto simp: lock_aenter_def case_prod_beta)

theorem session_lock_conflict_witness:
  "fst (lock_aenter (Some map_redis) (new_session_lock ''s'' 60 True ''t'') [''session_lock:s'' \<mapsto> RText ''u'']) =
    Inl (SessionLockConflict ''s'')"
  using session_lock_conflict [OF map_redis_laws, of "[''session_lock:s'' \<mapsto> RText ''u'']"
      "new_session_lock ''s'' 60 True ''t''" "RText ''u''"]
  by (simp add: new_session_lock_def lock_key_def)

end
