(* ===== verification/EdgeAuth.thy ===== *)
theory EdgeAuth
  imports Prelude
begin

text \<open>
  Authentication: the gateway's edge check with its per-consumer agent map
  (src/src/gateway/auth.py), and the two fail-closed token checks of src/src/core/auth.py and
  src/src/core/internal_auth.py.  The environment variables, read afresh on every request, are
  an argument.  \<open>hmac.compare_digest\<close> on the encoded texts is equality; its timing is not
  modelled.
\<close>

record edge_env =
  INTERNAL_API_TOKEN :: string
  GATEWAY_API_KEYS :: string
  GATEWAY_KEY_AGENT_MAP :: string

datatype http_error = HTTPException nat string

text \<open>\<open>pair.split("=", 1)\<close> on a text that contains the separator.\<close>

definition split_first :: "char \<Rightarrow> string \<Rightarrow> string \<times> string" where
  "split_first d s = (takeWhile (\<lambda>c. c \<noteq> d) s, tl (dropWhile (\<lambda>c. c \<noteq> d) s))"

fun parse_pairs :: "string list \<Rightarrow> (string \<times> string) list \<Rightarrow> (string \<times> string) list" where
  "parse_pairs [] result = result"
| "parse_pairs (raw # rest) result =
     (let pair = py_strip raw
      in if CHR ''='' \<in> set pair then
           (let (k, v) = split_first CHR ''='' pair; k = py_strip k; v = py_strip v
            in if k \<noteq> [] \<and> v \<noteq> [] then parse_pairs rest (dict_set result k v)
               else parse_pairs rest result)
         else parse_pairs rest result)"

definition parse_key_agent_map :: "edge_env \<Rightarrow> (string \<times> string) list" where
  "parse_key_agent_map env = parse_pairs (split_char CHR '','' (GATEWAY_KEY_AGENT_MAP env)) []"

record auth_result =
  consumer_default_agent :: "string option"

definition extract_bearer :: "string \<Rightarrow> string" where
  "extract_bearer authorization =
     (if authorization = [] then []
      else (let stripped = py_strip authorization
            in if prefix ''bearer '' (py_lower stripped) then py_strip (drop 7 stripped) else []))"

fun first_match :: "(string \<times> string) list \<Rightarrow> string \<Rightarrow> string option" where
  "first_match [] key = None"
| "first_match ((k, agent) # rest) key = (if key = k then Some agent else first_match rest key)"

definition resolve_default_agent :: "edge_env \<Rightarrow> string \<Rightarrow> string option" where
  "resolve_default_agent env matched_key = first_match (parse_key_agent_map env) matched_key"

definition api_keys :: "edge_env \<Rightarrow> string list" where
  "api_keys env = filter (\<lambda>k. k \<noteq> []) (map py_strip (split_char CHR '','' (GATEWAY_API_KEYS env)))"

text \<open>Step 3 of the check, the bearer token; it ends in 401.\<close>

definition bearer_auth :: "edge_env \<Rightarrow> string \<Rightarrow> http_error + auth_result" where
  "bearer_auth env bearer =
     (if bearer \<noteq> [] then
        (if INTERNAL_API_TOKEN env \<noteq> [] \<and> bearer = INTERNAL_API_TOKEN env
         then Inr \<lparr>consumer_default_agent = None\<rparr>
         else if bearer \<in> set (api_keys env)
         then Inr \<lparr>consumer_default_agent = resolve_default_agent env bearer\<rparr>
         else (case resolve_default_agent env bearer of
                 Some a \<Rightarrow> Inr \<lparr>consumer_default_agent = Some a\<rparr>
               | None \<Rightarrow> Inl (HTTPException 401 ''Unauthorized'')))
      else Inl (HTTPException 401 ''Unauthorized''))"

definition require_edge_auth ::
    "edge_env \<Rightarrow> string \<Rightarrow> string option \<Rightarrow> string \<Rightarrow> http_error + auth_result" where
  "require_edge_auth env x_internal_token x_api_key authorization =
     (let expected_token = INTERNAL_API_TOKEN env
      in if expected_token \<noteq> [] \<and> x_internal_token = expected_token then
           Inr \<lparr>consumer_default_agent = None\<rparr>
         else (case x_api_key of
                 None \<Rightarrow> bearer_auth env (extract_bearer authorization)
               | Some k \<Rightarrow>
                   if k = [] then bearer_auth env (extract_bearer authorization)
                   else if k \<in> set (api_keys env) then Inr \<lparr>consumer_default_agent = resolve_default_agent env k\<rparr>
                   else (case resolve_default_agent env k of
                           Some a \<Rightarrow> Inr \<lparr>consumer_default_agent = Some a\<rparr>
                         | None \<Rightarrow> bearer_auth env (extract_bearer authorization))))"

section \<open>Token checks\<close>

definition require_token :: "string \<Rightarrow> string \<Rightarrow> http_error + unit" where
  "require_token expected x_internal_token =
     (if expected = [] \<or> x_internal_token \<noteq> expected then Inl (HTTPException 401 ''Unauthorized'') else Inr ())"

definition require_internal_token :: "string option \<Rightarrow> string \<Rightarrow> http_error + unit" where
  "require_internal_token supervisor_internal_token x_supervisor_token =
     (let expected = (case supervisor_internal_token of None \<Rightarrow> [] | Some t \<Rightarrow> t)
      in if expected = [] \<or> x_supervisor_token \<noteq> expected
         then Inl (HTTPException 401 ''Unauthorized (internal)'') else Inr ())"

section \<open>Properties\<close>

lemma first_match_dict_get: "first_match d k = dict_get d k"
  by (induction d) auto

definition map_wf :: "(string \<times> string) list \<Rightarrow> bool" where
  "map_wf d \<longleftrightarrow> (\<forall>(k, v) \<in> set d. k \<noteq> [] \<and> v \<noteq> [])"

lemma map_wf_set: "map_wf d \<Longrightarrow> k \<noteq> [] \<Longrightarrow> v \<noteq> [] \<Longrightarrow> map_wf (dict_set d k v)"
  unfolding map_wf_def by (induction d k v rule: dict_set.induct) auto

lemma parse_pairs_wf: "map_wf d \<Longrightarrow> map_wf (parse_pairs ps d)"
proof (induction ps arbitrary: d)
  case Nil
  then show ?case by simp
next
  case (Cons raw rest)
  obtain k v where kv: "split_first CHR ''='' (py_strip raw) = (k, v)" by fastforce
  have "map_wf (dict_set d (py_strip k) (py_strip v))" if "py_strip k \<noteq> []" "py_strip v \<noteq> []"
    using Cons.prems that by (rule map_wf_set)
  with Cons show ?case by (simp add: Let_def kv)
qed

text \<open>\<open>known_credential env c\<close>: the credential is one the environment configures.\<close>

definition known_credential :: "edge_env \<Rightarrow> string \<Rightarrow> bool" where
  "known_credential env c \<longleftrightarrow>
     c \<noteq> [] \<and> (c = INTERNAL_API_TOKEN env \<or> c \<in> set (api_keys env) \<or> resolve_default_agent env c \<noteq> None)"

lemma resolve_nonempty: "resolve_default_agent env c = Some a \<Longrightarrow> c \<noteq> [] \<and> a \<noteq> []"
  using parse_pairs_wf [of "[]" "split_char CHR '','' (GATEWAY_KEY_AGENT_MAP env)"]
  by (auto simp: resolve_default_agent_def parse_key_agent_map_def first_match_dict_get dict_get_map_of
      map_wf_def dest: map_of_SomeD)

lemma api_keys_nonempty: "c \<in> set (api_keys env) \<Longrightarrow> c \<noteq> []"
  by (simp add: api_keys_def)

lemma bearer_auth_isl: "isl (bearer_auth env b) \<longleftrightarrow> \<not> known_credential env b"
  by (auto simp: bearer_auth_def known_credential_def split: option.splits)

lemma bearer_auth_agent:
  "bearer_auth env b = Inr res \<Longrightarrow> consumer_default_agent res = Some a \<Longrightarrow> resolve_default_agent env b = Some a"
  by (auto simp: bearer_auth_def split: if_splits option.splits)

definition presents_credential :: "edge_env \<Rightarrow> string \<Rightarrow> string option \<Rightarrow> string \<Rightarrow> bool" where
  "presents_credential env tok key authz \<longleftrightarrow>
     (INTERNAL_API_TOKEN env \<noteq> [] \<and> tok = INTERNAL_API_TOKEN env) \<or>
     (\<exists>k. key = Some k \<and> (k \<in> set (api_keys env) \<or> resolve_default_agent env k \<noteq> None)) \<or>
     known_credential env (extract_bearer authz)"

text \<open>
  The edge admits a request if and only if it presents a configured credential: the
  internal token in its own header, or any key or token known to the environment as API key
  header or bearer token (the internal token not being accepted as an API key); every other
  request gets 401.
\<close>

theorem edge_auth_iff_credential:
  "case require_edge_auth env tok key authz of
     Inr res \<Rightarrow> presents_credential env tok key authz
   | Inl e \<Rightarrow> \<not> presents_credential env tok key authz \<and> e = HTTPException 401 ''Unauthorized''"
proof (cases "INTERNAL_API_TOKEN env \<noteq> [] \<and> tok = INTERNAL_API_TOKEN env")
  case True
  then show ?thesis by (simp add: require_edge_auth_def presents_credential_def Let_def)
next
  case False
  have b: "case bearer_auth env c of Inr res \<Rightarrow> known_credential env c
     | Inl e \<Rightarrow> \<not> known_credential env c \<and> e = HTTPException 401 ''Unauthorized''" for c
    by (auto simp: bearer_auth_def known_credential_def split: option.splits)
  show ?thesis
  proof (cases key)
    case None
    with False b [of "extract_bearer authz"] show ?thesis
      by (auto simp: require_edge_auth_def presents_credential_def Let_def split: sum.splits)
  next
    case (Some k)
    have "k = [] \<Longrightarrow> k \<notin> set (api_keys env) \<and> resolve_default_agent env k = None"
      using api_keys_nonempty resolve_nonempty by fastforce
    with False Some b [of "extract_bearer authz"] show ?thesis
      by (auto simp: require_edge_auth_def presents_credential_def Let_def split: option.splits sum.splits)
  qed
qed

text \<open>
  Fail-closed: with no secret configured every request is refused with 401, whatever its
  headers; the same holds of the two token checks.
\<close>

theorem unconfigured_auth_denies:
  assumes "INTERNAL_API_TOKEN env = []" "GATEWAY_API_KEYS env = []" "GATEWAY_KEY_AGENT_MAP env = []"
  shows "require_edge_auth env tok key authz = Inl (HTTPException 401 ''Unauthorized'') \<and>
    require_token [] tok = Inl (HTTPException 401 ''Unauthorized'') \<and>
    require_internal_token None tok = Inl (HTTPException 401 ''Unauthorized (internal)'')"
  using assms
  by (simp add: require_edge_auth_def bearer_auth_def Let_def api_keys_def resolve_default_agent_def parse_key_agent_map_def
      py_strip_def require_token_def require_internal_token_def split: option.split)

theorem unconfigured_auth_denies_witness:
  "require_edge_auth \<lparr>INTERNAL_API_TOKEN = [], GATEWAY_API_KEYS = [], GATEWAY_KEY_AGENT_MAP = []\<rparr> [] (Some []) ''Bearer '' =
    Inl (HTTPException 401 ''Unauthorized'')"
  using unconfigured_auth_denies [of "\<lparr>INTERNAL_API_TOKEN = [], GATEWAY_API_KEYS = [], GATEWAY_KEY_AGENT_MAP = []\<rparr>"
      "[]" "Some []" "''Bearer ''"] by simp

text \<open>
  Scoping is only a routing default of the credential presented: an admitted request
  carries an agent only if one of its credentials is mapped to that agent, and agents of the
  map are never blank.
\<close>

theorem edge_scope_comes_from_map:
  assumes "require_edge_auth env tok key authz = Inr res" and "consumer_default_agent res = Some a"
  shows "a \<noteq> [] \<and> (\<exists>c. (key = Some c \<or> c = extract_bearer authz) \<and> resolve_default_agent env c = Some a)"
proof -
  have "\<exists>c. (key = Some c \<or> c = extract_bearer authz) \<and> resolve_default_agent env c = Some a"
    using assms bearer_auth_agent [of env "extract_bearer authz" res a]
    by (cases key) (auto simp: require_edge_auth_def Let_def split: if_splits option.splits)
  with resolve_nonempty show ?thesis by blast
qed

theorem edge_scope_comes_from_map_witness:
  "resolve_default_agent \<lparr>INTERNAL_API_TOKEN = ''t'', GATEWAY_API_KEYS = [], GATEWAY_KEY_AGENT_MAP = '' k1 = aws ,=x''\<rparr> ''k1'' = Some ''aws''
   \<and> ''aws'' \<noteq> []"
proof -
  let ?e = "\<lparr>INTERNAL_API_TOKEN = ''t'', GATEWAY_API_KEYS = [], GATEWAY_KEY_AGENT_MAP = '' k1 = aws ,=x''\<rparr>"
  have strip: "py_strip '' k1 = aws '' = ''k1 = aws''" "py_strip ''=x'' = ''=x''"
    by (simp_all add: py_strip_def is_space_def)
  have "parse_pairs ['' k1 = aws '', ''=x''] [] = [(''k1'', ''aws'')]"
    by (simp add: Let_def strip split_first_def) (simp add: py_strip_def is_space_def)
  then have d: "resolve_default_agent ?e ''k1'' = Some ''aws''"
    by (simp add: resolve_default_agent_def parse_key_agent_map_def)
  have "require_edge_auth ?e [] (Some ''k1'') [] = Inr \<lparr>consumer_default_agent = Some ''aws''\<rparr>"
    by (simp add: require_edge_auth_def Let_def d api_keys_def py_strip_def)
  from edge_scope_comes_from_map [OF this, of "''aws''"] d show ?thesis by simp
qed

end
