(* ===== verification/Server.thy ===== *)
theory Server
  imports Health Alerts Supervisor SessionLock EdgeAuth ModelTier
begin

text \<open>
  The supervisor's HTTP service, src/src/supervisor/server.py, and the Slack entry point of
  src/src/api/server.py.  Each route is a function of the presented token, the parsed body and the
  state: the supervisor and the cache of the health checker.  A reply is its body or the
  HTTPException.  FastAPI, the parsing of the bodies and the log records are left out.
\<close>

section \<open>State and environment\<close>

record 's server =
  sr_supervisor :: "'s supervisor"
  sr_checker :: checker

record 's server_env =
  sv_env :: "'s supervisor_env"
  sv_lock_redis :: "'s redis_ops option"
  sv_api_token :: string
  sv_internal_token :: "string option"
  sv_uuid :: "'s \<Rightarrow> string \<times> 's"
  sv_cache :: "'s cache_store"
  sv_dedup_ttl :: int
  sv_webhook_url :: string
  sv_slack :: "string \<Rightarrow> json \<Rightarrow> 's \<Rightarrow> (exn + unit) \<times> 's"
  sv_monotonic :: "'s \<Rightarrow> rat"
  sv_ping :: "(bool, 's) call"
  sv_load_table :: "(unit, 's) call"
  sv_trace :: "string option"
  sv_completion_id :: "'s \<Rightarrow> string"
  sv_clock :: "'s \<Rightarrow> int"

record service_request =
  sq_user_input :: string
  sq_user_id :: string
  sq_session_id :: string
  sq_mode :: "string option"
  sq_force_agent :: "string option"

abbreviation sr_world :: "'s server \<Rightarrow> 's" where
  "sr_world sv \<equiv> sp_world (sr_supervisor sv)"

definition with_world :: "'s \<Rightarrow> 's server \<Rightarrow> 's server" where
  "with_world s sv = sv\<lparr>sr_supervisor := in_world s (sr_supervisor sv)\<rparr>"

lemma with_world_simps [simp]:
  "sr_world (with_world s sv) = s" "sp_agents (sr_supervisor (with_world s sv)) = sp_agents (sr_supervisor sv)"
  "as_client (sp_state (sr_supervisor (with_world s sv))) = as_client (sp_state (sr_supervisor sv))"
  "sr_checker (with_world s sv) = sr_checker sv" "with_world s (with_world s' sv) = with_world s sv"
  "sr_world (sv\<lparr>sr_supervisor := sp\<rparr>) = sp_world sp"
  by (simp_all add: with_world_def in_world_def)

definition new_server :: "'s supervisor \<Rightarrow> 's server" where
  "new_server sp = \<lparr>sr_supervisor = sp, sr_checker = new_checker 5 2\<rparr>"

text \<open>The lifespan: the tier models are validated before the service starts.\<close>

definition lifespan_startup :: "'s server_env \<Rightarrow> 's supervisor \<Rightarrow> tier_error + 's server" where
  "lifespan_startup env sp =
     (case validate_tier_models_at_startup (su_settings (sv_env env)) of
        Inl e \<Rightarrow> Inl e | Inr u \<Rightarrow> Inr (new_server sp))"

section \<open>Processing\<close>

definition processing :: "'s server_env \<Rightarrow> service_request \<Rightarrow> 's supervisor \<Rightarrow> (guard_error + result) \<times> 's supervisor" where
  "processing env q =
     supervisor_process_request (sv_env env) (sq_user_input q) (sq_user_id q) (sq_session_id q)
       (case sq_mode q of Some (c # m) \<Rightarrow> c # m | _ \<Rightarrow> ''query'') (sq_force_agent q)"

definition http_of :: "guard_error \<Rightarrow> http_error" where
  "http_of e =
     (case e of
        GuardrailBlocked why src cats \<Rightarrow> HTTPException 403 ''Request blocked by security guardrail''
      | GuardrailRaised x \<Rightarrow> HTTPException 500 ''Internal server error'')"

definition session_busy :: http_error where
  "session_busy = HTTPException 409 ''Session is already being processed by another worker''"

text \<open>\<open>async with SessionLock\<close> around the request: the lock is given back however it ends.\<close>

definition locked_process :: "'s server_env \<Rightarrow> service_request \<Rightarrow> 's server \<Rightarrow> (http_error + result) \<times> 's server" where
  "locked_process env q sv =
     (case sv_uuid env (sr_world sv) of
        (token, s0) \<Rightarrow>
          (case lock_aenter (sv_lock_redis env) (new_session_lock (sq_session_id q) 120 True token) s0 of
             (Inl conflict, l, s1) \<Rightarrow> (Inl session_busy, with_world s1 sv)
           | (Inr l, l', s1) \<Rightarrow>
               (case processing env q (sr_supervisor (with_world s1 sv)) of
                  (r, sp) \<Rightarrow>
                    (map_sum http_of id r,
                     with_world (lock_aexit (sv_lock_redis env) l (sp_world sp)) (sv\<lparr>sr_supervisor := sp\<rparr>)))))"

definition internal_process ::
    "'s server_env \<Rightarrow> string \<Rightarrow> service_request \<Rightarrow> 's server \<Rightarrow> (http_error + result) \<times> 's server" where
  "internal_process env x_supervisor_token q sv =
     (case require_internal_token (sv_internal_token env) x_supervisor_token of
        Inl e \<Rightarrow> (Inl e, sv) | Inr u \<Rightarrow> locked_process env q sv)"

definition internal_agents :: "'s server_env \<Rightarrow> string \<Rightarrow> 's server \<Rightarrow> http_error + json" where
  "internal_agents env x_supervisor_token sv =
     (case require_internal_token (sv_internal_token env) x_supervisor_token of
        Inl e \<Rightarrow> Inl e
      | Inr u \<Rightarrow> Inr (JObj [(''agents'', JList (map JStr (registered_names (su_registry (sv_env env)))))]))"

text \<open>
  The streaming route: the frames of the agentic stream, or of the whole answer where the supervisor
  gives no stream.
\<close>

definition internal_process_stream ::
    "'s server_env \<Rightarrow> string \<Rightarrow> service_request \<Rightarrow> 's server \<Rightarrow> (http_error + (frame list \<times> exn option)) \<times> 's server" where
  "internal_process_stream env x_supervisor_token q sv =
     (case require_internal_token (sv_internal_token env) x_supervisor_token of
        Inl e \<Rightarrow> (Inl e, sv)
      | Inr u \<Rightarrow>
          (let cid = sv_completion_id env (sr_world sv); created = sv_clock env (sr_world sv)
           in case supervisor_process_streaming (sv_env env) (sq_user_input q) (sq_user_id q) (sq_session_id q)
                  (case sq_mode q of Some (c # m) \<Rightarrow> c # m | _ \<Rightarrow> ''query'') (sq_force_agent q) (sr_supervisor sv) of
                (Inl e, sp) \<Rightarrow> (Inl (http_of e), sv\<lparr>sr_supervisor := sp\<rparr>)
              | (Inr None, sp) \<Rightarrow>
                  (case processing env q sp of
                     (r, sp') \<Rightarrow>
                       (map_sum http_of (\<lambda>res. sse_stream cid created res ''aigent-squad'') r, sv\<lparr>sr_supervisor := sp'\<rparr>))
              | (Inr (Some (events, e)), sp) \<Rightarrow>
                  (Inr (sse_stream_agentic (trace_style (sv_trace env)) cid created events
                     (map_option (\<lambda>x. case x of GuardrailBlocked why src cats \<Rightarrow> ''GuardrailBlockedError'' | GuardrailRaised n \<Rightarrow> n) e)
                     ''aigent-squad''),
                   sv\<lparr>sr_supervisor := sp\<rparr>)))"

section \<open>Health\<close>

definition sv_healthz :: json where
  "sv_healthz = JObj [(''status'', JStr ''ok''), (''service'', JStr ''supervisor'')]"

definition sv_health :: json where
  "sv_health = JObj [(''status'', JStr ''healthy''), (''service'', JStr ''supervisor'')]"

definition check_json :: "bool \<Rightarrow> string \<Rightarrow> json" where
  "check_json ok detail = JObj [(''ok'', JBool ok), (''detail'', JStr detail)]"

text \<open>The status code and the body.\<close>

definition sv_ready :: "'s server_env \<Rightarrow> 's server \<Rightarrow> (nat \<times> json) \<times> 's server" where
  "sv_ready env sv =
     (case check_redis (sv_monotonic env) (sv_ping env) (sr_checker sv) (sr_world sv) of
        (redis, ck1, s1) \<Rightarrow>
          (case check_dynamodb (sv_monotonic env) (sv_load_table env) ck1 s1 of
             (dynamo, ck2, s2) \<Rightarrow>
               (let n = length (sp_agents (sr_supervisor sv)); agents_ok = 0 < n;
                    all_ok = (dr_ok redis \<and> dr_ok dynamo \<and> agents_ok)
                in ((if all_ok then 200 else 503,
                     JObj [(''status'', JStr (if all_ok then ''ready'' else ''not_ready'')),
                       (''checks'', JObj [(''redis'', check_json (dr_ok redis) (dr_detail redis)),
                          (''dynamodb'', check_json (dr_ok dynamo) (dr_detail dynamo)),
                          (''agents'', check_json agents_ok (show_nat n @ '' agent(s) loaded''))])]),
                    (with_world s2 sv)\<lparr>sr_checker := ck2\<rparr>))))"

section \<open>Knowledge base review\<close>

definition on_kb :: "'s server_env \<Rightarrow> string \<Rightarrow> ('s kb_env \<Rightarrow> 's \<Rightarrow> (http_error + json) \<times> 's) \<Rightarrow> 's server \<Rightarrow> (http_error + json) \<times> 's server" where
  "on_kb env x_internal_token f sv =
     (case require_token (sv_api_token env) x_internal_token of
        Inl e \<Rightarrow> (Inl e, sv)
      | Inr u \<Rightarrow> (case f (sq_kb (su_squad (sv_env env))) (sr_world sv) of (r, s) \<Rightarrow> (r, with_world s sv)))"

definition pending_item :: "kb_item \<Rightarrow> json" where
  "pending_item i =
     JObj [(''id'', JStr (ki_id i)), (''type'', ki_type i), (''title'', ki_title i), (''content'', ki_content i),
           (''confidence'', JReal (show_number (ki_confidence_score i)))]"

definition list_kb_pending :: "'s server_env \<Rightarrow> string \<Rightarrow> 's server \<Rightarrow> (http_error + json) \<times> 's server" where
  "list_kb_pending env token =
     on_kb env token (\<lambda>kb s. case kb_list_pending_review kb 50 s of
       (items, s') \<Rightarrow> (Inr (JObj [(''items'', JList (map pending_item items))]), s'))"

definition set_kb_status :: "string \<Rightarrow> string \<Rightarrow> 's kb_env \<Rightarrow> 's \<Rightarrow> (http_error + json) \<times> 's" where
  "set_kb_status item_id status kb s =
     (case kb_update_status kb item_id status s of
        (ok, s') \<Rightarrow>
          (if \<not> ok then Inl (HTTPException 404 ''Item not found or update failed'')
           else Inr (JObj [(''ok'', JBool True), (''id'', JStr item_id), (''status'', JStr status)]), s'))"

definition approve_kb_item :: "'s server_env \<Rightarrow> string \<Rightarrow> string \<Rightarrow> 's server \<Rightarrow> (http_error + json) \<times> 's server" where
  "approve_kb_item env token item_id = on_kb env token (set_kb_status item_id ''active'')"

definition reject_kb_item :: "'s server_env \<Rightarrow> string \<Rightarrow> string \<Rightarrow> 's server \<Rightarrow> (http_error + json) \<times> 's server" where
  "reject_kb_item env token item_id = on_kb env token (set_kb_status item_id ''rejected'')"

section \<open>Alerts\<close>

text \<open>The investigation an alert starts, over the supervisor's own agents and in a session of the fingerprint.\<close>

definition alert_session :: "string \<Rightarrow> string" where
  "alert_session fingerprint = (if fingerprint = [] then ''alertmanager-unknown'' else ''alertmanager-'' @ fingerprint)"

definition run_alert_investigation :: "'s server_env \<Rightarrow> 's supervisor investigator" where
  "run_alert_investigation env symptom fingerprint sp =
     (case resolve_tier_model (su_settings (sv_env env)) (investigation_classification ''alertmanager-triggered investigation'') of
        Inl e \<Rightarrow> (Inl e, sp)
      | Inr model \<Rightarrow>
          (case run_investigation (su_squad (sv_env env)) symptom (sp_agents sp) (alert_session fingerprint) [] model (sp_state sp) of
             (r, ags, st) \<Rightarrow> (r, \<lparr>sp_agents = ags, sp_state = st\<rparr>)))"

text \<open>The cache and the post-back act on the world of the supervisor.\<close>

definition lift_call :: "('s \<Rightarrow> 'a \<times> 's) \<Rightarrow> 's supervisor \<Rightarrow> 'a \<times> 's supervisor" where
  "lift_call f sp = (case f (sp_world sp) of (a, s) \<Rightarrow> (a, in_world s sp))"

definition lift_cache :: "'s cache_ops \<Rightarrow> 's supervisor cache_ops" where
  "lift_cache r =
     \<lparr>co_get = (\<lambda>k. lift_call (co_get r k)), co_setex = (\<lambda>k t v. lift_call (co_setex r k t v)),
      co_delete = (\<lambda>k. lift_call (co_delete r k)), co_exists = (\<lambda>k. lift_call (co_exists r k))\<rparr>"

definition alerts_incoming ::
    "'s server_env \<Rightarrow> string \<Rightarrow> alertmanager_payload \<Rightarrow> 's server \<Rightarrow> (http_error + json) \<times> 's server" where
  "alerts_incoming env x_internal_token payload sv =
     (case require_token (sv_api_token env) x_internal_token of
        Inl e \<Rightarrow> (Inl e, sv)
      | Inr u \<Rightarrow>
          (case handle_alert_payload (map_option lift_cache (sv_cache env)) (sv_dedup_ttl env) (run_alert_investigation env)
                  (Some (\<lambda>alert rca p. lift_call (post_rca_to_slack (sv_webhook_url env) (sv_slack env) alert rca p)))
                  payload (sr_supervisor sv) of
             (n, sp) \<Rightarrow> (Inr (JObj ((''ok'', JBool True) # counts_json n)), sv\<lparr>sr_supervisor := sp\<rparr>)))"

section \<open>Slack\<close>

text \<open>
  A Slack event: the signature check and the Slack client are parameters, the body is its text.  An
  exception that leaves the handler is a reply of its own (the server turns it into a 500).  A user or
  text that is no text is left out of the model.
\<close>

datatype slack_reply = SlackBody json | SlackDenied http_error | SlackRaised guard_error

record 's slack_env =
  sl_valid :: "string \<Rightarrow> string \<Rightarrow> string \<Rightarrow> bool"
  sl_post :: "json \<Rightarrow> json \<Rightarrow> json \<Rightarrow> 's \<Rightarrow> (exn + unit) \<times> 's"

definition UNTYPED_EVENT :: exn where
  "UNTYPED_EVENT = ''the user or the text of the event is no text''"

definition slack_session :: "json \<Rightarrow> json \<Rightarrow> string" where
  "slack_session channel thread = py_str channel @ '':'' @ py_str thread"

definition value_json :: "result_value \<Rightarrow> json" where
  "value_json v =
     (case v of
        VJson j \<Rightarrow> j
      | VAssessment q \<Rightarrow>
          JObj [(''confidence'', JStr (qa_confidence q)), (''unverified_claims'', JList (map JStr (qa_unverified_claims q)))])"

definition slack_mention ::
    "'s slack_env \<Rightarrow> 's supervisor_env \<Rightarrow> (string \<times> json) list \<Rightarrow> 's supervisor \<Rightarrow> slack_reply \<times> 's supervisor" where
  "slack_mention slack env event sp =
     (case (dict_get event ''user'', dict_get event ''channel'', dict_get event ''text'', dict_get event ''ts'') of
        (Some user, Some channel, Some t, Some ts) \<Rightarrow>
          (let thread = (case dict_get event ''thread_ts'' of None \<Rightarrow> ts | Some x \<Rightarrow> x)
           in case (user, t) of
                (JStr user_id, JStr user_input) \<Rightarrow>
                  (case supervisor_process_request env user_input user_id (slack_session channel thread) ''query'' None sp of
                     (Inl e, sp1) \<Rightarrow> (SlackRaised e, sp1)
                   | (Inr res, sp1) \<Rightarrow>
                       (case sl_post slack channel thread
                               (case dict_get res ''response'' of None \<Rightarrow> JStr ''No response'' | Some v \<Rightarrow> value_json v) (sp_world sp1) of
                          (Inl e, s) \<Rightarrow> (SlackRaised (GuardrailRaised e), in_world s sp1)
                        | (Inr u, s) \<Rightarrow> (SlackBody (JObj [(''ok'', JBool True)]), in_world s sp1)))
              | _ \<Rightarrow> (SlackRaised (GuardrailRaised UNTYPED_EVENT), sp))
      | _ \<Rightarrow> (SlackRaised (GuardrailRaised ''KeyError''), sp))"

definition slack_events ::
    "'s slack_env \<Rightarrow> 's supervisor_env \<Rightarrow> string \<Rightarrow> string \<Rightarrow> string \<Rightarrow> 's supervisor \<Rightarrow> slack_reply \<times> 's supervisor" where
  "slack_events slack env body timestamp signature sp =
     (if \<not> sl_valid slack body timestamp signature then (SlackDenied (HTTPException 403 ''Invalid signature''), sp)
      else (case json_loads body of
              None \<Rightarrow> (SlackRaised (GuardrailRaised ''JSONDecodeError''), sp)
            | Some (JObj data) \<Rightarrow>
                if dict_get data ''type'' = Some (JStr ''url_verification'') then
                  (case dict_get data ''challenge'' of
                     None \<Rightarrow> (SlackRaised (GuardrailRaised ''KeyError''), sp)
                   | Some c \<Rightarrow> (SlackBody (JObj [(''challenge'', c)]), sp))
                else (case (case dict_get data ''event'' of None \<Rightarrow> JObj [] | Some e \<Rightarrow> e) of
                        JObj event \<Rightarrow>
                          if dict_get event ''type'' = Some (JStr ''app_mention'') then slack_mention slack env event sp
                          else (SlackBody (JObj [(''ok'', JBool True)]), sp)
                      | _ \<Rightarrow> (SlackRaised (GuardrailRaised ''AttributeError''), sp))
            | Some _ \<Rightarrow> (SlackRaised (GuardrailRaised ''AttributeError''), sp)))"

section \<open>Lemmas\<close>

lemma processing_refusals: "processing env q sp = (Inl e, sp') \<Longrightarrow> \<exists>why src cats. e = GuardrailBlocked why src cats"
  unfolding processing_def supervisor_process_request_def
  by (auto dest!: catch_errors_cases(1) split: prod.splits bool.splits sum.splits)

lemma lock_aenter_up:
  assumes "redis_laws r look" "sl_raise l"
  shows "fst (lock_aenter (Some r) l s) =
      (if look s (lock_key l) = None then Inr (l\<lparr>sl_acquired := True\<rparr>) else Inl (SessionLockConflict (sl_session_id l)))"
    "look (snd (snd (lock_aenter (Some r) l s))) =
      (if look s (lock_key l) = None then (look s)(lock_key l \<mapsto> rval.RText (sl_token l)) else look s)"
  using acquire_up [OF assms(1), of l s] assms(2) by (auto simp: lock_aenter_def split: prod.splits)

lemma locked_outcome:
  "fst (locked_process env q sv) = Inl session_busy \<or>
   (\<exists>sp. fst (locked_process env q sv) = map_sum http_of id (fst (processing env q sp)))"
  by (auto simp: locked_process_def split: prod.split sum.split) (metis fst_conv)

text \<open>The cache over the whole supervisor keeps the laws of the cache over its world.\<close>

lemma lift_call_simps [simp]:
  "fst (lift_call f sp) = fst (f (sp_world sp))" "sp_world (snd (lift_call f sp)) = snd (f (sp_world sp))"
  by (simp_all add: lift_call_def in_world_def split: prod.splits)

lemma lift_cache_laws: "cache_laws r look \<Longrightarrow> cache_laws (lift_cache r) (\<lambda>sp. look (sp_world sp))"
  by (simp add: cache_laws_def lift_cache_def)

section \<open>A concrete service\<close>

text \<open>
  The quiet squad over any world, with one agent that the classifier names and a table that keeps nothing.
\<close>

definition pods_answers :: "rat \<Rightarrow> string" where
  "pods_answers temperature = (if temperature = 3/10 then ''k8s'' else ''all pods run'')"

definition pods_registry :: registry where
  "pods_registry = \<lparr>rg_agents = [(''k8s'', demo_config ''k8s'')], rg_prompts = [(''k8s'', ''You help.'')]\<rparr>"

definition silent_dynamo :: "'s dynamo_ops" where
  "silent_dynamo = \<lparr>put_item = (\<lambda>i s. (Inr (), s)), query_items = (\<lambda>pk pre fwd n s. (Inr [], s))\<rparr>"

definition quiet_service :: "string \<Rightarrow> 's redis_ops option \<Rightarrow> 's server_env" where
  "quiet_service tok redis =
     \<lparr>sv_env = \<lparr>su_squad = quiet_squad pods_answers, su_registry = pods_registry, su_dynamo = silent_dynamo, su_now = (\<lambda>s. 0)\<rparr>,
      sv_lock_redis = redis, sv_api_token = tok, sv_internal_token = Some tok, sv_uuid = (\<lambda>s. (''u1'', s)), sv_cache = None,
      sv_dedup_ttl = 3600, sv_webhook_url = [], sv_slack = (\<lambda>url body s. (Inr (), s)), sv_monotonic = (\<lambda>s. 0),
      sv_ping = (\<lambda>s. (Some (Inr True), s)), sv_load_table = (\<lambda>s. (Some (Inr ()), s)), sv_trace = None,
      sv_completion_id = (\<lambda>s. ''c1''), sv_clock = (\<lambda>s. 0)\<rparr>"

definition quiet_server :: "string list \<Rightarrow> 's \<Rightarrow> 's server" where
  "quiet_server names s =
     new_server \<lparr>sp_agents = map (\<lambda>n. (n, quiet_agent n)) names,
       sp_state = \<lparr>as_client = new_bedrock_client quiet_settings, as_breakers = [], as_canary = [], as_world = s\<rparr>\<rparr>"

definition pods_request :: service_request where
  "pods_request = \<lparr>sq_user_input = ''pods?'', sq_user_id = ''u'', sq_session_id = ''s1'', sq_mode = None, sq_force_agent = Some ''k8s''\<rparr>"

section \<open>Properties\<close>

text \<open>
  C6: one request per session: while Redis is up, a request whose session another holds is refused with
  409 and reaches neither an agent nor a model; any other request is processed while the session's key
  carries its own token, and however it ends that key is removed, unless it is no longer its own.
\<close>

theorem one_request_per_session:
  fixes env :: "'s server_env" and q :: service_request and sv :: "'s server"
  assumes "redis_laws r look" "sv_lock_redis env = Some r" "\<And>s. look (snd (sv_uuid env s)) = look s"
  defines "key \<equiv> ''session_lock:'' @ sq_session_id q"
    and "token \<equiv> rval.RText (fst (sv_uuid env (sr_world sv)))"
  shows "if look (sr_world sv) key \<noteq> None
    then fst (locked_process env q sv) = Inl session_busy \<and>
      sp_agents (sr_supervisor (snd (locked_process env q sv))) = sp_agents (sr_supervisor sv) \<and>
      as_client (sp_state (sr_supervisor (snd (locked_process env q sv)))) = as_client (sp_state (sr_supervisor sv)) \<and>
      look (sr_world (snd (locked_process env q sv))) = look (sr_world sv)
    else \<exists>sp. look (sp_world sp) = (look (sr_world sv))(key \<mapsto> token) \<and> sp_agents sp = sp_agents (sr_supervisor sv) \<and>
      fst (locked_process env q sv) = map_sum http_of id (fst (processing env q sp)) \<and>
      (let after = look (sp_world (snd (processing env q sp)))
       in look (sr_world (snd (locked_process env q sv))) = (if after key = Some token then after(key := None) else after))"
proof -
  obtain tok s0 where u: "sv_uuid env (sr_world sv) = (tok, s0)" by fastforce
  define l where "l = new_session_lock (sq_session_id q) 120 True tok"
  have l: "sl_raise l" "lock_key l = key" "sl_token l = tok" "\<And>b. lock_key (l\<lparr>sl_acquired := b\<rparr>) = key"
    by (simp_all add: l_def new_session_lock_def lock_key_def key_def)
  have s0: "look s0 = look (sr_world sv)" using assms(3) [of "sr_world sv"] by (simp add: u)
  obtain res l' s1 where e: "lock_aenter (Some r) l s0 = (res, l', s1)" by (rule prod_cases3)
  note up = lock_aenter_up [OF assms(1) l(1), of s0, unfolded e fst_conv snd_conv l(2,3) s0]
  show ?thesis
  proof (cases "look (sr_world sv) key")
    case (Some x)
    then have "locked_process env q sv = (Inl session_busy, with_world s1 sv)"
      using up by (simp add: locked_process_def u assms(2) l_def [symmetric] e)
    with up Some show ?thesis by simp
  next
    case None
    obtain o' sp' where p: "processing env q (sr_supervisor (with_world s1 sv)) = (o', sp')" by fastforce
    have "locked_process env q sv = (map_sum http_of id o',
        with_world (release (Some r) (l\<lparr>sl_acquired := True\<rparr>) (sp_world sp')) (sv\<lparr>sr_supervisor := sp'\<rparr>))"
      using up None by (simp add: locked_process_def u assms(2) l_def [symmetric] e p lock_aexit_def)
    then have "fst (locked_process env q sv) = map_sum http_of id o'"
      "look (sr_world (snd (locked_process env q sv))) =
        (let after = look (sp_world sp') in if after key = Some token then after(key := None) else after)"
      using release_up [OF assms(1), of "l\<lparr>sl_acquired := True\<rparr>" "sp_world sp'"] by (simp_all add: u token_def l Let_def)
    moreover have "look (sp_world (sr_supervisor (with_world s1 sv))) = (look (sr_world sv))(key \<mapsto> token)"
      using up None by (simp add: u token_def)
    ultimately have "look (sp_world (sr_supervisor (with_world s1 sv))) = (look (sr_world sv))(key \<mapsto> token) \<and>
      sp_agents (sr_supervisor (with_world s1 sv)) = sp_agents (sr_supervisor sv) \<and>
      fst (locked_process env q sv) = map_sum http_of id (fst (processing env q (sr_supervisor (with_world s1 sv)))) \<and>
      (let after = look (sp_world (snd (processing env q (sr_supervisor (with_world s1 sv)))))
       in look (sr_world (snd (locked_process env q sv))) = (if after key = Some token then after(key := None) else after))"
      by (simp add: p Let_def)
    with None show ?thesis by (simp only: simp_thms if_False) blast
  qed
qed

text \<open>A session another holds, and a free one.\<close>

theorem one_request_per_session_witness:
  "fst (locked_process (quiet_service ''t'' (Some map_redis)) pods_request
      (quiet_server [''k8s''] [''session_lock:s1'' \<mapsto> rval.RText ''other''])) = Inl session_busy \<and>
   (\<exists>sp. sp_world sp ''session_lock:s1'' = Some (rval.RText ''u1'') \<and>
      fst (locked_process (quiet_service ''t'' (Some map_redis)) pods_request (quiet_server [''k8s''] Map.empty)) =
        map_sum http_of id (fst (processing (quiet_service ''t'' (Some map_redis)) pods_request sp)))"
proof -
  have r: "sv_lock_redis (quiet_service ''t'' (Some map_redis)) = Some map_redis"
    "\<And>s. snd (sv_uuid (quiet_service ''t'' (Some map_redis)) s) = s"
    "\<And>s. fst (sv_uuid (quiet_service ''t'' (Some map_redis)) s) = ''u1''" by (simp_all add: quiet_service_def)
  have w: "sr_world (quiet_server names s) = s" for names :: "string list" and s :: "string \<Rightarrow> rval option"
    by (simp add: quiet_server_def new_server_def)
  have k: "''session_lock:'' @ sq_session_id pods_request = ''session_lock:s1''" by (simp add: pods_request_def)
  note once = one_request_per_session [where look = "\<lambda>s. s" and q = pods_request, OF map_redis_laws r(1) r(2), unfolded k]
  have "fst (locked_process (quiet_service ''t'' (Some map_redis)) pods_request
      (quiet_server [''k8s''] [''session_lock:s1'' \<mapsto> rval.RText ''other''])) = Inl session_busy"
    using once [of "quiet_server [''k8s''] [''session_lock:s1'' \<mapsto> rval.RText ''other'']"] unfolding w by simp
  moreover have "\<exists>sp. sp_world sp = Map.empty(''session_lock:s1'' \<mapsto> rval.RText ''u1'') \<and>
      fst (locked_process (quiet_service ''t'' (Some map_redis)) pods_request (quiet_server [''k8s''] Map.empty)) =
        map_sum http_of id (fst (processing (quiet_service ''t'' (Some map_redis)) pods_request sp))"
    using once [of "quiet_server [''k8s''] Map.empty"] unfolding w r(3) by (simp del: fun_upd_apply) blast
  ultimately show ?thesis by (metis fun_upd_same)
qed

text \<open>
  C7: the service is closed to strangers: a request without the configured token is answered 401 on
  every guarded route and changes nothing, and with no token configured every request is refused.
\<close>

theorem unauthenticated_calls_do_nothing:
  assumes "tok = [] \<or> sv_internal_token env \<noteq> Some tok" "tok' = [] \<or> tok' \<noteq> sv_api_token env"
  shows "internal_process env tok q sv = (Inl (HTTPException 401 ''Unauthorized (internal)''), sv) \<and>
    internal_process_stream env tok q sv = (Inl (HTTPException 401 ''Unauthorized (internal)''), sv) \<and>
    internal_agents env tok sv = Inl (HTTPException 401 ''Unauthorized (internal)'') \<and>
    list_kb_pending env tok' sv = (Inl (HTTPException 401 ''Unauthorized''), sv) \<and>
    approve_kb_item env tok' item_id sv = (Inl (HTTPException 401 ''Unauthorized''), sv) \<and>
    reject_kb_item env tok' item_id sv = (Inl (HTTPException 401 ''Unauthorized''), sv) \<and>
    alerts_incoming env tok' payload sv = (Inl (HTTPException 401 ''Unauthorized''), sv)"
proof -
  have i: "require_internal_token (sv_internal_token env) tok = Inl (HTTPException 401 ''Unauthorized (internal)'')"
    using assms(1) by (auto simp: require_internal_token_def Let_def split: option.splits)
  have t: "require_token (sv_api_token env) tok' = Inl (HTTPException 401 ''Unauthorized'')"
    using assms(2) by (auto simp: require_token_def)
  show ?thesis
    by (simp add: internal_process_def internal_process_stream_def internal_agents_def list_kb_pending_def approve_kb_item_def
        reject_kb_item_def on_kb_def alerts_incoming_def i t)
qed

theorem unauthenticated_calls_do_nothing_witness:
  "internal_process (quiet_service ''t'' None) ''x'' pods_request (quiet_server [''k8s''] (0::nat)) =
     (Inl (HTTPException 401 ''Unauthorized (internal)''), quiet_server [''k8s''] 0) \<and>
   alerts_incoming (quiet_service [] None) [] demo_payload (quiet_server [] (0::nat)) =
     (Inl (HTTPException 401 ''Unauthorized''), quiet_server [] 0)"
  using unauthenticated_calls_do_nothing [of "''x''" "quiet_service ''t'' None" "''x''" pods_request "quiet_server [''k8s''] (0::nat)"]
    unauthenticated_calls_do_nothing [of "[]" "quiet_service [] None" "[]" pods_request "quiet_server [] (0::nat)" _ demo_payload]
  by (simp add: quiet_service_def)

text \<open>
  The processing route fails in known ways: whatever happens inside, it answers a result or one of
  401, 403 and 409; it never raises and never answers 500, and 403 stands for a guardrail refusal.
\<close>

theorem processing_fails_in_known_ways:
  "case fst (internal_process env tok q sv) of
     Inr res \<Rightarrow> True
   | Inl (HTTPException code detail) \<Rightarrow>
       code \<in> {401, 409} \<or> code = 403 \<and> (\<exists>sp why src cats. fst (processing env q sp) = Inl (GuardrailBlocked why src cats))"
proof (cases "require_internal_token (sv_internal_token env) tok")
  case (Inl e)
  then show ?thesis by (auto simp: internal_process_def require_internal_token_def Let_def split: if_splits)
next
  case (Inr u)
  then have i: "internal_process env tok q sv = locked_process env q sv" by (simp add: internal_process_def)
  from locked_outcome [of env q sv] show ?thesis
  proof
    assume "fst (locked_process env q sv) = Inl session_busy"
    then show ?thesis by (simp add: i session_busy_def)
  next
    assume "\<exists>sp. fst (locked_process env q sv) = map_sum http_of id (fst (processing env q sp))"
    then obtain sp where p: "fst (locked_process env q sv) = map_sum http_of id (fst (processing env q sp))" ..
    show ?thesis
    proof (cases "fst (processing env q sp)")
      case (Inl e)
      then obtain why src cats where "e = GuardrailBlocked why src cats"
        using processing_refusals [of env q sp e "snd (processing env q sp)"] by (auto simp: prod_eq_iff)
      with Inl have "\<exists>sp why src cats. fst (processing env q sp) = Inl (GuardrailBlocked why src cats)" by blast
      with Inl p \<open>e = _\<close> show ?thesis by (simp add: i http_of_def)
    qed (use p in \<open>simp add: i\<close>)
  qed
qed

text \<open>The streaming route takes no lock: the lock's service makes no difference to it.\<close>

lemma streams_take_no_lock: "internal_process_stream (env\<lparr>sv_lock_redis := redis\<rparr>) = internal_process_stream env"
proof -
  have e: "sv_internal_token (env\<lparr>sv_lock_redis := redis\<rparr>) = sv_internal_token env" "sv_env (env\<lparr>sv_lock_redis := redis\<rparr>) = sv_env env"
    "sv_completion_id (env\<lparr>sv_lock_redis := redis\<rparr>) = sv_completion_id env" "sv_clock (env\<lparr>sv_lock_redis := redis\<rparr>) = sv_clock env"
    "sv_trace (env\<lparr>sv_lock_redis := redis\<rparr>) = sv_trace env" by simp_all
  show ?thesis unfolding fun_eq_iff internal_process_stream_def processing_def e by simp
qed

text \<open>
  Slack reaches the squad only through signed mentions: an event that changes anything carries a
  valid signature and is a mention of the app, with its user, its channel and its text.
\<close>

theorem only_signed_mentions_are_processed:
  "snd (slack_events slack env body timestamp signature sp) = sp \<or>
   sl_valid slack body timestamp signature \<and>
   (\<exists>data event user t channel. json_loads body = Some (JObj data) \<and> dict_get data ''event'' = Some (JObj event) \<and>
      dict_get event ''type'' = Some (JStr ''app_mention'') \<and> dict_get event ''user'' = Some (JStr user) \<and>
      dict_get event ''text'' = Some (JStr t) \<and> dict_get event ''channel'' = Some channel)"
  by (auto simp: slack_events_def slack_mention_def Let_def split: option.splits json.splits)

end
