(* ===== verification/SupervisorClient.thy ===== *)
theory SupervisorClient
  imports Config Json
begin

text \<open>
  The gateway's HTTP client of the supervisor, src/src/gateway/supervisor_client.py.  The HTTP
  transport is a parameter: three calls on a state \<open>'s\<close>, each answering with a response or
  raising a transport error.  A response is its status code and its body, None when the body is
  not JSON.
\<close>

record http_response =
  status_code :: nat
  resp_body :: "json option"

record 's transport =
  http_get :: "string \<Rightarrow> 's \<Rightarrow> (exn + http_response) \<times> 's"
  http_post :: "string \<Rightarrow> json \<Rightarrow> 's \<Rightarrow> (exn + http_response) \<times> 's"
  http_stream :: "string \<Rightarrow> json \<Rightarrow> 's \<Rightarrow> (exn + http_response) \<times> 's"

datatype client_error = SupervisorUnavailableError exn | HTTPStatusError nat | OtherError exn

record client =
  cl_base_url :: string
  cl_token :: string
  cl_max_connections :: int
  cl_timeout :: int

definition rstrip_slash :: "string \<Rightarrow> string" where
  "rstrip_slash s = rev (dropWhile (\<lambda>c. c = CHR ''/'') (rev s))"

definition new_client ::
    "settings \<Rightarrow> string option \<Rightarrow> string option \<Rightarrow> int option \<Rightarrow> int option \<Rightarrow> client" where
  "new_client cfg base_url token max_connections timeout =
     \<lparr>cl_base_url = rstrip_slash (case base_url of Some (c # u) \<Rightarrow> c # u | _ \<Rightarrow> cfg_supervisor_url cfg),
      cl_token = (case token of Some t \<Rightarrow> t
        | None \<Rightarrow> (case cfg_supervisor_internal_token cfg of None \<Rightarrow> [] | Some t \<Rightarrow> t)),
      cl_max_connections = (case max_connections of
          Some n \<Rightarrow> if n \<noteq> 0 then n else cfg_gateway_max_concurrent cfg + 5
        | None \<Rightarrow> cfg_gateway_max_concurrent cfg + 5),
      cl_timeout = (case timeout of
          Some n \<Rightarrow> if n \<noteq> 0 then n else cfg_gateway_job_timeout_seconds cfg
        | None \<Rightarrow> cfg_gateway_job_timeout_seconds cfg)\<rparr>"

definition is_success :: "http_response \<Rightarrow> bool" where
  "is_success r \<longleftrightarrow> 200 \<le> status_code r \<and> status_code r < 300"

definition is_supervisor_ready :: "'s transport \<Rightarrow> 's \<Rightarrow> bool \<times> 's" where
  "is_supervisor_ready h s =
     (case http_get h ''/ready'' s of
        (Inr resp, s') \<Rightarrow> (status_code resp = 200, s')
      | (Inl e, s') \<Rightarrow> (False, s'))"

fun json_texts :: "json list \<Rightarrow> string list option" where
  "json_texts [] = Some []"
| "json_texts (JStr t # xs) = map_option ((#) t) (json_texts xs)"
| "json_texts (_ # xs) = None"

text \<open>
  A body that is no JSON object raises; the supervisor's contract is that \<open>agents\<close> is a list of
  texts, and any other value is outside the model (an error here).
\<close>

definition list_agents :: "'s transport \<Rightarrow> 's \<Rightarrow> (exn + string list) \<times> 's" where
  "list_agents h s =
     (case http_get h ''/internal/agents'' s of
        (Inl e, s') \<Rightarrow> (Inr [], s')
      | (Inr resp, s') \<Rightarrow>
          if \<not> is_success resp then (Inr [], s')
          else (case resp_body resp of
                  None \<Rightarrow> (Inl ''JSONDecodeError'', s')
                | Some (JObj d) \<Rightarrow>
                    (case dict_get d ''agents'' of
                       None \<Rightarrow> (Inr [], s')
                     | Some (JList xs) \<Rightarrow>
                         (case json_texts xs of Some names \<Rightarrow> (Inr names, s') | None \<Rightarrow> (Inl ''TypeError'', s'))
                     | Some _ \<Rightarrow> (Inl ''TypeError'', s'))
                | Some _ \<Rightarrow> (Inl ''AttributeError'', s')))"

definition payload_of :: "string \<Rightarrow> string \<Rightarrow> string \<Rightarrow> string \<Rightarrow> string option \<Rightarrow> json" where
  "payload_of user_input user_id session_id mode force_agent =
     JObj [(''user_input'', JStr user_input), (''user_id'', JStr user_id),
           (''session_id'', JStr session_id), (''mode'', JStr mode),
           (''force_agent'', case force_agent of None \<Rightarrow> JNull | Some a \<Rightarrow> JStr a)]"

definition client_process ::
    "'s transport \<Rightarrow> string \<Rightarrow> string \<Rightarrow> string \<Rightarrow> string \<Rightarrow> string option \<Rightarrow> 's \<Rightarrow>
     (client_error + json) \<times> 's" where
  "client_process h user_input user_id session_id mode force_agent s =
     (case http_post h ''/internal/process'' (payload_of user_input user_id session_id mode force_agent) s of
        (Inl e, s') \<Rightarrow> (Inl (SupervisorUnavailableError e), s')
      | (Inr resp, s') \<Rightarrow>
          if \<not> is_success resp then (Inl (HTTPStatusError (status_code resp)), s')
          else (case resp_body resp of
                  None \<Rightarrow> (Inl (OtherError ''JSONDecodeError''), s')
                | Some v \<Rightarrow> (Inr v, s')))"

definition client_process_stream ::
    "'s transport \<Rightarrow> string \<Rightarrow> string \<Rightarrow> string \<Rightarrow> string \<Rightarrow> string option \<Rightarrow> 's \<Rightarrow>
     (client_error + http_response) \<times> 's" where
  "client_process_stream h user_input user_id session_id mode force_agent s =
     (case http_stream h ''/internal/process/stream'' (payload_of user_input user_id session_id mode force_agent) s of
        (Inl e, s') \<Rightarrow> (Inl (SupervisorUnavailableError e), s')
      | (Inr resp, s') \<Rightarrow>
          if status_code resp \<ge> 400 then (Inl (HTTPStatusError (status_code resp)), s')
          else (Inr resp, s'))"

lemma ready_down: "isl (fst (http_get h ''/ready'' s)) \<Longrightarrow> fst (is_supervisor_ready h s) = False"
  by (auto simp: is_supervisor_ready_def isl_def split: prod.splits sum.splits)

lemma list_agents_down:
  "isl (fst (http_get h ''/internal/agents'' s)) \<Longrightarrow> fst (list_agents h s) = Inr []"
  by (auto simp: list_agents_def isl_def split: prod.splits sum.splits)

lemma new_client_connections_exceed_pool:
  "cl_max_connections (new_client cfg base_url token None timeout) > cfg_gateway_max_concurrent cfg"
  by (simp add: new_client_def)

end
