(* ===== verification/WorkerPool.thy ===== *)
theory WorkerPool
  imports Json
begin

text \<open>
  The gateway's worker pool, src/src/gateway/worker_pool.py: a local semaphore, the table of
  active jobs, the two stream timeouts, cancellation through a Redis key, and the status record
  of every job.  A job's backend stream is the list of what each \<open>__anext__\<close> delivers and
  after how long; the interleaving of several jobs is the step relation \<open>pool_step\<close>.
\<close>

record pool =
  pool_max :: int
  permits :: int
  job_timeout :: rat
  first_byte_timeout :: rat
  idle_timeout :: rat
  active :: "string list"

definition new_pool :: "int \<Rightarrow> rat \<Rightarrow> rat \<Rightarrow> rat \<Rightarrow> pool" where
  "new_pool max_concurrent job first_byte idle =
     \<lparr>pool_max = max_concurrent, permits = max_concurrent, job_timeout = job,
      first_byte_timeout = first_byte, idle_timeout = idle, active = []\<rparr>"

definition active_count :: "pool \<Rightarrow> int" where
  "active_count p = int (length (active p))"

definition available :: "pool \<Rightarrow> int" where
  "available p = pool_max p - active_count p"

definition has_capacity :: "pool \<Rightarrow> bool" where
  "has_capacity p \<longleftrightarrow> available p > 0"

section \<open>Redis side effects\<close>

text \<open>\<open>redis_client=None\<close> is \<open>None\<close>; every call is best-effort.\<close>

definition update_status ::
    "'s redis_ops option \<Rightarrow> string \<Rightarrow> string \<Rightarrow> string \<Rightarrow> 's \<Rightarrow> 's" where
  "update_status r now_iso job_id status s =
     (case r of
        None \<Rightarrow> s
      | Some ops \<Rightarrow>
          snd (rd_set ops (''job:'' @ job_id)
            (RText (json_dumps (JObj [(''job_id'', JStr job_id), (''status'', JStr status),
               (''updated_at'', JStr now_iso)]))) s))"

definition set_cancel_flag :: "'s redis_ops option \<Rightarrow> string \<Rightarrow> 's \<Rightarrow> 's" where
  "set_cancel_flag r job_id s =
     (case r of None \<Rightarrow> s | Some ops \<Rightarrow> snd (rd_setex ops (''cancel:'' @ job_id) 60 (RText ''1'') s))"

definition clear_cancel_flag :: "'s redis_ops option \<Rightarrow> string \<Rightarrow> 's \<Rightarrow> 's" where
  "clear_cancel_flag r job_id s =
     (case r of None \<Rightarrow> s | Some ops \<Rightarrow> snd (rd_del ops (''cancel:'' @ job_id) s))"

definition cancel :: "'s redis_ops option \<Rightarrow> pool \<Rightarrow> string \<Rightarrow> 's \<Rightarrow> bool \<times> 's" where
  "cancel r p job_id s =
     (if job_id \<notin> set (active p) then (False, s) else (True, set_cancel_flag r job_id s))"

text \<open>One turn of the poll task: whether it cancels the job, and whether it polls again.\<close>

definition poll_cancel_turn ::
    "'s redis_ops option \<Rightarrow> pool \<Rightarrow> string \<Rightarrow> 's \<Rightarrow> (bool \<times> bool) \<times> 's" where
  "poll_cancel_turn r p job_id s =
     (case r of
        None \<Rightarrow> ((False, False), s)
      | Some ops \<Rightarrow>
          if job_id \<notin> set (active p) then ((False, False), s)
          else (case rd_get ops (''cancel:'' @ job_id) s of
                  (Inl e, s') \<Rightarrow> ((False, False), s')
                | (Inr v, s') \<Rightarrow>
                    if v \<noteq> None \<and> v \<noteq> Some (RText []) then ((True, False), s') else ((False, True), s')))"

section \<open>One job\<close>

datatype stream_event = Chunk string | Stop | Raise exn | Cancel | Close

datatype run_end =
    Completed | FirstByteTimeout | IdleStreamTimeout | Cancelled | Failed exn | ConsumerClosed | Unfinished

definition submit :: "pool \<Rightarrow> exn + pool" where
  "submit p = (if \<not> has_capacity p then Inl ''PoolFullError'' else Inr p)"

definition enter :: "pool \<Rightarrow> string \<Rightarrow> pool" where
  "enter p job_id = p\<lparr>permits := permits p - 1, active := List.insert job_id (active p)\<rparr>"

definition leave :: "pool \<Rightarrow> string \<Rightarrow> pool" where
  "leave p job_id = p\<lparr>permits := permits p + 1, active := remove1 job_id (active p)\<rparr>"

definition timed_out :: "bool \<Rightarrow> run_end" where
  "timed_out first_byte_seen = (if first_byte_seen then IdleStreamTimeout else FirstByteTimeout)"

text \<open>
  The try block of \<open>_run\<close>: the chunks it yields and how it ends.  \<open>Close\<close> is the consumer
  closing the generator at the last yield; a \<open>TimeoutError\<close> of the stream itself is caught by the
  same handler as the pool's own.
\<close>

fun run_body :: "pool \<Rightarrow> bool \<Rightarrow> (rat \<times> stream_event) list \<Rightarrow> string list \<times> run_end" where
  "run_body p seen [] = ([], Unfinished)"
| "run_body p seen ((delay, ev) # evs) =
     (if ev = Close then ([], ConsumerClosed)
      else (let budget = (if seen then idle_timeout p else first_byte_timeout p)
            in if delay > budget then ([], timed_out seen)
               else (case ev of
                       Chunk t \<Rightarrow> (let (ts, e) = run_body p True evs in (t # ts, e))
                     | Stop \<Rightarrow> ([], Completed)
                     | Cancel \<Rightarrow> ([], Cancelled)
                     | Raise x \<Rightarrow> ([], if x = ''TimeoutError'' then timed_out seen else Failed x)
                     | Close \<Rightarrow> ([], ConsumerClosed))))"

fun end_status :: "run_end \<Rightarrow> string option" where
  "end_status Completed = Some ''completed''"
| "end_status FirstByteTimeout = Some ''first_byte_timeout''"
| "end_status IdleStreamTimeout = Some ''idle_timeout''"
| "end_status Cancelled = Some ''cancelled''"
| "end_status (Failed x) =
     (if x = ''FirstByteTimeout'' \<or> x = ''IdleStreamTimeout'' then None else Some ''failed'')"
| "end_status ConsumerClosed = None"
| "end_status Unfinished = None"

text \<open>
  The whole of \<open>_run\<close>: None while the semaphore has no permit; otherwise the chunks, the end,
  and the pool and the service after the cleanup (before it while the job is unfinished).
\<close>

definition run_job ::
    "'s redis_ops option \<Rightarrow> string \<Rightarrow> pool \<Rightarrow> string \<Rightarrow> (rat \<times> stream_event) list \<Rightarrow> 's \<Rightarrow>
     (string list \<times> run_end \<times> pool \<times> 's) option" where
  "run_job r now_iso p job_id evs s =
     (if permits p \<le> 0 then None
      else (let p1 = enter p job_id;
                (chunks, e) = run_body p False evs;
                s1 = (case end_status e of None \<Rightarrow> s | Some st \<Rightarrow> update_status r now_iso job_id st s)
            in if e = Unfinished then Some (chunks, e, p1, s1)
               else Some (chunks, e, leave p1 job_id, clear_cancel_flag r job_id s1)))"

section \<open>Several jobs\<close>

text \<open>\<open>waiting\<close> holds the admitted generators that have not passed the semaphore.\<close>

record pool_state =
  the_pool :: pool
  waiting :: "string list"
  running :: "string list"

inductive pool_step :: "pool_state \<Rightarrow> pool_state \<Rightarrow> bool" where
  admit: "submit (the_pool st) = Inr p \<Longrightarrow> pool_step st (st\<lparr>the_pool := p, waiting := waiting st @ [j]\<rparr>)"
| start: "j \<in> set (waiting st) \<Longrightarrow> permits (the_pool st) > 0 \<Longrightarrow>
    pool_step st (st\<lparr>the_pool := enter (the_pool st) j, waiting := remove1 j (waiting st), running := j # running st\<rparr>)"
| finish: "j \<in> set (running st) \<Longrightarrow>
    pool_step st (st\<lparr>the_pool := leave (the_pool st) j, running := remove1 j (running st)\<rparr>)"

inductive_cases pool_stepE: "pool_step st st'"

inductive pool_reach :: "pool \<Rightarrow> pool_state \<Rightarrow> bool" for p where
  init: "pool_reach p \<lparr>the_pool = p, waiting = [], running = []\<rparr>"
| step: "pool_reach p st \<Longrightarrow> pool_step st st' \<Longrightarrow> pool_reach p st'"

definition pool_inv :: "int \<Rightarrow> pool_state \<Rightarrow> bool" where
  "pool_inv m st \<longleftrightarrow>
     pool_max (the_pool st) = m \<and> permits (the_pool st) \<ge> 0 \<and>
     permits (the_pool st) + int (length (running st)) = m \<and>
     distinct (active (the_pool st)) \<and> set (active (the_pool st)) \<subseteq> set (running st)"

section \<open>Lemmas\<close>

lemma enter_frame [frame]:
  "pool_max (enter p j) = pool_max p" "idle_timeout (enter p j) = idle_timeout p"
  "first_byte_timeout (enter p j) = first_byte_timeout p" "permits (enter p j) = permits p - 1"
  "active (enter p j) = List.insert j (active p)"
  by (simp_all add: enter_def)

lemma leave_frame [frame]:
  "pool_max (leave p j) = pool_max p" "permits (leave p j) = permits p + 1"
  "active (leave p j) = remove1 j (active p)"
  by (simp_all add: leave_def)

lemma submit_Inr: "submit p = Inr q \<longleftrightarrow> has_capacity p \<and> q = p"
  by (auto simp: submit_def)

lemma leave_enter:
  "j \<notin> set (active p) \<Longrightarrow> leave (enter p j) j = p"
  by (simp add: leave_def enter_def)

lemma pool_inv_step: "pool_inv m st \<Longrightarrow> pool_step st st' \<Longrightarrow> pool_inv m st'"
proof (erule pool_stepE)
  fix p j
  assume "pool_inv m st" "st' = st\<lparr>the_pool := p, waiting := waiting st @ [j]\<rparr>" "submit (the_pool st) = Inr p"
  then show ?thesis by (simp add: pool_inv_def submit_Inr)
next
  fix j
  assume "pool_inv m st" "permits (the_pool st) > 0"
    "st' = st\<lparr>the_pool := enter (the_pool st) j, waiting := remove1 j (waiting st), running := j # running st\<rparr>"
  then show ?thesis by (auto simp: pool_inv_def frame)
next
  fix j
  assume i: "pool_inv m st" and j: "j \<in> set (running st)"
    and st': "st' = st\<lparr>the_pool := leave (the_pool st) j, running := remove1 j (running st)\<rparr>"
  have "length (running st) > 0" using j by auto
  then have "int (length (remove1 j (running st))) = int (length (running st)) - 1"
    using j by (simp add: length_remove1 of_nat_diff Suc_le_eq)
  moreover have "set (remove1 j (active (the_pool st))) \<subseteq> set (remove1 j (running st))"
    using i by (fastforce simp: pool_inv_def in_set_remove1)
  ultimately show ?thesis using i st' by (simp add: pool_inv_def frame)
qed

lemma pool_inv_reach:
  "pool_reach p st \<Longrightarrow> permits p = pool_max p \<Longrightarrow> 0 \<le> pool_max p \<Longrightarrow> active p = [] \<Longrightarrow> pool_inv (pool_max p) st"
proof (induction rule: pool_reach.induct)
  case init
  then show ?case by (simp add: pool_inv_def)
next
  case (step st st')
  then show ?case using pool_inv_step by blast
qed

lemma run_body_chunks:
  "list_all (\<lambda>(d, t). d \<le> idle_timeout p) cs \<Longrightarrow>
   run_body p True (map (\<lambda>(d, t). (d, Chunk t)) cs @ evs) =
     (map snd cs @ fst (run_body p True evs), snd (run_body p True evs))"
  by (induction cs) (auto simp: case_prod_beta)

lemma run_job_ended:
  assumes "permits p > 0" "job_id \<notin> set (active p)" "run_body p False evs = (chunks, e)" "e \<noteq> Unfinished"
  shows "run_job r now p job_id evs s = Some (chunks, e, p, clear_cancel_flag r job_id
    (case end_status e of None \<Rightarrow> s | Some st \<Rightarrow> update_status r now job_id st s))"
proof -
  have "run_body (enter p job_id) False evs = run_body p False evs" for evs
  proof -
    have "run_body (enter p job_id) seen evs = run_body p seen evs" for seen
      by (induction p seen evs rule: run_body.induct)
        (auto simp: enter_def case_prod_beta Let_def split: stream_event.splits)
    then show ?thesis .
  qed
  then show ?thesis using assms by (simp add: run_job_def Let_def leave_enter)
qed

lemma cancel_key_neq_job_key: "''cancel:'' @ a \<noteq> ''job:'' @ b"
  by simp

section \<open>Properties\<close>

text \<open>
  C26: however jobs are admitted, started and finished, never more than the configured maximum
  run at once; the free permits are exactly the rest, the table of active jobs never holds more
  than the running ones, so the capacity the preflight reads is never negative.
\<close>

theorem pool_bounds_running:
  assumes "pool_reach (new_pool m jt fb idle) st" "0 \<le> m"
  shows "int (length (running st)) \<le> m \<and> permits (the_pool st) = m - int (length (running st)) \<and>
    active_count (the_pool st) \<le> int (length (running st)) \<and> 0 \<le> available (the_pool st)"
proof -
  from pool_inv_reach [OF assms(1)] assms(2) have i: "pool_inv m st"
    by (simp add: new_pool_def)
  have "length (active (the_pool st)) = card (set (active (the_pool st)))"
    using i by (simp add: pool_inv_def distinct_card)
  also have "\<dots> \<le> card (set (running st))" using i by (intro card_mono) (simp_all add: pool_inv_def)
  also have "\<dots> \<le> length (running st)" by (rule card_length)
  finally show ?thesis using i by (simp add: pool_inv_def active_count_def available_def)
qed

theorem pool_bounds_running_witness:
  "int (length [''a'']) \<le> (1::int) \<and>
   pool_reach (new_pool 1 300 30 60)
     \<lparr>the_pool = enter (new_pool 1 300 30 60) ''a'', waiting = [''b''], running = [''a'']\<rparr>"
proof -
  let ?p = "new_pool 1 300 30 60"
  let ?s0 = "\<lparr>the_pool = ?p, waiting = [], running = []\<rparr>"
  have sub: "submit ?p = Inr ?p" by (simp add: submit_Inr new_pool_def has_capacity_def available_def active_count_def)
  have "pool_step ?s0 (?s0\<lparr>waiting := [''a'']\<rparr>)" using admit [of ?s0 ?p "''a''"] sub by simp
  then have r1: "pool_reach ?p (?s0\<lparr>waiting := [''a'']\<rparr>)" using pool_reach.intros by blast
  have "pool_step (?s0\<lparr>waiting := [''a'']\<rparr>) (?s0\<lparr>waiting := [''a'', ''b'']\<rparr>)"
    using admit [of "?s0\<lparr>waiting := [''a'']\<rparr>" ?p "''b''"] sub by simp
  with r1 have r2: "pool_reach ?p (?s0\<lparr>waiting := [''a'', ''b'']\<rparr>)" using pool_reach.step by blast
  have "pool_step (?s0\<lparr>waiting := [''a'', ''b'']\<rparr>) \<lparr>the_pool = enter ?p ''a'', waiting = [''b''], running = [''a'']\<rparr>"
    using start [of "''a''" "?s0\<lparr>waiting := [''a'', ''b'']\<rparr>"] by (simp add: new_pool_def)
  with r2 have r3: "pool_reach ?p \<lparr>the_pool = enter ?p ''a'', waiting = [''b''], running = [''a'']\<rparr>"
    using pool_reach.step by blast
  from pool_bounds_running [OF r3] r3 show ?thesis by simp
qed

text \<open>
  A job leaves nothing behind: whatever its stream does and however it ends, the pool is as
  before it started (permit returned, job no longer active), its cancel flag is gone, and its
  status record says how it ended.
\<close>

theorem job_leaves_pool_unchanged:
  assumes "redis_laws r look" "permits p > 0" "job_id \<notin> set (active p)"
    "snd (run_body p False evs) \<noteq> Unfinished"
  shows "\<exists>s'. run_job (Some r) now p job_id evs s =
      Some (fst (run_body p False evs), snd (run_body p False evs), p, s') \<and>
    look s' (''cancel:'' @ job_id) = None \<and>
    look s' (''job:'' @ job_id) =
      (case end_status (snd (run_body p False evs)) of
         None \<Rightarrow> look s (''job:'' @ job_id)
       | Some st \<Rightarrow> Some (RText (json_dumps (JObj [(''job_id'', JStr job_id), (''status'', JStr st),
                                       (''updated_at'', JStr now)]))))"
proof -
  let ?e = "snd (run_body p False evs)"
  have "run_job (Some r) now p job_id evs s = Some (fst (run_body p False evs), ?e, p,
    clear_cancel_flag (Some r) job_id
      (case end_status ?e of None \<Rightarrow> s | Some st \<Rightarrow> update_status (Some r) now job_id st s))"
    by (rule run_job_ended [OF assms(2,3) _ assms(4)]) simp
  then show ?thesis
    by (simp add: clear_cancel_flag_def update_status_def redis_del_law [OF assms(1)]
      redis_set_law [OF assms(1)] cancel_key_neq_job_key [symmetric] split: option.splits del: json_dumps.simps)
qed

theorem job_leaves_pool_unchanged_witness:
  "\<exists>s'. run_job (Some map_redis) ''now'' (new_pool 1 300 30 60) ''j'' [(31, Chunk ''late'')] Map.empty =
      Some ([], FirstByteTimeout, new_pool 1 300 30 60, s') \<and> s' ''cancel:j'' = None"
proof -
  show ?thesis
    using job_leaves_pool_unchanged [OF map_redis_laws, of "new_pool 1 300 30 60" "''j''" "[(31, Chunk ''late'')]" "''now''" Map.empty]
    by (auto simp: new_pool_def timed_out_def)
qed

text \<open>
  The two stream timeouts are exact: a stream whose first chunk keeps the first-byte budget
  and whose later chunks keep the idle budget is delivered whole and completes, whatever its total
  duration (the configured job timeout is never consulted), and the first chunk over budget ends
  the job with the timeout of its position.
\<close>

theorem stream_timeouts_exact:
  assumes "d \<le> first_byte_timeout p" "list_all (\<lambda>(d, t). d \<le> idle_timeout p) cs"
  shows "run_body p False ((d, Chunk t) # map (\<lambda>(d, t). (d, Chunk t)) cs @ [(d', Stop)]) =
    (t # map snd cs, if d' \<le> idle_timeout p then Completed else IdleStreamTimeout)"
  using assms by (simp add: run_body_chunks timed_out_def)

theorem stream_timeouts_exact_witness:
  "run_body (new_pool 1 300 30 60) False
     ((30, Chunk ''a'') # map (\<lambda>(d, t). (d, Chunk t)) (replicate 10 (60, ''b'')) @ [(1, Stop)]) =
   (''a'' # replicate 10 ''b'', Completed)"
  by (subst stream_timeouts_exact) (simp_all add: new_pool_def eval_nat_numeral)

text \<open>
  Admission reads the table of active jobs, which a job enters only when it starts: any number of
  jobs can be admitted before the first of them starts, and they then queue at the semaphore.
\<close>

lemma pool_admits_beyond_capacity:
  assumes "0 < m"
  shows "pool_reach (new_pool m jt fb idle)
    \<lparr>the_pool = new_pool m jt fb idle, waiting = js, running = []\<rparr>"
proof (induction js rule: rev_induct)
  case Nil
  show ?case by (rule pool_reach.init)
next
  case (snoc j js)
  have "submit (new_pool m jt fb idle) = Inr (new_pool m jt fb idle)"
    using assms by (simp add: submit_Inr new_pool_def has_capacity_def available_def active_count_def)
  then have "pool_step \<lparr>the_pool = new_pool m jt fb idle, waiting = js, running = []\<rparr>
      \<lparr>the_pool = new_pool m jt fb idle, waiting = js @ [j], running = []\<rparr>"
    using admit [of "\<lparr>the_pool = new_pool m jt fb idle, waiting = js, running = []\<rparr>"] by simp
  with snoc show ?case by (rule pool_reach.step)
qed

end
