(* ===== verification/Admission.thy ===== *)
theory Admission
  imports Prelude
begin

text \<open>
  The admission guards of src/src/core/rate_limiter.py: the per-user sliding-window rate
  check (a Redis transaction on a sorted set) and the global daily budget (a Lua script that
  checks and reserves in one step), both fail-open, and the pre-call cost estimate.  Metrics
  counters and log lines are left out.
\<close>

section \<open>Cost estimate\<close>

definition pricing :: "string \<Rightarrow> (rat \<times> rat) option" where
  "pricing m = (if m = ''sonnet'' then Some (3, 15) else if m = ''haiku'' then Some (1, 5) else None)"

definition estimate_cost :: "int \<Rightarrow> int \<Rightarrow> string \<Rightarrow> rat" where
  "estimate_cost input_tokens max_output_tokens model =
     (case (case pricing model of Some p \<Rightarrow> p | None \<Rightarrow> (3, 15)) of (in_rate, out_rate) \<Rightarrow>
        (of_int input_tokens * in_rate + of_int max_output_tokens * out_rate) / 1000000)"

section \<open>Rate check\<close>

text \<open>
  The commands queued on a pipeline.  The member of ZADD is the text of the clock's value, so
  it is identified with that number.
\<close>

datatype zcmd =
    ZRemRangeByScore string rat rat
  | ZCard string
  | ZAdd string rat rat
  | ZExpire string int

text \<open>\<open>self._redis\<close> (None, or the service's pipeline execution), \<open>self._rate\<close>, \<open>self._budget\<close>.\<close>

record admission_guard =
  ag_rate :: int
  ag_budget :: rat

definition rate_key :: "string \<Rightarrow> string" where
  "rate_key user_id = ''rate:user:'' @ user_id"

definition rate_pipeline :: "string \<Rightarrow> rat \<Rightarrow> zcmd list" where
  "rate_pipeline key now =
     [ZRemRangeByScore key 0 (now - 60), ZCard key, ZAdd key now now, ZExpire key 60]"

definition check_rate ::
    "admission_guard \<Rightarrow> (zcmd list \<Rightarrow> 's \<Rightarrow> (exn + int list) \<times> 's) option \<Rightarrow> rat \<Rightarrow> string \<Rightarrow> 's \<Rightarrow>
     (bool \<times> int) \<times> 's" where
  "check_rate g ex now user_id s =
     (case ex of None \<Rightarrow> ((True, ag_rate g), s)
      | Some exec \<Rightarrow>
          (case exec (rate_pipeline (rate_key user_id) now) s of
             (Inr [_, count, _, _], s') \<Rightarrow>
               if count \<ge> ag_rate g then ((False, 0), s')
               else ((True, ag_rate g - count - 1), s')
           | (_, s') \<Rightarrow> ((True, ag_rate g), s')))"

section \<open>Daily budget\<close>

text \<open>
  \<open>_BUDGET_RESERVE_LUA\<close>: \<open>tonumber(GET or '0')\<close>, compare, and only then SET and EXPIRE.  A
  stored text that is no number makes the script's arithmetic raise.
\<close>

definition budget_reserve_lua :: "rat \<Rightarrow> rat \<Rightarrow> script" where
  "budget_reserve_lua cost cap cur =
     (case (case cur of None \<Rightarrow> Some 0 | Some v \<Rightarrow> wire_float v) of
        None \<Rightarrow> (Inl ''attempt to perform arithmetic on a nil value'', cur)
      | Some current \<Rightarrow>
          if current + cost > cap then
            (let rem = cap - current; rem = (if rem < 0 then 0 else rem)
             in (Inr [RInt 0, RFloat rem], cur))
          else
            (let new_total = current + cost
             in (Inr [RInt 1, RFloat (cap - new_total)], Some (RFloat new_total))))"

definition budget_key :: "string \<Rightarrow> string" where
  "budget_key day = ''budget:global:'' @ day"

definition check_budget ::
    "admission_guard \<Rightarrow> 's redis_ops option \<Rightarrow> string \<Rightarrow> rat \<Rightarrow> 's \<Rightarrow> (bool \<times> rat) \<times> 's" where
  "check_budget g ro day cost s =
     (case ro of None \<Rightarrow> ((True, ag_budget g), s)
      | Some r \<Rightarrow>
          (case rd_eval r (budget_reserve_lua cost (ag_budget g)) (budget_key day) s of
             (Inr (a # rem # _), s') \<Rightarrow>
               (case (wire_int a, wire_float rem) of
                  (Some n, Some x) \<Rightarrow> ((n = 1, x), s')
                | _ \<Rightarrow> ((True, ag_budget g), s'))
           | (_, s') \<Rightarrow> ((True, ag_budget g), s')))"

section \<open>What the service does with a pipeline\<close>

text \<open>The documented meaning of the four commands, on sorted sets kept as member/score lists.\<close>

fun zset_cmd :: "zcmd \<Rightarrow> (string \<Rightarrow> (rat \<times> rat) list) \<Rightarrow> int \<times> (string \<Rightarrow> (rat \<times> rat) list)" where
  "zset_cmd (ZRemRangeByScore k lo hi) z =
     (let keep = filter (\<lambda>(m, sc). \<not> (lo \<le> sc \<and> sc \<le> hi)) (z k)
      in (int (length (z k)) - int (length keep), z(k := keep)))"
| "zset_cmd (ZCard k) z = (int (length (z k)), z)"
| "zset_cmd (ZAdd k m sc) z =
     ((if m \<in> fst ` set (z k) then 0 else 1), z(k := dict_set (z k) m sc))"
| "zset_cmd (ZExpire k t) z = (1, z)"

fun zset_exec :: "zcmd list \<Rightarrow> (string \<Rightarrow> (rat \<times> rat) list) \<Rightarrow> int list \<times> (string \<Rightarrow> (rat \<times> rat) list)" where
  "zset_exec [] z = ([], z)"
| "zset_exec (c # cs) z =
     (case zset_cmd c z of (n, z') \<Rightarrow> (case zset_exec cs z' of (ns, z'') \<Rightarrow> (n # ns, z'')))"

definition zset_laws ::
    "(zcmd list \<Rightarrow> 's \<Rightarrow> (exn + int list) \<times> 's) \<Rightarrow> ('s \<Rightarrow> string \<Rightarrow> (rat \<times> rat) list) \<Rightarrow> bool" where
  "zset_laws exec zlook \<longleftrightarrow>
     (\<forall>cs s. fst (exec cs s) = Inr (fst (zset_exec cs (zlook s))) \<and>
             zlook (snd (exec cs s)) = snd (zset_exec cs (zlook s)))"

definition map_zset :: "zcmd list \<Rightarrow> (string \<Rightarrow> (rat \<times> rat) list) \<Rightarrow> (exn + int list) \<times> (string \<Rightarrow> (rat \<times> rat) list)" where
  "map_zset cs z = (case zset_exec cs z of (ns, z') \<Rightarrow> (Inr ns, z'))"

lemma map_zset_laws: "zset_laws map_zset (\<lambda>z. z)"
  by (simp add: zset_laws_def map_zset_def case_prod_beta)

section \<open>The sliding window\<close>

text \<open>The answers of a run of rate checks, each by a user at a time.\<close>

fun rate_run ::
    "admission_guard \<Rightarrow> (zcmd list \<Rightarrow> 's \<Rightarrow> (exn + int list) \<times> 's) option \<Rightarrow> (string \<times> rat) list \<Rightarrow> 's \<Rightarrow>
     bool list \<times> 's" where
  "rate_run g ex [] s = ([], s)"
| "rate_run g ex ((u, t) # reqs) s =
     (case check_rate g ex t u s of ((ok, _), s') \<Rightarrow>
        (case rate_run g ex reqs s' of (oks, s'') \<Rightarrow> (ok # oks, s'')))"

text \<open>
  The abstract window: a request passes when fewer than \<open>rate\<close> earlier requests of the same
  user, admitted or not, are younger than 60 seconds.
\<close>

definition recent :: "string \<Rightarrow> rat \<Rightarrow> (string \<times> rat) list \<Rightarrow> rat list" where
  "recent u from hist = map snd (filter (\<lambda>(u', t). u' = u \<and> from < t) hist)"

fun window_spec :: "int \<Rightarrow> (string \<times> rat) list \<Rightarrow> (string \<times> rat) list \<Rightarrow> bool list" where
  "window_spec rate hist [] = []"
| "window_spec rate hist ((u, t) # reqs) =
     (int (length (recent u (t - 60) hist)) < rate) # window_spec rate (hist @ [(u, t)]) reqs"

definition window_view :: "rat \<Rightarrow> (string \<times> rat) list \<Rightarrow> (string \<Rightarrow> (rat \<times> rat) list) \<Rightarrow> bool" where
  "window_view b hist z \<longleftrightarrow>
     (\<forall>u. \<exists>from. from + 60 \<le> b \<and> z (rate_key u) = map (\<lambda>t. (t, t)) (recent u from hist)) \<and>
     (\<forall>p \<in> set hist. 0 \<le> snd p \<and> snd p \<le> b)"

lemma dict_set_fresh: "k \<notin> fst ` set d \<Longrightarrow> dict_set d k v = d @ [(k, v)]"
  by (induction d k v rule: dict_set.induct) auto

lemma recent_append: "recent u from (h @ h') = recent u from h @ recent u from h'"
  by (simp add: recent_def)

lemma set_recent: "set (recent u from h) = {t. (u, t) \<in> set h \<and> from < t}"
  by (force simp: recent_def)

lemma filter_recent:
  assumes "from \<le> x" and "\<forall>p \<in> set h. 0 \<le> snd p"
  shows "filter (\<lambda>(m, sc). 0 \<le> sc \<longrightarrow> \<not> sc \<le> x) (map (\<lambda>t. (t, t)) (recent u from h)) =
    map (\<lambda>t. (t, t)) (recent u x h)"
  using assms by (induction h) (auto simp: recent_def)

lemma rate_key_inj [simp]: "rate_key u = rate_key v \<longleftrightarrow> u = v"
  by (simp add: rate_key_def)

lemma rate_pipeline_step:
  assumes "window_view b hist z" and "b < t" and "0 \<le> t"
  shows "\<exists>n1 n2 n3 z'. zset_exec (rate_pipeline (rate_key u) t) z =
      ([n1, int (length (recent u (t - 60) hist)), n2, n3], z') \<and> window_view t (hist @ [(u, t)]) z'"
proof -
  from assms(1) obtain "from" where f: "from + 60 \<le> b"
    "z (rate_key u) = map (\<lambda>t. (t, t)) (recent u from hist)"
    by (auto simp: window_view_def)
  have h: "\<forall>p \<in> set hist. 0 \<le> snd p \<and> snd p \<le> b"
    using assms(1) by (simp add: window_view_def)
  let ?keep = "map (\<lambda>t. (t, t)) (recent u (t - 60) hist)"
  have keep: "filter (\<lambda>(m, sc). 0 \<le> sc \<longrightarrow> \<not> sc \<le> t - 60) (z (rate_key u)) = ?keep"
    unfolding f(2) using f(1) assms(2) h by (intro filter_recent) auto
  have fresh: "t \<notin> fst ` set ?keep"
    using h assms(2) by (force simp: set_recent)
  let ?z' = "z(rate_key u := ?keep @ [(t, t)])"
  have "window_view t (hist @ [(u, t)]) ?z'"
    unfolding window_view_def
  proof (intro conjI allI)
    fix v
    show "\<exists>from. from + 60 \<le> t \<and> ?z' (rate_key v) = map (\<lambda>t. (t, t)) (recent v from (hist @ [(u, t)]))"
    proof (cases "v = u")
      case True
      then show ?thesis by (intro exI [of _ "t - 60"]) (simp add: recent_append, simp add: recent_def)
    next
      case False
      from assms(1) obtain g where "g + 60 \<le> b" "z (rate_key v) = map (\<lambda>t. (t, t)) (recent v g hist)"
        by (auto simp: window_view_def)
      with False assms(2) show ?thesis
        by (intro exI [of _ g]) (simp add: recent_append, simp add: recent_def)
    qed
  next
    show "\<forall>p \<in> set (hist @ [(u, t)]). 0 \<le> snd p \<and> snd p \<le> t" using h assms(2,3) by force
  qed
  then show ?thesis
    by (simp add: rate_pipeline_def Let_def keep dict_set_fresh [OF fresh])
qed

lemma rate_run_refines:
  assumes "zset_laws exec zlook"
  shows "window_view b hist (zlook s) \<Longrightarrow> sorted_wrt (<) (map snd reqs) \<Longrightarrow>
    list_all (\<lambda>(u, t). 0 \<le> t \<and> b < t) reqs \<Longrightarrow>
    fst (rate_run g (Some exec) reqs s) = window_spec (ag_rate g) hist reqs"
proof (induction reqs arbitrary: b hist s)
  case Nil
  then show ?case by simp
next
  case (Cons p reqs)
  obtain u t where p: "p = (u, t)" by (cases p)
  with Cons.prems have t: "0 \<le> t" "b < t" by auto
  obtain n1 n2 n3 z' where z':
    "zset_exec (rate_pipeline (rate_key u) t) (zlook s) =
      ([n1, int (length (recent u (t - 60) hist)), n2, n3], z')"
    "window_view t (hist @ [(u, t)]) z'"
    using rate_pipeline_step [OF Cons.prems(1) t(2,1)] by blast
  obtain s' where s': "exec (rate_pipeline (rate_key u) t) s =
      (Inr [n1, int (length (recent u (t - 60) hist)), n2, n3], s')" "zlook s' = z'"
    using assms z'(1) unfolding zset_laws_def by (metis fst_conv prod.collapse snd_conv)
  have rest: "fst (rate_run g (Some exec) reqs s') = window_spec (ag_rate g) (hist @ [(u, t)]) reqs"
    using Cons.prems(2,3) z'(2) s'(2)
    by (intro Cons.IH [of t]) (auto simp: p list_all_iff)
  show ?case
    by (auto simp: p check_rate_def s'(1) case_prod_beta rest)
qed

lemma window_view_init: "(\<And>u. z (rate_key u) = []) \<Longrightarrow> window_view b [] z"
  by (auto simp: window_view_def recent_def intro: exI [of _ "b - 60"])

lemma rate_run_window:
  assumes "zset_laws exec zlook" and "\<And>u. zlook s (rate_key u) = []"
    and "sorted_wrt (<) (map snd reqs)" and "list_all (\<lambda>(u, t). 0 \<le> t) reqs"
  shows "fst (rate_run g (Some exec) reqs s) = window_spec (ag_rate g) [] reqs"
proof -
  let ?b = "(case reqs of [] \<Rightarrow> 0 | p # _ \<Rightarrow> snd p) - 1"
  have "list_all (\<lambda>(u, t). 0 \<le> t \<and> ?b < t) reqs"
    using assms(3,4) by (cases reqs) (auto simp: list_all_iff)
  with rate_run_refines [OF assms(1) window_view_init [of "zlook s" ?b, OF assms(2)] assms(3)]
  show ?thesis by blast
qed

text \<open>
  C21: with the service up, at strictly increasing times, the rate guard is an exact sliding
  window: each request passes if and only if fewer than "rate" earlier requests of the same
  user, including the rejected ones, lie in the 60 seconds before it.
\<close>

theorem rate_guard_is_sliding_window:
  assumes "zset_laws exec zlook" and "\<And>u. zlook s (rate_key u) = []"
    and "sorted_wrt (<) (map snd reqs)" and "list_all (\<lambda>(u, t). 0 \<le> t) reqs"
  shows "fst (rate_run g (Some exec) reqs s) = window_spec (ag_rate g) [] reqs"
  using assms by (rule rate_run_window)

theorem rate_guard_is_sliding_window_witness:
  "fst (rate_run \<lparr>ag_rate = 2, ag_budget = 50\<rparr> (Some map_zset)
     [(''a'', 1), (''a'', 2), (''b'', 3), (''a'', 30), (''a'', 63), (''a'', 64)] (\<lambda>_. [])) =
   window_spec 2 [] [(''a'', 1), (''a'', 2), (''b'', 3), (''a'', 30), (''a'', 63), (''a'', 64)] \<and>
   window_spec 2 [] [(''a'', 1), (''a'', 2), (''b'', 3), (''a'', 30), (''a'', 63), (''a'', 64)] =
     [True, True, True, False, True, False]"
  using rate_guard_is_sliding_window [OF map_zset_laws, of "\<lambda>_. []"
      "[(''a'', 1), (''a'', 2), (''b'', 3), (''a'', 30), (''a'', 63), (''a'', 64)]" "\<lparr>ag_rate = 2, ag_budget = 50\<rparr>"]
  by (simp add: recent_def)

section \<open>Bounds\<close>

definition admitted_in :: "string \<Rightarrow> rat \<Rightarrow> (string \<times> rat) list \<Rightarrow> bool list \<Rightarrow> nat" where
  "admitted_in u t reqs oks =
     length (filter (\<lambda>((u', t'), ok). ok \<and> u' = u \<and> t - 60 < t' \<and> t' \<le> t) (zip reqs oks))"

lemma length_recent_mono: "from \<le> from' \<Longrightarrow> length (recent u from' h) \<le> length (recent u from h)"
  by (induction h) (auto simp: recent_def)

lemma window_spec_bound:
  assumes "int a \<le> rate" and "a \<le> length (recent u (t - 60) hist)"
  shows "int (a + admitted_in u t reqs (window_spec rate hist reqs)) \<le> rate"
  using assms
proof (induction rate hist reqs arbitrary: a rule: window_spec.induct)
  case (1 rate hist)
  then show ?case by (simp add: admitted_in_def)
next
  case (2 rate hist u' t' reqs)
  let ?ok = "int (length (recent u' (t' - 60) hist)) < rate"
  let ?in = "u' = u \<and> t - 60 < t' \<and> t' \<le> t"
  let ?a = "if ?ok \<and> ?in then Suc a else a"
  have "int ?a \<le> rate"
    using "2.prems" length_recent_mono [of "t' - 60" "t - 60" u hist] by auto
  moreover have "?a \<le> length (recent u (t - 60) (hist @ [(u', t')]))"
    using "2.prems"(2) by (auto simp: recent_append) (simp_all add: recent_def)
  ultimately have "int (?a + admitted_in u t reqs (window_spec rate (hist @ [(u', t')]) reqs)) \<le> rate"
    by (rule "2.IH")
  then show ?case by (auto simp: admitted_in_def split: if_splits)
qed

text \<open>
  No user ever gets more than "rate" requests admitted in any window of 60 seconds.
\<close>

theorem rate_guard_bounds_admissions:
  assumes "zset_laws exec zlook" and "\<And>u. zlook s (rate_key u) = []" and "0 \<le> ag_rate g"
    and "sorted_wrt (<) (map snd reqs)" and "list_all (\<lambda>(u, t). 0 \<le> t) reqs"
  shows "int (admitted_in u t reqs (fst (rate_run g (Some exec) reqs s))) \<le> ag_rate g"
proof -
  have "fst (rate_run g (Some exec) reqs s) = window_spec (ag_rate g) [] reqs"
    using assms(1,2,4,5) by (rule rate_run_window)
  with window_spec_bound [of 0 "ag_rate g" u t "[]" reqs] assms(3) show ?thesis by simp
qed

theorem rate_guard_bounds_admissions_witness:
  "int (admitted_in ''a'' 10 [(''a'', 1), (''a'', 2), (''a'', 3)]
     (fst (rate_run \<lparr>ag_rate = 2, ag_budget = 50\<rparr> (Some map_zset) [(''a'', 1), (''a'', 2), (''a'', 3)] (\<lambda>_. [])))) \<le> 2"
  using rate_guard_bounds_admissions [OF map_zset_laws, of "\<lambda>_. []" "\<lparr>ag_rate = 2, ag_budget = 50\<rparr>"
      "[(''a'', 1), (''a'', 2), (''a'', 3)]" "''a''" 10] by simp

text \<open>The answers of a run of reservations, each with its day and its cost.\<close>

fun budget_run ::
    "admission_guard \<Rightarrow> 's redis_ops option \<Rightarrow> (string \<times> rat) list \<Rightarrow> 's \<Rightarrow> bool list \<times> 's" where
  "budget_run g ro [] s = ([], s)"
| "budget_run g ro ((d, c) # reqs) s =
     (case check_budget g ro d c s of ((ok, _), s') \<Rightarrow>
        (case budget_run g ro reqs s' of (oks, s'') \<Rightarrow> (ok # oks, s'')))"

definition spent :: "string \<Rightarrow> (string \<times> rat) list \<Rightarrow> bool list \<Rightarrow> rat" where
  "spent d reqs oks = sum_list (map (\<lambda>((d', c), ok). if ok \<and> d' = d then c else 0) (zip reqs oks))"

definition day_total :: "('s \<Rightarrow> string \<Rightarrow> rval option) \<Rightarrow> 's \<Rightarrow> string \<Rightarrow> rat option" where
  "day_total look s d = (case look s (budget_key d) of None \<Rightarrow> Some 0 | Some v \<Rightarrow> wire_float v)"

lemma budget_key_inj [simp]: "budget_key d = budget_key e \<longleftrightarrow> d = e"
  by (simp add: budget_key_def)

lemma check_budget_up:
  assumes L: "redis_laws r look" and t: "day_total look s d = Some x"
  shows "fst (fst (check_budget g (Some r) d c s)) = (x + c \<le> ag_budget g)"
    and "day_total look (snd (check_budget g (Some r) d c s)) e =
      (if e = d \<and> x + c \<le> ag_budget g then Some (x + c) else day_total look s e)"
proof -
  let ?e = "rd_eval r (budget_reserve_lua c (ag_budget g)) (budget_key d) s"
  let ?f = "budget_reserve_lua c (ag_budget g) (look s (budget_key d))"
  have f: "?f = (if x + c > ag_budget g
      then (Inr [RInt 0, RFloat (let rem = ag_budget g - x in if rem < 0 then 0 else rem)], look s (budget_key d))
      else (Inr [RInt 1, RFloat (ag_budget g - (x + c))], Some (RFloat (x + c))))"
    using t by (simp add: budget_reserve_lua_def day_total_def Let_def)
  obtain s' where s': "?e = (fst ?f, s')" and look': "look s' = (look s)(budget_key d := snd ?f)"
    using redis_eval_law [OF L] by (metis prod.collapse)
  show "fst (fst (check_budget g (Some r) d c s)) = (x + c \<le> ag_budget g)"
    by (simp add: check_budget_def s' f wire_int_def wire_float_def)
  have "snd (check_budget g (Some r) d c s) = s'"
    by (simp add: check_budget_def s' f wire_int_def wire_float_def)
  then show "day_total look (snd (check_budget g (Some r) d c s)) e =
      (if e = d \<and> x + c \<le> ag_budget g then Some (x + c) else day_total look s e)"
    by (auto simp: day_total_def look' f wire_float_def)
qed

lemma budget_run_total:
  assumes L: "redis_laws r look" and "day_total look s d = Some x"
    and "\<And>e. day_total look s e \<noteq> None"
  shows "day_total look (snd (budget_run g (Some r) reqs s)) d =
      Some (x + spent d reqs (fst (budget_run g (Some r) reqs s))) \<and>
    x + spent d reqs (fst (budget_run g (Some r) reqs s)) \<le> max x (ag_budget g)"
  using assms(2,3)
proof (induction reqs arbitrary: s x)
  case Nil
  then show ?case by (simp add: spent_def)
next
  case (Cons p reqs)
  obtain d' c where p: "p = (d', c)" by (cases p)
  obtain x' where x': "day_total look s d' = Some x'" using Cons.prems(2) [of d'] by blast
  let ?s' = "snd (check_budget g (Some r) d' c s)"
  note up = check_budget_up [OF L x', where c = c and g = g]
  let ?x = "if d = d' \<and> x' + c \<le> ag_budget g then x' + c else x"
  have "day_total look ?s' d = Some ?x" and "\<And>e. day_total look ?s' e \<noteq> None"
    using Cons.prems by (simp_all add: up(2))
  from Cons.IH [OF this] have IH: "day_total look (snd (budget_run g (Some r) reqs ?s')) d =
      Some (?x + spent d reqs (fst (budget_run g (Some r) reqs ?s')))"
    "?x + spent d reqs (fst (budget_run g (Some r) reqs ?s')) \<le> max ?x (ag_budget g)"
    by blast+
  have sp: "x + spent d (p # reqs) (fst (budget_run g (Some r) (p # reqs) s)) =
      ?x + spent d reqs (fst (budget_run g (Some r) reqs ?s'))"
    using Cons.prems(1) x' by (auto simp: p case_prod_beta spent_def up(1))
  have "max ?x (ag_budget g) \<le> max x (ag_budget g)" by auto
  with IH sp show ?case by (simp add: p case_prod_beta)
qed

text \<open>
  C20: the daily budget is a hard cap while the service is up: because the script checks and
  reserves in one step, in any sequence of requests the costs admitted for a day never
  exceed the configured budget, and the stored total is exactly their sum.
\<close>

theorem daily_budget_is_hard_cap:
  assumes "redis_laws r look" and "\<And>d. look s (budget_key d) = None" and "0 \<le> ag_budget g"
  shows "spent d reqs (fst (budget_run g (Some r) reqs s)) \<le> ag_budget g \<and>
    day_total look (snd (budget_run g (Some r) reqs s)) d =
      Some (spent d reqs (fst (budget_run g (Some r) reqs s)))"
proof -
  have "\<And>e. day_total look s e = Some 0"
    using assms(2) by (simp add: day_total_def)
  then show ?thesis
    using budget_run_total [OF assms(1), of s d 0 g reqs] assms(3) by simp
qed

theorem daily_budget_is_hard_cap_witness:
  "fst (budget_run \<lparr>ag_rate = 60, ag_budget = 5\<rparr> (Some map_redis)
      [(''d1'', 3), (''d1'', 3), (''d1'', 2), (''d2'', 4)] Map.empty) = [True, False, True, True] \<and>
   spent ''d1'' [(''d1'', 3), (''d1'', 3), (''d1'', 2), (''d2'', 4)]
     (fst (budget_run \<lparr>ag_rate = 60, ag_budget = 5\<rparr> (Some map_redis)
        [(''d1'', 3), (''d1'', 3), (''d1'', 2), (''d2'', 4)] Map.empty)) \<le> 5"
  using daily_budget_is_hard_cap [OF map_redis_laws, of Map.empty "\<lparr>ag_rate = 60, ag_budget = 5\<rparr>" "''d1''"
      "[(''d1'', 3), (''d1'', 3), (''d1'', 2), (''d2'', 4)]"]
  by (simp add: check_budget_def map_redis_def budget_reserve_lua_def budget_key_def wire_float_def
      wire_int_def Let_def)

text \<open>
  Both guards fail open: when the service raises, a request is admitted with the full
  allowance reported, whatever was recorded before.
\<close>

theorem admission_fails_open:
  assumes "redis_down r" and "\<And>cs s. isl (fst (exec cs s))"
  shows "fst (check_rate g (Some exec) now u s) = (True, ag_rate g) \<and>
    fst (check_budget g (Some r) day cost s') = (True, ag_budget g)"
proof -
  obtain e s1 where e: "exec (rate_pipeline (rate_key u) now) s = (Inl e, s1)"
    using assms(2) by (metis isl_def prod.collapse)
  obtain e' s2 where e': "rd_eval r (budget_reserve_lua cost (ag_budget g)) (budget_key day) s' = (Inl e', s2)"
    using redis_downD(9) [OF assms(1)] by blast
  show ?thesis by (simp add: check_rate_def check_budget_def e e')
qed

theorem admission_fails_open_witness:
  "fst (check_rate \<lparr>ag_rate = 0, ag_budget = 0\<rparr> (Some (\<lambda>cs s. (Inl ''down'', s))) 5 ''u'' ()) = (True, 0) \<and>
   fst (check_budget \<lparr>ag_rate = 0, ag_budget = 0\<rparr> (Some dead_redis) ''d'' 9 ()) = (True, 0)"
  using admission_fails_open [OF dead_redis_down, of "\<lambda>cs s. (Inl ''down'', s)"
      "\<lparr>ag_rate = 0, ag_budget = 0\<rparr>" 5 "''u''" "()" "''d''" 9 "()"] by simp

end
