(* ===== verification/Gateway.thy ===== *)
theory Gateway
  imports SupervisorClient WorkerPool Admission EdgeAuth OpenAICompat
begin

text \<open>
  The gateway's HTTP handlers, src/src/gateway/main.py: admission, the capacity and readiness
  preflight, the native and the OpenAI entry points, job cancellation, readiness.  One request
  is handled at a time; the state is the worker pool, the cached agent names, and the external
  world \<open>'s\<close> (Redis and the supervisor), which the operations in \<open>gateway_env\<close> act on.  What the
  backend takes is the argument \<open>delay\<close> of the environment.
\<close>

record 's gateway_env =
  ge_settings :: settings
  ge_redis :: "'s redis_ops option"
  ge_pipeline :: "(zcmd list \<Rightarrow> 's \<Rightarrow> (exn + int list) \<times> 's) option"
  ge_ping :: "'s \<Rightarrow> (exn + unit) \<times> 's"
  ge_supervisor :: "'s transport"
  ge_guard :: admission_guard
  ge_now :: rat
  ge_day :: string
  ge_now_iso :: string
  ge_job_id :: string
  ge_jitter :: int
  ge_delay :: rat
  ge_cid :: string
  ge_created :: int

record 's gateway_state =
  gs_pool :: pool
  gs_agents :: "string list"
  gs_ext :: 's

datatype reply =
    JSONResponse (reply_status: nat) json "(string \<times> string) list"
  | Body json
  | ProxyStream http_response
  | SseStream "frame list \<times> exn option"
  | RaiseHTTP http_error
  | Raised exn
  | Blocked

definition error_json :: "string \<Rightarrow> string \<Rightarrow> json" where
  "error_json ty message = JObj [(''error'', JObj [(''type'', JStr ty), (''message'', JStr message)])]"

section \<open>Backpressure\<close>

definition retry_after :: "int \<Rightarrow> pool \<Rightarrow> int" where
  "retry_after jitter p =
     (let base = \<lceil>(of_int (active_count p) / of_int (max (pool_max p) 1)) * 5 :: rat\<rceil>
      in max 1 base + jitter)"

definition busy_response :: "int \<Rightarrow> pool \<Rightarrow> string \<Rightarrow> string \<Rightarrow> reply" where
  "busy_response jitter p subtype detail =
     JSONResponse 503 (error_json subtype detail) [(''Retry-After'', show_int (retry_after jitter p))]"

text \<open>A number with four decimals, \<open>f"{x:.4f}"\<close>.\<close>

definition show_fixed4 :: "rat \<Rightarrow> string" where
  "show_fixed4 x =
     (let n = nat (py_round (\<bar>x\<bar> * 10000)); ds = show_nat (n mod 10000)
      in (if x < 0 then ''-'' else []) @ show_nat (n div 10000) @ ''.'' @ replicate (4 - length ds) CHR ''0'' @ ds)"

section \<open>Admission\<close>

definition check_admission ::
    "'s gateway_env \<Rightarrow> string \<Rightarrow> int \<Rightarrow> 's \<Rightarrow> reply option \<times> 's" where
  "check_admission env user_id max_tokens s =
     (if \<not> cfg_rate_budget_enabled (ge_settings env) then (None, s)
      else (case check_rate (ge_guard env) (ge_pipeline env) (ge_now env) user_id s of
              ((allowed, remaining), s1) \<Rightarrow>
                if \<not> allowed then
                  (Some (JSONResponse 429 (error_json ''rate_limited'' ''per-user rate limit exceeded'')
                     [(''X-RateLimit-Remaining'', ''0''), (''Retry-After'', ''60'')]), s1)
                else (case check_budget (ge_guard env) (ge_redis env) (ge_day env)
                             (estimate_cost 1000 max_tokens ''sonnet'') s1 of
                        ((budget_ok, budget_remaining), s2) \<Rightarrow>
                          if \<not> budget_ok then
                            (Some (JSONResponse 503 (error_json ''budget_exhausted'' ''daily budget exhausted'')
                               [(''X-Budget-Remaining-USD'', show_fixed4 budget_remaining), (''Retry-After'', ''3600'')]), s2)
                          else (None, s2))))"

text \<open>
  The three checks both entry points make before any work: a reply that ends the request, or
  None.
\<close>

definition preflight :: "'s gateway_env \<Rightarrow> string \<Rightarrow> int \<Rightarrow> 's gateway_state \<Rightarrow> reply option \<times> 's gateway_state" where
  "preflight env user_id max_tokens st =
     (case check_admission env user_id max_tokens (gs_ext st) of
        (Some denied, s1) \<Rightarrow> (Some denied, st\<lparr>gs_ext := s1\<rparr>)
      | (None, s1) \<Rightarrow>
          if \<not> has_capacity (gs_pool st) then
            (Some (busy_response (ge_jitter env) (gs_pool st) ''service_overloaded''
               (''server busy '' @ [CHR 0xE2, CHR 0x80, CHR 0x94] @ '' worker pool at capacity'')), st\<lparr>gs_ext := s1\<rparr>)
          else (case is_supervisor_ready (ge_supervisor env) s1 of
                  (ok, s2) \<Rightarrow>
                    if \<not> ok then
                      (Some (busy_response (ge_jitter env) (gs_pool st) ''backend_unavailable''
                         ''supervisor backend is not ready''), st\<lparr>gs_ext := s2\<rparr>)
                    else (None, st\<lparr>gs_ext := s2\<rparr>)))"

section \<open>Forwarding\<close>

definition forward_error :: "client_error \<Rightarrow> reply" where
  "forward_error exc =
     (case exc of
        HTTPStatusError status \<Rightarrow>
          if status = 403 then
            JSONResponse 403 (error_json ''guardrail_blocked'' ''Request blocked by security guardrail'') []
          else JSONResponse status (error_json ''backend_error'' ''supervisor error'') []
      | SupervisorUnavailableError e \<Rightarrow> Raised ''SupervisorUnavailableError''
      | OtherError e \<Rightarrow> Raised e)"

text \<open>The stream of \<open>_one_shot\<close>: the backend's whole answer, or its exception, after the delay.\<close>

definition one_shot_events :: "rat \<Rightarrow> client_error + json \<Rightarrow> (rat \<times> stream_event) list" where
  "one_shot_events delay r =
     (case r of Inr v \<Rightarrow> [(delay, Chunk []), (0, Stop)] | Inl e \<Rightarrow> [(delay, Raise ''backend error'')])"

text \<open>
  Submitting \<open>_one_shot\<close> to the pool and draining it: the answer, or the reply of the except
  clauses.
\<close>

definition run_one_shot ::
    "'s gateway_env \<Rightarrow> string \<Rightarrow> string \<Rightarrow> string \<Rightarrow> string \<Rightarrow> string option \<Rightarrow> 's gateway_state \<Rightarrow>
     (reply + json) \<times> 's gateway_state" where
  "run_one_shot env user_input user_id session_id mode force_agent st =
     (case submit (gs_pool st) of
        Inl e \<Rightarrow>
          (Inl (busy_response (ge_jitter env) (gs_pool st) ''service_overloaded''
             (''server busy '' @ [CHR 0xE2, CHR 0x80, CHR 0x94] @ '' worker pool at capacity'')), st)
      | Inr p \<Rightarrow>
          (case client_process (ge_supervisor env) user_input user_id session_id mode force_agent (gs_ext st) of
             (r, s1) \<Rightarrow>
               (case run_job (ge_redis env) (ge_now_iso env) p (ge_job_id env) (one_shot_events (ge_delay env) r) s1 of
                  None \<Rightarrow> (Inl Blocked, st)
                | Some (chunks, e, p', s2) \<Rightarrow>
                    (let st' = st\<lparr>gs_pool := p', gs_ext := s2\<rparr>
                     in case e of
                          Completed \<Rightarrow> (case r of Inr v \<Rightarrow> (Inr v, st') | Inl x \<Rightarrow> (Inl Blocked, st'))
                        | FirstByteTimeout \<Rightarrow> (Inl (Raised ''FirstByteTimeout''), st')
                        | IdleStreamTimeout \<Rightarrow> (Inl (Raised ''IdleStreamTimeout''), st')
                        | Failed y \<Rightarrow>
                            (case r of
                               Inl (SupervisorUnavailableError m) \<Rightarrow>
                                 (Inl (busy_response (ge_jitter env) p' ''backend_unavailable'' ''supervisor backend unavailable''), st')
                             | Inl x \<Rightarrow> (Inl (forward_error x), st')
                             | Inr v \<Rightarrow> (Inl Blocked, st'))
                        | _ \<Rightarrow> (Inl Blocked, st')))))"

record query_request =
  qr_user_input :: string
  qr_user_id :: string
  qr_session_id :: string
  qr_mode :: "string option"

definition handle_query :: "'s gateway_env \<Rightarrow> query_request \<Rightarrow> 's gateway_state \<Rightarrow> reply \<times> 's gateway_state" where
  "handle_query env request st =
     (case preflight env (qr_user_id request) 4096 st of
        (Some r, st1) \<Rightarrow> (r, st1)
      | (None, st1) \<Rightarrow>
          (case run_one_shot env (qr_user_input request) (qr_user_id request) (qr_session_id request)
                  (case qr_mode request of Some (c # m) \<Rightarrow> c # m | _ \<Rightarrow> ''query'') None st1 of
             (Inl r, st2) \<Rightarrow> (r, st2)
           | (Inr v, st2) \<Rightarrow> (Body v, st2)))"

section \<open>The OpenAI entry point\<close>

definition refresh_agents :: "'s gateway_env \<Rightarrow> 's gateway_state \<Rightarrow> (exn + string list) \<times> 's gateway_state" where
  "refresh_agents env st =
     (case list_agents (ge_supervisor env) (gs_ext st) of
        (Inl e, s') \<Rightarrow> (Inl e, st\<lparr>gs_ext := s'\<rparr>)
      | (Inr names, s') \<Rightarrow>
          (let cached = (if names \<noteq> [] then names else gs_agents st)
           in (Inr cached, st\<lparr>gs_agents := cached, gs_ext := s'\<rparr>)))"

definition agent_names :: "'s gateway_env \<Rightarrow> 's gateway_state \<Rightarrow> (exn + string list) \<times> 's gateway_state" where
  "agent_names env st = (if gs_agents st \<noteq> [] then (Inr (gs_agents st), st) else refresh_agents env st)"

definition dump_model :: "model_object \<Rightarrow> json" where
  "dump_model m =
     JObj [(''id'', JStr (mo_id m)), (''object'', JStr (mo_object m)), (''created'', JInt (mo_created m)),
           (''owned_by'', JStr (mo_owned_by m))]"

definition openai_list_models :: "'s gateway_env \<Rightarrow> 's gateway_state \<Rightarrow> reply \<times> 's gateway_state" where
  "openai_list_models env st =
     (case agent_names env st of
        (Inl e, st') \<Rightarrow> (Raised e, st')
      | (Inr names, st') \<Rightarrow>
          (Body (JObj [(''object'', JStr ''list''), (''data'', JList (map dump_model (list_models names)))]), st'))"

definition choose_agent :: "string \<Rightarrow> string list \<Rightarrow> auth_result \<Rightarrow> string option" where
  "choose_agent model names auth =
     (case resolve_target model names of
        Some a \<Rightarrow> Some a
      | None \<Rightarrow> (case consumer_default_agent auth of Some (c # a) \<Rightarrow> Some (c # a) | _ \<Rightarrow> None))"

definition result_of_json :: "json \<Rightarrow> result" where
  "result_of_json v = (case v of JObj d \<Rightarrow> map (\<lambda>(k, x). (k, VJson x)) d | _ \<Rightarrow> [])"

text \<open>The streaming branch: one agentic stream, or one fallback call shaped as a stream.\<close>

definition stream_completion ::
    "'s gateway_env \<Rightarrow> string \<Rightarrow> string \<Rightarrow> string \<Rightarrow> string \<Rightarrow> string option \<Rightarrow> 's gateway_state \<Rightarrow>
     reply \<times> 's gateway_state" where
  "stream_completion env model user_input user_id session_id force_agent st =
     (case client_process_stream (ge_supervisor env) user_input user_id session_id ''query'' force_agent (gs_ext st) of
        (Inr resp, s1) \<Rightarrow> (ProxyStream resp, st\<lparr>gs_ext := s1\<rparr>)
      | (Inl e, s1) \<Rightarrow>
          (case client_process (ge_supervisor env) user_input user_id session_id ''query'' force_agent s1 of
             (Inr v, s2) \<Rightarrow>
               ((case v of
                   JObj d \<Rightarrow> SseStream (sse_stream (ge_cid env) (ge_created env) (result_of_json v) model)
                 | _ \<Rightarrow> SseStream ([make_chunk (ge_cid env) (ge_created env) model (Some ''assistant'') (Some []) None],
                                   Some ''AttributeError'')), st\<lparr>gs_ext := s2\<rparr>)
           | (Inl (SupervisorUnavailableError m), s2) \<Rightarrow>
               (busy_response (ge_jitter env) (gs_pool st) ''backend_unavailable'' ''supervisor backend unavailable'',
                st\<lparr>gs_ext := s2\<rparr>)
           | (Inl x, s2) \<Rightarrow> (forward_error x, st\<lparr>gs_ext := s2\<rparr>)))"

definition json_completion ::
    "'s gateway_env \<Rightarrow> string \<Rightarrow> string \<Rightarrow> string \<Rightarrow> string \<Rightarrow> string option \<Rightarrow> 's gateway_state \<Rightarrow>
     reply \<times> 's gateway_state" where
  "json_completion env model user_input user_id session_id force_agent st =
     (case run_one_shot env user_input user_id session_id ''query'' force_agent st of
        (Inl r, st') \<Rightarrow> (r, st')
      | (Inr v, st') \<Rightarrow>
          (case build_completion (ge_cid env) (ge_created env) (result_of_json v) model of
             Inl e \<Rightarrow> (Raised e, st')
           | Inr c \<Rightarrow> (Body (JObj (model_dump c)), st')))"

definition openai_chat_completions ::
    "'s gateway_env \<Rightarrow> auth_result \<Rightarrow> string \<Rightarrow> chat_completion_request \<Rightarrow> 's gateway_state \<Rightarrow>
     reply \<times> 's gateway_state" where
  "openai_chat_completions env auth x_session_id request st =
     (case agent_names env st of
        (Inl e, st0) \<Rightarrow> (Raised e, st0)
      | (Inr names, st0) \<Rightarrow>
          (let force_agent = choose_agent (rq_model request) names auth;
               user_id = (case rq_user request of Some (c # u) \<Rightarrow> c # u | _ \<Rightarrow> ''librechat'');
               max_tokens = (case rq_max_tokens request of Some n \<Rightarrow> if n \<noteq> 0 then n else 4096 | None \<Rightarrow> 4096)
           in case preflight env user_id max_tokens st0 of
                (Some r, st1) \<Rightarrow> (r, st1)
              | (None, st1) \<Rightarrow>
                  (let user_input = messages_to_user_input (rq_messages request);
                       session_id = (if x_session_id \<noteq> [] then x_session_id else ''openai-'' @ user_id)
                   in if rq_stream request
                      then stream_completion env (rq_model request) user_input user_id session_id force_agent st1
                      else json_completion env (rq_model request) user_input user_id session_id force_agent st1)))"

section \<open>Cancellation, readiness, startup\<close>

definition cancel_job :: "'s gateway_env \<Rightarrow> string \<Rightarrow> 's gateway_state \<Rightarrow> reply \<times> 's gateway_state" where
  "cancel_job env job_id st =
     (case cancel (ge_redis env) (gs_pool st) job_id (gs_ext st) of
        (cancelled, s') \<Rightarrow>
          if \<not> cancelled then (RaiseHTTP (HTTPException 404 ''job not found or not running''), st\<lparr>gs_ext := s'\<rparr>)
          else (Body (JObj [(''job_id'', JStr job_id), (''status'', JStr ''cancelling'')]), st\<lparr>gs_ext := s'\<rparr>))"

definition healthz :: json where
  "healthz = JObj [(''status'', JStr ''ok''), (''service'', JStr ''gateway'')]"

definition ready :: "'s gateway_env \<Rightarrow> 's gateway_state \<Rightarrow> reply \<times> 's gateway_state" where
  "ready env st =
     (let pool_check = (''pool'', JObj [(''ok'', JBool (has_capacity (gs_pool st) \<or> active_count (gs_pool st) \<ge> 0))]);
          body = (\<lambda>checks. JObj [(''status'', JStr ''ready''), (''checks'', JObj checks)])
      in case ge_redis env of
           None \<Rightarrow> (JSONResponse 200 (body [pool_check, (''redis'', JObj [(''ok'', JBool True)])]) [], st)
         | Some r \<Rightarrow>
             (case ge_ping env (gs_ext st) of
                (Inr u, s') \<Rightarrow>
                  (JSONResponse 200 (body [pool_check, (''redis'', JObj [(''ok'', JBool True)])]) [], st\<lparr>gs_ext := s'\<rparr>)
              | (Inl e, s') \<Rightarrow>
                  (JSONResponse 200 (body [pool_check, (''redis'', JObj [(''ok'', JBool False), (''detail'', JStr e)])]) [],
                   st\<lparr>gs_ext := s'\<rparr>)))"

text \<open>The agents of the key map that the startup check warns about, and the state it leaves.\<close>

definition startup_warnings ::
    "'s gateway_env \<Rightarrow> edge_env \<Rightarrow> 's gateway_state \<Rightarrow> (exn + string list) \<times> 's gateway_state" where
  "startup_warnings env edge st =
     (let key_agents = map snd (parse_key_agent_map edge)
      in if key_agents = [] then (Inr [], st)
         else (case refresh_agents env st of
                 (Inl e, st') \<Rightarrow> (Inl e, st')
               | (Inr names, st') \<Rightarrow>
                   (Inr (if names \<noteq> [] then filter (\<lambda>a. a \<notin> set names) key_agents else []), st')))"

section \<open>Lemmas\<close>

lemma retry_after_bounds:
  assumes "0 \<le> active_count p" "active_count p \<le> pool_max p" "0 \<le> jitter" "jitter \<le> 3"
  shows "1 \<le> retry_after jitter p \<and> retry_after jitter p \<le> 8"
proof -
  define q where "q = (of_int (active_count p) / of_int (max (pool_max p) 1) :: rat)"
  have le: "of_int (active_count p) \<le> (of_int (max (pool_max p) 1) :: rat)"
    using assms(2) by (simp only: of_int_le_iff max.coboundedI1)
  have "(0::rat) < of_int (max (pool_max p) 1)" by (simp only: of_int_0_less_iff)
  with le have "q \<le> 1" unfolding q_def by (simp only: divide_le_eq mult_1 if_True)
  then have "q * 5 \<le> of_int 5" by simp
  then have "\<lceil>q * 5\<rceil> \<le> 5" by (simp only: ceiling_le_iff)
  then have "max 1 \<lceil>q * 5\<rceil> \<le> 5" by simp
  moreover have "1 \<le> max 1 \<lceil>q * 5\<rceil>" by simp
  ultimately show ?thesis using assms(3,4) unfolding retry_after_def Let_def q_def by linarith
qed



lemma preflight_pool: "gs_pool (snd (preflight env u n st)) = gs_pool st"
  by (simp add: preflight_def split: prod.splits option.splits)

lemma preflight_NoneD:
  "preflight env u n st = (None, st1) \<Longrightarrow> has_capacity (gs_pool st1) \<and> gs_pool st1 = gs_pool st"
  by (auto simp: preflight_def split: prod.splits option.splits if_splits)

lemma run_one_shot_status:
  assumes "has_capacity (gs_pool st)" "permits (gs_pool st) > 0" "ge_job_id env \<notin> set (active (gs_pool st))"
    and "ge_delay env \<le> first_byte_timeout (gs_pool st)"
    and "client_process (ge_supervisor env) ui u sid mode fa (gs_ext st) = (Inl x, s1)"
  shows "\<exists>s2. run_one_shot env ui u sid mode fa st =
    (Inl (case x of SupervisorUnavailableError m \<Rightarrow>
              busy_response (ge_jitter env) (gs_pool st) ''backend_unavailable'' ''supervisor backend unavailable''
            | _ \<Rightarrow> forward_error x), st\<lparr>gs_ext := s2\<rparr>)"
proof -
  have b: "run_body (gs_pool st) False (one_shot_events (ge_delay env) (Inl x)) = ([], Failed ''backend error'')"
    using assms(4) by (simp add: one_shot_events_def)
  have "\<exists>s2. run_job (ge_redis env) (ge_now_iso env) (gs_pool st) (ge_job_id env)
      (one_shot_events (ge_delay env) (Inl x)) s1 = Some ([], Failed ''backend error'', gs_pool st, s2)"
    by (rule exI, rule run_job_ended [OF assms(2,3) b]) simp
  then obtain s2 where "run_job (ge_redis env) (ge_now_iso env) (gs_pool st) (ge_job_id env)
      (one_shot_events (ge_delay env) (Inl x)) s1 = Some ([], Failed ''backend error'', gs_pool st, s2)" by blast
  then have "run_one_shot env ui u sid mode fa st =
    (Inl (case x of SupervisorUnavailableError m \<Rightarrow>
              busy_response (ge_jitter env) (gs_pool st) ''backend_unavailable'' ''supervisor backend unavailable''
            | _ \<Rightarrow> forward_error x), st\<lparr>gs_ext := s2\<rparr>)"
    using assms(1,5) by (cases x) (simp_all add: run_one_shot_def submit_def)
  then show ?thesis by blast
qed

lemma run_one_shot_answer:
  assumes "has_capacity (gs_pool st)" "permits (gs_pool st) > 0" "ge_job_id env \<notin> set (active (gs_pool st))"
    and "ge_delay env \<le> first_byte_timeout (gs_pool st)" "0 \<le> idle_timeout (gs_pool st)"
    and "client_process (ge_supervisor env) ui u sid mode fa (gs_ext st) = (Inr v, s1)"
  shows "\<exists>s2. run_one_shot env ui u sid mode fa st = (Inr v, st\<lparr>gs_ext := s2\<rparr>)"
proof -
  have b: "run_body (gs_pool st) False (one_shot_events (ge_delay env) (Inr v)) = ([[]], Completed)"
    using assms(4,5) by (simp add: one_shot_events_def)
  have "\<exists>s2. run_job (ge_redis env) (ge_now_iso env) (gs_pool st) (ge_job_id env)
      (one_shot_events (ge_delay env) (Inr v)) s1 = Some ([[]], Completed, gs_pool st, s2)"
    by (rule exI, rule run_job_ended [OF assms(2,3) b]) simp
  then obtain s2 where "run_job (ge_redis env) (ge_now_iso env) (gs_pool st) (ge_job_id env)
      (one_shot_events (ge_delay env) (Inr v)) s1 = Some ([[]], Completed, gs_pool st, s2)" by blast
  then have "run_one_shot env ui u sid mode fa st = (Inr v, st\<lparr>gs_ext := s2\<rparr>)"
    using assms(1,6) by (simp add: run_one_shot_def submit_def)
  then show ?thesis by blast
qed

section \<open>A concrete gateway\<close>

text \<open>
  A supervisor that is ready, knows two agents and answers every call with the same response,
  logging the paths it is called at, over a map for Redis.
\<close>

type_synonym world = "(string \<Rightarrow> rval option) \<times> string list"

definition lift_redis :: "(string \<Rightarrow> rval option) redis_ops \<Rightarrow> world redis_ops" where
  "lift_redis r =
     \<lparr>rd_get = (\<lambda>k w. map_prod id (\<lambda>m. (m, snd w)) (rd_get r k (fst w))),
      rd_set = (\<lambda>k v w. map_prod id (\<lambda>m. (m, snd w)) (rd_set r k v (fst w))),
      rd_setex = (\<lambda>k t v w. map_prod id (\<lambda>m. (m, snd w)) (rd_setex r k t v (fst w))),
      rd_set_nx = (\<lambda>k t v w. map_prod id (\<lambda>m. (m, snd w)) (rd_set_nx r k t v (fst w))),
      rd_incrby = (\<lambda>k n w. map_prod id (\<lambda>m. (m, snd w)) (rd_incrby r k n (fst w))),
      rd_expire = (\<lambda>k t w. map_prod id (\<lambda>m. (m, snd w)) (rd_expire r k t (fst w))),
      rd_incr_expire = (\<lambda>k t w. map_prod id (\<lambda>m. (m, snd w)) (rd_incr_expire r k t (fst w))),
      rd_del = (\<lambda>k w. map_prod id (\<lambda>m. (m, snd w)) (rd_del r k (fst w))),
      rd_eval = (\<lambda>f k w. map_prod id (\<lambda>m. (m, snd w)) (rd_eval r f k (fst w)))\<rparr>"

lemma lift_map_redis_laws: "redis_laws (lift_redis map_redis) fst"
  using map_redis_laws unfolding redis_laws_def lift_redis_def
  by (auto simp: map_prod_def case_prod_beta)

definition demo_transport :: "http_response \<Rightarrow> http_response \<Rightarrow> world transport" where
  "demo_transport answer stream =
     \<lparr>http_get = (\<lambda>path w.
        (Inr (if path = ''/ready'' then \<lparr>status_code = 200, resp_body = None\<rparr>
              else \<lparr>status_code = 200, resp_body = Some (JObj [(''agents'', JList [JStr ''k8s'', JStr ''obs''])])\<rparr>), w)),
      http_post = (\<lambda>path body w. (Inr answer, (fst w, snd w @ [path]))),
      http_stream = (\<lambda>path body w. (Inr stream, (fst w, snd w @ [path])))\<rparr>"

definition gw_env :: "http_response \<Rightarrow> http_response \<Rightarrow> rat \<Rightarrow> world gateway_env" where
  "gw_env answer stream budget =
     \<lparr>ge_settings = default_settings [], ge_redis = Some (lift_redis map_redis), ge_pipeline = None,
      ge_ping = (\<lambda>w. (Inr (), w)), ge_supervisor = demo_transport answer stream,
      ge_guard = \<lparr>ag_rate = 60, ag_budget = budget\<rparr>, ge_now = 0, ge_day = ''2026-01-01'',
      ge_now_iso = ''2026-01-01T00:00:00'', ge_job_id = ''job-1'', ge_jitter = 2, ge_delay = 1,
      ge_cid = ''chatcmpl-1'', ge_created = 0\<rparr>"

definition gw_state :: "int \<Rightarrow> world gateway_state" where
  "gw_state n =
     \<lparr>gs_pool = new_pool n 150 90 35, gs_agents = [''k8s'', ''obs''], gs_ext = (Map.empty, [])\<rparr>"

lemma demo_admission:
  "check_admission (gw_env a b budget) u n (Map.empty, calls) =
     (let c = estimate_cost 1000 n ''sonnet''
      in if budget < c then
           (Some (JSONResponse 503 (error_json ''budget_exhausted'' ''daily budget exhausted'')
              [(''X-Budget-Remaining-USD'', show_fixed4 (if budget < 0 then 0 else budget)), (''Retry-After'', ''3600'')]),
            (Map.empty, calls))
         else (None, ([budget_key ''2026-01-01'' \<mapsto> RFloat c], calls)))"
  by (simp add: check_admission_def gw_env_def default_settings_def check_rate_def check_budget_def
      lift_redis_def map_redis_def budget_reserve_lua_def wire_int_def wire_float_def Let_def fun_upd_def fun_eq_iff
      cong: if_cong)

lemma demo_preflight:
  "estimate_cost 1000 n ''sonnet'' \<le> budget \<Longrightarrow> 0 < m \<Longrightarrow>
   preflight (gw_env a b budget) u n (gw_state m) =
     (None, gw_state m\<lparr>gs_ext := ([budget_key ''2026-01-01'' \<mapsto> RFloat (estimate_cost 1000 n ''sonnet'')], [])\<rparr>)"
proof -
  assume "estimate_cost 1000 n ''sonnet'' \<le> budget" "0 < m"
  moreover have "is_supervisor_ready (ge_supervisor (gw_env a b budget)) w = (True, w)" for w
    by (simp add: is_supervisor_ready_def gw_env_def demo_transport_def)
  moreover have "has_capacity (gs_pool (gw_state m)) = (0 < m)"
    by (simp add: gw_state_def has_capacity_def available_def active_count_def new_pool_def)
  moreover have "gs_ext (gw_state m) = (Map.empty, [])" by (simp add: gw_state_def)
  ultimately show ?thesis by (simp add: preflight_def demo_admission Let_def)
qed

section \<open>Properties\<close>

text \<open>The values both entry points derive from a chat request.\<close>

definition chat_user :: "chat_completion_request \<Rightarrow> string" where
  "chat_user rq = (case rq_user rq of Some (c # u) \<Rightarrow> c # u | _ \<Rightarrow> ''librechat'')"

definition chat_tokens :: "chat_completion_request \<Rightarrow> int" where
  "chat_tokens rq = (case rq_max_tokens rq of Some n \<Rightarrow> if n \<noteq> 0 then n else 4096 | None \<Rightarrow> 4096)"

definition chat_session :: "string \<Rightarrow> chat_completion_request \<Rightarrow> string" where
  "chat_session sid rq = (if sid \<noteq> [] then sid else ''openai-'' @ chat_user rq)"

lemma agent_names_pool: "agent_names env st = (r, st') \<Longrightarrow> gs_pool st' = gs_pool st"
  by (auto simp: agent_names_def refresh_agents_def Let_def split: if_splits prod.splits sum.splits)



lemma admission_ignores_supervisor [simp]: "check_admission (env\<lparr>ge_supervisor := other\<rparr>) = check_admission env"
  by (simp add: fun_eq_iff check_admission_def case_prod_beta)



definition demo_chat :: "bool \<Rightarrow> chat_completion_request" where
  "demo_chat stream =
     \<lparr>rq_model = ''aigent-squad-k8s'', rq_messages = [\<lparr>role = ''user'', content = ''why''\<rparr>], rq_stream = stream,
      rq_temperature = None, rq_max_tokens = None, rq_user = None\<rparr>"

definition demo_query :: query_request where
  "demo_query = \<lparr>qr_user_input = ''why'', qr_user_id = ''ann'', qr_session_id = ''s'', qr_mode = None\<rparr>"

lemma demo_cost: "estimate_cost 1000 4096 ''sonnet'' = 64440 / 1000000"
  by (simp add: estimate_cost_def pricing_def)


lemma chat_completions_past_preflight:
  assumes "agent_names env st = (Inr names, st0)"
    and "preflight env (chat_user rq) (chat_tokens rq) st0 = (None, st1)"
  shows "openai_chat_completions env auth sid rq st =
    (if rq_stream rq then stream_completion else json_completion) env (rq_model rq)
      (messages_to_user_input (rq_messages rq)) (chat_user rq) (chat_session sid rq)
      (choose_agent (rq_model rq) names auth) st1"
  using assms by (simp add: openai_chat_completions_def Let_def chat_user_def chat_tokens_def chat_session_def)

lemma stream_completion_state:
  "snd (stream_completion env model ui u sid fa st) =
     (case client_process_stream (ge_supervisor env) ui u sid ''query'' fa (gs_ext st) of
        (Inr resp, s1) \<Rightarrow> st\<lparr>gs_ext := s1\<rparr>
      | (Inl e, s1) \<Rightarrow> st\<lparr>gs_ext := snd (client_process (ge_supervisor env) ui u sid ''query'' fa s1)\<rparr>)"
  by (auto simp: stream_completion_def split: prod.splits sum.splits client_error.splits json.splits)

lemma process_refused:
  assumes "\<And>path body s. fst (http_post h path body s) = Inr \<lparr>status_code = 403, resp_body = b\<rparr>"
  shows "fst (client_process h ui u sid mode fa s) = Inl (HTTPStatusError 403)"
  using assms by (simp add: client_process_def is_success_def case_prod_beta)

lemma process_stream_refused:
  assumes "\<And>path body s. fst (http_stream h path body s) = Inr \<lparr>status_code = 403, resp_body = b\<rparr>"
  shows "fst (client_process_stream h ui u sid mode fa s) = Inl (HTTPStatusError 403)"
  using assms by (simp add: client_process_stream_def case_prod_beta)

text \<open>
  A streaming completion makes exactly one agentic call: when the stream opens, the
  reply proxies it and nothing has been called after the preflight but that stream; only when it
  does not open is one non-streaming call made.  In both cases the request takes no
  permit of the pool.
\<close>

theorem streaming_calls_supervisor_once:
  assumes "agent_names env st = (Inr names, st0)"
    and "preflight env (chat_user rq) (chat_tokens rq) st0 = (None, st1)"
    and "rq_stream rq"
    and "call = (\<lambda>f. f (ge_supervisor env) (messages_to_user_input (rq_messages rq)) (chat_user rq)
                     (chat_session sid rq) ''query'' (choose_agent (rq_model rq) names auth))"
    and "call client_process_stream (gs_ext st1) = (opened, s2)"
  shows "case openai_chat_completions env auth sid rq st of
      (reply, st2) \<Rightarrow>
        gs_pool st2 = gs_pool st \<and>
        (case opened of
           Inr resp \<Rightarrow> reply = ProxyStream resp \<and> gs_ext st2 = s2
         | Inl e \<Rightarrow> gs_ext st2 = snd (client_process (ge_supervisor env) (messages_to_user_input (rq_messages rq))
             (chat_user rq) (chat_session sid rq) ''query'' (choose_agent (rq_model rq) names auth) s2))"
proof -
  let ?run = "stream_completion env (rq_model rq) (messages_to_user_input (rq_messages rq)) (chat_user rq)
    (chat_session sid rq) (choose_agent (rq_model rq) names auth) st1"
  have run: "openai_chat_completions env auth sid rq st = ?run"
    using chat_completions_past_preflight [OF assms(1,2)] assms(3) by simp
  have "gs_pool (snd ?run) = gs_pool st1" by (simp add: stream_completion_state split: prod.splits sum.splits)
  then have pool: "gs_pool (snd ?run) = gs_pool st"
    using preflight_NoneD [OF assms(2)] agent_names_pool [OF assms(1)] by simp
  have s: "client_process_stream (ge_supervisor env) (messages_to_user_input (rq_messages rq)) (chat_user rq)
      (chat_session sid rq) ''query'' (choose_agent (rq_model rq) names auth) (gs_ext st1) = (opened, s2)"
    using assms(5) unfolding assms(4) .
  show ?thesis
  proof (cases opened)
    case (Inr resp)
    then have "fst ?run = ProxyStream resp" by (simp add: stream_completion_def s)
    with Inr pool run show ?thesis
      using stream_completion_state [of env "rq_model rq" _ "chat_user rq" "chat_session sid rq" _ st1] s
      by (simp add: case_prod_beta)
  next
    case (Inl e)
    with pool run show ?thesis
      using stream_completion_state [of env "rq_model rq" _ "chat_user rq" "chat_session sid rq" _ st1] s
      by (simp add: case_prod_beta)
  qed
qed

theorem streaming_calls_supervisor_once_witness:
  "\<forall>a auth. snd (gs_ext (snd (openai_chat_completions (gw_env a \<lparr>status_code = 200, resp_body = None\<rparr> 50) auth ''s''
     (demo_chat True) (gw_state 20)))) = [''/internal/process/stream'']"
proof -
  have "snd (gs_ext (snd (openai_chat_completions (gw_env a \<lparr>status_code = 200, resp_body = None\<rparr> 50) auth ''s''
     (demo_chat True) (gw_state 20)))) = [''/internal/process/stream'']" for a auth
  proof -
    let ?env = "gw_env a \<lparr>status_code = 200, resp_body = None\<rparr> 50"
    have u: "chat_user (demo_chat True) = ''librechat''" "chat_tokens (demo_chat True) = 4096"
      by (simp_all add: chat_user_def chat_tokens_def demo_chat_def)
    have n: "agent_names ?env (gw_state 20) = (Inr [''k8s'', ''obs''], gw_state 20)"
      by (simp add: agent_names_def gw_state_def)
    have p: "preflight ?env (chat_user (demo_chat True)) (chat_tokens (demo_chat True)) (gw_state 20) =
        (None, gw_state 20\<lparr>gs_ext := ([budget_key ''2026-01-01'' \<mapsto> RFloat (64440 / 1000000)], [])\<rparr>)"
      unfolding u by (subst demo_preflight) (simp_all add: demo_cost)
    have c: "client_process_stream (ge_supervisor ?env) ui v sid md fa (m, calls) =
        (Inr \<lparr>status_code = 200, resp_body = None\<rparr>, (m, calls @ [''/internal/process/stream'']))" for ui v sid md fa m calls
      by (simp add: client_process_stream_def gw_env_def demo_transport_def)
    from streaming_calls_supervisor_once [OF n p _ refl, where sid = "''s''" and auth = auth]
    show ?thesis by (simp add: c demo_chat_def case_prod_beta)
  qed
  then show ?thesis by blast
qed

text \<open>
  A guardrail refusal of the supervisor is surfaced as it is: when the backend answers
  403, the reply is 403 with the guardrail error for the native call and for completions, streamed
  or not, and the pool is as it was.
\<close>

theorem guardrail_refusal_is_surfaced:
  assumes refused: "\<And>path body s. fst (http_post (ge_supervisor env) path body s) = Inr \<lparr>status_code = 403, resp_body = b\<rparr>"
      "\<And>path body s. fst (http_stream (ge_supervisor env) path body s) = Inr \<lparr>status_code = 403, resp_body = b\<rparr>"
    and pool: "permits (gs_pool st) > 0" "ge_job_id env \<notin> set (active (gs_pool st))"
      "ge_delay env \<le> first_byte_timeout (gs_pool st)"
    and chat: "agent_names env st = (Inr names, st0)" "preflight env (chat_user rq) (chat_tokens rq) st0 = (None, st1)"
    and native: "preflight env (qr_user_id q) 4096 st = (None, st2)"
  shows "\<exists>s s'. openai_chat_completions env auth sid rq st =
      (JSONResponse 403 (error_json ''guardrail_blocked'' ''Request blocked by security guardrail'') [], st1\<lparr>gs_ext := s\<rparr>) \<and>
    handle_query env q st =
      (JSONResponse 403 (error_json ''guardrail_blocked'' ''Request blocked by security guardrail'') [], st2\<lparr>gs_ext := s'\<rparr>) \<and>
    gs_pool st1 = gs_pool st \<and> gs_pool st2 = gs_pool st"
proof -
  have one_shot: "\<exists>s'. run_one_shot env ui u sd md fa sx =
      (Inl (JSONResponse 403 (error_json ''guardrail_blocked'' ''Request blocked by security guardrail'') []), sx\<lparr>gs_ext := s'\<rparr>)"
    if "gs_pool sx = gs_pool st" "has_capacity (gs_pool sx)" for ui u sd md fa sx
  proof -
    have "client_process (ge_supervisor env) ui u sd md fa (gs_ext sx) =
        (Inl (HTTPStatusError 403), snd (client_process (ge_supervisor env) ui u sd md fa (gs_ext sx)))"
      using process_refused [OF refused(1), of ui u sd md fa "gs_ext sx"] by (metis prod.collapse)
    from run_one_shot_status [OF that(2) _ _ _ this] pool that(1) show ?thesis by (simp add: forward_error_def)
  qed
  have p1: "gs_pool st1 = gs_pool st" and h1: "has_capacity (gs_pool st1)"
    using preflight_NoneD [OF chat(2)] agent_names_pool [OF chat(1)] by auto
  have p2: "gs_pool st2 = gs_pool st" and h2: "has_capacity (gs_pool st2)"
    using preflight_NoneD [OF native] by auto
  have streamed: "\<exists>s. stream_completion env m ui u sd fa sx =
      (JSONResponse 403 (error_json ''guardrail_blocked'' ''Request blocked by security guardrail'') [], sx\<lparr>gs_ext := s\<rparr>)"
    for m ui u sd fa sx
    using process_stream_refused [OF refused(2), of ui u sd "''query''" fa "gs_ext sx"]
      process_refused [OF refused(1), of ui u sd "''query''" fa]
    by (auto simp: stream_completion_def forward_error_def case_prod_beta)
  have "\<exists>s. openai_chat_completions env auth sid rq st =
      (JSONResponse 403 (error_json ''guardrail_blocked'' ''Request blocked by security guardrail'') [], st1\<lparr>gs_ext := s\<rparr>)"
  proof (cases "rq_stream rq")
    case True
    with streamed show ?thesis by (simp add: chat_completions_past_preflight [OF chat])
  next
    case False
    obtain s' where "run_one_shot env (messages_to_user_input (rq_messages rq)) (chat_user rq) (chat_session sid rq)
        ''query'' (choose_agent (rq_model rq) names auth) st1 =
      (Inl (JSONResponse 403 (error_json ''guardrail_blocked'' ''Request blocked by security guardrail'') []), st1\<lparr>gs_ext := s'\<rparr>)"
      using one_shot [OF p1 h1] by blast
    with False show ?thesis by (auto simp: chat_completions_past_preflight [OF chat] json_completion_def)
  qed
  moreover have "\<exists>s'. handle_query env q st =
      (JSONResponse 403 (error_json ''guardrail_blocked'' ''Request blocked by security guardrail'') [], st2\<lparr>gs_ext := s'\<rparr>)"
  proof -
    obtain s' where "run_one_shot env (qr_user_input q) (qr_user_id q) (qr_session_id q)
        (case qr_mode q of Some (c # m) \<Rightarrow> c # m | _ \<Rightarrow> ''query'') None st2 =
      (Inl (JSONResponse 403 (error_json ''guardrail_blocked'' ''Request blocked by security guardrail'') []), st2\<lparr>gs_ext := s'\<rparr>)"
      using one_shot [OF p2 h2] by blast
    then show ?thesis by (auto simp: handle_query_def native)
  qed
  ultimately show ?thesis using p1 p2 by blast
qed

theorem guardrail_refusal_is_surfaced_witness:
  "reply_status (fst (handle_query (gw_env \<lparr>status_code = 403, resp_body = None\<rparr>
     \<lparr>status_code = 403, resp_body = None\<rparr> 50) demo_query (gw_state 20))) = 403"
proof -
  let ?no = "\<lparr>status_code = 403, resp_body = None\<rparr>"
  let ?env = "gw_env ?no ?no 50"
  have u: "chat_tokens (demo_chat True) = 4096" by (simp add: chat_tokens_def demo_chat_def)
  have n: "agent_names ?env (gw_state 20) = (Inr [''k8s'', ''obs''], gw_state 20)"
    by (simp add: agent_names_def gw_state_def)
  have p: "preflight ?env v 4096 (gw_state 20) =
      (None, gw_state 20\<lparr>gs_ext := ([budget_key ''2026-01-01'' \<mapsto> RFloat (64440 / 1000000)], [])\<rparr>)" for v
    by (subst demo_preflight) (simp_all add: demo_cost)
  have "\<exists>s s'. openai_chat_completions ?env auth [] (demo_chat True) (gw_state 20) =
      (JSONResponse 403 (error_json ''guardrail_blocked'' ''Request blocked by security guardrail'') [],
       (gw_state 20\<lparr>gs_ext := ([budget_key ''2026-01-01'' \<mapsto> RFloat (64440 / 1000000)], [])\<rparr>)\<lparr>gs_ext := s\<rparr>) \<and>
    handle_query ?env demo_query (gw_state 20) =
      (JSONResponse 403 (error_json ''guardrail_blocked'' ''Request blocked by security guardrail'') [],
       (gw_state 20\<lparr>gs_ext := ([budget_key ''2026-01-01'' \<mapsto> RFloat (64440 / 1000000)], [])\<rparr>)\<lparr>gs_ext := s'\<rparr>) \<and>
    gs_pool (gw_state 20\<lparr>gs_ext := ([budget_key ''2026-01-01'' \<mapsto> RFloat (64440 / 1000000)], [])\<rparr>) = gs_pool (gw_state 20) \<and>
    gs_pool (gw_state 20\<lparr>gs_ext := ([budget_key ''2026-01-01'' \<mapsto> RFloat (64440 / 1000000)], [])\<rparr>) = gs_pool (gw_state 20)" if "auth = \<lparr>consumer_default_agent = None\<rparr>" for auth
    by (rule guardrail_refusal_is_surfaced [where b = None, OF _ _ _ _ _ n p [of "chat_user (demo_chat True)", folded u] p])
      (simp_all add: gw_env_def demo_transport_def gw_state_def new_pool_def)
  from this [OF refl] show ?thesis by auto
qed

text \<open>
  A busy reply is one the caller can act on: in every reachable state of the pool it is a 503
  with its subtype and a Retry-After between one and eight seconds.
\<close>

theorem busy_reply_bounds_retry:
  assumes "pool_reach (new_pool m jt fb idle) ps" "0 \<le> m" "0 \<le> jitter" "jitter \<le> 3"
  shows "\<exists>n. 1 \<le> n \<and> n \<le> 8 \<and>
    busy_response jitter (the_pool ps) subtype detail =
      JSONResponse 503 (error_json subtype detail) [(''Retry-After'', show_int n)]"
proof -
  have i: "pool_inv m ps" using pool_inv_reach [OF assms(1)] assms(2) by (simp add: new_pool_def)
  have "active_count (the_pool ps) \<le> int (length (running ps))"
    using i by (simp add: pool_inv_def active_count_def card_mono distinct_card [symmetric])
      (meson List.finite_set card_length card_mono le_trans)
  then have "active_count (the_pool ps) \<le> pool_max (the_pool ps)" "0 \<le> active_count (the_pool ps)"
    using i by (simp_all add: pool_inv_def active_count_def)
  from retry_after_bounds [OF this(2,1) assms(3,4)] show ?thesis unfolding busy_response_def by blast
qed

theorem busy_reply_bounds_retry_witness:
  "\<exists>n. 1 \<le> n \<and> n \<le> 8 \<and>
    busy_response 3 (new_pool 0 150 90 35) ''service_overloaded'' ''busy'' =
      JSONResponse 503 (error_json ''service_overloaded'' ''busy'') [(''Retry-After'', show_int n)]"
  using busy_reply_bounds_retry [OF pool_reach.init, of 0 3 150 90 35] by simp

text \<open>
  Budget is reserved before capacity is checked: a request that passes both guards
  and then meets a full pool is refused as overloaded, yet its estimated cost stays reserved.
\<close>

theorem overloaded_request_keeps_reservation:
  assumes L: "redis_laws r look" and env: "ge_redis env = Some r" "ge_pipeline env = None"
    "cfg_rate_budget_enabled (ge_settings env)"
    and total: "day_total look (gs_ext st) (ge_day env) = Some spent_today"
    and room: "spent_today + estimate_cost 1000 4096 ''sonnet'' \<le> ag_budget (ge_guard env)"
      "ag_rate (ge_guard env) > 0"
    and full: "\<not> has_capacity (gs_pool st)"
  shows "reply_status (fst (handle_query env q st)) = 503 \<and>
    day_total look (gs_ext (snd (handle_query env q st))) (ge_day env) =
      Some (spent_today + estimate_cost 1000 4096 ''sonnet'')"
proof -
  let ?s = "snd (check_budget (ge_guard env) (Some r) (ge_day env) (estimate_cost 1000 4096 ''sonnet'') (gs_ext st))"
  note up = check_budget_up [OF L total, of "ge_guard env" "estimate_cost 1000 4096 ''sonnet''"]
  have "check_admission env (qr_user_id q) 4096 (gs_ext st) = (None, ?s)"
    using up(1) env room by (simp add: check_admission_def check_rate_def case_prod_beta)
  then have h: "handle_query env q st = (busy_response (ge_jitter env) (gs_pool st) ''service_overloaded''
      (''server busy '' @ [CHR 0xE2, CHR 0x80, CHR 0x94] @ '' worker pool at capacity''), st\<lparr>gs_ext := ?s\<rparr>)"
    using full by (simp add: handle_query_def preflight_def)
  show ?thesis using up(2) [of "ge_day env"] room by (simp add: h busy_response_def)
qed

theorem overloaded_request_keeps_reservation_witness:
  "day_total fst (gs_ext (snd (handle_query (gw_env a b 50) demo_query (gw_state 0)))) ''2026-01-01'' =
     Some (0 + 64440 / 1000000)"
proof -
  have "reply_status (fst (handle_query (gw_env a b 50) demo_query (gw_state 0))) = 503 \<and>
    day_total fst (gs_ext (snd (handle_query (gw_env a b 50) demo_query (gw_state 0)))) (ge_day (gw_env a b 50)) =
      Some (0 + estimate_cost 1000 4096 ''sonnet'')"
    by (rule overloaded_request_keeps_reservation [OF lift_map_redis_laws])
      (simp_all add: gw_env_def default_settings_def gw_state_def day_total_def demo_cost
        has_capacity_def available_def active_count_def new_pool_def)
  then show ?thesis by (simp add: demo_cost gw_env_def)
qed

end
