(* ===== verification/EndToEnd.thy ===== *)
theory EndToEnd
  imports Server Gateway
begin

text \<open>
  The gateway in front of the supervisor: the gateway's HTTP client is connected to the routes of the
  supervisor's service.  A request is decoded as the service's pydantic model does (422 where it does
  not fit), a result is encoded as FastAPI does, an exception is its status code with its detail.
\<close>

definition optional_text :: "(string \<times> json) list \<Rightarrow> string \<Rightarrow> string option option" where
  "optional_text d k =
     (case dict_get d k of None \<Rightarrow> Some None | Some JNull \<Rightarrow> Some None | Some (JStr t) \<Rightarrow> Some (Some t) | _ \<Rightarrow> None)"

definition request_of_json :: "json \<Rightarrow> service_request option" where
  "request_of_json v =
     (case v of
        JObj d \<Rightarrow>
          (case (dict_get d ''user_input'', dict_get d ''user_id'', dict_get d ''session_id'',
                 optional_text d ''mode'', optional_text d ''force_agent'') of
             (Some (JStr t), Some (JStr u), Some (JStr sid), Some mode, Some force) \<Rightarrow>
               Some \<lparr>sq_user_input = t, sq_user_id = u, sq_session_id = sid, sq_mode = mode, sq_force_agent = force\<rparr>
           | _ \<Rightarrow> None)
      | _ \<Rightarrow> None)"

definition result_json :: "result \<Rightarrow> json" where
  "result_json res = JObj (map (\<lambda>(k, v). (k, value_json v)) res)"

definition http_reply :: "http_error + json option \<Rightarrow> http_response" where
  "http_reply r =
     (case r of
        Inl (HTTPException code detail) \<Rightarrow> \<lparr>status_code = code, resp_body = Some (JObj [(''detail'', JStr detail)])\<rparr>
      | Inr body \<Rightarrow> \<lparr>status_code = 200, resp_body = body\<rparr>)"

definition not_found :: http_response where
  "not_found = \<lparr>status_code = 404, resp_body = Some (JObj [(''detail'', JStr ''Not Found'')])\<rparr>"

definition unprocessable :: http_response where
  "unprocessable = \<lparr>status_code = 422, resp_body = None\<rparr>"

definition squad_transport :: "'s server_env \<Rightarrow> string \<Rightarrow> 's server transport" where
  "squad_transport env tok =
     \<lparr>http_get = (\<lambda>path sv.
        if path = ''/ready'' then
          (case sv_ready env sv of ((code, body), sv') \<Rightarrow> (Inr \<lparr>status_code = code, resp_body = Some body\<rparr>, sv'))
        else if path = ''/internal/agents'' then (Inr (http_reply (map_sum id Some (internal_agents env tok sv))), sv)
        else (Inr not_found, sv)),
      http_post = (\<lambda>path payload sv.
        if path \<noteq> ''/internal/process'' then (Inr not_found, sv)
        else (case request_of_json payload of
                None \<Rightarrow> (Inr unprocessable, sv)
              | Some q \<Rightarrow>
                  (case internal_process env tok q sv of
                     (r, sv') \<Rightarrow> (Inr (http_reply (map_sum id (\<lambda>res. Some (result_json res)) r)), sv')))),
      http_stream = (\<lambda>path payload sv.
        if path \<noteq> ''/internal/process/stream'' then (Inr not_found, sv)
        else (case request_of_json payload of
                None \<Rightarrow> (Inr unprocessable, sv)
              | Some q \<Rightarrow>
                  (case internal_process_stream env tok q sv of
                     (r, sv') \<Rightarrow> (Inr (http_reply (map_sum id (\<lambda>frames. None) r)), sv'))))\<rparr>"

section \<open>The hop\<close>

lemma request_of_payload:
  "request_of_json (payload_of t u sid mode force) =
     Some \<lparr>sq_user_input = t, sq_user_id = u, sq_session_id = sid, sq_mode = Some mode, sq_force_agent = force\<rparr>"
  by (simp add: request_of_json_def payload_of_def optional_text_def split: option.split)

lemma refusal_codes:
  "fst (internal_process env tok q sv) = Inl (HTTPException code detail) \<Longrightarrow> code \<in> {401, 403, 409, 500}"
  using locked_outcome [of env q sv]
proof
  assume "fst (internal_process env tok q sv) = Inl (HTTPException code detail)" "fst (locked_process env q sv) = Inl session_busy"
  then show ?thesis
    by (auto simp: internal_process_def require_internal_token_def session_busy_def Let_def split: if_splits)
next
  assume r: "fst (internal_process env tok q sv) = Inl (HTTPException code detail)"
    and "\<exists>sp. fst (locked_process env q sv) = map_sum http_of id (fst (processing env q sp))"
  then obtain sp where "fst (locked_process env q sv) = map_sum http_of id (fst (processing env q sp))" by blast
  with r show ?thesis
    by (cases "fst (processing env q sp)")
      (auto simp: internal_process_def require_internal_token_def http_of_def Let_def split: if_splits guard_error.splits)
qed

text \<open>The client sees the service's own outcome.\<close>

lemma client_process_squad:
  "client_process (squad_transport env tok) t u sid mode force sv =
     (case internal_process env tok
         \<lparr>sq_user_input = t, sq_user_id = u, sq_session_id = sid, sq_mode = Some mode, sq_force_agent = force\<rparr> sv of
        (Inl (HTTPException code detail), sv') \<Rightarrow> (Inl (HTTPStatusError code), sv')
      | (Inr res, sv') \<Rightarrow> (Inr (result_json res), sv'))"
proof -
  let ?q = "\<lparr>sq_user_input = t, sq_user_id = u, sq_session_id = sid, sq_mode = Some mode, sq_force_agent = force\<rparr>"
  obtain r sv' where p: "internal_process env tok ?q sv = (r, sv')" by fastforce
  have "code \<in> {401, 403, 409, 500}" if "r = Inl (HTTPException code detail)" for code detail
    using refusal_codes [of env tok ?q sv code detail] that by (simp add: p)
  then show ?thesis
    by (auto simp: client_process_def squad_transport_def request_of_payload p http_reply_def is_success_def
        split: sum.split http_error.split)
qed

definition service_request_of :: "query_request \<Rightarrow> service_request" where
  "service_request_of rq =
     \<lparr>sq_user_input = qr_user_input rq, sq_user_id = qr_user_id rq, sq_session_id = qr_session_id rq,
      sq_mode = Some (case qr_mode rq of Some (c # m) \<Rightarrow> c # m | _ \<Rightarrow> ''query''), sq_force_agent = None\<rparr>"

definition public_reply :: "http_error + result \<Rightarrow> reply" where
  "public_reply r =
     (case r of
        Inr res \<Rightarrow> Body (result_json res)
      | Inl (HTTPException code detail) \<Rightarrow> forward_error (HTTPStatusError code))"

lemma query_answered:
  assumes "ge_supervisor genv = squad_transport env tok" "sv_internal_token env = Some tok" "tok \<noteq> []"
    and "preflight genv (qr_user_id rq) 4096 st = (None, st1)"
    and "0 < permits (gs_pool st)" "ge_job_id genv \<notin> set (active (gs_pool st))"
    and "ge_delay genv \<le> first_byte_timeout (gs_pool st)" "0 \<le> idle_timeout (gs_pool st)"
  shows "fst (handle_query genv rq st) = public_reply (fst (locked_process env (service_request_of rq) (gs_ext st1)))"
proof -
  have pool: "has_capacity (gs_pool st1)" "gs_pool st1 = gs_pool st" using preflight_NoneD [OF assms(4)] by blast+
  have i: "internal_process env tok q sv = locked_process env q sv" for q sv
    using assms(2,3) by (simp add: internal_process_def require_internal_token_def)
  obtain r sv' where p: "locked_process env (service_request_of rq) (gs_ext st1) = (r, sv')" by fastforce
  note c = client_process_squad [of env tok "qr_user_input rq" "qr_user_id rq" "qr_session_id rq"
      "case qr_mode rq of Some (c # m) \<Rightarrow> c # m | _ \<Rightarrow> ''query''" None "gs_ext st1", folded service_request_of_def assms(1), unfolded i p prod.case]
  show ?thesis
  proof (cases r)
    case (Inl e)
    then obtain code detail where e: "r = Inl (HTTPException code detail)" by (cases e) simp
    from run_one_shot_status [OF pool(1) _ _ _ c [unfolded e sum.case http_error.case]] assms(5-7) pool(2) show ?thesis
      by (auto simp: handle_query_def assms(4) p e public_reply_def)
  next
    case (Inr res)
    from run_one_shot_answer [OF pool(1) _ _ _ _ c [unfolded Inr sum.case]] assms(5-8) pool(2) show ?thesis
      by (auto simp: handle_query_def assms(4) p Inr public_reply_def)
  qed
qed

section \<open>A concrete deployment\<close>

definition squad_gateway :: "'s server gateway_env" where
  "squad_gateway =
     \<lparr>ge_settings = (default_settings [])\<lparr>cfg_rate_budget_enabled := False\<rparr>, ge_redis = None, ge_pipeline = None,
      ge_ping = (\<lambda>sv. (Inr (), sv)), ge_supervisor = squad_transport (quiet_service ''t'' None) ''t'',
      ge_guard = \<lparr>ag_rate = 60, ag_budget = 50\<rparr>, ge_now = 0, ge_day = ''2026-01-01'', ge_now_iso = ''2026-01-01T00:00:00'',
      ge_job_id = ''job-1'', ge_jitter = 2, ge_delay = 1, ge_cid = ''chatcmpl-1'', ge_created = 0\<rparr>"

definition squad_gateway_state :: "'s \<Rightarrow> 's server gateway_state" where
  "squad_gateway_state s = \<lparr>gs_pool = new_pool 20 150 90 35, gs_agents = [], gs_ext = quiet_server [''k8s''] s\<rparr>"

definition pods_query :: query_request where
  "pods_query = \<lparr>qr_user_input = ''pods?'', qr_user_id = ''u'', qr_session_id = ''s1'', qr_mode = None\<rparr>"

lemma quiet_ready:
  "\<exists>body sv'. sv_ready (quiet_service tok redis) (quiet_server [''k8s''] s) = ((200, body), sv') \<and>
     sr_supervisor sv' = sr_supervisor (quiet_server [''k8s''] s)"
  by (simp add: sv_ready_def quiet_service_def quiet_server_def new_server_def check_redis_def check_dynamodb_def run_check_def
      cached_result_def new_checker_def probing_def Let_def with_world_def in_world_def)

lemma squad_preflight:
  "\<exists>st1. preflight squad_gateway u n (squad_gateway_state s) = (None, st1) \<and>
     sr_supervisor (gs_ext st1) = sr_supervisor (quiet_server [''k8s''] s)"
proof -
  obtain body sv' where r: "sv_ready (quiet_service ''t'' None) (quiet_server [''k8s''] s) = ((200, body), sv')"
    "sr_supervisor sv' = sr_supervisor (quiet_server [''k8s''] s)" using quiet_ready [of "''t''" None s] by blast
  have "is_supervisor_ready (ge_supervisor squad_gateway) (quiet_server [''k8s''] s) = (True, sv')"
    by (simp add: is_supervisor_ready_def squad_gateway_def squad_transport_def r(1))
  moreover have "check_admission squad_gateway u n sv = (None, sv)" for sv :: "'a server"
    by (simp add: check_admission_def squad_gateway_def)
  moreover have "has_capacity (gs_pool (squad_gateway_state s))"
    by (simp add: squad_gateway_state_def has_capacity_def available_def active_count_def new_pool_def)
  ultimately show ?thesis using r(2) by (simp add: preflight_def) (simp add: squad_gateway_state_def)
qed

lemma squad_gateway_ready:
  "ge_supervisor squad_gateway = squad_transport (quiet_service ''t'' None) ''t''"
  "sv_internal_token (quiet_service ''t'' None) = Some ''t''"
  "0 < permits (gs_pool (squad_gateway_state s))" "ge_job_id squad_gateway \<notin> set (active (gs_pool (squad_gateway_state s)))"
  "ge_delay squad_gateway \<le> first_byte_timeout (gs_pool (squad_gateway_state s))"
  "0 \<le> idle_timeout (gs_pool (squad_gateway_state s))"
  by (simp_all add: squad_gateway_def quiet_service_def squad_gateway_state_def new_pool_def)

section \<open>Properties\<close>

text \<open>
  C4: the gateway adds admission and takes nothing away: a query that passes the gateway's guards, with
  a free place in the pool and a backend that answers in time, is answered exactly as the supervisor's
  locked processing of that request ends: its result as JSON, the public refusal for a guardrail, the
  status of any other failure.
\<close>

theorem query_is_answered_by_the_squad:
  assumes "ge_supervisor genv = squad_transport env tok" "sv_internal_token env = Some tok" "tok \<noteq> []"
    and "preflight genv (qr_user_id rq) 4096 st = (None, st1)"
    and "0 < permits (gs_pool st)" "ge_job_id genv \<notin> set (active (gs_pool st))"
    and "ge_delay genv \<le> first_byte_timeout (gs_pool st)" "0 \<le> idle_timeout (gs_pool st)"
  shows "fst (handle_query genv rq st) = public_reply (fst (locked_process env (service_request_of rq) (gs_ext st1)))"
  by (rule query_answered [OF assms])

theorem query_is_answered_by_the_squad_witness:
  "\<exists>st1. preflight squad_gateway ''u'' 4096 (squad_gateway_state (0::nat)) = (None, st1) \<and>
     fst (handle_query squad_gateway pods_query (squad_gateway_state (0::nat))) =
       public_reply (fst (locked_process (quiet_service ''t'' None) (service_request_of pods_query) (gs_ext st1)))"
proof -
  obtain st1 where p: "preflight squad_gateway ''u'' 4096 (squad_gateway_state (0::nat)) = (None, st1)"
    using squad_preflight [of "''u''" 4096 "0::nat"] by blast
  then have "preflight squad_gateway (qr_user_id pods_query) 4096 (squad_gateway_state (0::nat)) = (None, st1)" by (simp add: pods_query_def)
  from query_is_answered_by_the_squad [OF squad_gateway_ready(1,2) _ this squad_gateway_ready(3-6)] p show ?thesis by simp
qed

lemma map_sum_Inr_iff: "Inr y = map_sum f id x \<longleftrightarrow> x = Inr y" "map_sum f id x = Inr y \<longleftrightarrow> x = Inr y"
  by (cases x; auto)+

text \<open>The guards deny with a status of their own, never with a plain body.\<close>

lemma answered_not_denied: "preflight genv u n st = (Some (Body v), st') \<Longrightarrow> False"
  by (auto simp: preflight_def check_admission_def busy_response_def split: prod.splits option.splits if_splits)

lemma refused_not_answered: "run_one_shot genv t u sid mode force st = (Inl (Body v), st') \<Longrightarrow> False"
  unfolding run_one_shot_def
  by (auto simp: Let_def busy_response_def forward_error_def
      split: sum.splits prod.splits option.splits run_end.splits client_error.splits if_splits)

lemma one_shot_answer:
  assumes "run_one_shot genv t u sid mode force st = (Inr v, st')"
  shows "\<exists>s. client_process (ge_supervisor genv) t u sid mode force (gs_ext st) = (Inr v, s)"
  using assms unfolding run_one_shot_def
  by (auto simp: Let_def split: sum.splits prod.splits option.splits run_end.splits client_error.splits)

text \<open>
  C5: what the public reads was screened on both sides: where the body of an answered query carries the
  reasoning of the routing, the question passed the scanner and the ingress guardrail, and the response
  in the body passed the output filter and the quality guard.
\<close>

theorem public_answers_are_screened:
  assumes "ge_supervisor genv = squad_transport env tok"
    and "handle_query genv rq st = (Body (JObj d), st')" "dict_get d ''reasoning'' \<noteq> None"
  shows "\<exists>q response evidence qa. scan_text (su_agent (sv_env env)) (qr_user_input rq) = Inr q \<and>
    passed (su_bedrock (sv_env env)) ''INPUT'' q \<and> dict_get d ''response'' = Some (JStr response) \<and>
    output_filter_scan (cfg_output_filter_enabled (su_settings (sv_env env))) response = Inr () \<and>
    quality_scan (cfg_response_quality_enabled (su_settings (sv_env env))) response evidence = Inr qa"
proof -
  obtain st1 st2 where "run_one_shot genv (qr_user_input rq) (qr_user_id rq) (qr_session_id rq)
      (case qr_mode rq of Some (c # m) \<Rightarrow> c # m | _ \<Rightarrow> ''query'') None st1 = (Inr (JObj d), st2)"
    using assms(2) by (auto simp: handle_query_def dest: answered_not_denied refused_not_answered split: prod.splits option.splits sum.splits)
  then obtain s where c: "client_process (squad_transport env tok) (qr_user_input rq) (qr_user_id rq) (qr_session_id rq)
      (case qr_mode rq of Some (c # m) \<Rightarrow> c # m | _ \<Rightarrow> ''query'') None (gs_ext st1) = (Inr (JObj d), s)"
    using one_shot_answer assms(1) by metis
  then obtain res where res: "d = map (\<lambda>(k, v). (k, value_json v)) res"
      "fst (internal_process env tok (service_request_of rq) (gs_ext st1)) = Inr res"
    unfolding client_process_squad service_request_of_def [symmetric]
    by (auto simp: result_json_def split: sum.splits prod.splits http_error.splits)
  then have l: "fst (locked_process env (service_request_of rq) (gs_ext st1)) = Inr res"
    by (auto simp: internal_process_def split: sum.splits)
  then obtain sp where "fst (processing env (service_request_of rq) sp) = Inr res"
    using locked_outcome [of env "service_request_of rq" "gs_ext st1"] by (auto simp: map_sum_Inr_iff)
  then obtain mode sp' where p: "supervisor_process_request (sv_env env) (qr_user_input rq) (qr_user_id rq) (qr_session_id rq) mode None sp = (Inr res, sp')"
    by (auto simp: processing_def service_request_of_def prod_eq_iff)
  have g: "dict_get d k = map_option value_json (dict_get res k)" for k
    unfolding res(1) by (induction res) auto
  have "dict_get res ''reasoning'' \<noteq> None" using assms(3) by (simp add: g)
  with p show ?thesis
  proof (rule screened_answer)
    fix q response evidence qa
    assume s: "scan_text (su_agent (sv_env env)) (qr_user_input rq) = Inr q" "passed (su_bedrock (sv_env env)) ''INPUT'' q"
      "output_filter_scan (cfg_output_filter_enabled (su_settings (sv_env env))) response = Inr ()"
      "quality_scan (cfg_response_quality_enabled (su_settings (sv_env env))) response evidence = Inr qa"
      and "dict_get res ''response'' = Some (VJson (JStr response))"
    then have "dict_get d ''response'' = Some (JStr response)" by (simp add: g value_json_def)
    with s show ?thesis by blast
  qed
qed

text \<open>The question of the demo is routed to the agent that the classifier's plain answer names.\<close>

lemma quiet_single:
  assumes "su_agent env = quiet_env ans" "sp_agents sp = [(nm, quiet_agent nm)]" "quiet_client (as_client (sp_state sp))"
    and "focused (case cl_agents cls of [] \<Rightarrow> JStr [] | m # _ \<Rightarrow> am_sub_query m) t = Some t" "py_strip t \<noteq> []"
  shows "\<exists>sp'. single_agent_call env nm cls t u sid model sp =
    (Inr (plain_result nm (ans (1/10)) (confidence cls) @ [(''reasoning'', VJson (cl_reasoning cls))]), sp')"
proof -
  obtain h sp2 where h: "agent_chat env u sid nm sp = (h, sp2)" by fastforce
  then have a: "sp_agents sp2 = [(nm, quiet_agent nm)]" "quiet_client (as_client (sp_state sp2))"
    using assms(2,3) by (auto simp: agent_chat_def in_world_def split: prod.splits)
  have "py_strip (rq_input (request_of t sid h model)) \<noteq> []" using assms(5) by (simp add: request_of_def)
  then obtain st where q: "agent_process_request (quiet_env ans) (quiet_agent nm) (request_of t sid h model) (sp_state sp2) =
      (Inr (quiet_answer nm (ans (1/10))), quiet_agent nm, st)"
    using quiet_request [OF a(2)] by metis
  have f: "fan_out (quiet_env ans) [(nm, Some (request_of t sid h model))] (sp_agents sp2) (sp_state sp2) =
      ([Inr (quiet_answer nm (ans (1/10)))], [(nm, quiet_agent nm)], st)"
    by (simp add: a q)
  show ?thesis
    unfolding single_agent_call_def h prod.case Let_def assms(1,4) option.map f using a(1) by (simp add: quiet_answer_def)
qed

lemma pods_classified:
  assumes "quiet_client c"
  shows "\<exists>c'. classify (quiet_bedrock pods_answers) pods_registry t h sid c s =
    (Inr \<lparr>cl_agents = [\<lparr>am_agent = ''k8s'', am_confidence = JReal ''0.5'', am_sub_query = JStr []\<rparr>],
       cl_reasoning = JStr ''Fallback parsing'', cl_complexity = ''standard''\<rparr>, c', s) \<and> quiet_client c'"
proof -
  have "pods_answers (3/10) = ''k8s''" by (simp add: pods_answers_def)
  moreover have "read_classification [''k8s''] t ''k8s'' =
      Inr \<lparr>cl_agents = [\<lparr>am_agent = ''k8s'', am_confidence = JReal ''0.5'', am_sub_query = JStr []\<rparr>],
        cl_reasoning = JStr ''Fallback parsing'', cl_complexity = ''standard''\<rparr>"
  proof -
    have "json_loads (extract_json ''k8s'') = None" "contains ''k8s'' (py_lower ''k8s'')" by code_simp+
    then show ?thesis by (simp add: read_classification_def fallback_parse_def)
  qed
  moreover have "registered_names pods_registry = [''k8s'']" by (simp add: pods_registry_def registered_names_def)
  moreover obtain c' where "bedrock_invoke (quiet_bedrock pods_answers)
      (classifier_request (bd_settings (quiet_bedrock pods_answers :: 'a bedrock_env)) (list_configs pods_registry) t h sid) c s =
      (Inr (pods_answers (3/10)), c', s) \<and> quiet_client c'"
    using quiet_invoke [OF assms, of pods_answers "classifier_request (bd_settings (quiet_bedrock pods_answers :: 'a bedrock_env)) (list_configs pods_registry) t h sid" s]
    by (auto simp: classifier_request_def)
  ultimately show ?thesis by (simp add: classify_def)
qed

lemma pods_routed:
  assumes "sr_supervisor sv = sr_supervisor (quiet_server [''k8s''] s)"
  shows "\<exists>sv'. locked_process (quiet_service ''t'' None) (service_request_of pods_query) sv =
    (Inr (plain_result ''k8s'' ''all pods run'' (JReal ''0.5'') @ [(''reasoning'', VJson (JStr ''Fallback parsing''))]), sv')"
proof -
  let ?env = "sv_env (quiet_service ''t'' None) :: 'a supervisor_env" and ?sp = "sr_supervisor (quiet_server [''k8s''] s)"
  let ?cls = "\<lparr>cl_agents = [\<lparr>am_agent = ''k8s'', am_confidence = JReal ''0.5'', am_sub_query = JStr []\<rparr>],
       cl_reasoning = JStr ''Fallback parsing'', cl_complexity = ''standard''\<rparr>"
  have e: "su_agent ?env = quiet_env pods_answers" "su_registry ?env = pods_registry" "su_dynamo ?env = silent_dynamo"
    by (simp_all add: quiet_service_def quiet_squad_def)
  have qb: "ae_bedrock (quiet_env pods_answers) = quiet_bedrock pods_answers" by (simp add: quiet_env_def)
  have b: "su_bedrock ?env = quiet_bedrock pods_answers" by (simp only: e qb)
  have sp: "sp_agents ?sp = [(''k8s'', quiet_agent ''k8s'')]" "as_client (sp_state ?sp) = new_bedrock_client quiet_settings"
    by (simp_all add: quiet_server_def new_server_def)
  have w: "in_world (sp_world ?sp) ?sp = ?sp" by (simp add: in_world_def)
  have "(0::int) < cfg_session_token_budget quiet_settings" by (simp add: quiet_settings_def default_settings_def)
  then have budget: "session_budget ?env sid ?sp = (True, ?sp)" for sid
    by (simp add: session_budget_def b sp new_bedrock_client_def new_tracker_def tb_check_budget_def mem_usage_def Let_def w)
  have admitted: "admit ?env t ?sp = (Inr t, ?sp)" for t
    unfolding admit_def e(1) quiet_scan qb by (simp add: w)
  have q: "quiet_client (as_client (sp_state ?sp))" by (simp add: sp quiet_client_def new_bedrock_client_def)
  have fetched: "fetch_all_chats silent_dynamo u sid n s = ([], s)" for u sid n and s :: 'a
    by (simp add: fetch_all_chats_def silent_dynamo_def)
  obtain c' where c': "classify (quiet_bedrock pods_answers) pods_registry ''pods?'' [] ''s1'' (as_client (sp_state ?sp)) (sp_world ?sp) =
      (Inr ?cls, c', sp_world ?sp)" "quiet_client c'"
    using pods_classified [OF q, of "''pods?''" "[]" "''s1''" "sp_world ?sp"] by blast
  define sp1 where "sp1 = with_client c' (sp_world ?sp) ?sp"
  have cr: "classify_request ?env ''pods?'' ''u'' ''s1'' ?sp = (Inr ?cls, sp1)"
    by (simp add: classify_request_def e(2,3) fetched b c'(1) sp1_def)
  have known: "known_matches ?cls sp1 = [\<lparr>am_agent = ''k8s'', am_confidence = JReal ''0.5'', am_sub_query = JStr []\<rparr>]"
    by (simp add: known_matches_def MAX_AGENTS_def sp1_def with_client_def sp)
  have "\<exists>tier. tier_of st ?cls = Some tier" for st
    by (auto simp: tier_of_def confidence_def py_at_least_def py_below_def Let_def split: option.splits bool.splits)
  then have "\<exists>model. resolve_tier_model (su_settings ?env) ?cls = Inr model"
    unfolding resolve_tier_model_def by (metis option.case(2))
  then obtain model where m: "resolve_tier_model (su_settings ?env) ?cls = Inr model" ..
  define sp2 where "sp2 = save_message ?env ''u'' ''s1'' ''k8s'' ''user'' ''pods?'' sp1"
  have sp2: "sp_agents sp2 = [(''k8s'', quiet_agent ''k8s'')]" "quiet_client (as_client (sp_state sp2))"
    using c'(2) by (simp_all add: sp2_def save_message_def Let_def in_world_def sp1_def with_client_def sp)
  have "py_strip ''pods?'' \<noteq> []" by (simp add: py_strip_def is_space_def)
  moreover have "focused (case cl_agents ?cls of [] \<Rightarrow> JStr [] | m # _ \<Rightarrow> am_sub_query m) ''pods?'' = Some ''pods?''"
    by (simp add: focused_def)
  ultimately obtain sp3 where s3: "single_agent_call ?env ''k8s'' ?cls ''pods?'' ''u'' ''s1'' model sp2 =
      (Inr (plain_result ''k8s'' (pods_answers (1/10)) (confidence ?cls) @ [(''reasoning'', VJson (cl_reasoning ?cls))]), sp3)"
    using quiet_single [OF e(1) sp2] by blast
  have r: "pods_answers (1/10) = ''all pods run''" "confidence ?cls = JReal ''0.5''" by (simp_all add: pods_answers_def confidence_def)
  have "routed_request ?env ''pods?'' ''u'' ''s1'' ?sp =
      (Inr (plain_result ''k8s'' ''all pods run'' (JReal ''0.5'') @ [(''reasoning'', VJson (JStr ''Fallback parsing''))]), sp3)"
    using s3 unfolding r by (simp add: routed_request_def cr known m Let_def selected_agent_def sp2_def)
  moreover have "\<not> should_investigate ''pods?'' False" by code_simp
  ultimately have "dispatch ?env ''pods?'' ''u'' ''s1'' ''query'' None ?sp =
      (Inr (plain_result ''k8s'' ''all pods run'' (JReal ''0.5'') @ [(''reasoning'', VJson (JStr ''Fallback parsing''))]), sp3)"
    by (simp add: dispatch_def is_forced_def)
  then have "processing (quiet_service ''t'' None) (service_request_of pods_query) ?sp =
      (Inr (plain_result ''k8s'' ''all pods run'' (JReal ''0.5'') @ [(''reasoning'', VJson (JStr ''Fallback parsing''))]), sp3)"
    by (simp add: processing_def service_request_of_def pods_query_def supervisor_process_request_def budget admitted catch_errors_def)
  moreover have "sr_supervisor (with_world (sp_world ?sp) sv) = ?sp" using assms w by (simp add: with_world_def)
  moreover have "sv_uuid (quiet_service ''t'' None) s = (''u1'', s)" "sv_lock_redis (quiet_service ''t'' None :: 'a server_env) = None" for s :: 'a
    by (simp_all add: quiet_service_def)
  ultimately show ?thesis by (simp add: locked_process_def lock_aenter_def acquire_def assms)
qed

theorem public_answers_are_screened_witness:
  "\<exists>d st'. handle_query squad_gateway pods_query (squad_gateway_state (0::nat)) = (Body (JObj d), st') \<and>
     dict_get d ''response'' = Some (JStr ''all pods run'') \<and>
     output_filter_scan (cfg_output_filter_enabled quiet_settings) ''all pods run'' = Inr ()"
proof -
  obtain st1 where p: "preflight squad_gateway ''u'' 4096 (squad_gateway_state (0::nat)) = (None, st1)"
    "sr_supervisor (gs_ext st1) = sr_supervisor (quiet_server [''k8s''] 0)"
    using squad_preflight [of "''u''" 4096 "0::nat"] by blast
  then have "preflight squad_gateway (qr_user_id pods_query) 4096 (squad_gateway_state (0::nat)) = (None, st1)" by (simp add: pods_query_def)
  from query_answered [OF squad_gateway_ready(1,2) _ this squad_gateway_ready(3-6)] pods_routed [OF p(2)]
  obtain st' where h: "handle_query squad_gateway pods_query (squad_gateway_state (0::nat)) =
      (Body (JObj (map (\<lambda>(k, v). (k, value_json v)) (plain_result ''k8s'' ''all pods run'' (JReal ''0.5'') @ [(''reasoning'', VJson (JStr ''Fallback parsing''))]))), st')"
    by (auto simp: public_reply_def result_json_def prod_eq_iff)
  have "su_settings (sv_env (quiet_service ''t'' None) :: nat supervisor_env) = quiet_settings"
    by (simp add: quiet_service_def quiet_squad_def quiet_env_def)
  with public_answers_are_screened [OF squad_gateway_ready(1) h] h show ?thesis
    by (auto simp: plain_result_def value_json_def)
qed

end
