(* ===== verification/RbacAudit.thy ===== *)
theory RbacAudit
  imports Classifier Skills
begin

text \<open>
  The RBAC gate of MCP service accounts, src/scripts/mcp_rbac_audit.py: the two parsers of kubectl's
  answer, the audit of the rules, the report, the configuration file and the exit code.  kubectl is a
  parameter that returns its exit code and its two outputs (or times out); a JSON rule whose fields
  are no lists of texts is outside the model (an error here).  Non-ASCII marks are UTF-8 bytes.
\<close>

section \<open>Rules\<close>

record rbac_rule =
  rb_resources :: "string list"
  rb_api_groups :: "string list"
  rb_resource_names :: "string list"
  rb_verbs :: "string list"
  rb_non_resource_urls :: "string list"

record audit_violation =
  av_rule :: rbac_rule
  av_offending_verbs :: "string list"
  av_reason :: string

definition READONLY_VERBS :: "string list" where
  "READONLY_VERBS = [''get'', ''list'', ''watch'']"

definition MUTATING_VERBS :: "string list" where
  "MUTATING_VERBS = [''create'', ''update'', ''patch'', ''delete'', ''deletecollection'']"

definition WILDCARD :: string where
  "WILDCARD = ''*''"

section \<open>Parsing\<close>

fun rule_texts :: "json list \<Rightarrow> string list option" where
  "rule_texts [] = Some []"
| "rule_texts (JStr t # vs) = map_option ((#) t) (rule_texts vs)"
| "rule_texts (v # vs) = None"

definition rule_field :: "json \<Rightarrow> string \<Rightarrow> string list option" where
  "rule_field r k = (case dict_field r k (JList []) of JList vs \<Rightarrow> rule_texts vs | _ \<Rightarrow> None)"

definition resource_rule :: "json \<Rightarrow> rbac_rule option" where
  "resource_rule r =
     (if \<not> is_dict r then None
      else (case (rule_field r ''resources'', rule_field r ''apiGroups'', rule_field r ''resourceNames'', rule_field r ''verbs'') of
              (Some rs, Some gs, Some ns, Some vs) \<Rightarrow>
                Some \<lparr>rb_resources = rs, rb_api_groups = gs, rb_resource_names = ns, rb_verbs = vs, rb_non_resource_urls = []\<rparr>
            | _ \<Rightarrow> None))"

definition non_resource_rule :: "json \<Rightarrow> rbac_rule option" where
  "non_resource_rule r =
     (if \<not> is_dict r then None
      else (case (rule_field r ''verbs'', rule_field r ''nonResourceURLs'') of
              (Some vs, Some us) \<Rightarrow>
                Some \<lparr>rb_resources = [], rb_api_groups = [], rb_resource_names = [], rb_verbs = vs, rb_non_resource_urls = us\<rparr>
            | _ \<Rightarrow> None))"

fun all_of :: "('a \<Rightarrow> 'b option) \<Rightarrow> 'a list \<Rightarrow> 'b list option" where
  "all_of f [] = Some []"
| "all_of f (x # xs) = (case f x of None \<Rightarrow> None | Some y \<Rightarrow> map_option ((#) y) (all_of f xs))"

text \<open>\<open>NotJson\<close> is the ValueError the caller catches; any other exception leaves the script.\<close>

datatype parse_error = NotJson | UntypedRule

definition rules_of :: "(json \<Rightarrow> rbac_rule option) \<Rightarrow> json \<Rightarrow> rbac_rule list option" where
  "rules_of f v = (case json_items v of None \<Rightarrow> None | Some rs \<Rightarrow> all_of f rs)"

definition parse_json_output :: "string \<Rightarrow> parse_error + rbac_rule list" where
  "parse_json_output raw =
     (case json_loads raw of
        None \<Rightarrow> Inl NotJson
      | Some data \<Rightarrow>
          (let status = dict_field data ''status'' data
           in if \<not> is_dict data \<or> \<not> is_dict status then Inl UntypedRule
              else (case (rules_of resource_rule (dict_field status ''resourceRules'' (JList [])),
                          rules_of non_resource_rule (dict_field status ''nonResourceRules'' (JList []))) of
                      (Some a, Some b) \<Rightarrow> Inr (a @ b)
                    | _ \<Rightarrow> Inl UntypedRule)))"

text \<open>\<open>re.findall(r'\[([^\]]*)\]', line)\<close>.\<close>

function brackets :: "string \<Rightarrow> string list" where
  "brackets [] = []"
| "brackets (c # cs) =
     (if c = CHR ''['' \<and> CHR '']'' \<in> set cs
      then takeWhile (\<lambda>x. x \<noteq> CHR '']'') cs # brackets (tl (dropWhile (\<lambda>x. x \<noteq> CHR '']'') cs))
      else brackets cs)"
  by pat_completeness auto
termination
proof (relation "measure length")
  fix c :: char and cs :: string
  have "length (tl (dropWhile (\<lambda>x. x \<noteq> CHR '']'') cs)) \<le> length cs"
    using length_dropWhile_le [of "\<lambda>x. x \<noteq> CHR '']''" cs] by simp
  then show "(tl (dropWhile (\<lambda>x. x \<noteq> CHR '']'') cs), c # cs) \<in> measure length" by simp
qed auto

definition parse_table_line :: "string \<Rightarrow> rbac_rule option" where
  "parse_table_line line =
     (let bs = brackets line; n = length bs
      in if bs = [] then None
         else (let parts = py_split (takeWhile (\<lambda>c. c \<noteq> CHR ''['') line);
                   name = (case parts of [] \<Rightarrow> [] | p # _ \<Rightarrow> p);
                   dotted = CHR ''.'' \<in> set name
               in Some \<lparr>rb_resources = (if parts = [] then [] else [takeWhile (\<lambda>c. c \<noteq> CHR ''.'') name]),
                        rb_api_groups = (if dotted then [tl (dropWhile (\<lambda>c. c \<noteq> CHR ''.'') name)] else []),
                        rb_resource_names = (if 3 \<le> n then py_split (bs ! (n - 2)) else []),
                        rb_verbs = py_split (last bs),
                        rb_non_resource_urls = (if 3 \<le> n then py_split (bs ! (n - 3)) else [])\<rparr>))"

definition is_header :: "string \<Rightarrow> bool" where
  "is_header line \<longleftrightarrow> contains ''resources'' (py_lower line) \<and> contains ''verbs'' (py_lower line)"

definition data_lines :: "string list \<Rightarrow> string list" where
  "data_lines lines =
     (case dropWhile (\<lambda>l. \<not> is_header l) lines of [] \<Rightarrow> lines | h # rest \<Rightarrow> rest)"

definition parse_table_output :: "string \<Rightarrow> rbac_rule list" where
  "parse_table_output raw =
     List.map_filter parse_table_line
       (filter (\<lambda>l. l \<noteq> []) (map py_strip (data_lines (py_splitlines (py_strip raw)))))"

section \<open>The audit\<close>

definition offends :: "string \<Rightarrow> bool" where
  "offends verb \<longleftrightarrow> verb = WILDCARD \<or> py_lower verb \<in> set MUTATING_VERBS"

definition self_review :: "rbac_rule \<Rightarrow> bool" where
  "self_review rule \<longleftrightarrow> rb_resources rule \<noteq> [] \<and> list_all (prefix ''selfsubject'') (rb_resources rule)"

definition violation_of :: "rbac_rule \<Rightarrow> audit_violation option" where
  "violation_of rule =
     (let offending = filter offends (rb_verbs rule);
          reason = (if WILDCARD \<in> set offending then ''wildcard verb (*) grants ALL operations including mutating''
                    else ''mutating verb(s): '' @ py_join '', '' offending)
      in if self_review rule \<or> offending = [] then None
         else Some \<lparr>av_rule = rule, av_offending_verbs = offending,
                av_reason = reason @ (if rb_non_resource_urls rule \<noteq> [] \<and> rb_resources rule = []
                  then '' on non-resource URL(s): '' @ py_str_item (JList (map JStr (rb_non_resource_urls rule))) else [])\<rparr>)"

definition audit_rules :: "rbac_rule list \<Rightarrow> audit_violation list" where
  "audit_rules rules = List.map_filter violation_of rules"

section \<open>The report\<close>

definition subject_of :: "rbac_rule \<Rightarrow> string" where
  "subject_of rule =
     (if rb_resources rule = [] then ''(non-resource)'' else py_join '', '' (rb_resources rule))
     @ (if rb_non_resource_urls rule = [] then [] else '' ['' @ py_join '', '' (rb_non_resource_urls rule) @ '']'')"

definition mark_fail :: string where
  "mark_fail = [CHR 0xE2, CHR 0x9D, CHR 0x8C]"

definition mark_ok :: string where
  "mark_ok = [CHR 0xE2, CHR 0x9C, CHR 0x85]"

definition rule_line :: "nat \<Rightarrow> rbac_rule \<Rightarrow> string" where
  "rule_line i rule =
     ''  ['' @ (if violation_of rule \<noteq> None then mark_fail @ '' FAIL'' else mark_ok @ '' OK  '') @ ''] Rule '' @ show_nat i @ '': ''
     @ subject_of rule @ '' '' @ [CHR 0xE2, CHR 0x86, CHR 0x92] @ '' ['' @ py_join '', '' (rb_verbs rule) @ '']''"

definition violation_lines :: "audit_violation \<Rightarrow> string list" where
  "violation_lines v =
     [''  '' @ [CHR 0xE2, CHR 0x80, CHR 0xA2] @ '' '' @ subject_of (av_rule v),
      ''    Offending verbs: '' @ py_join '', '' (av_offending_verbs v), ''    Reason: '' @ av_reason v, []]"

definition report_lines :: "string \<Rightarrow> string \<Rightarrow> rbac_rule list \<Rightarrow> audit_violation list \<Rightarrow> string \<Rightarrow> string list" where
  "report_lines serviceaccount namespace rules violations fmt =
     (let bar = replicate 70 (CHR ''=''); rule = replicate 70 (CHR ''-'')
      in [bar, ''MCP ServiceAccount RBAC Audit'', bar, ''  ServiceAccount: '' @ serviceaccount, ''  Namespace:      '' @ namespace,
          ''  Parse format:   '' @ fmt, ''  Total rules:    '' @ show_nat (length rules), rule]
         @ map (\<lambda>(i, r). rule_line i r) (zip [1..<length rules + 1] rules) @ [rule]
         @ (if violations \<noteq> [] then
              [[], [CHR 0xF0, CHR 0x9F, CHR 0x9A, CHR 0xA8] @ '' FAIL: '' @ show_nat (length violations) @ '' rule(s) grant MUTATING access:'', []]
              @ concat (map violation_lines violations)
              @ [''ACTION REQUIRED: Restrict the ServiceAccount to get/list/watch only.'',
                 ''The MCP server CANNOT be onboarded until this gate passes.'']
            else [[], mark_ok @ '' PASS: All '' @ show_nat (length rules) @ '' rules are read-only (get/list/watch).'',
                  ''The ServiceAccount meets the read-only requirement for MCP onboarding.''])
         @ [bar])"

section \<open>kubectl\<close>

record kubectl =
  kc_installed :: bool
  kc_run :: "string list \<Rightarrow> (int \<times> string \<times> string) option"

text \<open>How the script ends early: its own exit code, or an exception.\<close>

datatype audit_end = SysExit nat | AuditRaised exn

definition run_kubectl_can_i :: "kubectl \<Rightarrow> string \<Rightarrow> string \<Rightarrow> string option \<Rightarrow> audit_end + rbac_rule list \<times> string" where
  "run_kubectl_can_i kc serviceaccount namespace context_name =
     (if \<not> kc_installed kc then Inl (SysExit 2)
      else (let base_cmd = [''kubectl'', ''auth'', ''can-i'', ''--list'', ''--as=system:serviceaccount:'' @ namespace @ '':'' @ serviceaccount]
                  @ (case context_name of Some (c # cs) \<Rightarrow> [''--context='' @ c # cs] | _ \<Rightarrow> []);
                table = (case kc_run kc base_cmd of
                           None \<Rightarrow> Inl (AuditRaised ''TimeoutExpired'')
                         | Some (code, out, err) \<Rightarrow> if code \<noteq> 0 then Inl (SysExit 2) else Inr (parse_table_output out, ''table''))
            in case kc_run kc (base_cmd @ [''-o'', ''json'']) of
                 None \<Rightarrow> Inl (AuditRaised ''TimeoutExpired'')
               | Some (code, out, err) \<Rightarrow>
                   if code = 0 \<and> prefix ''{'' (py_strip out) then
                     (case parse_json_output out of
                        Inr rules \<Rightarrow> Inr (rules, ''json'')
                      | Inl NotJson \<Rightarrow> table
                      | Inl UntypedRule \<Rightarrow> Inl (AuditRaised ''TypeError''))
                   else table))"

section \<open>The configuration file\<close>

definition strip_of :: "char \<Rightarrow> string \<Rightarrow> string" where
  "strip_of q s = rev (dropWhile (\<lambda>c. c = q) (rev (dropWhile (\<lambda>c. c = q) s)))"

definition yaml_entry :: "string \<Rightarrow> (string \<times> json) list \<Rightarrow> (string \<times> json) list" where
  "yaml_entry line item =
     dict_set item (py_strip (takeWhile (\<lambda>c. c \<noteq> CHR '':'') line))
       (JStr (strip_of (CHR 0x27) (strip_of (CHR 0x22) (py_strip (tl (dropWhile (\<lambda>c. c \<noteq> CHR '':'') line))))))"

fun yaml_items :: "string list \<Rightarrow> (string \<times> json) list option \<Rightarrow> json list" where
  "yaml_items [] current_item = (case current_item of None \<Rightarrow> [] | Some item \<Rightarrow> [JObj item])"
| "yaml_items (line # rest) current_item =
     (let stripped = py_strip line
      in if stripped = [] \<or> prefix ''#'' stripped then yaml_items rest current_item
         else if prefix ''- '' stripped then
           (let item_content = py_strip (drop 2 stripped)
            in (case current_item of None \<Rightarrow> [] | Some item \<Rightarrow> [JObj item])
               @ yaml_items rest (Some (if CHR '':'' \<in> set item_content then yaml_entry item_content [] else [])))
         else if CHR '':'' \<in> set stripped \<and> current_item \<noteq> None then
           yaml_items rest (map_option (yaml_entry stripped) current_item)
         else yaml_items rest current_item)"

definition parse_simple_yaml :: "string \<Rightarrow> json" where
  "parse_simple_yaml content = JObj [(''service_accounts'', JList (yaml_items (py_splitlines content) None))]"

text \<open>The argument is the content of the file, None where there is no file.\<close>

definition load_audit_config :: "string option \<Rightarrow> audit_end + json" where
  "load_audit_config file =
     (case file of
        None \<Rightarrow> Inl (SysExit 2)
      | Some content \<Rightarrow>
          (let data = (case json_loads content of Some v \<Rightarrow> v | None \<Rightarrow> parse_simple_yaml content)
           in Inr (if is_dict data then dict_field data ''service_accounts'' (JList []) else JList [])))"

section \<open>The gate\<close>

record audit_args =
  aa_serviceaccount :: "string option"
  aa_namespace :: "string option"
  aa_context :: "string option"
  aa_config :: "string option"

text \<open>
  The name, the namespace and the context of a target, as the command line formats them (a value that is
  no text too); None where reading them raises.
\<close>

definition read_target :: "audit_args \<Rightarrow> json \<Rightarrow> (string \<times> string \<times> string option) option" where
  "read_target args target =
     (case target of
        JObj d \<Rightarrow>
          (case (dict_get d ''name'', dict_get d ''namespace'') of
             (Some name, Some ns) \<Rightarrow>
               Some (py_str name, py_str ns,
                 (case aa_context args of
                    Some (c # cs) \<Rightarrow> Some (c # cs)
                  | _ \<Rightarrow> (let ctx = dict_field target ''context'' JNull
                          in if json_truthy ctx then Some (py_str ctx) else None)))
           | _ \<Rightarrow> None)
      | _ \<Rightarrow> None)"

definition audit_target :: "kubectl \<Rightarrow> audit_args \<Rightarrow> json \<Rightarrow> audit_end + string list \<times> bool" where
  "audit_target kc args target =
     (case read_target args target of
        None \<Rightarrow> Inl (AuditRaised ''KeyError'')
      | Some (name, ns, ctx) \<Rightarrow>
          (case run_kubectl_can_i kc name ns ctx of
             Inl e \<Rightarrow> Inl e
           | Inr (rules, fmt) \<Rightarrow> Inr (report_lines name ns rules (audit_rules rules) fmt, audit_rules rules = [])))"

fun audit_targets :: "kubectl \<Rightarrow> audit_args \<Rightarrow> json list \<Rightarrow> audit_end + bool" where
  "audit_targets kc args [] = Inr True"
| "audit_targets kc args (t # ts) =
     (case audit_target kc args t of
        Inl e \<Rightarrow> Inl e
      | Inr (report, ok) \<Rightarrow> map_sum id (\<lambda>rest. ok \<and> rest) (audit_targets kc args ts))"

definition given :: "string option \<Rightarrow> bool" where
  "given a \<longleftrightarrow> a \<noteq> None \<and> a \<noteq> Some []"

definition audit_scope :: "(string \<Rightarrow> string option) \<Rightarrow> audit_args \<Rightarrow> audit_end + json list" where
  "audit_scope files args =
     (if given (aa_config args) then
        (case load_audit_config (files (the (aa_config args))) of
           Inl e \<Rightarrow> Inl e
         | Inr v \<Rightarrow>
             if \<not> json_truthy v then Inl (SysExit 2)
             else (case json_items v of None \<Rightarrow> Inl (AuditRaised ''TypeError'') | Some ts \<Rightarrow> Inr ts))
      else if given (aa_serviceaccount args) \<and> given (aa_namespace args) then
        Inr [JObj [(''name'', JStr (the (aa_serviceaccount args))), (''namespace'', JStr (the (aa_namespace args)))]]
      else Inl (SysExit 2))"

text \<open>The exit code, or the exception that ends the script.\<close>

definition audit_main :: "kubectl \<Rightarrow> (string \<Rightarrow> string option) \<Rightarrow> audit_args \<Rightarrow> exn + nat" where
  "audit_main kc files args =
     (case (case audit_scope files args of Inl e \<Rightarrow> Inl e | Inr ts \<Rightarrow> audit_targets kc args ts) of
        Inl (SysExit n) \<Rightarrow> Inr n
      | Inl (AuditRaised e) \<Rightarrow> Inl e
      | Inr all_pass \<Rightarrow> Inr (if all_pass then 0 else 1))"

section \<open>Printing and reading back\<close>

text \<open>A rule as kubectl prints it in the table, and the rules that a table can show.\<close>

definition word :: "string \<Rightarrow> bool" where
  "word w \<longleftrightarrow> w \<noteq> [] \<and> list_all (\<lambda>c. \<not> is_space c \<and> c \<noteq> CHR ''['' \<and> c \<noteq> CHR '']'') w"

definition row_name :: "rbac_rule \<Rightarrow> string" where
  "row_name rule =
     concat (rb_resources rule) @ (case rb_api_groups rule of [] \<Rightarrow> [] | g # _ \<Rightarrow> CHR ''.'' # g)"

definition table_line :: "rbac_rule \<Rightarrow> string" where
  "table_line rule =
     (if rb_resources rule = [] then [] else row_name rule @ ''   '')
     @ ''['' @ py_join '' '' (rb_non_resource_urls rule) @ '']   ['' @ py_join '' '' (rb_resource_names rule)
     @ '']   ['' @ py_join '' '' (rb_verbs rule) @ '']''"

definition TABLE_HEADER :: string where
  "TABLE_HEADER = ''Resources   Non-Resource URLs   Resource Names   Verbs''"

definition table_rule :: "rbac_rule \<Rightarrow> bool" where
  "table_rule rule \<longleftrightarrow>
     list_all word (rb_non_resource_urls rule) \<and> list_all word (rb_resource_names rule) \<and> list_all word (rb_verbs rule) \<and>
     (rb_resources rule = [] \<and> rb_api_groups rule = [] \<or>
      (\<exists>n. rb_resources rule = [n] \<and> word n \<and> CHR ''.'' \<notin> set n \<and>
         (rb_api_groups rule = [] \<or> (\<exists>g. rb_api_groups rule = [g] \<and> (g = [] \<or> word g)))))"

lemma words_acc_word: "list_all (\<lambda>c. \<not> is_space c) w \<Longrightarrow> words_acc acc (w @ r) = words_acc (rev w @ acc) r"
  by (induction w arbitrary: acc) auto

lemma space_char: "is_space (CHR '' '')"
  by (simp add: is_space_def)

lemma py_split_join:
  assumes "list_all word ws" shows "py_split (py_join '' '' ws) = ws"
proof -
  have plain: "list_all (\<lambda>c. \<not> is_space c) w" "w \<noteq> []" if "word w" for w using that by (auto simp: word_def list_all_iff)
  have "words_acc [] (py_join '' '' ws) = ws"
    using assms
  proof (induction ws rule: induct_list012)
    case (2 w)
    then show ?case using words_acc_word [of w "[]" "[]"] plain [of w] by simp
  next
    case (3 w v vs)
    then show ?case using words_acc_word [of w "[]" "CHR '' '' # py_join '' '' (v # vs)"] plain [of w]
      by (simp add: space_char)
  qed simp
  then show ?thesis by (simp add: py_split_def)
qed

lemma join_plain:
  assumes "list_all word ws" "c \<in> set (py_join '' '' ws)" shows "c \<noteq> CHR ''['' \<and> c \<noteq> CHR '']'' \<and> (is_space c \<longrightarrow> c = CHR '' '')"
  using assms by (induction ws rule: induct_list012) (auto simp: word_def list_all_iff)

lemma brackets_skip: "CHR ''['' \<notin> set pre \<Longrightarrow> brackets (pre @ r) = brackets r"
  by (induction pre) auto

lemma brackets_next: "CHR '']'' \<notin> set x \<Longrightarrow> brackets (CHR ''['' # x @ CHR '']'' # r) = x # brackets r"
  by (simp add: takeWhile_append dropWhile_append)

lemma row_name_plain:
  assumes "table_rule rule" "c \<in> set (row_name rule)" shows "\<not> is_space c \<and> c \<noteq> CHR ''['' \<and> c \<noteq> CHR '']''"
proof -
  have dot: "\<not> is_space (CHR ''.'')" by (simp add: is_space_def)
  have w: "\<not> is_space c \<and> c \<noteq> CHR ''['' \<and> c \<noteq> CHR '']''" if "word v" "c \<in> set v" for v
    using that by (simp add: word_def list_all_iff)
  from assms consider n where "word n" "c \<in> set n" | g where "g = [] \<or> word g" "c \<in> set (CHR ''.'' # g)"
    unfolding table_rule_def row_name_def by (auto split: list.splits)
  then show ?thesis
  proof cases
    case 2
    then show ?thesis using w [of g] dot by auto
  qed (use w in blast)
qed

lemma row_name_Nil: "table_rule rule \<Longrightarrow> row_name rule = [] \<longleftrightarrow> rb_resources rule = []"
  by (auto simp: table_rule_def row_name_def word_def)

lemma brackets_table_line:
  assumes "table_rule rule"
  shows "brackets (table_line rule) =
    [py_join '' '' (rb_non_resource_urls rule), py_join '' '' (rb_resource_names rule), py_join '' '' (rb_verbs rule)]"
proof -
  let ?u = "py_join '' '' (rb_non_resource_urls rule)" and ?n = "py_join '' '' (rb_resource_names rule)"
    and ?v = "py_join '' '' (rb_verbs rule)"
  have w: "CHR '']'' \<notin> set ?u" "CHR '']'' \<notin> set ?n" "CHR '']'' \<notin> set ?v"
    using assms join_plain by (auto simp: table_rule_def)
  define pre where "pre = (if rb_resources rule = [] then [] else row_name rule @ ''   '')"
  have "CHR ''['' \<notin> set pre" using row_name_plain [OF assms, of "CHR ''[''"] by (auto simp: pre_def)
  then have "brackets (table_line rule) = brackets (CHR ''['' # ?u @ CHR '']'' # ''   '' @ CHR ''['' # ?n @ CHR '']'' # ''   '' @ CHR ''['' # ?v @ '']'')"
    using brackets_skip [of pre] by (simp add: table_line_def pre_def [symmetric])
  also have "\<dots> = ?u # brackets (''   '' @ CHR ''['' # ?n @ CHR '']'' # ''   '' @ CHR ''['' # ?v @ '']'')"
    using brackets_next [OF w(1)] by simp
  also have "brackets (''   '' @ CHR ''['' # ?n @ CHR '']'' # ''   '' @ CHR ''['' # ?v @ '']'') =
      ?n # brackets (''   '' @ CHR ''['' # ?v @ CHR '']'' # [])"
    using brackets_skip [of "''   ''"] brackets_next [OF w(2)] by simp
  also have "brackets (''   '' @ CHR ''['' # ?v @ CHR '']'' # []) = [?v]"
    using brackets_skip [of "''   ''"] brackets_next [OF w(3), of "[]"] by simp
  finally show ?thesis .
qed

lemma table_line_parts:
  assumes "table_rule rule"
  shows "py_split (takeWhile (\<lambda>c. c \<noteq> CHR ''['') (table_line rule)) = (if rb_resources rule = [] then [] else [row_name rule])"
proof (cases "rb_resources rule = []")
  case True
  then show ?thesis by (simp add: table_line_def py_split_def)
next
  case False
  have "\<forall>c \<in> set (row_name rule). c \<noteq> CHR ''[''" using row_name_plain [OF assms] by blast
  then have "takeWhile (\<lambda>c. c \<noteq> CHR ''['') (table_line rule) = row_name rule @ ''   ''"
    using False by (simp add: table_line_def takeWhile_append)
  moreover have "list_all (\<lambda>c. \<not> is_space c) (row_name rule)" using row_name_plain [OF assms] by (auto simp: list_all_iff)
  then have "words_acc [] (row_name rule @ ''   '') = [row_name rule]"
    using words_acc_word [of "row_name rule" "[]" "''   ''"] row_name_Nil [OF assms] False by (simp add: space_char)
  ultimately show ?thesis using False by (simp add: py_split_def)
qed

lemma cut_at: "d \<notin> set n \<Longrightarrow> takeWhile (\<lambda>c. c \<noteq> d) (n @ d # g) = n" "d \<notin> set n \<Longrightarrow> dropWhile (\<lambda>c. c \<noteq> d) (n @ d # g) = d # g"
  "d \<notin> set n \<Longrightarrow> takeWhile (\<lambda>c. c \<noteq> d) n = n"
  by (induction n) auto

lemma row_name_split:
  assumes "table_rule rule" "rb_resources rule \<noteq> []"
  shows "[takeWhile (\<lambda>c. c \<noteq> CHR ''.'') (row_name rule)] = rb_resources rule"
    "(if CHR ''.'' \<in> set (row_name rule) then [tl (dropWhile (\<lambda>c. c \<noteq> CHR ''.'') (row_name rule))] else []) = rb_api_groups rule"
proof -
  from assms obtain n where n: "rb_resources rule = [n]" "CHR ''.'' \<notin> set n" "rb_api_groups rule = [] \<or> (\<exists>g. rb_api_groups rule = [g])"
    by (auto simp: table_rule_def)
  from n(3) have "[takeWhile (\<lambda>c. c \<noteq> CHR ''.'') (row_name rule)] = rb_resources rule \<and>
    (if CHR ''.'' \<in> set (row_name rule) then [tl (dropWhile (\<lambda>c. c \<noteq> CHR ''.'') (row_name rule))] else []) = rb_api_groups rule"
  proof
    assume "rb_api_groups rule = []"
    with n(1,2) show ?thesis by (simp add: row_name_def cut_at(3))
  next
    assume "\<exists>g. rb_api_groups rule = [g]"
    then obtain g where "rb_api_groups rule = [g]" ..
    with n(1,2) show ?thesis by (simp add: row_name_def cut_at(1,2))
  qed
  then show "[takeWhile (\<lambda>c. c \<noteq> CHR ''.'') (row_name rule)] = rb_resources rule"
    "(if CHR ''.'' \<in> set (row_name rule) then [tl (dropWhile (\<lambda>c. c \<noteq> CHR ''.'') (row_name rule))] else []) = rb_api_groups rule"
    by blast+
qed

lemma parse_table_line_back:
  assumes "table_rule rule" shows "parse_table_line (table_line rule) = Some rule"
proof -
  have ws: "list_all word (rb_non_resource_urls rule)" "list_all word (rb_resource_names rule)" "list_all word (rb_verbs rule)"
    and g: "rb_resources rule = [] \<Longrightarrow> rb_api_groups rule = []"
    using assms by (auto simp: table_rule_def)
  note d = parse_table_line_def brackets_table_line [OF assms] table_line_parts [OF assms]
    py_split_join [OF ws(1)] py_split_join [OF ws(2)] py_split_join [OF ws(3)]
  show ?thesis
  proof (cases "rb_resources rule = []")
    case True
    with g show ?thesis by (simp add: d Let_def)
  next
    case False
    from row_name_split [OF assms False] False show ?thesis
      by (cases "CHR ''.'' \<in> set (row_name rule)") (simp_all add: d Let_def)
  qed
qed

lemma strip_id: "s \<noteq> [] \<Longrightarrow> \<not> is_space (hd s) \<Longrightarrow> \<not> is_space (last s) \<Longrightarrow> py_strip s = s"
proof -
  assume s: "s \<noteq> []" "\<not> is_space (hd s)" "\<not> is_space (last s)"
  then have "dropWhile is_space s = s" "dropWhile is_space (rev s) = rev s" by (simp_all add: dropWhile_eq_self_iff hd_rev)
  then show "py_strip s = s" by (simp add: py_strip_def)
qed

lemma lines_acc_line:
  assumes "list_all (\<lambda>c. \<not> is_line_break c) l"
  shows "r \<noteq> [] \<Longrightarrow> lines_acc acc (l @ CHR 0x0A # r) = (rev acc @ l) # lines_acc [] r"
    and "acc @ l \<noteq> [] \<Longrightarrow> lines_acc acc l = [rev acc @ l]"
proof -
  have nl: "is_line_break (CHR 0x0A)" and cr: "\<not> is_line_break c \<Longrightarrow> c \<noteq> CHR 0x0D" for c
    by (auto simp: is_line_break_def)
  show "r \<noteq> [] \<Longrightarrow> lines_acc acc (l @ CHR 0x0A # r) = (rev acc @ l) # lines_acc [] r"
    using assms
  proof (induction l arbitrary: acc)
    case Nil
    then show ?case by (cases r) (simp_all add: nl)
  next
    case (Cons c l)
    then show ?case using cr [of c] by (cases l) auto
  qed
  show "acc @ l \<noteq> [] \<Longrightarrow> lines_acc acc l = [rev acc @ l]"
    using assms
  proof (induction l arbitrary: acc)
    case (Cons c l)
    then show ?case using cr [of c] by (cases l) auto
  qed simp
qed

definition table_text_line :: "string \<Rightarrow> bool" where
  "table_text_line l \<longleftrightarrow> l \<noteq> [] \<and> list_all (\<lambda>c. \<not> is_line_break c) l \<and> \<not> is_space (hd l) \<and> \<not> is_space (last l)"

lemma splitlines_join: "list_all table_text_line ls \<Longrightarrow> py_splitlines (py_join nl ls) = ls"
proof -
  assume "list_all table_text_line ls"
  then have "lines_acc [] (py_join nl ls) = ls"
  proof (induction ls rule: induct_list012)
    case (2 l)
    then show ?case using lines_acc_line(2) [of l "[]"] by (simp add: table_text_line_def)
  next
    case (3 l m ms)
    have "m \<noteq> []" using 3(3) by (simp add: table_text_line_def)
    then have "py_join nl (m # ms) \<noteq> []" by (cases ms) (simp_all add: nl_def)
    then show ?case
      using 3 lines_acc_line(1) [of l "py_join nl (m # ms)" "[]"] by (simp add: table_text_line_def nl_def)
  qed simp
  then show ?thesis by (simp add: py_splitlines_def)
qed

lemma join_ends:
  assumes "list_all table_text_line ls" "ls \<noteq> []"
  shows "py_join nl ls \<noteq> []" "hd (py_join nl ls) = hd (hd ls)" "last (py_join nl ls) = last (last ls)"
  using assms by (induction ls rule: induct_list012) (auto simp: table_text_line_def nl_def)

lemma table_line_ok:
  assumes "table_rule rule" shows "table_text_line (table_line rule)"
proof -
  have b: "\<not> is_line_break c" if "\<not> is_space c \<or> c = CHR '' ''" for c
    using that by (auto simp: is_space_def is_line_break_def Let_def)
  have br: "\<not> is_space (CHR ''['')" "\<not> is_space (CHR '']'')" by (simp_all add: is_space_def)
  have ws: "list_all word (rb_non_resource_urls rule)" "list_all word (rb_resource_names rule)" "list_all word (rb_verbs rule)"
    using assms by (auto simp: table_rule_def)
  have "\<not> is_space c \<or> c = CHR '' ''" if "c \<in> set (table_line rule)" for c
    using that br row_name_plain [OF assms] join_plain [OF ws(1)] join_plain [OF ws(2)] join_plain [OF ws(3)]
    by (auto simp: table_line_def split: if_splits)
  then have "list_all (\<lambda>c. \<not> is_line_break c) (table_line rule)" using b by (auto simp: list_all_iff)
  moreover have "\<not> is_space (hd (table_line rule))"
  proof (cases "rb_resources rule = []")
    case False
    then have "row_name rule \<noteq> []" using row_name_Nil [OF assms] by simp
    then show ?thesis using False row_name_plain [OF assms, of "hd (row_name rule)"] by (simp add: table_line_def)
  qed (simp add: table_line_def br)
  ultimately show ?thesis by (simp add: table_text_line_def) (simp add: table_line_def br)
qed

lemma table_read_back:
  assumes "list_all table_rule rules"
  shows "parse_table_output (py_join nl (TABLE_HEADER # map table_line rules)) = rules"
proof -
  have h: "is_header TABLE_HEADER" "table_text_line TABLE_HEADER" by code_simp+
  let ?ls = "TABLE_HEADER # map table_line rules"
  have ok: "list_all table_text_line ?ls" using assms h(2) table_line_ok by (auto simp: list_all_iff)
  have "py_strip (py_join nl ?ls) = py_join nl ?ls"
  proof (rule strip_id)
    have "last ?ls \<in> set ?ls" by (rule last_in_set) simp
    with ok have "table_text_line (last ?ls)" by (auto simp only: list_all_iff)
    then show "\<not> is_space (last (py_join nl ?ls))" using join_ends(3) [OF ok] by (simp add: table_text_line_def)
    show "\<not> is_space (hd (py_join nl ?ls))" using join_ends(2) [OF ok] h(2) by (simp add: table_text_line_def)
  qed (use join_ends(1) [OF ok] in simp)
  then have d: "data_lines (py_splitlines (py_strip (py_join nl ?ls))) = map table_line rules"
    using splitlines_join [OF ok] h(1) by (simp add: data_lines_def)
  have s: "map py_strip (map table_line rules) = map table_line rules"
    using assms table_line_ok by (auto simp: list_all_iff table_text_line_def intro: strip_id)
  have "filter (\<lambda>l. l \<noteq> []) (map table_line rules) = map table_line rules"
    using assms table_line_ok by (auto simp: list_all_iff table_text_line_def filter_id_conv)
  moreover have "List.map_filter parse_table_line (map table_line rules) = rules"
    using assms by (induction rules) (simp_all add: map_filter_simps parse_table_line_back)
  ultimately show ?thesis by (simp only: parse_table_output_def d s)
qed

section \<open>Properties\<close>

lemma violation_of_None:
  "violation_of rule = None \<longleftrightarrow> self_review rule \<or> list_all (\<lambda>v. \<not> offends v) (rb_verbs rule)"
  by (simp add: violation_of_def Let_def filter_empty_conv list_all_iff)

lemma audit_clean: "audit_rules rules = [] \<longleftrightarrow> list_all (\<lambda>r. violation_of r = None) rules"
  by (induction rules) (auto simp: audit_rules_def map_filter_simps split: option.split)

lemma audit_targets_pass:
  "audit_targets kc args ts = Inr True \<longleftrightarrow> list_all (\<lambda>t. \<exists>report. audit_target kc args t = Inr (report, True)) ts"
proof (induction ts)
  case (Cons t ts)
  obtain o1 where "audit_targets kc args ts = o1" by blast
  with Cons show ?case by (cases o1) (auto split: sum.split)
qed simp

lemma early_exits_fail:
  "run_kubectl_can_i kc sa ns ctx = Inl (SysExit n) \<Longrightarrow> n = 2"
  "audit_target kc args t = Inl (SysExit n) \<Longrightarrow> n = 2"
  "audit_targets kc args ts = Inl (SysExit n) \<Longrightarrow> n = 2"
  "audit_scope files args = Inl (SysExit n) \<Longrightarrow> n = 2"
proof -
  show r: "n = 2" if "run_kubectl_can_i kc sa ns ctx = Inl (SysExit n)" for kc sa ns ctx n
    using that by (auto simp: run_kubectl_can_i_def Let_def split: if_splits option.splits sum.splits parse_error.splits)
  show a: "n = 2" if "audit_target kc args t = Inl (SysExit n)" for t n
    using that r by (auto simp: audit_target_def split: option.splits sum.splits)
  show "audit_targets kc args ts = Inl (SysExit n) \<Longrightarrow> n = 2"
    using a by (induction ts) (auto split: sum.splits, (case_tac "audit_targets kc args ts"; auto)+)
  show "audit_scope files args = Inl (SysExit n) \<Longrightarrow> n = 2"
    by (auto simp: audit_scope_def load_audit_config_def Let_def split: if_splits option.splits sum.splits)
qed

text \<open>
  C24: the gate lets no writer through: it exits with 0 only after kubectl answered for every account in
  scope, and no rule of theirs, the cluster's own self-review rules apart, carries the wildcard or one
  of the mutating verbs in any letter case.
\<close>

theorem passing_gate_has_no_writer:
  assumes "audit_main kc files args = Inr 0"
  shows "\<exists>ts. audit_scope files args = Inr ts \<and>
    (\<forall>t \<in> set ts. \<exists>name ns ctx rules fmt. read_target args t = Some (name, ns, ctx) \<and>
       run_kubectl_can_i kc name ns ctx = Inr (rules, fmt) \<and>
       (\<forall>r \<in> set rules. self_review r \<or> (\<forall>v \<in> set (rb_verbs r). v \<noteq> ''*'' \<and> py_lower v \<notin> set MUTATING_VERBS)))"
proof -
  from assms obtain ts where s: "audit_scope files args = Inr ts" "audit_targets kc args ts = Inr True"
    using early_exits_fail(3,4) by (fastforce simp: audit_main_def split: sum.splits audit_end.splits if_splits)
  have "\<exists>name ns ctx rules fmt. read_target args t = Some (name, ns, ctx) \<and>
       run_kubectl_can_i kc name ns ctx = Inr (rules, fmt) \<and>
       (\<forall>r \<in> set rules. self_review r \<or> (\<forall>v \<in> set (rb_verbs r). v \<noteq> ''*'' \<and> py_lower v \<notin> set MUTATING_VERBS))"
    if "t \<in> set ts" for t
  proof -
    from s(2) that obtain report where "audit_target kc args t = Inr (report, True)"
      by (auto simp: audit_targets_pass list_all_iff)
    then obtain name ns ctx rules fmt where r: "read_target args t = Some (name, ns, ctx)"
      "run_kubectl_can_i kc name ns ctx = Inr (rules, fmt)" "audit_rules rules = []"
      by (auto simp: audit_target_def split: option.splits sum.splits)
    from r(3) have "\<forall>r \<in> set rules. self_review r \<or> (\<forall>v \<in> set (rb_verbs r). v \<noteq> ''*'' \<and> py_lower v \<notin> set MUTATING_VERBS)"
      by (auto simp: audit_clean violation_of_None list_all_iff offends_def WILDCARD_def)
    with r(1,2) show ?thesis by blast
  qed
  with s(1) show ?thesis by blast
qed

text \<open>
  C33: the table reader is faithful: the rules read back from the table that shows them are those rules,
  for tables of any length and rules with one resource (and its API group) or none.
\<close>

theorem table_rules_roundtrip:
  assumes "list_all table_rule rules"
  shows "parse_table_output (py_join nl (TABLE_HEADER # map table_line rules)) = rules"
  by (rule table_read_back [OF assms])

text \<open>A table with a read-only rule of a group, a self review and a rule on a path.\<close>

definition demo_rules :: "rbac_rule list" where
  "demo_rules =
     [\<lparr>rb_resources = [''pods''], rb_api_groups = [''metrics''], rb_resource_names = [''a''], rb_verbs = [''get'', ''list''], rb_non_resource_urls = []\<rparr>,
      \<lparr>rb_resources = [''selfsubjectreviews''], rb_api_groups = [], rb_resource_names = [], rb_verbs = [''create''], rb_non_resource_urls = []\<rparr>,
      \<lparr>rb_resources = [], rb_api_groups = [], rb_resource_names = [], rb_verbs = [''get''], rb_non_resource_urls = [''/healthz'']\<rparr>]"

lemma demo_rules_shown: "list_all table_rule demo_rules"
  by (auto simp: demo_rules_def table_rule_def word_def is_space_def)

theorem table_rules_roundtrip_witness: "parse_table_output (py_join nl (TABLE_HEADER # map table_line demo_rules)) = demo_rules"
  by (rule table_rules_roundtrip [OF demo_rules_shown])

text \<open>An installed kubectl whose JSON answer fails and whose table is always the given one.\<close>

definition table_kubectl :: "string \<Rightarrow> kubectl" where
  "table_kubectl out =
     \<lparr>kc_installed = True, kc_run = (\<lambda>cmd. Some (if last cmd = ''json'' then (1, [], ''no json'') else (0, out, [])))\<rparr>"

definition demo_args :: audit_args where
  "demo_args = \<lparr>aa_serviceaccount = Some ''kube-mcp'', aa_namespace = Some ''mcp'', aa_context = None, aa_config = None\<rparr>"

lemma table_gate:
  "audit_main (table_kubectl out) files demo_args = Inr (if audit_rules (parse_table_output out) = [] then 0 else 1)"
  by (simp add: audit_main_def audit_scope_def demo_args_def given_def audit_target_def read_target_def run_kubectl_can_i_def
      table_kubectl_def dict_field_def Let_def)

theorem passing_gate_has_no_writer_witness:
  "\<exists>ts. audit_scope (\<lambda>f. None) demo_args = Inr ts \<and>
    (\<forall>t \<in> set ts. \<exists>name ns ctx rules fmt. read_target demo_args t = Some (name, ns, ctx) \<and>
       run_kubectl_can_i (table_kubectl (py_join nl (TABLE_HEADER # map table_line demo_rules))) name ns ctx = Inr (rules, fmt) \<and>
       (\<forall>r \<in> set rules. self_review r \<or> (\<forall>v \<in> set (rb_verbs r). v \<noteq> ''*'' \<and> py_lower v \<notin> set MUTATING_VERBS)))"
proof (rule passing_gate_has_no_writer)
  let ?out = "py_join nl (TABLE_HEADER # map table_line demo_rules)"
  have "parse_table_output ?out = demo_rules" by (rule table_read_back [OF demo_rules_shown])
  moreover have "audit_rules demo_rules = []" by code_simp
  ultimately show "audit_main (table_kubectl ?out) (\<lambda>f. None) demo_args = Inr 0" by (simp add: table_gate)
qed

text \<open>
  The gate checks a list of mutating verbs, not the read-only ones it promises: a rule that binds,
  escalates and impersonates passes, and so does an account kubectl says nothing about.
\<close>

lemma privileged_verbs_pass:
  "audit_rules [\<lparr>rb_resources = [''clusterroles''], rb_api_groups = [], rb_resource_names = [],
     rb_verbs = [''bind'', ''escalate'', ''impersonate''], rb_non_resource_urls = []\<rparr>] = []"
  by code_simp

lemma silence_passes: "audit_main (table_kubectl []) files demo_args = Inr 0"
proof -
  have "audit_rules (parse_table_output []) = []" by code_simp
  then show ?thesis by (simp add: table_gate)
qed

end
