(* ===== verification/Evals.thy ===== *)
theory Evals
  imports Server
begin

text \<open>
  The two evaluation runners: the golden questions of src/evals/runner.py, scored by mechanical checks
  and a model as judge, and the investigation scenarios of src/evals/rca_runner.py, which feed fixed
  data to the real investigation.  Parameters are regular expression search (it raises for a pattern
  that does not compile), the gateway that answers the questions, and the documents the YAML files
  hold.  Files of results are the documents written to them; the printed report is left out but for
  the regressions it names.
\<close>

section \<open>Patterns\<close>

type_synonym re_search = "string \<Rightarrow> string \<Rightarrow> exn + bool"

text \<open>The search in a value that need not be a text.\<close>

definition search_value :: "re_search \<Rightarrow> string \<Rightarrow> json \<Rightarrow> exn + bool" where
  "search_value look p v = (case v of JStr t \<Rightarrow> look p t | _ \<Rightarrow> Inl ''TypeError'')"

text \<open>\<open>any\<close> and \<open>next\<close> stop at the first pattern found.\<close>

fun first_hit :: "re_search \<Rightarrow> string list \<Rightarrow> json \<Rightarrow> exn + string option" where
  "first_hit look [] v = Inr None"
| "first_hit look (p # ps) v =
     (case search_value look p v of
        Inl e \<Rightarrow> Inl e
      | Inr True \<Rightarrow> Inr (Some p)
      | Inr False \<Rightarrow> first_hit look ps v)"

text \<open>The failures of a list of patterns that must, or must not, be found.\<close>

fun pattern_failures :: "re_search \<Rightarrow> bool \<Rightarrow> string \<Rightarrow> string list \<Rightarrow> json \<Rightarrow> exn + string list" where
  "pattern_failures look wanted label [] v = Inr []"
| "pattern_failures look wanted label (p # ps) v =
     (case search_value look p v of
        Inl e \<Rightarrow> Inl e
      | Inr hit \<Rightarrow>
          map_sum id (\<lambda>fs. if hit = wanted then fs else (label @ py_repr p) # fs) (pattern_failures look wanted label ps v))"

section \<open>Golden questions\<close>

record golden_case =
  gc_id :: string
  gc_question :: string
  gc_must_contain :: "string list"
  gc_must_not_contain :: "string list"
  gc_routing_expected :: "string option"

record golden_spec =
  gs_agent :: string
  gs_questions :: "golden_case list"

record judgement =
  jg_coherence :: int
  jg_actionability :: int
  jg_note :: json

record case_result =
  cr_id :: string
  cr_question :: string
  cr_mechanical_pass :: bool
  cr_failures :: "string list"
  cr_judge :: "judgement option"
  cr_score :: rat

record 's golden_env =
  ge_bedrock :: "'s bedrock_env"
  ge_search :: re_search
  ge_ask :: "string \<Rightarrow> string \<Rightarrow> 's \<Rightarrow> (exn + json) \<times> 's"
  ge_judge_prompt :: string

definition TOLERANCE :: rat where
  "TOLERANCE = 15/100"

text \<open>\<open>not response_text or not response_text.strip()\<close>\<close>

definition blank_reply :: "json \<Rightarrow> exn + bool" where
  "blank_reply v =
     (if \<not> json_truthy v then Inr True else case v of JStr t \<Rightarrow> Inr (py_strip t = []) | _ \<Rightarrow> Inl ''AttributeError'')"

definition routing_failures :: "json \<Rightarrow> string option \<Rightarrow> exn + string list" where
  "routing_failures actual_agent routing_expected =
     (case routing_expected of
        Some (c # cs) \<Rightarrow>
          (case actual_agent of
             JStr a \<Rightarrow>
               Inr (if py_lower a \<noteq> py_lower (c # cs)
                    then [''routing: expected '' @ py_repr (c # cs) @ '', got '' @ py_repr a] else [])
           | _ \<Rightarrow> Inl ''AttributeError'')
      | _ \<Rightarrow> Inr [])"

text \<open>The failure reasons; the checks pass when there are none.\<close>

definition mechanical_checks :: "re_search \<Rightarrow> json \<Rightarrow> json \<Rightarrow> golden_case \<Rightarrow> exn + string list" where
  "mechanical_checks look response_text actual_agent cs =
     (case blank_reply response_text of
        Inl e \<Rightarrow> Inl e
      | Inr blank \<Rightarrow>
          (case pattern_failures look True ''missing required pattern: '' (gc_must_contain cs) response_text of
             Inl e \<Rightarrow> Inl e
           | Inr missing \<Rightarrow>
               (case pattern_failures look False ''forbidden pattern present: '' (gc_must_not_contain cs) response_text of
                  Inl e \<Rightarrow> Inl e
                | Inr forbidden \<Rightarrow>
                    map_sum id (\<lambda>routing. (if blank then [''empty or missing response text''] else []) @ missing @ forbidden @ routing)
                      (routing_failures actual_agent (gc_routing_expected cs)))))"

subsection \<open>The judge\<close>

text \<open>\<open>int(v)\<close>: the ValueError is caught, any other error is not.\<close>

datatype int_read = ReadInt int | ReadValueError | ReadRaises exn

definition int_of_text :: "string \<Rightarrow> int_read" where
  "int_of_text t =
     (case read_sign (py_strip t) of
        (neg, body) \<Rightarrow>
          (case drop_underscores False body of
             Some (d # ds) \<Rightarrow>
               if list_all is_digit (d # ds) then ReadInt (if neg then - read_int (d # ds) else read_int (d # ds))
               else ReadValueError
           | _ \<Rightarrow> ReadValueError))"

definition int_of_json :: "json \<Rightarrow> int_read" where
  "int_of_json v =
     (case v of
        JInt n \<Rightarrow> ReadInt n
      | JBool b \<Rightarrow> ReadInt (if b then 1 else 0)
      | JReal s \<Rightarrow>
          (case real_number s of
             Finite x \<Rightarrow> ReadInt (py_int x)
           | NotANumber \<Rightarrow> ReadValueError
           | _ \<Rightarrow> ReadRaises ''OverflowError'')
      | JStr t \<Rightarrow> int_of_text t
      | _ \<Rightarrow> ReadRaises ''TypeError'')"

definition clamp_grade :: "int \<Rightarrow> int" where
  "clamp_grade n = max 1 (min 5 n)"

definition unparsable :: judgement where
  "unparsable = \<lparr>jg_coherence = 0, jg_actionability = 0, jg_note = JStr ''judge output unparsable''\<rparr>"

definition read_judge :: "string \<Rightarrow> exn + judgement" where
  "read_judge raw =
     (case Option.bind (slice_between (CHR ''{'') (CHR ''}'') raw) json_loads of
        None \<Rightarrow> Inr unparsable
      | Some parsed \<Rightarrow>
          (case int_of_json (dict_field parsed ''coherence'' (JInt 1)) of
             ReadRaises e \<Rightarrow> Inl e
           | ReadValueError \<Rightarrow> Inr unparsable
           | ReadInt coherence \<Rightarrow>
               (case int_of_json (dict_field parsed ''actionability'' (JInt 1)) of
                  ReadRaises e \<Rightarrow> Inl e
                | ReadValueError \<Rightarrow> Inr unparsable
                | ReadInt actionability \<Rightarrow>
                    Inr \<lparr>jg_coherence = clamp_grade coherence, jg_actionability = clamp_grade actionability,
                         jg_note = dict_field parsed ''note'' (JStr [])\<rparr>)))"

definition judge_request :: "string \<Rightarrow> string \<Rightarrow> string \<Rightarrow> invoke_request" where
  "judge_request system_prompt question answer =
     \<lparr>iq_messages = [\<lparr>im_role = ''user'', im_content = CPlain (''Question: '' @ question @ nl @ nl @ ''Answer: '' @ answer)\<rparr>],
      iq_system_prompt = system_prompt, iq_max_tokens = 4096, iq_temperature = 0, iq_use_cache = True,
      iq_match_user_language = False, iq_session_id = ''eval-judge'', iq_role = ''classifier'', iq_budget_session_id = None,
      iq_skip_input_guardrail = False\<rparr>"

definition judge_answer ::
    "'s golden_env \<Rightarrow> string \<Rightarrow> string \<Rightarrow> bedrock_client \<Rightarrow> 's \<Rightarrow> (guard_error + judgement) \<times> bedrock_client \<times> 's" where
  "judge_answer env question answer c s =
     (case bedrock_invoke (ge_bedrock env) (judge_request (ge_judge_prompt env) question answer) c s of
        (Inl e, c', s') \<Rightarrow> (Inl e, c', s')
      | (Inr raw, c', s') \<Rightarrow> (map_sum GuardrailRaised id (read_judge raw), c', s'))"

subsection \<open>The run\<close>

definition round3 :: "rat \<Rightarrow> rat" where
  "round3 x = of_int (py_round (x * 1000)) / 1000"

definition eval_session :: "string \<Rightarrow> golden_case \<Rightarrow> string" where
  "eval_session agent_name cs = ''eval-'' @ agent_name @ ''-'' @ gc_id cs"

definition case_outcome :: "golden_case \<Rightarrow> string list \<Rightarrow> judgement option \<Rightarrow> case_result" where
  "case_outcome cs failures judge =
     \<lparr>cr_id = gc_id cs, cr_question = gc_question cs, cr_mechanical_pass = (failures = []), cr_failures = failures, cr_judge = judge,
      cr_score = (case judge of None \<Rightarrow> 0 | Some j \<Rightarrow> round3 (of_int (jg_coherence j + jg_actionability j) / 10))\<rparr>"

text \<open>A reply that is no object has no \<open>get\<close>.\<close>

definition run_case ::
    "'s golden_env \<Rightarrow> string \<Rightarrow> golden_case \<Rightarrow> bedrock_client \<Rightarrow> 's \<Rightarrow> (guard_error + case_result) \<times> bedrock_client \<times> 's" where
  "run_case env agent_name cs c s =
     (case ge_ask env (gc_question cs) (eval_session agent_name cs) s of
        (Inl e, s1) \<Rightarrow> (Inr (case_outcome cs [''request error: '' @ e] None), c, s1)
      | (Inr resp, s1) \<Rightarrow>
          (if \<not> is_dict resp then (Inl (GuardrailRaised ''AttributeError''), c, s1)
           else (let response_text = dict_field resp ''response'' (JStr [])
                 in case mechanical_checks (ge_search env) response_text (dict_field resp ''agent'' (JStr [])) cs of
                      Inl e \<Rightarrow> (Inl (GuardrailRaised e), c, s1)
                    | Inr (f # fs) \<Rightarrow> (Inr (case_outcome cs (f # fs) None), c, s1)
                    | Inr [] \<Rightarrow>
                        (case judge_answer env (gc_question cs) (py_str response_text) c s1 of
                           (Inl e, c', s') \<Rightarrow> (Inl e, c', s')
                         | (Inr j, c', s') \<Rightarrow> (Inr (case_outcome cs [] (Some j)), c', s')))))"

fun run_cases ::
    "'s golden_env \<Rightarrow> string \<Rightarrow> golden_case list \<Rightarrow> bedrock_client \<Rightarrow> 's \<Rightarrow>
     (guard_error + case_result list) \<times> bedrock_client \<times> 's" where
  "run_cases env agent_name [] c s = (Inr [], c, s)"
| "run_cases env agent_name (cs # rest) c s =
     (case run_case env agent_name cs c s of
        (Inl e, c1, s1) \<Rightarrow> (Inl e, c1, s1)
      | (Inr r, c1, s1) \<Rightarrow>
          (case run_cases env agent_name rest c1 s1 of (rs, c2, s2) \<Rightarrow> (map_sum id ((#) r) rs, c2, s2)))"

fun run_golden ::
    "'s golden_env \<Rightarrow> golden_spec list \<Rightarrow> (string \<times> case_result list) list \<Rightarrow> bedrock_client \<Rightarrow> 's \<Rightarrow>
     (guard_error + (string \<times> case_result list) list) \<times> bedrock_client \<times> 's" where
  "run_golden env [] all_results c s = (Inr all_results, c, s)"
| "run_golden env (spec # specs) all_results c s =
     (case run_cases env (gs_agent spec) (gs_questions spec) c s of
        (Inl e, c1, s1) \<Rightarrow> (Inl e, c1, s1)
      | (Inr rs, c1, s1) \<Rightarrow> run_golden env specs (dict_set all_results (gs_agent spec) rs) c1 s1)"

subsection \<open>The summary and the comparison with the baseline\<close>

record agent_summary =
  as_avg_score :: rat
  as_questions :: nat
  as_mechanical_failures :: nat

definition mean :: "rat list \<Rightarrow> rat" where
  "mean xs = (if xs = [] then 0 else sum_list xs / of_nat (length xs))"

definition summarize :: "(string \<times> case_result list) list \<Rightarrow> (string \<times> agent_summary) list" where
  "summarize all_results =
     map (\<lambda>(agent_name, cases).
            (agent_name, \<lparr>as_avg_score = round3 (mean (map cr_score cases)), as_questions = length cases,
                          as_mechanical_failures = length (filter (\<lambda>r. \<not> cr_mechanical_pass r) cases)\<rparr>)) all_results"

text \<open>The agents whose score fell by more than the tolerance; an agent without a baseline entry is none of them.\<close>

definition regressions :: "(string \<times> agent_summary) list \<Rightarrow> (string \<times> agent_summary) list \<Rightarrow> string list" where
  "regressions baseline summary =
     map fst (filter (\<lambda>(agent_name, s).
       case dict_get baseline agent_name of
         None \<Rightarrow> False
       | Some b \<Rightarrow> as_avg_score s - as_avg_score b < - TOLERANCE) summary)"

record results_dir =
  rd_results :: "(string \<times> (string \<times> agent_summary) list) list"
  rd_baseline :: "(string \<times> agent_summary) list option"

text \<open>The results are filed under the day; the first run becomes the baseline and is compared with nothing.\<close>

definition record_run :: "string \<Rightarrow> (string \<times> agent_summary) list \<Rightarrow> results_dir \<Rightarrow> string list \<times> results_dir" where
  "record_run date summary dir =
     (let dir1 = dir\<lparr>rd_results := dict_set (rd_results dir) date summary\<rparr>
      in case rd_baseline dir of
           None \<Rightarrow> ([], dir1\<lparr>rd_baseline := Some summary\<rparr>)
         | Some baseline \<Rightarrow> (regressions baseline summary, dir1))"

definition eval_main ::
    "'s golden_env \<Rightarrow> string \<Rightarrow> golden_spec list \<Rightarrow> results_dir \<Rightarrow> bedrock_client \<Rightarrow> 's \<Rightarrow>
     (guard_error + string list) \<times> results_dir \<times> bedrock_client \<times> 's" where
  "eval_main env date specs dir c s =
     (case run_golden env specs [] c s of
        (Inl e, c', s') \<Rightarrow> (Inl e, dir, c', s')
      | (Inr rs, c', s') \<Rightarrow> (case record_run date (summarize rs) dir of (flagged, dir') \<Rightarrow> (Inr flagged, dir', c', s')))"

section \<open>Investigation scenarios\<close>

record scenario =
  sn_id :: string
  sn_symptom :: string
  sn_fixtures :: "(string \<times> string) list"
  sn_expected_keywords :: "string list"
  sn_forbidden_keywords :: "string list"
  sn_expected_confidence_min :: "string option"

record scenario_score =
  ss_id :: string
  ss_score :: rat
  ss_passed :: bool
  ss_confidence :: string
  ss_hypothesis :: json
  ss_evidence_count :: nat
  ss_failures :: "string list"

definition CONFIDENCE_RANK :: "(string \<times> int) list" where
  "CONFIDENCE_RANK = [(''baixa'', 1), (''media'', 2), (''alta'', 3)]"

definition DEFAULT_FIXTURE :: string where
  "DEFAULT_FIXTURE = ''No relevant signal collected for this investigation.''"

definition confidence_rank :: "string \<Rightarrow> int" where
  "confidence_rank c = (case dict_get CONFIDENCE_RANK c of None \<Rightarrow> 0 | Some n \<Rightarrow> n)"

text \<open>Every agent of the registry, with its fixed text for a data source.\<close>

definition fixture_agent :: "scenario \<Rightarrow> registry \<Rightarrow> skill_registry \<Rightarrow> agent_config \<Rightarrow> agent" where
  "fixture_agent sc rg skills cfg =
     \<lparr>ag_config = cfg, ag_prompt = get_prompt rg (ac_name cfg),
      ag_adapters = [\<lparr>ad_source = FixtureAdapter (case dict_get (sn_fixtures sc) (ac_name cfg) of None \<Rightarrow> DEFAULT_FIXTURE | Some t \<Rightarrow> t),
                      ad_cache_ttl = 0, ad_cache_namespace = ''default''\<rparr>],
      ag_skills = Some skills\<rparr>"

definition build_fixture_agents :: "scenario \<Rightarrow> registry \<Rightarrow> skill_registry \<Rightarrow> agents" where
  "build_fixture_agents sc rg skills =
     foldl (\<lambda>ags cfg. dict_set ags (ac_name cfg) (fixture_agent sc rg skills cfg)) [] (map snd (rg_agents rg))"

text \<open>A forbidden pattern that is empty is found but is no value that counts.\<close>

definition score_failures :: "string list \<Rightarrow> bool \<Rightarrow> string option \<Rightarrow> bool \<Rightarrow> string \<Rightarrow> string \<Rightarrow> string list" where
  "score_failures keyword_patterns keyword_hit forbidden_hit confidence_ok conf min_conf =
     (if keyword_hit then []
      else [''hypothesis did not match any expected_keywords: '' @ py_str_item (JList (map JStr keyword_patterns))])
     @ (case forbidden_hit of
          Some (c # cs) \<Rightarrow> [''hypothesis matched a forbidden (wrong-direction) pattern: '' @ py_repr (c # cs)]
        | _ \<Rightarrow> [])
     @ (if confidence_ok then []
        else [''confidence '' @ [CHR 0x27] @ conf @ [CHR 0x27] @ '' below expected_confidence_min '' @ [CHR 0x27] @ min_conf @ [CHR 0x27]])"

definition keyword_verdict :: "re_search \<Rightarrow> string list \<Rightarrow> json \<Rightarrow> exn + bool" where
  "keyword_verdict look ps hypothesis =
     (if ps = [] then Inr True else map_sum id (\<lambda>hit. hit \<noteq> None) (first_hit look ps hypothesis))"

definition score_scenario :: "re_search \<Rightarrow> scenario \<Rightarrow> rca_result \<Rightarrow> exn + scenario_score" where
  "score_scenario look sc rca =
     (let hypothesis = or_else (Some (rca_hypothesis rca)) (JStr [])
      in case keyword_verdict look (sn_expected_keywords sc) hypothesis of
           Inl e \<Rightarrow> Inl e
         | Inr keyword_hit \<Rightarrow>
             (case first_hit look (sn_forbidden_keywords sc) hypothesis of
                Inl e \<Rightarrow> Inl e
              | Inr forbidden_hit \<Rightarrow>
                  (let min_conf = (case sn_expected_confidence_min sc of None \<Rightarrow> ''baixa'' | Some m \<Rightarrow> m);
                       confidence_ok = (confidence_rank min_conf \<le> confidence_rank (rca_confidence rca));
                       passes = (keyword_hit \<and> confidence_ok \<and> (forbidden_hit = None \<or> forbidden_hit = Some []))
                   in Inr \<lparr>ss_id = sn_id sc, ss_score = (if passes then 1 else 0), ss_passed = passes, ss_confidence = rca_confidence rca,
                        ss_hypothesis = hypothesis, ss_evidence_count = length (rca_evidence rca),
                        ss_failures = score_failures (sn_expected_keywords sc) keyword_hit forbidden_hit confidence_ok
                          (rca_confidence rca) min_conf\<rparr>)))"

definition run_scenario ::
    "re_search \<Rightarrow> 's squad_env \<Rightarrow> registry \<Rightarrow> skill_registry \<Rightarrow> scenario \<Rightarrow> 's agent_state \<Rightarrow> (guard_error + scenario_score) \<times> 's agent_state" where
  "run_scenario look env rg skills sc st =
     (case run_investigation env (sn_symptom sc) (build_fixture_agents sc rg skills) (''rca-eval-'' @ sn_id sc) [] None st of
        (Inl e, ags, st') \<Rightarrow> (Inl e, st')
      | (Inr rca, ags, st') \<Rightarrow> (map_sum GuardrailRaised id (score_scenario look sc rca), st'))"

fun run_scenarios ::
    "re_search \<Rightarrow> 's squad_env \<Rightarrow> registry \<Rightarrow> skill_registry \<Rightarrow> scenario list \<Rightarrow> 's agent_state \<Rightarrow>
     (guard_error + scenario_score list) \<times> 's agent_state" where
  "run_scenarios look env rg skills [] st = (Inr [], st)"
| "run_scenarios look env rg skills (sc # scs) st =
     (case run_scenario look env rg skills sc st of
        (Inl e, st1) \<Rightarrow> (Inl e, st1)
      | (Inr r, st1) \<Rightarrow> (case run_scenarios look env rg skills scs st1 of (rs, st2) \<Rightarrow> (map_sum id ((#) r) rs, st2)))"

text \<open>The average of the scores, with the scores.\<close>

definition run_rca_eval ::
    "re_search \<Rightarrow> 's squad_env \<Rightarrow> registry \<Rightarrow> skill_registry \<Rightarrow> scenario list \<Rightarrow> 's agent_state \<Rightarrow>
     (guard_error + rat \<times> scenario_score list) \<times> 's agent_state" where
  "run_rca_eval look env rg skills scs st =
     (case run_scenarios look env rg skills scs st of
        (rs, st') \<Rightarrow> (map_sum id (\<lambda>rs. (mean (map ss_score rs), rs)) rs, st'))"

section \<open>Levels of confidence\<close>

text \<open>What the ranks of the labels stand for: a linear order whose least level is any unknown label.\<close>

datatype level = NoLevel | Baixa | Media | Alta

definition level_of :: "string \<Rightarrow> level" where
  "level_of c = (if c = ''baixa'' then Baixa else if c = ''media'' then Media else if c = ''alta'' then Alta else NoLevel)"

primrec level_rank :: "level \<Rightarrow> int" where
  "level_rank NoLevel = 0" | "level_rank Baixa = 1" | "level_rank Media = 2" | "level_rank Alta = 3"

lemma level_rank_inj: "level_rank a = level_rank b \<Longrightarrow> a = b"
  by (cases a; cases b) simp_all

instantiation level :: linorder
begin

definition less_eq_level :: "level \<Rightarrow> level \<Rightarrow> bool" where
  "less_eq_level a b \<longleftrightarrow> level_rank a \<le> level_rank b"

definition less_level :: "level \<Rightarrow> level \<Rightarrow> bool" where
  "less_level a b \<longleftrightarrow> level_rank a < level_rank b"

instance
  by standard (auto simp: less_eq_level_def less_level_def intro: level_rank_inj)

end

lemma confidence_rank_level: "confidence_rank c = level_rank (level_of c)"
  by (simp add: confidence_rank_def CONFIDENCE_RANK_def level_of_def)

lemma confidence_rank_le: "confidence_rank a \<le> confidence_rank b \<longleftrightarrow> level_of a \<le> level_of b"
  by (simp add: confidence_rank_level less_eq_level_def)

section \<open>Lemmas on scores\<close>

lemma round3_tenths: "round3 (of_int n / 10) = of_int n / 10"
proof -
  have "(of_int n / 10 * 1000 :: rat) = of_int (n * 100)" by simp
  then show ?thesis unfolding round3_def by (simp only: py_round_of_int)
qed

lemma py_round_mono:
  assumes "x \<le> y"
  shows "py_round x \<le> py_round y"
proof (rule ccontr)
  assume "\<not> py_round x \<le> py_round y"
  then have n: "py_round y + 1 \<le> py_round x" by simp
  then have "(of_int (py_round y + 1) :: rat) \<le> of_int (py_round x)" by (simp only: of_int_le_iff)
  with py_round_near [of x] py_round_near [of y] assms have "x = y" by (simp add: abs_le_iff)
  with n show False by simp
qed

lemma round3_mono: "x \<le> y \<Longrightarrow> round3 x \<le> round3 y"
  by (simp add: round3_def py_round_mono divide_right_mono)

lemma round3_unit: "0 \<le> x \<Longrightarrow> x \<le> 1 \<Longrightarrow> 0 \<le> round3 x \<and> round3 x \<le> 1"
  using round3_mono [of 0 x] round3_mono [of x 1] round3_tenths [of 0] round3_tenths [of 10] by simp

lemma mean_unit:
  assumes "\<forall>x \<in> set xs. 0 \<le> x \<and> x \<le> 1"
  shows "0 \<le> mean xs \<and> mean xs \<le> 1"
proof -
  have "sum_list xs \<le> sum_list (map (\<lambda>x. 1) xs)" using assms sum_list_mono [of xs "\<lambda>x. x" "\<lambda>x. 1"] by simp
  moreover have "0 \<le> sum_list xs" using assms by (simp add: sum_list_nonneg)
  ultimately show ?thesis by (auto simp: mean_def sum_list_triv divide_le_eq_1)
qed

lemma read_judge_graded:
  "read_judge raw = Inr j \<Longrightarrow>
     j = unparsable \<or> jg_coherence j \<in> {1..5} \<and> jg_actionability j \<in> {1..5}"
  by (auto simp: read_judge_def clamp_grade_def split: option.splits int_read.splits)

text \<open>What the specification of a question asks of a reply, and of the agent that gave it.\<close>

definition acceptable :: "re_search \<Rightarrow> json \<Rightarrow> json \<Rightarrow> golden_case \<Rightarrow> bool" where
  "acceptable look reply actual_agent cs \<longleftrightarrow>
     (\<exists>t. reply = JStr t \<and> py_strip t \<noteq> [] \<and> (\<forall>p \<in> set (gc_must_contain cs). look p t = Inr True) \<and>
        (\<forall>p \<in> set (gc_must_not_contain cs). look p t = Inr False)) \<and>
     (\<forall>wanted. gc_routing_expected cs = Some wanted \<and> wanted \<noteq> [] \<longrightarrow>
        (\<exists>a. actual_agent = JStr a \<and> py_lower a = py_lower wanted))"

lemma pattern_failures_none:
  "pattern_failures look wanted label ps (JStr t) = Inr fs \<Longrightarrow> fs = [] \<longleftrightarrow> (\<forall>p \<in> set ps. look p t = Inr wanted)"
  by (induction ps arbitrary: fs) (auto simp: search_value_def map_sum_Inr_ex split: sum.splits if_splits)

lemma routing_failures_none:
  "routing_failures actual (gc_routing_expected cs) = Inr fs \<Longrightarrow>
     fs = [] \<longleftrightarrow> (\<forall>wanted. gc_routing_expected cs = Some wanted \<and> wanted \<noteq> [] \<longrightarrow>
        (\<exists>a. actual = JStr a \<and> py_lower a = py_lower wanted))"
  by (auto simp: routing_failures_def split: option.splits list.splits json.splits if_splits)

lemma mechanical_checks_acceptable:
  assumes "mechanical_checks look reply actual cs = Inr fs"
  shows "fs = [] \<longleftrightarrow> acceptable look reply actual cs"
proof -
  from assms obtain blank missing forbidden routing where b: "blank_reply reply = Inr blank"
    and p: "pattern_failures look True ''missing required pattern: '' (gc_must_contain cs) reply = Inr missing"
      "pattern_failures look False ''forbidden pattern present: '' (gc_must_not_contain cs) reply = Inr forbidden"
      "routing_failures actual (gc_routing_expected cs) = Inr routing"
    and fs: "fs = (if blank then [''empty or missing response text''] else []) @ missing @ forbidden @ routing"
    by (auto simp: mechanical_checks_def map_sum_Inr_ex split: sum.splits)
  show ?thesis
  proof (cases "\<exists>t. reply = JStr t")
    case True
    then obtain t where t: "reply = JStr t" by blast
    then have "\<not> blank \<longleftrightarrow> py_strip t \<noteq> []" using b
      by (cases t) (simp_all add: blank_reply_def, simp add: py_strip_def)
    with p t fs show ?thesis
      by (auto simp: acceptable_def pattern_failures_none [of look True] pattern_failures_none [of look False] routing_failures_none)
  next
    case False
    with b have "blank" by (auto simp: blank_reply_def split: if_splits json.splits)
    with False fs show ?thesis by (simp add: acceptable_def)
  qed
qed

text \<open>
  What a recorded result says of its question.  A request that failed scores 0.  A reply is judged on what
  the specification of the question asks for: the failures are those of the checks, there are none exactly
  when the reply is acceptable, and then, and only then, this very question and reply were judged.
\<close>

definition scored :: "'s golden_env \<Rightarrow> string \<Rightarrow> golden_case \<Rightarrow> case_result \<Rightarrow> bool" where
  "scored env agent_name cs r \<longleftrightarrow>
     cr_id r = gc_id cs \<and> cr_question r = gc_question cs \<and>
     ((\<exists>e s s1. ge_ask env (gc_question cs) (eval_session agent_name cs) s = (Inl e, s1) \<and> \<not> cr_mechanical_pass r \<and>
         cr_failures r = [''request error: '' @ e] \<and> cr_judge r = None \<and> cr_score r = 0) \<or>
      (\<exists>resp reply actual s s1. ge_ask env (gc_question cs) (eval_session agent_name cs) s = (Inr resp, s1) \<and>
         reply = dict_field resp ''response'' (JStr []) \<and> actual = dict_field resp ''agent'' (JStr []) \<and>
         mechanical_checks (ge_search env) reply actual cs = Inr (cr_failures r) \<and>
         (cr_mechanical_pass r \<longleftrightarrow> acceptable (ge_search env) reply actual cs) \<and>
         (cr_mechanical_pass r \<longleftrightarrow> cr_failures r = []) \<and>
         (case cr_judge r of
            None \<Rightarrow> \<not> cr_mechanical_pass r \<and> cr_score r = 0
          | Some j \<Rightarrow> cr_mechanical_pass r \<and>
              (\<exists>c c' s'. judge_answer env (gc_question cs) (py_str reply) c s1 = (Inr j, c', s')) \<and>
              (j = unparsable \<or> jg_coherence j \<in> {1..5} \<and> jg_actionability j \<in> {1..5}) \<and>
              cr_score r = of_int (jg_coherence j + jg_actionability j) / 10)))"

lemma scored_unit: "scored env a cs r \<Longrightarrow> 0 \<le> cr_score r \<and> cr_score r \<le> 1"
  by (auto simp: scored_def unparsable_def divide_simps split: option.splits)

lemma judge_answer_graded:
  assumes "judge_answer env q t c s = (Inr j, c', s')"
  shows "j = unparsable \<or> jg_coherence j \<in> {1..5} \<and> jg_actionability j \<in> {1..5}"
proof -
  from assms obtain raw where "read_judge raw = Inr j"
    by (auto simp: judge_answer_def map_sum_Inr split: prod.splits sum.splits)
  then show ?thesis by (rule read_judge_graded)
qed

lemma case_outcome_simps:
  "cr_mechanical_pass (case_outcome cs fs judge) = (fs = [])" "cr_failures (case_outcome cs fs judge) = fs"
  "cr_judge (case_outcome cs fs judge) = judge" "cr_score (case_outcome cs fs None) = 0"
  "cr_score (case_outcome cs fs (Some j)) = of_int (jg_coherence j + jg_actionability j) / 10"
  by (simp_all only: case_outcome_def case_result.simps option.case round3_tenths)

lemma run_case_scored:
  assumes "run_case env a cs c s = (Inr r, c', s')"
  shows "scored env a cs r"
proof (cases "fst (ge_ask env (gc_question cs) (eval_session a cs) s)")
  case (Inl e)
  then obtain s1 where q: "ge_ask env (gc_question cs) (eval_session a cs) s = (Inl e, s1)" by (metis prod.collapse)
  with assms have "r = case_outcome cs [''request error: '' @ e] None" by (simp add: run_case_def)
  with q show ?thesis unfolding scored_def by (auto simp: case_outcome_def)
next
  case (Inr resp)
  then obtain s1 where q: "ge_ask env (gc_question cs) (eval_session a cs) s = (Inr resp, s1)" by (metis prod.collapse)
  let ?reply = "dict_field resp ''response'' (JStr [])" and ?actual = "dict_field resp ''agent'' (JStr [])"
  from assms obtain fs where d: "is_dict resp" and m: "mechanical_checks (ge_search env) ?reply ?actual cs = Inr fs"
    by (auto simp: run_case_def q Let_def split: if_splits sum.splits)
  note acc = mechanical_checks_acceptable [OF m]
  have body: "scored env a cs r" if "r = case_outcome cs fs judge"
    "case judge of None \<Rightarrow> fs \<noteq> [] | Some j \<Rightarrow> fs = [] \<and> (\<exists>c c' s'. judge_answer env (gc_question cs) (py_str ?reply) c s1 = (Inr j, c', s'))"
    for judge
  proof -
    have j: "case cr_judge r of
            None \<Rightarrow> \<not> cr_mechanical_pass r \<and> cr_score r = 0
          | Some j \<Rightarrow> cr_mechanical_pass r \<and>
              (\<exists>c c' s'. judge_answer env (gc_question cs) (py_str ?reply) c s1 = (Inr j, c', s')) \<and>
              (j = unparsable \<or> jg_coherence j \<in> {1..5} \<and> jg_actionability j \<in> {1..5}) \<and>
              cr_score r = of_int (jg_coherence j + jg_actionability j) / 10"
    proof (cases judge)
      case None
      with that show ?thesis by (simp add: case_outcome_simps)
    next
      case (Some j)
      with that obtain c2 c3 s3 where "judge_answer env (gc_question cs) (py_str ?reply) c2 s1 = (Inr j, c3, s3)" "fs = []" by auto
      with judge_answer_graded [OF this(1)] Some that(1) show ?thesis
        by (simp only: case_outcome_simps option.case) blast
    qed
    have "cr_id r = gc_id cs" "cr_question r = gc_question cs" "mechanical_checks (ge_search env) ?reply ?actual cs = Inr (cr_failures r)"
      "cr_mechanical_pass r \<longleftrightarrow> acceptable (ge_search env) ?reply ?actual cs" "cr_mechanical_pass r \<longleftrightarrow> cr_failures r = []"
      using that(1) m acc by (simp_all add: case_outcome_def)
    with j q show ?thesis unfolding scored_def by blast
  qed
  show ?thesis
  proof (cases fs)
    case Nil
    with assms d m obtain j c2 s2 where "judge_answer env (gc_question cs) (py_str ?reply) c s1 = (Inr j, c2, s2)"
      "r = case_outcome cs [] (Some j)"
      by (auto simp: run_case_def q split: prod.splits sum.splits)
    with body [of "Some j"] Nil show ?thesis by auto
  next
    case (Cons f fs')
    with assms d m have "r = case_outcome cs fs None" by (simp add: run_case_def q)
    with body [of None] Cons show ?thesis by simp
  qed
qed

lemma run_cases_scored: "run_cases env a css c s = (Inr rs, c', s') \<Longrightarrow> list_all2 (scored env a) css rs"
  by (induction css arbitrary: rs c s)
    (auto simp: map_sum_Inr_ex dest: run_case_scored split: prod.splits sum.splits)

lemma run_golden_scored:
  "run_golden env specs acc c s = (Inr results, c', s') \<Longrightarrow>
     \<exists>rss. list_all2 (\<lambda>spec rs. list_all2 (scored env (gs_agent spec)) (gs_questions spec) rs) specs rss \<and>
       results = foldl (\<lambda>d (a, rs). dict_set d a rs) acc (zip (map gs_agent specs) rss)"
proof (induction specs arbitrary: acc c s)
  case (Cons spec specs)
  then obtain rs c1 s1 where r: "run_cases env (gs_agent spec) (gs_questions spec) c s = (Inr rs, c1, s1)"
    and g: "run_golden env specs (dict_set acc (gs_agent spec) rs) c1 s1 = (Inr results, c', s')"
    by (auto split: prod.splits sum.splits)
  from Cons.IH [OF g] obtain rss where
    "list_all2 (\<lambda>spec rs. list_all2 (scored env (gs_agent spec)) (gs_questions spec) rs) specs rss"
    "results = foldl (\<lambda>d (a, rs). dict_set d a rs) (dict_set acc (gs_agent spec) rs) (zip (map gs_agent specs) rss)" by blast
  with run_cases_scored [OF r] show ?case by (intro exI [of _ "rs # rss"]) simp
qed simp

lemma dict_set_values: "(k, v) \<in> set (dict_set d a x) \<Longrightarrow> (k, v) \<in> set d \<or> v = x"
  by (induction d a x rule: dict_set.induct) (auto split: if_splits)

lemma filed_values:
  "(k, v) \<in> set (foldl (\<lambda>d (a, rs). dict_set d a rs) acc ps) \<Longrightarrow> (k, v) \<in> set acc \<or> v \<in> snd ` set ps"
  by (induction ps arbitrary: acc) (force dest: dict_set_values)+

text \<open>The first run is the baseline of every later one.\<close>

lemma baseline_is_the_first_run:
  "rd_baseline dir = None \<Longrightarrow>
     fst (record_run d2 s2 (snd (record_run d1 s1 dir))) = regressions s1 s2 \<and> fst (record_run d1 s1 dir) = []"
  by (simp add: record_run_def Let_def)

text \<open>A judge's answer without a grade is not the unparsable one: the whole run ends with it.\<close>

lemma null_grade_aborts: "read_judge (''{'' @ dump_str ''coherence'' @ '': null}'') = Inl ''TypeError''"
  by code_simp

section \<open>Properties\<close>

text \<open>
  C31: the score of a golden question is anchored in what the question asks for.  Every question of every
  specification has one result, in order, filed under the agent of the specification (a later specification
  of the same agent replaces an earlier one).  A request that failed scores 0; otherwise the recorded
  failures are those of the checks of that reply, there are none exactly when the reply is a text with every
  required pattern, no forbidden one and the expected agent, a reply that fails scores 0 and is not judged,
  and any other is judged on that question and text and scores a tenth of the two grades, each from 1 to 5
  unless the judge's answer was unusable.  So every average of the summary lies between 0 and 1, and no more
  failures are counted than questions.
\<close>

theorem golden_scores_are_anchored:
  assumes "run_golden env specs [] c s = (Inr results, c', s')"
  shows "(\<exists>rss. list_all2 (\<lambda>spec rs. list_all2 (scored env (gs_agent spec)) (gs_questions spec) rs) specs rss \<and>
      results = foldl (\<lambda>d (a, rs). dict_set d a rs) [] (zip (map gs_agent specs) rss)) \<and>
    (\<forall>(a, sm) \<in> set (summarize results).
       0 \<le> as_avg_score sm \<and> as_avg_score sm \<le> 1 \<and> as_mechanical_failures sm \<le> as_questions sm)"
proof -
  obtain rss where rss: "list_all2 (\<lambda>spec rs. list_all2 (scored env (gs_agent spec)) (gs_questions spec) rs) specs rss"
    "results = foldl (\<lambda>d (a, rs). dict_set d a rs) [] (zip (map gs_agent specs) rss)"
    using run_golden_scored [OF assms] by blast
  have u: "0 \<le> cr_score r \<and> cr_score r \<le> 1" if "(a, rs) \<in> set results" "r \<in> set rs" for a rs r
  proof -
    from that(1) rss(2) have "rs \<in> set rss" by (fastforce dest!: filed_values dest: set_zip_rightD)
    then obtain i where i: "i < length rss" "rs = rss ! i" by (auto simp: in_set_conv_nth)
    obtain spec :: golden_spec where "list_all2 (scored env (gs_agent spec)) (gs_questions spec) rs"
      using list_all2_nthD2 [OF rss(1) i(1)] unfolding i(2) by blast
    with that(2) obtain cs where "scored env (gs_agent spec) cs r" by (auto simp: list_all2_conv_all_nth in_set_conv_nth)
    then show ?thesis by (rule scored_unit)
  qed
  have "0 \<le> round3 (mean (map cr_score rs)) \<and> round3 (mean (map cr_score rs)) \<le> 1" if "(a, rs) \<in> set results" for a rs
    using u [OF that] mean_unit [of "map cr_score rs"] round3_unit by simp
  with rss show ?thesis by (fastforce simp: summarize_def)
qed

definition grading :: string where
  "grading = ''{'' @ dump_str ''coherence'' @ '': 4, '' @ dump_str ''actionability'' @ '': 9}''"

definition demo_golden :: "unit golden_env" where
  "demo_golden =
     \<lparr>ge_bedrock = quiet_bedrock (\<lambda>t. grading), ge_search = (\<lambda>p t. Inr (contains p t)),
      ge_ask = (\<lambda>q sid s. (Inr (JObj [(''response'', JStr ''all pods run''), (''agent'', JStr ''K8s'')]), s)),
      ge_judge_prompt = ''Grade.''\<rparr>"

definition demo_spec :: golden_spec where
  "demo_spec =
     \<lparr>gs_agent = ''k8s'', gs_questions =
        [\<lparr>gc_id = ''q1'', gc_question = ''pods?'', gc_must_contain = [''pods''], gc_must_not_contain = [''error''],
          gc_routing_expected = Some ''k8s''\<rparr>,
         \<lparr>gc_id = ''q2'', gc_question = ''cost?'', gc_must_contain = [''USD''], gc_must_not_contain = [],
          gc_routing_expected = None\<rparr>]\<rparr>"

lemma demo_checks:
  "mechanical_checks (\<lambda>p t. Inr (contains p t)) (JStr ''all pods run'') (JStr ''K8s'') (gs_questions demo_spec ! 0) = Inr []"
  "mechanical_checks (\<lambda>p t. Inr (contains p t)) (JStr ''all pods run'') (JStr ''K8s'') (gs_questions demo_spec ! 1) =
     Inr [''missing required pattern: '' @ py_repr ''USD'']"
  "read_judge grading = Inr \<lparr>jg_coherence = 4, jg_actionability = 5, jg_note = JStr []\<rparr>"
  by code_simp+

theorem golden_scores_are_anchored_witness:
  "\<exists>results c'. run_golden demo_golden [demo_spec] [] (new_bedrock_client quiet_settings) () = (Inr results, c', ()) \<and>
     map (\<lambda>(a, rs). map cr_score rs) results = [[9/10, 0]] \<and>
     (\<exists>rs. list_all2 (scored demo_golden ''k8s'') (gs_questions demo_spec) rs \<and> results = [(''k8s'', rs)])"
proof -
  let ?c = "new_bedrock_client quiet_settings" and ?reply = "JStr ''all pods run''"
  have q: "quiet_client ?c" by (simp add: quiet_client_def new_bedrock_client_def)
  define q1 where "q1 = gs_questions demo_spec ! 0"
  define q2 where "q2 = gs_questions demo_spec ! 1"
  have s: "gs_agent demo_spec = ''k8s''" "gs_questions demo_spec = [q1, q2]" by (simp_all add: demo_spec_def q1_def q2_def)
  note m = demo_checks [folded q1_def q2_def]
  obtain c1 where i: "judge_answer demo_golden (gc_question q1) ''all pods run'' ?c () =
      (Inr \<lparr>jg_coherence = 4, jg_actionability = 5, jg_note = JStr []\<rparr>, c1, ())"
    using quiet_invoke [OF q, of "\<lambda>t. grading" "judge_request ''Grade.'' (gc_question q1) ''all pods run''" "()"] m(3)
    by (auto simp: judge_answer_def demo_golden_def)
  let ?r1 = "case_outcome q1 [] (Some \<lparr>jg_coherence = 4, jg_actionability = 5, jg_note = JStr []\<rparr>)"
  let ?r2 = "case_outcome q2 [''missing required pattern: '' @ py_repr ''USD''] None"
  have a: "ge_ask demo_golden t sid () = (Inr (JObj [(''response'', ?reply), (''agent'', JStr ''K8s'')]), ())"
    "ge_search demo_golden = (\<lambda>p t. Inr (contains p t))" for t sid by (simp_all add: demo_golden_def)
  have f: "dict_field (JObj [(''response'', ?reply), (''agent'', JStr ''K8s'')]) ''response'' (JStr []) = ?reply"
    "dict_field (JObj [(''response'', ?reply), (''agent'', JStr ''K8s'')]) ''agent'' (JStr []) = JStr ''K8s''"
    "py_str ?reply = ''all pods run''" "is_dict (JObj [(''response'', ?reply), (''agent'', JStr ''K8s'')])"
    by (simp_all add: dict_field_def py_str_def)
  have "run_case demo_golden ''k8s'' q1 ?c () = (Inr ?r1, c1, ())"
    unfolding run_case_def a prod.case sum.case Let_def f m by (simp add: i)
  moreover have "run_case demo_golden ''k8s'' q2 c1 () = (Inr ?r2, c1, ())"
    unfolding run_case_def a prod.case sum.case Let_def f m by simp
  ultimately have r: "run_golden demo_golden [demo_spec] [] ?c () = (Inr [(''k8s'', [?r1, ?r2])], c1, ())" by (simp add: s)
  have "cr_score ?r1 = 9/10" "cr_score ?r2 = 0" using round3_tenths [of 9] by (simp_all add: case_outcome_def)
  moreover from golden_scores_are_anchored [OF r] obtain rs where
    "list_all2 (scored demo_golden ''k8s'') (gs_questions demo_spec) rs" "[(''k8s'', [?r1, ?r2])] = [(''k8s'', rs)]"
    by (auto simp: list_all2_Cons1 s(1))
  ultimately show ?thesis using r by (intro exI [of _ "[(''k8s'', [?r1, ?r2])]"] exI [of _ c1] conjI) auto
qed

text \<open>
  An investigation scenario passes exactly when the hypothesis matches one of its expected patterns
  (if it has any) and none of its forbidden ones and the confidence reaches the level it asks for; the
  score is 1 then and 0 otherwise, and a failed scenario names at least one failure.
\<close>

lemma first_hit_text:
  assumes "\<And>p t. look p t = Inr (hits p t)"
  shows "first_hit look ps (JStr t) = Inr (find (\<lambda>p. hits p t) ps)"
  by (induction ps) (simp_all add: search_value_def assms)

theorem scenario_passes_iff:
  assumes "\<And>p t. look p t = Inr (hits p t)" "[] \<notin> set (sn_forbidden_keywords sc)" "rca_hypothesis rca = JStr t"
  shows "\<exists>r. score_scenario look sc rca = Inr r \<and> ss_score r = of_bool (ss_passed r) \<and> (ss_passed r \<longleftrightarrow> ss_failures r = []) \<and>
    (ss_passed r \<longleftrightarrow>
       (sn_expected_keywords sc = [] \<or> (\<exists>p \<in> set (sn_expected_keywords sc). hits p t)) \<and>
       \<not> (\<exists>p \<in> set (sn_forbidden_keywords sc). hits p t) \<and>
       level_of (case sn_expected_confidence_min sc of None \<Rightarrow> ''baixa'' | Some m \<Rightarrow> m) \<le> level_of (rca_confidence rca))"
proof -
  note f = first_hit_text [of look hits, OF assms(1)]
  have h: "or_else (Some (rca_hypothesis rca)) (JStr []) = JStr t" by (simp add: assms(3) or_else_def)
  let ?es = "sn_expected_keywords sc" and ?fs = "sn_forbidden_keywords sc"
  have e: "keyword_verdict look ?es (JStr t) = Inr (?es = [] \<or> (\<exists>p \<in> set ?es. hits p t))"
    by (cases "find (\<lambda>p. hits p t) ?es") (auto simp: keyword_verdict_def f find_None_iff find_Some_iff dest: nth_mem)
  have n: "find (\<lambda>p. hits p t) ?fs \<noteq> Some []" using assms(2) by (auto simp: find_Some_iff dest: nth_mem)
  have k: "find (\<lambda>p. hits p t) ?fs = None \<longleftrightarrow> \<not> (\<exists>p \<in> set ?fs. hits p t)" by (auto simp: find_None_iff)
  show ?thesis
    unfolding score_scenario_def Let_def h e f sum.case confidence_rank_le
    using n k by (auto simp: score_failures_def split: option.splits list.splits)
qed

text \<open>A scenario asking for media confidence.\<close>

definition leak_scenario :: scenario where
  "leak_scenario =
     \<lparr>sn_id = ''memory-leak'', sn_symptom = ''pods restart'', sn_fixtures = [(''k8s'', ''OOMKilled 4 times'')],
      sn_expected_keywords = [''leak''], sn_forbidden_keywords = [''deploy''], sn_expected_confidence_min = Some ''media''\<rparr>"

definition leak_rca :: rca_result where
  "leak_rca =
     \<lparr>rca_hypothesis = JStr ''a memory leak'', rca_confidence = ''alta'', rca_evidence = chain_evidence, rca_timeline = [],
      rca_contradicting = [], rca_prevention = JList [], rca_confidence_level = ''HIGH'', rca_confidence_track = ''A'',
      rca_independent_signal_count = 3, rca_temporal_violations = []\<rparr>"

theorem scenario_passes_iff_witness:
  "\<exists>r. score_scenario (\<lambda>p t. Inr (contains p t)) leak_scenario leak_rca = Inr r \<and> ss_passed r \<and> ss_score r = 1"
proof -
  have f: "[] \<notin> set (sn_forbidden_keywords leak_scenario)" "rca_hypothesis leak_rca = JStr ''a memory leak''"
    by (simp_all add: leak_scenario_def leak_rca_def)
  have "contains ''leak'' ''a memory leak''" "\<not> contains ''deploy'' ''a memory leak''" by code_simp+
  with scenario_passes_iff [of "\<lambda>p t. Inr (contains p t)" contains, OF refl f] show ?thesis
    by (auto simp: leak_scenario_def leak_rca_def level_of_def less_eq_level_def)
qed

lemma low_scenario_fails:
  assumes "run_scenario look env rg skills sc st = (Inr r, st')"
    "sn_expected_confidence_min sc \<in> {Some ''media'', Some ''alta''}"
  shows "ss_score r = 0 \<and> \<not> ss_passed r"
proof -
  from assms(1) obtain rca ags where i: "run_investigation env (sn_symptom sc) (build_fixture_agents sc rg skills)
      (''rca-eval-'' @ sn_id sc) [] None st = (Inr rca, ags, st')" and s: "score_scenario look sc rca = Inr r"
    by (auto simp: run_scenario_def map_sum_Inr split: prod.splits sum.splits)
  have "confidence_rank (rca_confidence rca) = 1"
    by (simp add: investigations_are_low [OF i] confidence_rank_def CONFIDENCE_RANK_def)
  moreover obtain m where m: "sn_expected_confidence_min sc = Some m" "1 < confidence_rank m"
    using assms(2) by (auto simp: confidence_rank_def CONFIDENCE_RANK_def)
  ultimately show ?thesis
    using s by (auto simp: score_scenario_def Let_def split: sum.splits)
qed

lemma scenarios_score_zero:
  "run_scenarios look env rg skills scs st = (Inr rs, st') \<Longrightarrow>
     \<forall>sc \<in> set scs. sn_expected_confidence_min sc \<in> {Some ''media'', Some ''alta''} \<Longrightarrow>
     length rs = length scs \<and> (\<forall>r \<in> set rs. ss_score r = 0 \<and> \<not> ss_passed r)"
proof (induction scs arbitrary: rs st)
  case (Cons sc scs)
  then obtain r st1 rs2 where "run_scenario look env rg skills sc st = (Inr r, st1)"
    "run_scenarios look env rg skills scs st1 = (Inr rs2, st')" "rs = r # rs2"
    by (auto simp: map_sum_Inr_ex split: prod.splits sum.splits)
  with Cons low_scenario_fails [of look env rg skills sc st r st1] show ?case by simp
qed simp

lemma mean_zero: "\<forall>x \<in> set xs. f x = 0 \<Longrightarrow> mean (map f xs) = 0"
  by (simp add: mean_def cong: map_cong)

text \<open>
  No scenario that asks for more than low confidence ever passes, whatever the agents and the model
  answer: the investigation it runs reports low confidence always.  All scenarios under src/evals/rca ask
  for media.
\<close>

theorem scenarios_above_low_never_pass:
  assumes "run_rca_eval look env rg skills scs st = (Inr (avg, rs), st')"
    "\<forall>sc \<in> set scs. sn_expected_confidence_min sc \<in> {Some ''media'', Some ''alta''}"
  shows "avg = 0 \<and> length rs = length scs \<and> (\<forall>r \<in> set rs. \<not> ss_passed r)"
proof -
  from assms(1) have "run_scenarios look env rg skills scs st = (Inr rs, st')" and "avg = mean (map ss_score rs)"
    by (auto simp: run_rca_eval_def map_sum_Inr_ex split: prod.splits)
  with scenarios_score_zero [OF this(1) assms(2)] show ?thesis by (simp add: mean_zero)
qed

text \<open>The scenario on a squad of one agent, whose hypothesis is the expected one.\<close>

lemma fixture_squad:
  "build_fixture_agents sc pods_registry sk = [(''k8s'', fixture_agent sc pods_registry sk (demo_config ''k8s''))]"
  by (simp add: build_fixture_agents_def pods_registry_def demo_config_def)

lemma leak_scenario_runs:
  assumes "quiet_client (as_client st)"
  shows "\<exists>r st'. run_scenario (\<lambda>p t. Inr (contains p t)) (quiet_squad demo_answers) pods_registry [] leak_scenario st = (Inr r, st') \<and>
    ss_hypothesis r = JStr ''leak''"
proof -
  let ?ag = "fixture_agent leak_scenario pods_registry [] (demo_config ''k8s'')"
  have "ag_config ?ag = demo_config ''k8s''" "mcp_adapters ?ag = []"
    by (simp_all add: fixture_agent_def mcp_adapters_def tool_adapter_def)
  moreover have "infra_text quiet_sources (ag_adapters ?ag) t s = (''OOMKilled 4 times'', s)" for t s
    by (simp add: fixture_agent_def infra_text_def adapter_collect_def raw_collect_def leak_scenario_def demo_config_def nonempty_def Let_def)
  ultimately obtain rca ags st' where
    "run_investigation (quiet_squad demo_answers) ''pods restart'' [(''k8s'', ?ag)] ''rca-eval-memory-leak'' [] None st = (Inr rca, ags, st')"
    and h: "rca_hypothesis rca = JStr ''leak''"
    using demo_investigation_of [OF assms] by metis
  then have i: "run_investigation (quiet_squad demo_answers) (sn_symptom leak_scenario) (build_fixture_agents leak_scenario pods_registry [])
      (''rca-eval-'' @ sn_id leak_scenario) [] None st = (Inr rca, ags, st')"
    by (simp add: fixture_squad) (simp add: leak_scenario_def)
  have "or_else (Some (rca_hypothesis rca)) (JStr []) = JStr ''leak''" by (simp add: h or_else_def)
  then show ?thesis
    unfolding run_scenario_def i prod.case sum.case
    by (simp add: score_scenario_def keyword_verdict_def leak_scenario_def search_value_def Let_def)
qed

theorem scenarios_above_low_never_pass_witness:
  "\<exists>avg rs st'. run_rca_eval (\<lambda>p t. Inr (contains p t)) (quiet_squad demo_answers) pods_registry [] [leak_scenario]
       \<lparr>as_client = new_bedrock_client quiet_settings, as_breakers = [], as_canary = [], as_world = ()\<rparr> = (Inr (avg, rs), st') \<and>
     avg = 0 \<and> length rs = 1"
proof -
  let ?st = "\<lparr>as_client = new_bedrock_client quiet_settings, as_breakers = [], as_canary = [], as_world = ()\<rparr>"
  have q: "quiet_client (as_client ?st)" by (simp add: quiet_client_def new_bedrock_client_def)
  obtain r st' where "run_scenario (\<lambda>p t. Inr (contains p t)) (quiet_squad demo_answers) pods_registry [] leak_scenario ?st = (Inr r, st')"
    using leak_scenario_runs [OF q] by metis
  then have e: "run_rca_eval (\<lambda>p t. Inr (contains p t)) (quiet_squad demo_answers) pods_registry [] [leak_scenario] ?st =
      (Inr (mean [ss_score r], [r]), st')"
    by (simp add: run_rca_eval_def)
  have "sn_expected_confidence_min leak_scenario = Some ''media''" by (simp add: leak_scenario_def)
  with e scenarios_above_low_never_pass [OF e] show ?thesis by (intro exI conjI) auto
qed

end
