(* ===== verification/SpecsStatus.thy ===== *)
theory SpecsStatus
  imports Classifier Skills
begin

text \<open>
  The validator of the specification lifecycle, src/scripts/specs_status.py: reading the front matter
  of each specification, its invariants, the cross check with the backlog, and the canonical table of
  the roadmap.  The tree of specifications is the part of it the script reads: its directories with the
  text of their requirements, the backlog and the roadmap.  YAML loading is a parameter (a date it loads
  is the text it prints as); reading a value of the wrong kind raises, which is a \<open>Inl\<close>.  Texts are
  their UTF-8 bytes, and \<open>\d\<close> of the directory pattern is an ASCII digit.
\<close>

section \<open>The tree\<close>

record spec_dir =
  sd_name :: string
  sd_is_dir :: bool
  sd_requirements :: "string option"
  sd_bugfix :: bool

record spec_tree =
  st_dirs :: "spec_dir list"
  st_backlog :: "string option"
  st_roadmap :: "string option"

type_synonym specs = "(string \<times> json option) list"

definition ALLOWED :: "string list" where
  "ALLOWED =
     [''design-only'', ''done'', ''done-with-deferrals'', ''dormant'', ''in-progress'', ''not-started'', ''removed'', ''superseded'']"

definition TABLE_START :: string where
  "TABLE_START = ''<!-- specs-status:start -->''"

definition TABLE_END :: string where
  "TABLE_END = ''<!-- specs-status:end -->''"

definition em_dash :: string where
  "em_dash = [CHR 0xE2, CHR 0x80, CHR 0x94]"

definition right_arrow :: string where
  "right_arrow = [CHR 0xE2, CHR 0x86, CHR 0x92]"

section \<open>Reading\<close>

text \<open>None is a file without front matter.\<close>

definition load_frontmatter :: "yaml_loader \<Rightarrow> string \<Rightarrow> exn + json option" where
  "load_frontmatter yaml t =
     (if \<not> prefix ''---'' t then Inr None
      else (case split_at_first ''---'' (drop 3 t) of
              None \<Rightarrow> Inr None
            | Some (front, rest) \<Rightarrow> map_sum id (\<lambda>v. Some (or_else (Some v) (JObj []))) (yaml front)))"

fun is_spec_name :: "string \<Rightarrow> bool" where
  "is_spec_name (a # b # c # cs) = (is_digit a \<and> is_digit b \<and> c = CHR ''-'')"
| "is_spec_name _ = False"

definition spec_dirs :: "spec_tree \<Rightarrow> spec_dir list" where
  "spec_dirs tree = filter (\<lambda>d. sd_is_dir d \<and> is_spec_name (sd_name d)) (sort_key sd_name (st_dirs tree))"

definition dir_frontmatter :: "yaml_loader \<Rightarrow> spec_dir \<Rightarrow> exn + json option" where
  "dir_frontmatter yaml d = (case sd_requirements d of None \<Rightarrow> Inr None | Some t \<Rightarrow> load_frontmatter yaml t)"

fun collect_dirs :: "yaml_loader \<Rightarrow> spec_dir list \<Rightarrow> exn + specs" where
  "collect_dirs yaml [] = Inr []"
| "collect_dirs yaml (d # ds) =
     (case dir_frontmatter yaml d of
        Inl e \<Rightarrow> Inl e
      | Inr fm \<Rightarrow> map_sum id ((#) (sd_name d, fm)) (collect_dirs yaml ds))"

definition collect_specs :: "yaml_loader \<Rightarrow> spec_tree \<Rightarrow> exn + specs" where
  "collect_specs yaml tree = collect_dirs yaml (spec_dirs tree)"

section \<open>Validation\<close>

definition REGISTER :: string where
  "REGISTER = ''## Deferred register''"

text \<open>The register's section of the backlog, or all of it where it has none.\<close>

definition backlog_deferred_section :: "string option \<Rightarrow> string" where
  "backlog_deferred_section backlog =
     (case backlog of
        None \<Rightarrow> []
      | Some t \<Rightarrow> (case split_at_first REGISTER t of None \<Rightarrow> t | Some (a, section) \<Rightarrow> section))"

definition spec_field :: "json \<Rightarrow> string \<Rightarrow> json" where
  "spec_field fm k = dict_field fm k JNull"

definition deferred_of :: "json \<Rightarrow> json" where
  "deferred_of fm = or_else (Some (spec_field fm ''deferred'')) (JList [])"

definition deferred_key :: "json \<Rightarrow> string" where
  "deferred_key item = py_strip (takeWhile (\<lambda>c. c \<noteq> CHR ''('') (py_str item))"

definition unreferenced :: "string \<Rightarrow> json \<Rightarrow> bool" where
  "unreferenced section item \<longleftrightarrow> deferred_key item \<noteq> [] \<and> \<not> contains (deferred_key item) section"

text \<open>The message of each rule a specification breaks, once its status is known.\<close>

definition lifecycle_errors :: "string \<Rightarrow> json \<Rightarrow> string list" where
  "lifecycle_errors nm fm =
     (let status = spec_field fm ''status''; deferred = deferred_of fm
      in (if spec_field fm ''spec'' \<noteq> JStr nm
          then [nm @ '': frontmatter spec:'' @ py_str_item (spec_field fm ''spec'') @ '' != dir name''] else [])
         @ (if status = JStr ''superseded'' \<and> \<not> json_truthy (spec_field fm ''superseded_by'')
            then [nm @ '': status '' @ py_repr ''superseded'' @ '' requires superseded_by''] else [])
         @ (if status = JStr ''done-with-deferrals'' \<and> \<not> json_truthy deferred
            then [nm @ '': '' @ py_repr ''done-with-deferrals'' @ '' requires a non-empty deferred[]''] else [])
         @ (if status = JStr ''done'' \<and> json_truthy deferred
            then [nm @ '': plain '' @ py_repr ''done'' @ '' must not carry deferred[]; use '' @ py_repr ''done-with-deferrals''] else []))"

definition backlog_errors :: "string \<Rightarrow> string \<Rightarrow> json \<Rightarrow> exn + string list" where
  "backlog_errors section nm deferred =
     (if json_truthy deferred \<and> section \<noteq> [] then
        case json_items deferred of
          None \<Rightarrow> Inl ''TypeError''
        | Some items \<Rightarrow>
            Inr (map (\<lambda>item. nm @ '': deferred item '' @ py_str_item item @ '' not referenced in specs/BACKLOG.md'')
                     (filter (unreferenced section) items))
      else Inr [])"

text \<open>A status that is a list or an object cannot be looked up in the set.\<close>

definition unknown_status :: "string \<Rightarrow> json \<Rightarrow> string" where
  "unknown_status nm status =
     nm @ '': unknown status '' @ py_str_item status @ '' (allowed: '' @ py_str_item (JList (map JStr ALLOWED)) @ '')''"

definition spec_errors :: "string \<Rightarrow> string \<Rightarrow> json \<Rightarrow> exn + string list" where
  "spec_errors section nm fm =
     (if \<not> is_dict fm then Inl ''AttributeError''
      else (case spec_field fm ''status'' of
              JList xs \<Rightarrow> Inl ''TypeError''
            | JObj ms \<Rightarrow> Inl ''TypeError''
            | status \<Rightarrow>
                if status \<notin> set (map JStr ALLOWED) then Inr [unknown_status nm status]
                else map_sum id (\<lambda>es. lifecycle_errors nm fm @ es) (backlog_errors section nm (deferred_of fm))))"

text \<open>A directory of a single bugfix needs no front matter.\<close>

definition is_bugfix :: "spec_tree \<Rightarrow> string \<Rightarrow> bool" where
  "is_bugfix tree nm \<longleftrightarrow> list_ex (\<lambda>d. sd_name d = nm \<and> sd_requirements d = None \<and> sd_bugfix d) (st_dirs tree)"

fun validate_specs :: "spec_tree \<Rightarrow> string \<Rightarrow> specs \<Rightarrow> exn + string list" where
  "validate_specs tree section [] = Inr []"
| "validate_specs tree section ((nm, fm) # rest) =
     (case (case fm of
              None \<Rightarrow> Inr (if is_bugfix tree nm then [] else [nm @ '': requirements.md is missing YAML frontmatter''])
            | Some v \<Rightarrow> spec_errors section nm v) of
        Inl e \<Rightarrow> Inl e
      | Inr es \<Rightarrow> map_sum id ((@) es) (validate_specs tree section rest))"

definition validate :: "spec_tree \<Rightarrow> specs \<Rightarrow> exn + string list" where
  "validate tree = validate_specs tree (backlog_deferred_section (st_backlog tree))"

section \<open>The table\<close>

definition table_row :: "string \<Rightarrow> string \<Rightarrow> string \<Rightarrow> string \<Rightarrow> string" where
  "table_row nm status completed notes = ''| '' @ nm @ '' | '' @ status @ '' | '' @ completed @ '' | '' @ notes @ '' |''"

text \<open>\<open>", ".join(v)\<close> needs texts.\<close>

definition is_text :: "json \<Rightarrow> bool" where
  "is_text v \<longleftrightarrow> (case v of JStr t \<Rightarrow> True | _ \<Rightarrow> False)"

definition join_texts :: "json \<Rightarrow> exn + string" where
  "join_texts v =
     (case json_items v of
        None \<Rightarrow> Inl ''TypeError''
      | Some items \<Rightarrow> if list_all is_text items then Inr (py_join '', '' (map py_str items)) else Inl ''TypeError'')"

definition table_notes :: "json \<Rightarrow> exn + string" where
  "table_notes fm =
     (let status = dict_field fm ''status'' (JStr ''?'')
      in if status = JStr ''superseded'' then Inr (right_arrow @ '' '' @ py_str (spec_field fm ''superseded_by''))
         else if status = JStr ''done-with-deferrals'' then
           (case json_items (deferred_of fm) of
              None \<Rightarrow> Inl ''TypeError''
            | Some items \<Rightarrow> Inr (''deferred: '' @ py_join '', '' (map py_str items)))
         else if json_truthy (spec_field fm ''depends_on'') then
           map_sum id (\<lambda>t. ''depends_on: '' @ t) (join_texts (spec_field fm ''depends_on''))
         else Inr [])"

definition spec_row :: "string \<times> json option \<Rightarrow> exn + string" where
  "spec_row nf =
     (case nf of
        (nm, None) \<Rightarrow> Inr (table_row nm ''bugfix'' em_dash ''single-file bugfix.md'')
      | (nm, Some fm) \<Rightarrow>
          if \<not> is_dict fm then Inl ''AttributeError''
          else map_sum id (table_row nm (py_str (dict_field fm ''status'' (JStr ''?'')))
                 (py_str (or_else (Some (spec_field fm ''completed'')) (JStr em_dash)))) (table_notes fm))"

fun spec_rows :: "specs \<Rightarrow> exn + string list" where
  "spec_rows [] = Inr []"
| "spec_rows (s # ss) =
     (case spec_row s of Inl e \<Rightarrow> Inl e | Inr r \<Rightarrow> map_sum id ((#) r) (spec_rows ss))"

definition TABLE_HEAD :: "string list" where
  "TABLE_HEAD = [''| Spec | Status | Completed | Notes |'', ''|------|--------|-----------|-------|'']"

definition canonical_table :: "specs \<Rightarrow> exn + string" where
  "canonical_table specs = map_sum id (\<lambda>rows. py_join nl (TABLE_HEAD @ rows)) (spec_rows (sort_key fst specs))"

definition OUT_OF_SYNC :: string where
  "OUT_OF_SYNC = ''ROADMAP canonical status table is out of sync with frontmatter (run --table)''"

text \<open>What stands between the markers; None where one of them is missing.\<close>

definition roadmap_table :: "string \<Rightarrow> string option" where
  "roadmap_table t =
     (if \<not> contains TABLE_START t \<or> \<not> contains TABLE_END t then None
      else (case split_at_first TABLE_START t of
              None \<Rightarrow> None
            | Some (a, rest) \<Rightarrow> Some (py_strip (case split_at_first TABLE_END rest of None \<Rightarrow> rest | Some (tbl, b) \<Rightarrow> tbl))))"

definition roadmap_mismatch :: "spec_tree \<Rightarrow> specs \<Rightarrow> exn + string option" where
  "roadmap_mismatch tree specs =
     (case Option.bind (st_roadmap tree) roadmap_table of
        None \<Rightarrow> Inr None
      | Some current \<Rightarrow>
          map_sum id (\<lambda>tbl. if current \<noteq> py_strip tbl then Some OUT_OF_SYNC else None) (canonical_table specs))"

section \<open>The run\<close>

definition status_report :: "specs \<Rightarrow> string list \<Rightarrow> nat \<times> string" where
  "status_report specs errors =
     (if errors \<noteq> [] then (1, py_join nl (''spec status validation FAILED:'' # map (\<lambda>e. ''  - '' @ e) errors))
      else (0, ''spec status OK '' @ em_dash @ '' '' @ show_nat (length (filter (\<lambda>s. snd s \<noteq> None) specs))
                 @ '' specs with frontmatter, '' @ show_nat (length (filter (\<lambda>s. snd s = None) specs)) @ '' bugfix-tier''))"

definition run_status :: "yaml_loader \<Rightarrow> spec_tree \<Rightarrow> bool \<Rightarrow> exn + nat \<times> string" where
  "run_status yaml tree emit_table =
     (case collect_specs yaml tree of
        Inl e \<Rightarrow> Inl e
      | Inr specs \<Rightarrow>
          (if emit_table then map_sum id (Pair 0) (canonical_table specs)
           else (case validate tree specs of
                   Inl e \<Rightarrow> Inl e
                 | Inr errors \<Rightarrow>
                     map_sum id (\<lambda>m. status_report specs (errors @ (case m of None \<Rightarrow> [] | Some t \<Rightarrow> [t])))
                       (roadmap_mismatch tree specs))))"

section \<open>Lemmas\<close>


text \<open>A text that starts with a character it has nowhere else cannot overlap itself.\<close>

lemma prefix_straddle:
  assumes "c \<notin> set ns" "prefix (c # ns) (xs @ (c # ns) @ ys)" "xs \<noteq> []"
  shows "prefix (c # ns) xs"
proof (cases "length (c # ns) \<le> length xs")
  case True
  with assms(2) show ?thesis by (metis prefix_length_prefix prefixI)
next
  case False
  with assms(2) have "prefix xs (c # ns)" by (metis nle_le prefix_length_prefix prefixI)
  then obtain zs where z: "c # ns = xs @ zs" by (auto simp: prefix_def)
  with False have "zs \<noteq> []" by auto
  moreover from assms(2) z have "prefix zs ((c # ns) @ ys)" by simp
  ultimately obtain zs' where "zs = c # zs'" by (cases zs) auto
  with z assms(3) have "c \<in> set ns" by (cases xs) auto
  with assms(1) show ?thesis by simp
qed

lemma split_at_marker:
  assumes "c \<notin> set ns" "\<not> contains (c # ns) pre"
  shows "split_at_first (c # ns) (pre @ (c # ns) @ post) = Some (pre, post)"
  using assms(2)
proof (induction pre)
  case Nil
  then show ?case by simp
next
  case (Cons d pre)
  have "\<not> prefix (c # ns) ((d # pre) @ (c # ns) @ post)"
    using prefix_straddle [OF assms(1), of "d # pre" post] Cons.prems by auto
  moreover have "split_at_first (c # ns) (pre @ (c # ns) @ post) = Some (pre, post)"
    using Cons by simp
  ultimately show ?case by simp
qed

lemma strip_inside: "is_space c \<Longrightarrow> is_space d \<Longrightarrow> py_strip (c # t @ [d]) = py_strip t"
  by (cases "list_all is_space t")
    (auto simp: py_strip_def dropWhile_append list_all_iff dropWhile_eq_Nil_conv dest: set_dropWhileD)

lemma collect_names: "collect_dirs yaml ds = Inr specs \<Longrightarrow> map fst specs = map sd_name ds"
  by (induction ds arbitrary: specs) (auto simp: map_sum_Inr_ex split: sum.splits)

section \<open>Properties\<close>

text \<open>
  What the lifecycle asks of a specification.  Deferred items are looked up only in a register that has text.
\<close>

definition spec_consistent :: "spec_tree \<Rightarrow> string \<times> json option \<Rightarrow> bool" where
  "spec_consistent tree nf \<longleftrightarrow>
     (case nf of
        (nm, None) \<Rightarrow> is_bugfix tree nm
      | (nm, Some fm) \<Rightarrow>
          (\<exists>status \<in> set ALLOWED. spec_field fm ''status'' = JStr status \<and>
             (status = ''superseded'' \<longrightarrow> json_truthy (spec_field fm ''superseded_by'')) \<and>
             (status = ''done-with-deferrals'' \<longrightarrow> json_truthy (deferred_of fm)) \<and>
             (status = ''done'' \<longrightarrow> \<not> json_truthy (deferred_of fm))) \<and>
          spec_field fm ''spec'' = JStr nm \<and>
          (\<forall>items. json_truthy (deferred_of fm) \<longrightarrow> json_items (deferred_of fm) = Some items \<longrightarrow>
             (let section = backlog_deferred_section (st_backlog tree)
              in section \<noteq> [] \<longrightarrow> (\<forall>item \<in> set items. \<not> unreferenced section item))))"

lemma spec_consistent_Some:
  assumes "spec_field fm ''status'' = JStr s" "s \<in> set ALLOWED"
  shows "spec_consistent tree (nm, Some fm) \<longleftrightarrow> lifecycle_errors nm fm = [] \<and>
     (\<forall>items. json_truthy (deferred_of fm) \<longrightarrow> json_items (deferred_of fm) = Some items \<longrightarrow>
        backlog_deferred_section (st_backlog tree) \<noteq> [] \<longrightarrow>
        (\<forall>item \<in> set items. \<not> unreferenced (backlog_deferred_section (st_backlog tree)) item))"
  using assms by (auto simp: spec_consistent_def lifecycle_errors_def Let_def)

lemma spec_errors_Nil:
  assumes "spec_errors (backlog_deferred_section (st_backlog tree)) nm fm = Inr es"
  shows "es = [] \<longleftrightarrow> spec_consistent tree (nm, Some fm)"
proof (cases "\<exists>s \<in> set ALLOWED. spec_field fm ''status'' = JStr s")
  case True
  then obtain s where s: "spec_field fm ''status'' = JStr s" "s \<in> set ALLOWED" by blast
  let ?section = "backlog_deferred_section (st_backlog tree)"
  from assms s obtain bs where b: "backlog_errors ?section nm (deferred_of fm) = Inr bs" "es = lifecycle_errors nm fm @ bs"
    by (auto simp: spec_errors_def map_sum_Inr_ex split: if_splits)
  have "bs = [] \<longleftrightarrow> (\<forall>items. json_truthy (deferred_of fm) \<longrightarrow> json_items (deferred_of fm) = Some items \<longrightarrow>
      ?section \<noteq> [] \<longrightarrow> (\<forall>item \<in> set items. \<not> unreferenced ?section item))"
    using b(1) by (auto simp: backlog_errors_def filter_empty_conv split: if_splits option.splits)
  with b(2) show ?thesis unfolding spec_consistent_Some [OF s] by auto
next
  case False
  then have "es \<noteq> []" using assms by (auto simp: spec_errors_def split: if_splits json.splits)
  moreover have "\<not> spec_consistent tree (nm, Some fm)" using False by (auto simp: spec_consistent_def)
  ultimately show ?thesis by simp
qed

lemma validate_Nil:
  "validate_specs tree (backlog_deferred_section (st_backlog tree)) specs = Inr es \<Longrightarrow>
     es = [] \<longleftrightarrow> (\<forall>s \<in> set specs. spec_consistent tree s)"
proof (induction specs arbitrary: es)
  case (Cons s specs)
  obtain nm fm where s: "s = (nm, fm)" by fastforce
  show ?case
  proof (cases fm)
    case None
    with Cons s show ?thesis by (auto simp: map_sum_Inr_ex spec_consistent_def split: if_splits)
  next
    case (Some v)
    with Cons.prems s obtain es1 es2 where e: "spec_errors (backlog_deferred_section (st_backlog tree)) nm v = Inr es1"
      "validate_specs tree (backlog_deferred_section (st_backlog tree)) specs = Inr es2" "es = es1 @ es2"
      by (auto simp: map_sum_Inr_ex split: sum.splits)
    from spec_errors_Nil [OF e(1)] Cons.IH [OF e(2)] e(3) show ?thesis by (simp add: s Some)
  qed
qed simp

section \<open>Properties of the run\<close>

text \<open>A tree of one specification with a deferral and one bugfix.\<close>

definition demo_yaml :: yaml_loader where
  "demo_yaml t =
     Inr (JObj [(''spec'', JStr ''01-cache''), (''status'', JStr ''done-with-deferrals''), (''deferred'', JList [JStr ''T9 (docs)''])])"

definition demo_tree :: "string option \<Rightarrow> spec_tree" where
  "demo_tree roadmap =
     \<lparr>st_dirs = [\<lparr>sd_name = ''02-fix'', sd_is_dir = True, sd_requirements = None, sd_bugfix = True\<rparr>,
                 \<lparr>sd_name = ''01-cache'', sd_is_dir = True, sd_requirements = Some (''---'' @ nl @ ''spec: 01-cache'' @ nl @ ''---'' @ nl),
                  sd_bugfix = False\<rparr>,
                 \<lparr>sd_name = ''notes'', sd_is_dir = True, sd_requirements = None, sd_bugfix = False\<rparr>],
      st_backlog = Some (REGISTER @ nl @ ''- T9''), st_roadmap = roadmap\<rparr>"

definition demo_table :: string where
  "demo_table =
     py_join nl (TABLE_HEAD @ [''| 01-cache | done-with-deferrals | '' @ em_dash @ '' | deferred: T9 (docs) |'',
                               ''| 02-fix | bugfix | '' @ em_dash @ '' | single-file bugfix.md |''])"

definition demo_roadmap :: "string \<Rightarrow> string" where
  "demo_roadmap tbl = ''# Roadmap'' @ TABLE_START @ nl @ tbl @ nl @ TABLE_END @ nl"

text \<open>
  C32: the gate passes exactly the consistent trees: when the run returns, its code is 0 just if every
  directory of a specification without front matter is a bugfix, every front matter has an allowed
  status, names its directory and keeps the rules of superseded, done and done-with-deferrals, each
  deferred item is referenced in the backlog's register wherever there is one to look in (without a
  backlog, or with an empty register, the references are not checked), and the roadmap's table, where
  it is marked, is the canonical one; otherwise the code is 1.
\<close>

theorem gate_passes_consistent_specs:
  assumes "run_status yaml tree False = Inr (code, out)"
  shows "\<exists>specs. collect_specs yaml tree = Inr specs \<and> map fst specs = map sd_name (spec_dirs tree) \<and> code \<in> {0, 1} \<and>
    (code = 0 \<longleftrightarrow> (\<forall>s \<in> set specs. spec_consistent tree s) \<and>
       (\<forall>current. Option.bind (st_roadmap tree) roadmap_table = Some current \<longrightarrow>
          (\<exists>tbl. canonical_table specs = Inr tbl \<and> current = py_strip tbl)))"
proof -
  from assms obtain specs errors m where c: "collect_specs yaml tree = Inr specs" and v: "validate tree specs = Inr errors"
    and m: "roadmap_mismatch tree specs = Inr m"
    and r: "(code, out) = status_report specs (errors @ (case m of None \<Rightarrow> [] | Some t \<Rightarrow> [t]))"
    by (auto simp: run_status_def map_sum_Inr_ex split: sum.splits)
  have n: "map fst specs = map sd_name (spec_dirs tree)" using c by (simp add: collect_specs_def collect_names)
  have e: "errors = [] \<longleftrightarrow> (\<forall>s \<in> set specs. spec_consistent tree s)" using v by (simp add: validate_def validate_Nil)
  have "m = None \<longleftrightarrow> (\<forall>current. Option.bind (st_roadmap tree) roadmap_table = Some current \<longrightarrow>
      (\<exists>tbl. canonical_table specs = Inr tbl \<and> current = py_strip tbl))"
    using m by (auto simp: roadmap_mismatch_def map_sum_Inr_ex split: option.splits if_splits)
  with c n e r show ?thesis by (auto simp: status_report_def split: if_splits option.splits)
qed

theorem gate_passes_consistent_specs_witness:
  "run_status demo_yaml (demo_tree (Some (demo_roadmap demo_table))) False =
     Inr (0, ''spec status OK '' @ em_dash @ '' 1 specs with frontmatter, 1 bugfix-tier'') \<and>
   (\<exists>specs. collect_specs demo_yaml (demo_tree (Some (demo_roadmap demo_table))) = Inr specs \<and> map fst specs = [''01-cache'', ''02-fix''] \<and>
      (\<forall>s \<in> set specs. spec_consistent (demo_tree (Some (demo_roadmap demo_table))) s))"
proof -
  have r: "run_status demo_yaml (demo_tree (Some (demo_roadmap demo_table))) False =
      Inr (0, ''spec status OK '' @ em_dash @ '' 1 specs with frontmatter, 1 bugfix-tier'')" by code_simp
  have n: "map sd_name (spec_dirs (demo_tree (Some (demo_roadmap demo_table)))) = [''01-cache'', ''02-fix'']" by code_simp
  from gate_passes_consistent_specs [OF r] n r show ?thesis by auto
qed

text \<open>
  The table the script prints is the one it accepts: a roadmap whose markers enclose the printed
  table is in sync with the specifications it was printed from.
\<close>

theorem printed_table_is_in_sync:
  assumes "run_status yaml tree True = Inr (0, tbl)" "collect_specs yaml tree = Inr specs"
    and "\<not> contains TABLE_START pre" "\<not> contains TABLE_END (nl @ tbl @ nl)"
  shows "roadmap_mismatch (tree\<lparr>st_roadmap := Some (pre @ TABLE_START @ nl @ tbl @ nl @ TABLE_END @ post)\<rparr>) specs = Inr None"
proof -
  let ?body = "nl @ tbl @ nl @ TABLE_END @ post"
  have c: "canonical_table specs = Inr tbl" using assms(1,2) by (auto simp: run_status_def map_sum_Inr_ex)
  have s: "TABLE_START = CHR ''<'' # ''!-- specs-status:start -->''" "TABLE_END = CHR ''<'' # ''!-- specs-status:end -->''"
    by (simp_all add: TABLE_START_def TABLE_END_def)
  have 1: "split_at_first TABLE_START (pre @ TABLE_START @ ?body) = Some (pre, ?body)"
    using assms(3) unfolding s(1) by (intro split_at_marker) simp_all
  have 2: "split_at_first TABLE_END ?body = Some (nl @ tbl @ nl, post)"
    using split_at_marker [of "CHR ''<''" "''!-- specs-status:end -->''" "nl @ tbl @ nl" post] assms(4)
    by (simp add: s(2) [symmetric])
  have "contains TABLE_START (pre @ TABLE_START @ ?body)" by (rule contains_append)
  moreover have "contains TABLE_END (pre @ TABLE_START @ ?body)"
    using contains_append [of TABLE_END "pre @ TABLE_START @ nl @ tbl @ nl" post] by simp
  ultimately have "roadmap_table (pre @ TABLE_START @ ?body) = Some (py_strip tbl)"
    by (simp only: roadmap_table_def 1 2 option.case prod.case not_True_eq_False if_False simp_thms)
      (simp add: nl_def strip_inside is_space_def)
  with c show ?thesis by (simp add: roadmap_mismatch_def)
qed

theorem printed_table_is_in_sync_witness:
  "\<exists>specs. collect_specs demo_yaml (demo_tree None) = Inr specs \<and>
     roadmap_mismatch (demo_tree (Some (demo_roadmap demo_table))) specs = Inr None"
proof -
  have r: "run_status demo_yaml (demo_tree None) True = Inr (0, demo_table)" by code_simp
  then obtain specs where c: "collect_specs demo_yaml (demo_tree None) = Inr specs"
    by (auto simp: run_status_def split: sum.splits)
  have "\<not> contains TABLE_START ''# Roadmap''" "\<not> contains TABLE_END (nl @ demo_table @ nl)" by code_simp+
  from printed_table_is_in_sync [OF r c this, of nl] c show ?thesis by (simp add: demo_tree_def demo_roadmap_def)
qed

end
