(* ===== verification/Scrub.thy ===== *)
theory Scrub
  imports Skills
begin

text \<open>
  The removal of an organisation's name from the repository, src/scripts/scrub_org.py: the renaming of
  skill directories and the replacements in every text file.  A file is its path, and its text unless
  it cannot be decoded; the patterns are literals, three of them behind a word boundary (which the
  texts, read as bytes, have at ASCII word characters).
\<close>

section \<open>Replacement\<close>

definition word_before :: "char option \<Rightarrow> bool" where
  "word_before prev = (case prev of None \<Rightarrow> False | Some c \<Rightarrow> is_word c)"

text \<open>
  \<open>re.sub\<close> of a literal that starts with a word character, with \<open>\b\<close> before it when \<open>bounded\<close>; without
  it also \<open>str.replace\<close>.  The character before the rest of the text decides the boundary.
\<close>

function sub_literal :: "bool \<Rightarrow> string \<Rightarrow> string \<Rightarrow> char option \<Rightarrow> string \<Rightarrow> string" where
  "sub_literal bounded old new prev [] = []"
| "sub_literal bounded old new prev (c # cs) =
     (if prefix old (c # cs) \<and> old \<noteq> [] \<and> \<not> (bounded \<and> word_before prev)
      then new @ sub_literal bounded old new (Some (last old)) (drop (length old) (c # cs))
      else c # sub_literal bounded old new (Some c) cs)"
  by pat_completeness auto

termination
  by (relation "measure (\<lambda>(bounded, old, new, prev, t). length t)") auto

definition replace_in :: "bool \<times> string \<times> string \<Rightarrow> string \<Rightarrow> string" where
  "replace_in r t = (case r of (bounded, old, new) \<Rightarrow> sub_literal bounded old new None t)"

definition SKILL_RENAMES :: "(string \<times> string) list" where
  "SKILL_RENAMES =
     [(''bdc-telemetry-standard'', ''telemetry-standard''), (''bdc-telemetry-helper'', ''telemetry-helper''),
      (''helm-chart-app-bdc'', ''helm-chart-app''), (''helm-chart-cronworkflow-bdc'', ''helm-chart-cronworkflow''),
      (''kyverno-bdc-policies'', ''kyverno-policies''), (''terraform-modules-bdc'', ''terraform-modules'')]"

definition REPLACEMENTS :: "(bool \<times> string \<times> string) list" where
  "REPLACEMENTS =
     [(False, ''harbor.bigdatacorp.com.br'', ''harbor.<org>.com''), (False, ''bigdatacorp.com.br'', ''<org>.com''),
      (False, ''bigdatacorp.info'', ''<org>.info''), (False, ''gitlab.com/BigDataCorp'', ''gitlab.com/<ORG>''),
      (False, ''BigDataCorp'', ''<ORG>''), (False, ''bigdatacorp'', ''<org>''),
      (False, ''.bdc.app.br'', ''.<org>.app.br''), (True, ''bdc.app.br'', ''<org>.app.br''),
      (True, ''bdc.api.br'', ''<org>.api.br''), (True, ''bdc.internal'', ''<org>.internal''),
      (False, ''https-bdc-app-br'', ''https-<org>-app-br''), (False, ''bdc-images'', ''<org>-images''),
      (False, ''bdc-workloads'', ''<org>-workloads''),
      (False, ''BDC'', ''<ORG>''), (False, ''Bdc'', ''<ORG>''), (False, ''bdc'', ''<org>'')]"

definition apply_replacements :: "string \<Rightarrow> string" where
  "apply_replacements t =
     fold replace_in REPLACEMENTS (fold (\<lambda>(old, new). replace_in (False, old, new)) SKILL_RENAMES t)"

section \<open>The files\<close>

record scrub_file =
  sf_parts :: "string list"
  sf_is_self :: bool
  sf_text :: "string option"

definition SKIP_DIRS :: "string list" where
  "SKIP_DIRS = [''.git'', ''__pycache__'', ''.pytest_cache'', ''.ruff_cache'', ''node_modules'']"

definition SKIP_EXT :: "string list" where
  "SKIP_EXT = [''.pyc'', ''.png'', ''.jpg'', ''.jpeg'', ''.gif'', ''.ico'', ''.pdf'', ''.gz'', ''.zip'']"

text \<open>\<open>Path.suffix\<close>: from the last dot on, unless that dot is the first or the last character.\<close>

definition path_suffix :: "string \<Rightarrow> string" where
  "path_suffix nm =
     (let ext = takeWhile (\<lambda>c. c \<noteq> CHR ''.'') (rev nm); stem = drop (Suc (length ext)) (rev nm)
      in if CHR ''.'' \<in> set nm \<and> ext \<noteq> [] \<and> stem \<noteq> [] then CHR ''.'' # rev ext else [])"

definition scrubbed :: "scrub_file \<Rightarrow> bool" where
  "scrubbed f \<longleftrightarrow> \<not> sf_is_self f \<and> (\<forall>p \<in> set (sf_parts f). p \<notin> set SKIP_DIRS) \<and>
     path_suffix (last ([] # sf_parts f)) \<notin> set SKIP_EXT"

definition scrub_one :: "scrub_file \<Rightarrow> scrub_file" where
  "scrub_one f = (if scrubbed f then f\<lparr>sf_text := map_option apply_replacements (sf_text f)\<rparr> else f)"

text \<open>A skill directory is renamed unless the new name is taken.\<close>

definition rename_dir :: "string \<times> string \<Rightarrow> string list \<Rightarrow> string list" where
  "rename_dir r dirs =
     (case r of (old, new) \<Rightarrow>
        if old \<in> set dirs \<and> new \<notin> set dirs then map (\<lambda>d. if d = old then new else d) dirs else dirs)"

text \<open>The skill directories, the files, and how many of them changed.\<close>

definition scrub_main :: "string list \<Rightarrow> scrub_file list \<Rightarrow> string list \<times> scrub_file list \<times> nat" where
  "scrub_main dirs files =
     (let dirs' = fold rename_dir SKILL_RENAMES dirs; files' = map scrub_one files
      in (dirs', files', length (filter (\<lambda>(f, g). sf_text f \<noteq> sf_text g) (zip files files'))))"

section \<open>Lemmas\<close>

text \<open>A new text that cannot take part in an occurrence of \<open>p\<close>.\<close>

fun untouched :: "string \<Rightarrow> string \<Rightarrow> bool" where
  "untouched p [] = True"
| "untouched p (c # cs) = (\<not> prefix p (c # cs) \<and> \<not> prefix (c # cs) p \<and> untouched p cs)"

definition inert :: "string \<Rightarrow> string \<Rightarrow> bool" where
  "inert p new \<longleftrightarrow> new \<noteq> [] \<and> hd new \<notin> set p \<and> untouched p new"

lemma contains_trans: "contains p q \<Longrightarrow> contains q t \<Longrightarrow> contains p t"
  by (auto simp: contains_iff_sublist intro: sublist_order.order_trans)

lemma contains_drop: "contains p (drop n t) \<Longrightarrow> contains p t"
  by (auto simp: contains_iff_sublist intro: sublist_order.order_trans sublist_drop)

lemma contains_behind: "untouched p u \<Longrightarrow> contains p (u @ x) \<Longrightarrow> contains p x"
proof (induction u)
  case (Cons c u)
  then have "\<not> prefix p (c # u @ x)"
    by (metis append_Cons prefix_append prefix_order.order_refl prefixI untouched.simps(2))
  with Cons show ?case by simp
qed simp

lemma prefix_of_result:
  "new \<noteq> [] \<Longrightarrow> hd new \<notin> set q \<Longrightarrow> prefix q (sub_literal b old new prev t) \<Longrightarrow> prefix q t"
proof (induction b old new prev t arbitrary: q rule: sub_literal.induct)
  case (2 b old new prev c cs)
  then show ?case by (cases q; cases new) (auto split: if_splits)
qed simp

text \<open>A replacement removes its literal, and brings back no text that its new one cannot touch.\<close>

lemma sub_literal_absent:
  "inert p new \<Longrightarrow> p \<noteq> [] \<Longrightarrow> \<not> contains p t \<or> p = old \<and> \<not> b \<Longrightarrow> \<not> contains p (sub_literal b old new prev t)"
proof (induction b old new prev t rule: sub_literal.induct)
  case (2 b old new prev c cs)
  show ?case
  proof (cases "prefix old (c # cs) \<and> old \<noteq> [] \<and> \<not> (b \<and> word_before prev)")
    case True
    have "\<not> contains p (sub_literal b old new (Some (last old)) (drop (length old) (c # cs)))"
      using 2 True contains_drop [of p "length old" "c # cs"] by blast
    then show ?thesis using True contains_behind [of p new] 2(3) by (auto simp: inert_def)
  next
    case False
    have n: "new \<noteq> []" "hd new \<notin> set p" using 2(3) by (simp_all add: inert_def)
    have "\<not> contains p (sub_literal b old new (Some c) cs)" using 2 False by auto
    moreover have "\<not> prefix p (c # sub_literal b old new (Some c) cs)"
    proof
      assume "prefix p (c # sub_literal b old new (Some c) cs)"
      with 2(4) obtain q where q: "p = c # q" "prefix q (sub_literal b old new (Some c) cs)" by (cases p) auto
      with n prefix_of_result [of new q b old "Some c" cs] have "prefix p (c # cs)" by simp
      with 2(4,5) False show False by auto
    qed
    ultimately show ?thesis using False by (simp only: sub_literal.simps if_False contains.simps) simp
  qed
qed simp

lemma replace_in_absent: "inert p (snd (snd r)) \<Longrightarrow> p \<noteq> [] \<Longrightarrow> \<not> contains p t \<Longrightarrow> \<not> contains p (replace_in r t)"
  by (auto simp: replace_in_def sub_literal_absent split: prod.splits)

lemma fold_absent:
  "list_all (\<lambda>r. inert p (snd (snd r))) rs \<Longrightarrow> p \<noteq> [] \<Longrightarrow> \<not> contains p t \<Longrightarrow> \<not> contains p (fold replace_in rs t)"
  by (induction rs arbitrary: t) (simp_all add: replace_in_absent)

lemma removed_for_good:
  assumes "rs ! k = (False, p, new)" "k < length rs" "p \<noteq> []" "list_all (\<lambda>r. inert p (snd (snd r))) (drop k rs)"
  shows "\<not> contains p (fold replace_in rs t)"
proof -
  have d: "drop k rs = (False, p, new) # drop (Suc k) rs" using assms(1,2) by (metis Cons_nth_drop_Suc)
  have "fold replace_in rs t = fold replace_in (drop k rs) (fold replace_in (take k rs) t)"
    by (metis append_take_drop_id fold_append comp_apply)
  also have "\<dots> = fold replace_in (drop (Suc k) rs) (sub_literal False p new None (fold replace_in (take k rs) t))"
    by (simp add: d replace_in_def)
  finally show ?thesis
    using assms(3,4) d fold_absent [of p "drop (Suc k) rs"] sub_literal_absent [of p new _ p False None] by simp
qed

definition ORG_NAMES :: "string list" where
  "ORG_NAMES = [''BigDataCorp'', ''bigdatacorp'', ''BDC'', ''Bdc'', ''bdc'']"

lemma name_removed:
  "\<not> contains ''BigDataCorp'' (fold replace_in REPLACEMENTS t)" "\<not> contains ''bigdatacorp'' (fold replace_in REPLACEMENTS t)"
  "\<not> contains ''BDC'' (fold replace_in REPLACEMENTS t)" "\<not> contains ''Bdc'' (fold replace_in REPLACEMENTS t)"
  "\<not> contains ''bdc'' (fold replace_in REPLACEMENTS t)"
proof -
  note d = REPLACEMENTS_def inert_def
  show "\<not> contains ''BigDataCorp'' (fold replace_in REPLACEMENTS t)" by (rule removed_for_good [of _ 4]) (simp_all add: d)
  show "\<not> contains ''bigdatacorp'' (fold replace_in REPLACEMENTS t)" by (rule removed_for_good [of _ 5]) (simp_all add: d)
  show "\<not> contains ''BDC'' (fold replace_in REPLACEMENTS t)" by (rule removed_for_good [of _ 13]) (simp_all add: d)
  show "\<not> contains ''Bdc'' (fold replace_in REPLACEMENTS t)" by (rule removed_for_good [of _ 14]) (simp_all add: d)
  show "\<not> contains ''bdc'' (fold replace_in REPLACEMENTS t)" by (rule removed_for_good [of _ 15]) (simp_all add: d)
qed

lemma no_name_left: "p \<in> set ORG_NAMES \<Longrightarrow> \<not> contains p (apply_replacements t)"
  unfolding ORG_NAMES_def apply_replacements_def by (auto simp: name_removed)

lemma sub_literal_same: "\<not> contains old t \<Longrightarrow> sub_literal b old new prev t = t"
  by (induction b old new prev t rule: sub_literal.induct) auto

lemma fold_same: "\<forall>r \<in> set rs. f r t = t \<Longrightarrow> fold f rs t = t"
  by (induction rs) auto

lemma named_patterns:
  "list_all (\<lambda>old. list_ex (\<lambda>p. contains p old) ORG_NAMES) (map (\<lambda>r. fst (snd r)) REPLACEMENTS @ map fst SKILL_RENAMES)"
  by code_simp

lemma clean_text_same:
  assumes "\<And>p. p \<in> set ORG_NAMES \<Longrightarrow> \<not> contains p t"
  shows "apply_replacements t = t"
proof -
  have a: "\<not> contains old t" if "old \<in> set (map (\<lambda>r. fst (snd r)) REPLACEMENTS @ map fst SKILL_RENAMES)" for old
    using named_patterns that assms contains_trans unfolding list_all_iff list_ex_iff by blast
  have "fold (\<lambda>(old, new). replace_in (False, old, new)) SKILL_RENAMES t = t"
    by (rule fold_same) (use a in \<open>force simp: replace_in_def intro: sub_literal_same\<close>)
  moreover have "fold replace_in REPLACEMENTS t = t"
    by (rule fold_same) (use a in \<open>force simp: replace_in_def intro: sub_literal_same\<close>)
  ultimately show ?thesis by (simp add: apply_replacements_def)
qed

lemma scrub_twice: "scrub_one (scrub_one f) = scrub_one f"
  by (auto simp: scrub_one_def scrubbed_def clean_text_same no_name_left map_option_case split: option.splits)

section \<open>Properties\<close>

text \<open>
  After a run no file the script may touch holds the organisation's name in any of its five
  spellings, and a second run changes nothing.
\<close>

theorem scrub_leaves_no_name:
  assumes "scrub_main dirs files = (dirs', files', n)"
  shows "(\<forall>f \<in> set files'. scrubbed f \<longrightarrow> (\<forall>t p. sf_text f = Some t \<longrightarrow> p \<in> set ORG_NAMES \<longrightarrow> \<not> contains p t)) \<and>
    fst (snd (scrub_main dirs' files')) = files' \<and> snd (snd (scrub_main dirs' files')) = 0"
proof -
  have f: "files' = map scrub_one files" using assms by (simp add: scrub_main_def Let_def)
  then have s: "map scrub_one files' = files'" by (simp add: scrub_twice)
  have "\<forall>(f, g) \<in> set (zip files' files'). sf_text f = sf_text g" by (auto simp: set_zip)
  then have "filter (\<lambda>(f, g). sf_text f \<noteq> sf_text g) (zip files' files') = []" by (auto simp: filter_empty_conv)
  moreover have "\<not> contains p t" if "f \<in> set files'" "scrubbed f" "sf_text f = Some t" "p \<in> set ORG_NAMES" for f t p
    using that by (auto simp: f scrub_one_def no_name_left split: if_splits)
  ultimately show ?thesis using s by (auto simp: scrub_main_def Let_def)
qed

theorem scrub_leaves_no_name_witness:
  "let files = [\<lparr>sf_parts = [''app'', ''README.md''], sf_is_self = False, sf_text = Some ''BDCOtelHelper at bdc.internal''\<rparr>];
       files' = fst (snd (scrub_main [''bdc-telemetry-helper''] files))
   in map sf_text files' = [Some ''<ORG>OtelHelper at <org>.internal''] \<and>
      fst (scrub_main [''bdc-telemetry-helper''] files) = [''telemetry-helper''] \<and>
      snd (snd (scrub_main [''telemetry-helper''] files')) = 0"
proof -
  let ?files = "[\<lparr>sf_parts = [''app'', ''README.md''], sf_is_self = False, sf_text = Some ''BDCOtelHelper at bdc.internal''\<rparr>]"
  let ?out = "[\<lparr>sf_parts = [''app'', ''README.md''], sf_is_self = False, sf_text = Some ''<ORG>OtelHelper at <org>.internal''\<rparr>]"
  have m: "scrub_main [''bdc-telemetry-helper''] ?files = ([''telemetry-helper''], ?out, 1)" by code_simp
  from scrub_leaves_no_name [OF m] show ?thesis by (simp add: m)
qed

end
