(* ===== verification/Tooling.thy ===== *)
theory Tooling
  imports Skills Classifier Capability "HOL-Library.List_Lexorder" "HOL-Library.Char_ord"
begin

text \<open>
  The repository's tools for skills and agents: the migration of skills with derived keywords
  (src/scripts/migrate_skills.py), the wiring of skills to agents (wire_agent_skills.py) and the
  validation of the agents' configurations (capability_validate.py).  Directories are what the tools read
  of them; YAML loading is a parameter.  Printed progress is left out.
\<close>

section \<open>Keywords of a migrated skill\<close>

definition DROP :: "string list" where
  "DROP =
     [''metrics'', ''patterns'', ''config'', ''configuration'', ''strategy'', ''framework'', ''templates'', ''template'',
      ''integration'', ''management'', ''mgmt'', ''self'', ''deep'', ''cross'', ''runtime'', ''reference'',
      ''overview'', ''standard'', ''helper'', ''<org>'', ''apm'']"

definition KEEP_TERMS :: "string list" where
  "KEEP_TERMS =
     [''vminsert'', ''vmselect'', ''vmstorage'', ''vmagent'', ''vmalert'', ''victoriametrics'', ''prometheus'', ''loki'',
      ''logql'', ''tempo'', ''traceql'', ''pyroscope'', ''grafana'', ''otel'', ''opentelemetry'', ''collector'',
      ''karpenter'', ''keda'', ''kyverno'', ''velero'', ''cilium'', ''istio'', ''ambient'', ''kiali'', ''argocd'',
      ''argo'', ''rollout'', ''kafka'', ''strimzi'', ''harbor'', ''nexus'', ''sonarqube'', ''backstage'',
      ''crossplane'', ''opensearch'', ''kubecost'', ''keycloak'', ''cert-manager'', ''external-secrets'',
      ''external-dns'', ''reloader'', ''descheduler'', ''ingress'', ''traefik'', ''nginx'', ''redis'', ''postgres'',
      ''coredns'', ''dns'', ''eks'', ''iam'', ''rds'', ''lambda'', ''route53'', ''cloudfront'', ''s3'',
      ''cloudwatch'', ''cost'', ''savings'', ''ec2'', ''apko'', ''melange'', ''cosign'', ''trivy'', ''sbom'', ''cve'',
      ''dependency-track'', ''defectdojo'', ''helmfile'', ''terraform'', ''oomkill'', ''oom'', ''slo'', ''sli'',
      ''rca'', ''incident'', ''alert'', ''alertmanager'', ''gc'', ''jit'', ''threadpool'', ''dotnet'', ''golang'',
      ''go'', ''python'', ''nodejs'', ''node'', ''gitlab'', ''pipeline'', ''mtls'', ''csi'', ''ebs'', ''efs'',
      ''hpa'', ''pvc'']"

definition NOISE :: "string list" where
  "NOISE =
     [''not'', ''is'', ''be'', ''no'', ''may'', ''can'', ''are'', ''the'', ''for'', ''use'', ''all'', ''and'', ''or'',
      ''to'', ''of'', ''in'', ''on'', ''red'', ''yellow'', ''new'', ''old'', ''raw'', ''per'', ''via'', ''api'',
      ''http'', ''https'', ''yes'', ''with'', ''was'', ''has'', ''its'']"

text \<open>\<open>[a-z0-9_\-]+\<close> and \<open>\b[A-Z]{2,6}\b\<close>\<close>

definition TOKEN_RE :: rx where
  "TOKEN_RE = rx_plus (Cls (\<lambda>c. is_token_char c \<or> c = CHR ''_'' \<or> c = CHR ''-''))"

definition is_capital :: "char \<Rightarrow> bool" where
  "is_capital c = (let n = of_char c :: nat in 65 \<le> n \<and> n \<le> 90)"

definition ACRONYM_RE :: rx where
  "ACRONYM_RE = Seq WordB (Seq (Rep 2 (Some 6) (Cls is_capital)) WordB)"

definition name_parts :: "string \<Rightarrow> string list" where
  "name_parts nm = filter (\<lambda>p. p \<notin> set DROP \<and> 2 \<le> length p) (split_char (CHR ''-'') nm)"

definition candidates :: "string \<Rightarrow> string \<Rightarrow> string list" where
  "candidates nm desc =
     (let parts = name_parts nm
      in (if parts \<noteq> [] then [py_join ''-'' parts] else []) @ parts
         @ map (\<lambda>i. parts ! i @ '' '' @ parts ! (i + 1)) [0..<length parts - 1]
         @ filter (\<lambda>t. t \<in> set KEEP_TERMS) (sort (remdups (findall TOKEN_RE (py_lower desc))))
         @ map py_lower (findall ACRONYM_RE desc))"

text \<open>Each keyword once, in order, without the generic and the noisy ones.\<close>

fun usable_keywords :: "string list \<Rightarrow> string list \<Rightarrow> string list" where
  "usable_keywords seen [] = []"
| "usable_keywords seen (c # cs) =
     (let k = py_lower (py_strip c)
      in if k \<noteq> [] \<and> k \<notin> set seen \<and> k \<notin> set DROP \<and> k \<notin> set NOISE then k # usable_keywords (k # seen) cs
         else usable_keywords seen cs)"

definition derive_keywords :: "string \<Rightarrow> string \<Rightarrow> string list" where
  "derive_keywords nm desc = take 18 (usable_keywords [] (candidates nm desc))"

section \<open>The migration\<close>

text \<open>A source is its directory's name with the text of its skill file; the target maps names to texts.\<close>

record migration =
  mg_target :: "(string \<times> string) list"
  mg_migrated :: "(string \<times> string list) list"
  mg_skipped :: "string list"

definition load_meta :: "yaml_loader \<Rightarrow> string \<Rightarrow> json" where
  "load_meta yaml fm = (case yaml fm of Inl e \<Rightarrow> JObj [] | Inr v \<Rightarrow> or_else (Some v) (JObj []))"

definition meta_text :: "(string \<times> json) list \<Rightarrow> string \<Rightarrow> string \<Rightarrow> string" where
  "meta_text ms k d = py_str (or_else (dict_get ms k) (JStr d))"

definition keyword_yaml :: "string list \<Rightarrow> string" where
  "keyword_yaml kws =
     ''['' @ py_join '', '' (map (\<lambda>k. if CHR '' '' \<in> set k then [CHR 0x22] @ k @ [CHR 0x22] else k) kws) @ '']''"

definition migrated_text :: "string \<Rightarrow> string \<Rightarrow> string list \<Rightarrow> string \<Rightarrow> string" where
  "migrated_text skill_nm desc kws body =
     ''---'' @ nl @ ''name: '' @ skill_nm @ nl @ ''description: '' @ json_dumps (JStr desc) @ nl
     @ ''keywords: '' @ keyword_yaml kws @ nl @ ''---'' @ nl @ body"

text \<open>
  A file without front matter is passed over, and a skill that the target has is kept as it is.  Front
  matter that is neither empty nor a mapping raises.
\<close>

definition migrate_skill :: "yaml_loader \<Rightarrow> string \<times> string \<Rightarrow> migration \<Rightarrow> exn + migration" where
  "migrate_skill yaml src m =
     (case src of (nm, t) \<Rightarrow>
        (case frontmatter t of
           None \<Rightarrow> Inr m
         | Some (fm, rest) \<Rightarrow>
             (case load_meta yaml fm of
                JObj ms \<Rightarrow>
                  (let desc = take 600 (py_join '' '' (py_split (meta_text ms ''description'' [])))
                   in if dict_get (mg_target m) nm \<noteq> None then Inr (m\<lparr>mg_skipped := mg_skipped m @ [nm]\<rparr>)
                      else (let kws = derive_keywords nm desc
                            in Inr (m\<lparr>mg_target := dict_set (mg_target m) nm
                                       (migrated_text (meta_text ms ''name'' nm) desc kws (dropWhile is_space rest)),
                                     mg_migrated := mg_migrated m @ [(nm, kws)]\<rparr>)))
              | _ \<Rightarrow> Inl ''AttributeError'')))"

fun migrate_all :: "yaml_loader \<Rightarrow> (string \<times> string) list \<Rightarrow> migration \<Rightarrow> exn + migration" where
  "migrate_all yaml [] m = Inr m"
| "migrate_all yaml (src # srcs) m =
     (case migrate_skill yaml src m of Inl e \<Rightarrow> Inl e | Inr m' \<Rightarrow> migrate_all yaml srcs m')"

definition migrate_main :: "yaml_loader \<Rightarrow> (string \<times> string) list \<Rightarrow> (string \<times> string) list \<Rightarrow> exn + migration" where
  "migrate_main yaml srcs target = migrate_all yaml srcs \<lparr>mg_target = target, mg_migrated = [], mg_skipped = []\<rparr>"

section \<open>Wiring skills to agents\<close>

definition RULES :: "(string \<times> string list) list" where
  "RULES =
     [(''observability'',
       [''-metrics'', ''loki'', ''tempo'', ''pyroscope'', ''otel'', ''kubelet'', ''multicluster'', ''streaming-agg'',
        ''alertmanager'', ''fluent-bit'', ''vmalert'', ''vm-cardinality'', ''grafana-cross'', ''oomkill'',
        ''alerting-strategy'', ''error-budget'', ''incident-response'', ''post-mortem'', ''root-cause'', ''runbook'',
        ''sla-slo'']),
      (''kubernetes'',
       [''k8s-workload'', ''karpenter'', ''keda'', ''cert-manager'', ''external-secrets'', ''external-dns'', ''reloader'',
        ''kyverno-metrics'', ''descheduler'', ''k8s-pvc'', ''aws-csi'', ''aws-load-balancer'', ''kubescape'',
        ''scaleops'', ''metrics-server'', ''istio'', ''ingress-nginx'', ''traefik'', ''backing-services'',
        ''helmfile'', ''oomkill'']),
      (''devops'',
       [''argo'', ''gitlab-runner'', ''harbor'', ''nexus3'', ''sonarqube'', ''backstage'', ''crossplane'', ''strimzi-kafka'',
        ''opensearch'', ''datahub'', ''superset'', ''cosign'', ''helm-chart'', ''applicationset'', ''kyverno-<org>'',
        ''terraform'', ''monitoring-stack'', ''gitops-environment'', ''pipeline-template'', ''<org>-telemetry'',
        ''external-secrets-aws'']),
      (''aws'',
       [''cloudfront'', ''cost-explorer'', ''eks-management'', ''iam-patterns'', ''lambda'', ''rds-patterns'', ''route53'',
        ''security-hub-patterns'', ''aws-csi'', ''aws-load-balancer'']),
      (''finops'',
       [''ec2-rightsizing'', ''savings-plans'', ''untagged-resources'', ''kubecost'', ''cost-explorer'']),
      (''security'',
       [''aws-ftr'', ''container-image-apko'', ''container-package-melange'', ''dependency-track'', ''golden-ami'', ''sbom'',
        ''security-hub-findings'', ''kubescape'', ''defectdojo'', ''harbor'', ''keycloak'', ''cosign''])]"

text \<open>
  \<open>(?m)^skills:\n(?:[ \t]+-[ \t].*\n)*\<close> removed, line by line: a list item is blanks, a dash and a blank,
  and the last line of the text has no line feed behind it.
\<close>

definition is_blank :: "char \<Rightarrow> bool" where
  "is_blank c \<longleftrightarrow> c = CHR '' '' \<or> c = CHR 0x09"

definition is_item :: "string \<Rightarrow> bool" where
  "is_item l \<longleftrightarrow>
     (case l of
        c # cs \<Rightarrow> is_blank c \<and> (case dropWhile is_blank cs of d # e # r \<Rightarrow> d = CHR ''-'' \<and> is_blank e | _ \<Rightarrow> False)
      | [] \<Rightarrow> False)"

fun drop_items :: "string list \<Rightarrow> string list" where
  "drop_items (l # m # ls) = (if is_item l then drop_items (m # ls) else l # m # ls)"
| "drop_items ls = ls"

lemma length_drop_items: "length (drop_items ls) \<le> length ls"
  by (induction ls rule: drop_items.induct) auto

function drop_blocks :: "string list \<Rightarrow> string list" where
  "drop_blocks [] = []"
| "drop_blocks [l] = [l]"
| "drop_blocks (l # m # ls) = (if l = ''skills:'' then drop_blocks (drop_items (m # ls)) else l # drop_blocks (m # ls))"
  by pat_completeness auto

termination
  by (relation "measure length") (auto simp: less_Suc_eq_le intro: order.trans [OF length_drop_items])

definition py_rstrip :: "string \<Rightarrow> string" where
  "py_rstrip s = rev (dropWhile is_space (rev s))"

definition select_for :: "string list \<Rightarrow> string list \<Rightarrow> string list" where
  "select_for subs names = sort (remdups (filter (\<lambda>n. list_ex (\<lambda>s. contains s n) subs) names))"

definition wire_agent :: "string list \<Rightarrow> string \<Rightarrow> string" where
  "wire_agent sel t =
     py_rstrip (py_join nl (drop_blocks (split_char char_nl t))) @ nl @ ''skills:'' @ nl
     @ concat (map (\<lambda>n. ''  - '' @ n @ nl) sel)"

text \<open>Every agent with rules whose file there is.\<close>

definition wire_main :: "string list \<Rightarrow> (string \<times> string) list \<Rightarrow> (string \<times> string) list" where
  "wire_main names files =
     map (\<lambda>(agent, t). (agent, case dict_get RULES agent of None \<Rightarrow> t | Some subs \<Rightarrow> wire_agent (select_for subs names) t)) files"

section \<open>Validation of the configurations\<close>

text \<open>
  A file that does not load ends the run; what the configuration model refuses is listed.  The report is
  what the run prints.
\<close>

type_synonym config_parser = "json \<Rightarrow> exn + agent_config"

fun check_configs :: "config_parser \<Rightarrow> json agent_dir list \<Rightarrow> exn + string list \<times> nat" where
  "check_configs parse [] = Inr ([], 0)"
| "check_configs parse (d # ds) =
     (case ad_document d of
        None \<Rightarrow> check_configs parse ds
      | Some (Inl e) \<Rightarrow> Inl e
      | Some (Inr data) \<Rightarrow>
          map_sum id (\<lambda>(errors, validated).
              case parse data of
                Inl e \<Rightarrow> ((''  agents/'' @ ad_name d @ ''/agent.yaml: '' @ e) # errors, validated)
              | Inr cfg \<Rightarrow> (errors, Suc validated)) (check_configs parse ds))"

definition capability_validate :: "config_parser \<Rightarrow> json agent_dir list \<Rightarrow> exn + nat \<times> string list" where
  "capability_validate parse dirs =
     map_sum id (\<lambda>(errors, validated).
         if errors \<noteq> [] then
           (1, ([CHR 0xE2, CHR 0x9D, CHR 0x8C] @ '' capability-validate FAILED ('' @ show_nat (length errors) @ '' error(s)):'') # errors)
         else
           (0, [[CHR 0xE2, CHR 0x9C, CHR 0x85] @ '' capability-validate OK '' @ [CHR 0xE2, CHR 0x80, CHR 0x94]
                @ '' '' @ show_nat validated @ '' agent configs valid'']))
       (check_configs parse (sort_key ad_name dirs))"

section \<open>Lemmas\<close>


lemma usable_keywords_ok:
  "distinct (usable_keywords seen cs) \<and> set (usable_keywords seen cs) \<inter> set seen = {} \<and>
     (\<forall>k \<in> set (usable_keywords seen cs). k \<noteq> [] \<and> k \<notin> set DROP \<and> k \<notin> set NOISE)"
proof (induction cs arbitrary: seen)
  case (Cons c cs)
  let ?k = "py_lower (py_strip c)"
  from Cons [of seen] Cons [of "?k # seen"] show ?case
    by (cases "?k \<noteq> [] \<and> ?k \<notin> set seen \<and> ?k \<notin> set DROP \<and> ?k \<notin> set NOISE") (auto simp: Let_def)
qed simp

lemma migrate_skill_keeps:
  assumes "migrate_skill yaml src m = Inr m'" "dict_get (mg_target m) n = Some t"
  shows "dict_get (mg_target m') n = Some t"
proof -
  obtain nm u where s: "src = (nm, u)" by fastforce
  with assms show ?thesis by (auto simp: migrate_skill_def Let_def split: option.splits json.splits if_splits)
qed

lemma migrate_all_keeps:
  "migrate_all yaml srcs m = Inr m' \<Longrightarrow> dict_get (mg_target m) n = Some t \<Longrightarrow> dict_get (mg_target m') n = Some t"
  by (induction srcs arbitrary: m) (auto split: sum.splits dest: migrate_skill_keeps)

text \<open>A source that went through once is passed over or skipped by any run on a target that has what it made.\<close>

definition settled :: "yaml_loader \<Rightarrow> (string \<times> string) list \<Rightarrow> string \<times> string \<Rightarrow> bool" where
  "settled yaml target src \<longleftrightarrow>
     (case frontmatter (snd src) of
        None \<Rightarrow> True
      | Some (fm, rest) \<Rightarrow> is_dict (load_meta yaml fm) \<and> dict_get target (fst src) \<noteq> None)"

lemma migrate_skill_settles: "migrate_skill yaml src m = Inr m' \<Longrightarrow> settled yaml (mg_target m') src"
  by (cases src) (auto simp: migrate_skill_def settled_def Let_def split: option.splits json.splits if_splits)

lemma migrate_all_settles:
  "migrate_all yaml srcs m = Inr m' \<Longrightarrow> src \<in> set srcs \<Longrightarrow> settled yaml (mg_target m') src"
proof (induction srcs arbitrary: m)
  case (Cons s srcs)
  then obtain m1 where m: "migrate_skill yaml s m = Inr m1" "migrate_all yaml srcs m1 = Inr m'" by (auto split: sum.splits)
  show ?case
  proof (cases "src \<in> set srcs")
    case False
    with Cons.prems have "src = s" by simp
    with migrate_skill_settles [OF m(1)] migrate_all_keeps [OF m(2)] show ?thesis
      by (auto simp: settled_def split: option.splits)
  qed (use Cons.IH m in blast)
qed simp

lemma settled_unchanged:
  "\<forall>src \<in> set srcs. settled yaml (mg_target m) src \<Longrightarrow>
     \<exists>skipped. migrate_all yaml srcs m = Inr (m\<lparr>mg_skipped := skipped\<rparr>)"
proof (induction srcs arbitrary: m)
  case (Cons src srcs)
  obtain nm u where s: "src = (nm, u)" by fastforce
  have "\<exists>skipped. migrate_skill yaml src m = Inr (m\<lparr>mg_skipped := skipped\<rparr>)"
  proof (cases "frontmatter u")
    case None
    then have "migrate_skill yaml src m = Inr (m\<lparr>mg_skipped := mg_skipped m\<rparr>)" by (simp add: migrate_skill_def s)
    then show ?thesis by blast
  next
    case (Some fr)
    obtain fm rest where fr: "fr = (fm, rest)" by fastforce
    with Some Cons.prems s have d: "is_dict (load_meta yaml fm)" "dict_get (mg_target m) nm \<noteq> None" by (simp_all add: settled_def)
    then obtain ms where "load_meta yaml fm = JObj ms" by (cases "load_meta yaml fm") simp_all
    with Some fr d(2) show ?thesis by (auto simp: migrate_skill_def s Let_def)
  qed
  then obtain sk where "migrate_skill yaml src m = Inr (m\<lparr>mg_skipped := sk\<rparr>)" by blast
  moreover obtain sk' where "migrate_all yaml srcs (m\<lparr>mg_skipped := sk\<rparr>) = Inr (m\<lparr>mg_skipped := sk, mg_skipped := sk'\<rparr>)"
    using Cons.IH [of "m\<lparr>mg_skipped := sk\<rparr>"] Cons.prems by auto
  ultimately show ?case by auto
qed (metis migrate_all.simps(1) migration.surjective migration.update_convs(3))

lemma check_configs_errors:
  "check_configs parse ds = Inr (errors, n) \<Longrightarrow>
     errors = [] \<longleftrightarrow> (\<forall>d \<in> set ds. \<forall>data. ad_document d = Some (Inr data) \<longrightarrow> (\<exists>cfg. parse data = Inr cfg))"
proof (induction ds arbitrary: errors n)
  case (Cons d ds)
  show ?case
  proof (cases "ad_document d")
    case None
    with Cons show ?thesis by simp
  next
    case (Some r)
    then obtain data where r: "r = Inr data" using Cons.prems by (cases r) auto
    then obtain es k where c: "check_configs parse ds = Inr (es, k)"
      using Cons.prems Some by (cases "check_configs parse ds") auto
    show ?thesis using Cons.prems Cons.IH [OF c] Some r c by (cases "parse data") auto
  qed
qed simp

lemma check_configs_loads: "check_configs parse ds = Inr r \<Longrightarrow> d \<in> set ds \<Longrightarrow> ad_document d \<noteq> Some (Inl e)"
proof (induction ds arbitrary: r)
  case (Cons d' ds)
  show ?case
  proof (cases "ad_document d'")
    case None
    with Cons show ?thesis by auto
  next
    case (Some x)
    then obtain data where "x = Inr data" using Cons.prems by (cases x) auto
    with Some Cons.prems Cons.IH show ?thesis by (cases "check_configs parse ds") auto
  qed
qed simp

lemma discover_entries_total:
  "\<forall>v. env_set getenv v \<Longrightarrow>
     (\<exists>rg'. discover_entries getenv es rg = Inr rg') \<longleftrightarrow> (\<forall>e \<in> set es. \<forall>x. de_is_dir e \<longrightarrow> de_config e \<noteq> Some (Inl x))"
  by (induction es arbitrary: rg) (auto split: option.splits sum.splits)

lemma insort_key_map: "insort_key f (g x) (map g xs) = map g (insort_key (\<lambda>x. f (g x)) x xs)"
  by (induction xs) simp_all

lemma sort_key_map: "sort_key f (map g xs) = map g (sort_key (\<lambda>x. f (g x)) xs)"
  by (induction xs) (simp_all add: insort_key_map)

section \<open>Properties\<close>

text \<open>
  A derived keyword is never empty, generic or noisy, none occurs twice, and there are at most
  eighteen.
\<close>

lemma derived_keywords_are_usable:
  "distinct (derive_keywords nm desc) \<and> length (derive_keywords nm desc) \<le> 18 \<and>
     (\<forall>k \<in> set (derive_keywords nm desc). k \<noteq> [] \<and> k \<notin> set DROP \<and> k \<notin> set NOISE)"
  using usable_keywords_ok [of "[]" "candidates nm desc"]
  by (auto simp: derive_keywords_def distinct_take dest: in_set_takeD)

text \<open>The first keyword of a name of several parts has a hyphen, so it never selects the skill.\<close>

lemma compound_keyword_is_dead:
  "derive_keywords ''cert-manager-patterns'' [] = [''cert-manager'', ''cert'', ''manager'', ''cert manager''] \<and>
     \<not> keyword_matches q ''cert-manager''"
proof
  show "derive_keywords ''cert-manager-patterns'' [] = [''cert-manager'', ''cert'', ''manager'', ''cert manager'']" by code_simp
  have "CHR ''-'' \<in> set (py_strip (py_lower ''cert-manager''))" "CHR '' '' \<notin> set (py_strip (py_lower ''cert-manager''))" by code_simp+
  then show "\<not> keyword_matches q ''cert-manager''" by (rule hyphenated_keyword_never_matches)
qed

text \<open>
  A migration keeps every skill the target has, and settles: running it again on what it left
  migrates nothing and changes nothing.
\<close>

theorem migration_settles:
  assumes "migrate_main yaml srcs target = Inr m"
  shows "(\<forall>n t. dict_get target n = Some t \<longrightarrow> dict_get (mg_target m) n = Some t) \<and>
    (\<exists>skipped. migrate_main yaml srcs (mg_target m) = Inr \<lparr>mg_target = mg_target m, mg_migrated = [], mg_skipped = skipped\<rparr>)"
proof -
  let ?m0 = "\<lparr>mg_target = target, mg_migrated = [], mg_skipped = []\<rparr>"
    and ?m1 = "\<lparr>mg_target = mg_target m, mg_migrated = [], mg_skipped = []\<rparr>"
  have r: "migrate_all yaml srcs ?m0 = Inr m" using assms by (simp add: migrate_main_def)
  then have "\<forall>src \<in> set srcs. settled yaml (mg_target ?m1) src" by (auto dest: migrate_all_settles)
  from settled_unchanged [OF this] migrate_all_keeps [OF r] show ?thesis by (simp add: migrate_main_def)
qed

theorem migration_settles_witness:
  "\<exists>m. migrate_main (\<lambda>t. Inr (JObj [(''description'', JStr ''Rotates keys'')]))
         [(''key-rotation'', ''---'' @ nl @ ''d'' @ nl @ ''---'' @ nl @ ''Body''), (''old'', ''---'' @ nl @ ''d'' @ nl @ ''---'' @ nl @ ''New'')]
         [(''old'', ''tuned'')] = Inr m \<and>
     map fst (mg_migrated m) = [''key-rotation''] \<and> dict_get (mg_target m) ''old'' = Some ''tuned''"
proof -
  let ?y = "\<lambda>t. Inr (JObj [(''description'', JStr ''Rotates keys'')]) :: exn + json"
  let ?srcs = "[(''key-rotation'', ''---'' @ nl @ ''d'' @ nl @ ''---'' @ nl @ ''Body''), (''old'', ''---'' @ nl @ ''d'' @ nl @ ''---'' @ nl @ ''New'')]"
  have "map_sum id (\<lambda>m. map fst (mg_migrated m)) (migrate_main ?y ?srcs [(''old'', ''tuned'')]) = Inr [''key-rotation'']" by code_simp
  then obtain m where m: "migrate_main ?y ?srcs [(''old'', ''tuned'')] = Inr m" "map fst (mg_migrated m) = [''key-rotation'']"
    by (cases "migrate_main ?y ?srcs [(''old'', ''tuned'')]") auto
  with migration_settles [OF m(1)] show ?thesis by simp
qed

text \<open>
  C30: the check of the configurations decides whether the service can start: when every configuration
  loads and the environment has all variables, the check passes exactly when the registry discovers the
  same directory without an error.
\<close>

theorem validated_configurations_start:
  assumes "capability_validate parse dirs = Inr (code, report)" "\<forall>v. env_set getenv v"
    and "\<forall>d \<in> set dirs. ad_document d \<noteq> None \<longrightarrow> ad_is_dir d"
  shows "code = 0 \<longleftrightarrow> (\<exists>rg. discover getenv (Some (map (entry_of parse) dirs)) empty_registry = Inr rg)"
proof -
  from assms(1) obtain errors n where c: "check_configs parse (sort_key ad_name dirs) = Inr (errors, n)"
    and e: "code = 0 \<longleftrightarrow> errors = []" by (auto simp: capability_validate_def map_sum_Inr_ex split: if_splits)
  have l: "ad_document d \<noteq> Some (Inl x)" if "d \<in> set dirs" for d x using check_configs_loads [OF c] that by simp
  have "(\<exists>rg. discover getenv (Some (map (entry_of parse) dirs)) empty_registry = Inr rg) \<longleftrightarrow>
      (\<forall>d \<in> set dirs. \<forall>x. ad_is_dir d \<longrightarrow> de_config (entry_of parse d) \<noteq> Some (Inl x))"
    using discover_entries_total [OF assms(2)] by (auto simp: discover_def sort_key_map entry_of_def)
  also have "\<dots> \<longleftrightarrow> (\<forall>d \<in> set dirs. \<forall>data. ad_document d = Some (Inr data) \<longrightarrow> (\<exists>cfg. parse data = Inr cfg))"
  proof (rule ball_cong [OF refl])
    fix d assume d: "d \<in> set dirs"
    show "(\<forall>x. ad_is_dir d \<longrightarrow> de_config (entry_of parse d) \<noteq> Some (Inl x)) \<longleftrightarrow>
        (\<forall>data. ad_document d = Some (Inr data) \<longrightarrow> (\<exists>cfg. parse data = Inr cfg))"
    proof (cases "ad_document d")
      case (Some r)
      then have i: "ad_is_dir d" using assms(3) d by simp
      obtain data where r: "r = Inr data" using l [OF d] Some by (cases r) auto
      show ?thesis using i Some r by (cases "parse data") (auto simp: entry_of_def)
    qed (simp add: entry_of_def)
  qed
  finally show ?thesis using check_configs_errors [OF c] e by simp
qed

theorem validated_configurations_start_witness:
  "\<exists>rg. discover (\<lambda>v. Some ''x'') (Some (map (entry_of (\<lambda>d. Inr (demo_agent ''k8s'' [])))
     [\<lparr>ad_name = ''k8s'', ad_is_dir = True, ad_document = Some (Inr (JObj [])), ad_prompt = None\<rparr>])) empty_registry = Inr rg"
proof -
  let ?dirs = "[\<lparr>ad_name = ''k8s'', ad_is_dir = True, ad_document = Some (Inr (JObj [])), ad_prompt = None\<rparr>]"
  have "capability_validate (\<lambda>d. Inr (demo_agent ''k8s'' [])) ?dirs =
      Inr (0, [[CHR 0xE2, CHR 0x9C, CHR 0x85] @ '' capability-validate OK '' @ [CHR 0xE2, CHR 0x80, CHR 0x94]
        @ '' 1 agent configs valid''])" by code_simp
  from validated_configurations_start [OF this, of "\<lambda>v. Some ''x''"] show ?thesis by (simp add: env_set_def)
qed

end
