(* ===== verification/Logger.thy ===== *)
theory Logger
  imports JsonRoundtrip Breaker Capability
begin

text \<open>
  Structured logging, src/src/core/logger.py: the formatter that turns a record into one line of JSON,
  and the calls that log a request, a response and an error.  Of the standard library the model has
  what the code relies on: the attributes of a record (Python 3.11), and \<open>makeRecord\<close>, which raises
  KeyError for an extra field that has the name of one.  The clock's text and the current span are
  arguments; an exception is its formatted text.  Extra fields are values JSON can hold.
\<close>

section \<open>Records\<close>

definition STANDARD_ATTRS :: "string list" where
  "STANDARD_ATTRS =
     [''name'', ''msg'', ''args'', ''levelname'', ''levelno'', ''pathname'', ''filename'', ''module'', ''exc_info'', ''exc_text'',
      ''stack_info'', ''lineno'', ''funcName'', ''created'', ''msecs'', ''relativeCreated'', ''thread'', ''threadName'',
      ''processName'', ''process'', ''message'', ''asctime'']"

record log_record =
  lr_level :: string
  lr_logger :: string
  lr_message :: string
  lr_module :: string
  lr_function :: string
  lr_line :: int
  lr_extra :: "(string \<times> json) list"
  lr_exception :: "string option"

text \<open>Where a call is made: the level and the logger, and the module, function and line of the caller.\<close>

record call_site =
  cs_level :: string
  cs_logger :: string
  cs_module :: string
  cs_function :: string
  cs_line :: int

definition make_record ::
    "call_site \<Rightarrow> string \<Rightarrow> (string \<times> json) list \<Rightarrow> string option \<Rightarrow> exn + log_record" where
  "make_record site message extra exc =
     (case filter (\<lambda>(k, v). k \<in> set STANDARD_ATTRS) extra of
        (k, v) # _ \<Rightarrow> Inl (''KeyError: Attempt to overwrite '' @ k @ '' in LogRecord'')
      | [] \<Rightarrow>
          Inr \<lparr>lr_level = cs_level site, lr_logger = cs_logger site, lr_message = message, lr_module = cs_module site,
               lr_function = cs_function site, lr_line = cs_line site, lr_extra = extra, lr_exception = exc\<rparr>)"

section \<open>The formatter\<close>

text \<open>\<open>format(n, "0wx")\<close>\<close>

fun hex_digits :: "nat \<Rightarrow> string" where
  "hex_digits n = (if n < 16 then [hex_digit n] else hex_digits (n div 16) @ [hex_digit (n mod 16)])"

declare hex_digits.simps [simp del]

definition show_hex :: "nat \<Rightarrow> nat \<Rightarrow> string" where
  "show_hex w n = (let ds = hex_digits n in replicate (w - length ds) CHR ''0'' @ ds)"

definition base_fields :: "string \<Rightarrow> log_record \<Rightarrow> (string \<times> json) list" where
  "base_fields timestamp r =
     [(''timestamp'', JStr timestamp), (''level'', JStr (lr_level r)), (''logger'', JStr (lr_logger r)),
      (''message'', JStr (lr_message r)), (''module'', JStr (lr_module r)), (''function'', JStr (lr_function r)),
      (''line'', JInt (lr_line r))]"

definition set_fields :: "(string \<times> json) list \<Rightarrow> (string \<times> json) list \<Rightarrow> (string \<times> json) list" where
  "set_fields d kvs = fold (\<lambda>(k, v) d. dict_set d k v) kvs d"

definition shown_extra :: "log_record \<Rightarrow> (string \<times> json) list" where
  "shown_extra r = filter (\<lambda>(k, v). k \<notin> set STANDARD_ATTRS \<and> \<not> prefix ''_'' k) (lr_extra r)"

text \<open>The trace and cur of a recording span.\<close>

definition late_fields :: "(nat \<times> nat) option \<Rightarrow> log_record \<Rightarrow> (string \<times> json) list" where
  "late_fields cur r =
     (case cur of
        None \<Rightarrow> []
      | Some (trace, sp) \<Rightarrow> [(''trace_id'', JStr (show_hex 32 trace)), (''span_id'', JStr (show_hex 16 sp))])
     @ (case lr_exception r of None \<Rightarrow> [] | Some t \<Rightarrow> [(''exception'', JStr t)])"

definition log_data :: "string \<Rightarrow> (nat \<times> nat) option \<Rightarrow> log_record \<Rightarrow> (string \<times> json) list" where
  "log_data timestamp cur r =
     set_fields (set_fields (base_fields timestamp r) (shown_extra r)) (late_fields cur r)"

definition format_record :: "string \<Rightarrow> (nat \<times> nat) option \<Rightarrow> log_record \<Rightarrow> string" where
  "format_record timestamp cur r = json_dumps (JObj (log_data timestamp cur r))"

section \<open>The calls\<close>

definition log_call ::
    "string \<Rightarrow> (nat \<times> nat) option \<Rightarrow> call_site \<Rightarrow> string \<Rightarrow> (string \<times> json) list \<Rightarrow> string option \<Rightarrow> exn + string" where
  "log_call timestamp cur site message extra exc =
     map_sum id (format_record timestamp cur) (make_record site message extra exc)"

definition request_extra :: "string \<Rightarrow> string \<Rightarrow> string \<Rightarrow> string \<Rightarrow> (string \<times> json) list" where
  "request_extra agent_id user_id session_id input_text =
     [(''agent_id'', JStr agent_id), (''user_id'', JStr user_id), (''session_id'', JStr session_id),
      (''input_length'', JInt (int (length input_text)))]"

definition response_extra :: "string \<Rightarrow> string \<Rightarrow> string \<Rightarrow> int \<Rightarrow> string \<Rightarrow> (string \<times> json) list" where
  "response_extra agent_id user_id session_id response_length duration_ms =
     [(''agent_id'', JStr agent_id), (''user_id'', JStr user_id), (''session_id'', JStr session_id),
      (''response_length'', JInt response_length), (''duration_ms'', JReal duration_ms)]"

definition error_extra :: "string \<Rightarrow> string \<Rightarrow> string \<Rightarrow> (string \<times> json) list \<Rightarrow> (string \<times> json) list" where
  "error_extra agent_id error_type error_message kwargs =
     set_fields [(''agent_id'', JStr agent_id), (''error_type'', JStr error_type), (''error_message'', JStr error_message)] kwargs"

definition log_request ::
    "string \<Rightarrow> (nat \<times> nat) option \<Rightarrow> call_site \<Rightarrow> string \<Rightarrow> string \<Rightarrow> string \<Rightarrow> string \<Rightarrow> exn + string" where
  "log_request timestamp cur site agent_id user_id session_id input_text =
     log_call timestamp cur site ''Request received'' (request_extra agent_id user_id session_id input_text) None"

definition log_response ::
    "string \<Rightarrow> (nat \<times> nat) option \<Rightarrow> call_site \<Rightarrow> string \<Rightarrow> string \<Rightarrow> string \<Rightarrow> int \<Rightarrow> string \<Rightarrow> exn + string" where
  "log_response timestamp cur site agent_id user_id session_id response_length duration_ms =
     log_call timestamp cur site ''Response sent'' (response_extra agent_id user_id session_id response_length duration_ms) None"

definition log_error ::
    "string \<Rightarrow> (nat \<times> nat) option \<Rightarrow> call_site \<Rightarrow> string \<Rightarrow> string \<Rightarrow> string \<Rightarrow> (string \<times> json) list \<Rightarrow> string \<Rightarrow> exn + string" where
  "log_error timestamp cur site agent_id error_type error_message kwargs traceback =
     log_call timestamp cur site (''Error in '' @ agent_id) (error_extra agent_id error_type error_message kwargs) (Some traceback)"

section \<open>One line\<close>

lemma digit_line: "is_digit c \<Longrightarrow> c \<noteq> char_nl"
  by (auto simp: is_digit_def char_nl_def)

lemma takeWhile_line: "char_nl \<notin> set (takeWhile is_digit s)"
  using digit_line by (auto dest: set_takeWhileD)

lemma parse_number_line:
  assumes "parse_number s = Some (JReal x, r)"
  shows "char_nl \<notin> set x"
proof -
  have nd: "\<not> is_digit char_nl" using digit_line by blast
  have ip: "char_nl \<notin> set ds" if "parse_int_part b = Some (ds, q)" for b ds q
    using that nd takeWhile_line by (cases b) (auto simp: parse_int_part_def char_nl_def split: if_splits)
  have fr: "char_nl \<notin> set (fst (parse_frac b))" for b
    using nd takeWhile_line by (cases b) (auto simp: parse_frac_def char_nl_def)
  have ex: "char_nl \<notin> set (fst (parse_exp b))" for b
    using nd takeWhile_line by (cases b) (auto simp: parse_exp_def char_nl_def Let_def split: list.splits)
  obtain sg body where b: "(case s of c # cs \<Rightarrow> if c = CHR ''-'' then ([c], cs) else ([], s) | [] \<Rightarrow> ([], s)) = (sg, body)"
    by fastforce
  then have sg: "char_nl \<notin> set sg" by (auto simp: char_nl_def split: list.splits if_splits)
  from assms b obtain ds q where i: "parse_int_part body = Some (ds, q)" by (auto simp: parse_number_def split: option.splits)
  obtain f q2 where f: "parse_frac q = (f, q2)" by fastforce
  obtain e q3 where e: "parse_exp q2 = (e, q3)" by fastforce
  have "x = sg @ ds @ f @ e"
    using assms unfolding parse_number_def b prod.case i option.case f e Let_def by (auto split: if_splits)
  with sg ip [OF i] fr [of q] ex [of q2] f e show ?thesis by simp
qed

lemma literal_line: "parse_literal x = Some (JReal x, []) \<Longrightarrow> char_nl \<notin> set x"
  using parse_number_line [of x x "[]"] by (auto simp: parse_literal_def char_nl_def split: if_splits)

lemma hex_digit_line: "n < 16 \<Longrightarrow> char_nl \<noteq> hex_digit n"
proof -
  have "list_all (\<lambda>n. char_nl \<noteq> hex_digit n) [0..<16]" by code_simp
  then show "n < 16 \<Longrightarrow> char_nl \<noteq> hex_digit n" by (auto simp: list_all_iff)
qed

lemma escape_char_line: "char_nl \<notin> set (escape_char c)"
proof -
  have "of_char c < (256 :: nat)" by simp
  then have "of_char c div 16 < (16 :: nat)" by linarith
  then have "char_nl \<noteq> hex_digit (of_char c div 16)" "char_nl \<noteq> hex_digit (of_char c mod 16)" by (auto intro!: hex_digit_line)
  moreover have "of_char c \<noteq> (10 :: nat) \<Longrightarrow> char_nl \<noteq> c" by (auto simp: char_nl_def)
  ultimately show ?thesis by (simp add: escape_char_def Let_def) (simp add: char_nl_def)
qed

lemma dump_str_line: "char_nl \<notin> set (dump_str t)"
  using escape_char_line by (auto simp: dump_str_def char_nl_def)

lemma show_int_line: "char_nl \<notin> set (show_int n)"
proof -
  have "char_nl \<notin> set (show_nat k)" for k
    using show_nat_digits(1) [of k] digit_line by (auto simp: list_all_iff)
  then show ?thesis by (simp add: show_int_def char_nl_def)
qed

lemma join_line: "(\<And>x. x \<in> set xs \<Longrightarrow> char_nl \<notin> set x) \<Longrightarrow> char_nl \<notin> set (py_join '', '' xs)"
  by (induction xs rule: induct_list012) (simp_all add: char_nl_def)

text \<open>JSON is written on one line.\<close>

lemma dumps_one_line: "wf_json v \<Longrightarrow> char_nl \<notin> set (json_dumps v)"
proof (induction v)
  case (JReal s)
  then show ?case by (simp add: literal_line)
next
  case (JList xs)
  then have "char_nl \<notin> set (py_join '', '' (map json_dumps xs))" by (intro join_line) auto
  then show ?case by (simp add: char_nl_def)
next
  case (JObj ms)
  have "char_nl \<notin> set (dump_str (fst p) @ '': '' @ json_dumps (snd p))" if "p \<in> set ms" for p
  proof -
    obtain k v where p: "p = (k, v)" by fastforce
    have "wf_json v" using JObj.prems that by (auto simp: p)
    then have "char_nl \<notin> set (json_dumps v)" using JObj.IH [OF that, of v] by (simp add: p)
    then show ?thesis using dump_str_line by (simp add: p char_nl_def)
  qed
  then have "char_nl \<notin> set (py_join '', '' (map (\<lambda>p. dump_str (fst p) @ '': '' @ json_dumps (snd p)) ms))"
    by (intro join_line) auto
  then show ?case by (simp add: char_nl_def case_prod_unfold)
qed (simp_all add: char_nl_def dump_str_line show_int_line [unfolded char_nl_def] dump_str_line [unfolded char_nl_def])

section \<open>Lemmas\<close>

lemma dict_get_set_fields:
  "distinct (map fst kvs) \<Longrightarrow> dict_get (set_fields d kvs) k = (case dict_get kvs k of None \<Rightarrow> dict_get d k | Some v \<Rightarrow> Some v)"
proof (induction kvs arbitrary: d)
  case (Cons p kvs)
  obtain k' v where p: "p = (k', v)" by fastforce
  with Cons.prems have "dict_get kvs k' = None" by (simp add: dict_get_map_of map_of_eq_None_iff)
  with Cons p show ?case by (auto simp: set_fields_def split: option.splits)
qed (simp add: set_fields_def)

lemma set_fields_wf:
  "wf_json (JObj d) \<Longrightarrow> \<forall>p \<in> set kvs. wf_json (snd p) \<Longrightarrow> wf_json (JObj (set_fields d kvs))"
proof (induction kvs arbitrary: d)
  case (Cons p kvs)
  obtain k v where p: "p = (k, v)" by fastforce
  have "distinct (map fst (dict_set d k v))" using Cons.prems(1) by (simp add: dict_set_distinct)
  moreover have "wf_json (snd q)" if "q \<in> set (dict_set d k v)" for q
    using dict_set_elem [OF that] Cons.prems p by auto
  ultimately have "wf_json (JObj (dict_set d k v))" by simp
  then have "wf_json (JObj (set_fields (dict_set d k v) kvs))" using Cons.IH [of "dict_set d k v"] Cons.prems(2) by simp
  then show ?case by (simp add: set_fields_def p)
qed (simp add: set_fields_def)

lemma dict_get_filter: "dict_get (filter (\<lambda>(k, v). P k) d) k = (if P k then dict_get d k else None)"
  by (induction d) auto

section \<open>Properties\<close>

text \<open>
  C28: every record that is written is one line of JSON, which reads back as an object with the message,
  the module and every field the call added that does not start with an underscore, but for the three
  names the formatter sets last.
\<close>

theorem log_line_reads_back:
  assumes "log_call timestamp cur site message extra exc = Inr line" "wf_json (JObj extra)"
  shows "\<exists>d. json_loads line = Some (JObj d) \<and> char_nl \<notin> set line \<and> dict_get d ''message'' = Some (JStr message) \<and>
    dict_get d ''module'' = Some (JStr (cs_module site)) \<and>
    (\<forall>k v. dict_get extra k = Some v \<longrightarrow> \<not> prefix ''_'' k \<longrightarrow> k \<notin> {''trace_id'', ''span_id'', ''exception''} \<longrightarrow> dict_get d k = Some v)"
proof -
  have ex: "\<forall>(k, v) \<in> set extra. k \<notin> set STANDARD_ATTRS" and l: "line = format_record timestamp cur
      \<lparr>lr_level = cs_level site, lr_logger = cs_logger site, lr_message = message, lr_module = cs_module site,
        lr_function = cs_function site, lr_line = cs_line site, lr_extra = extra, lr_exception = exc\<rparr>"
    using assms(1) by (auto simp: log_call_def make_record_def filter_empty_conv split: list.splits)
  let ?r = "\<lparr>lr_level = cs_level site, lr_logger = cs_logger site, lr_message = message, lr_module = cs_module site,
      lr_function = cs_function site, lr_line = cs_line site, lr_extra = extra, lr_exception = exc\<rparr>"
  let ?d = "log_data timestamp cur ?r"
  have k: "k \<notin> set STANDARD_ATTRS" if "dict_get extra k = Some v" for k v
    using ex that by (auto simp: dict_get_map_of dest!: map_of_SomeD)
  then have x: "dict_get extra ''message'' = None" "dict_get extra ''module'' = None"
    by (fastforce simp: STANDARD_ATTRS_def)+
  have dx: "distinct (map fst (shown_extra ?r))" using assms(2) by (simp add: shown_extra_def distinct_map_filter)
  have dl: "distinct (map fst (late_fields cur ?r))" by (cases cur) (auto simp: late_fields_def split: option.split)
  have g: "dict_get ?d k = (case dict_get (late_fields cur ?r) k of Some v \<Rightarrow> Some v | None \<Rightarrow>
      (case dict_get (shown_extra ?r) k of Some v \<Rightarrow> Some v | None \<Rightarrow> dict_get (base_fields timestamp ?r) k))" for k
    by (simp add: log_data_def dict_get_set_fields [OF dx] dict_get_set_fields [OF dl] split: option.split)
  have s: "dict_get (shown_extra ?r) k = (if k \<notin> set STANDARD_ATTRS \<and> \<not> prefix ''_'' k then dict_get extra k else None)" for k
    unfolding shown_extra_def by (simp only: dict_get_filter [where P = "\<lambda>k. k \<notin> set STANDARD_ATTRS \<and> \<not> prefix ''_'' k"] log_record.select_convs)
  have late: "dict_get (late_fields cur ?r) k = None" if "k \<notin> {''trace_id'', ''span_id'', ''exception''}" for k
    using that by (auto simp: late_fields_def split: option.split)
  have "wf_json (JObj ?d)" unfolding log_data_def
    by (intro set_fields_wf) (use assms(2) in \<open>auto simp: base_fields_def shown_extra_def late_fields_def split: option.splits\<close>)
  then have "json_loads line = Some (JObj ?d)" "char_nl \<notin> set line"
    unfolding l format_record_def by (simp_all only: loads_dumps dumps_one_line not_False_eq_True)
  moreover have "dict_get ?d ''message'' = Some (JStr message)" "dict_get ?d ''module'' = Some (JStr (cs_module site))"
    by (simp_all add: g s late x base_fields_def)
  moreover have "dict_get ?d k = Some v" if "dict_get extra k = Some v" "\<not> prefix ''_'' k" "k \<notin> {''trace_id'', ''span_id'', ''exception''}" for k v
    using that k by (simp add: g s late)
  ultimately show ?thesis by blast
qed

theorem log_line_reads_back_witness:
  "\<exists>line d. log_request ''t'' (Some (10, 255)) \<lparr>cs_level = ''INFO'', cs_logger = ''agent-squad'', cs_module = ''logger'',
       cs_function = ''log_request'', cs_line = 70\<rparr> ''k8s'' ''u'' ''s1'' ''pods?'' = Inr line \<and>
     json_loads line = Some (JObj d) \<and> dict_get d ''message'' = Some (JStr ''Request received'') \<and>
     dict_get d ''input_length'' = Some (JInt 5)"
proof -
  let ?site = "\<lparr>cs_level = ''INFO'', cs_logger = ''agent-squad'', cs_module = ''logger'', cs_function = ''log_request'', cs_line = 70\<rparr>"
  let ?extra = "request_extra ''k8s'' ''u'' ''s1'' ''pods?''"
  have "\<exists>r. make_record ?site ''Request received'' ?extra None = Inr r" by (simp add: make_record_def request_extra_def STANDARD_ATTRS_def)
  then obtain line where l: "log_call ''t'' (Some (10, 255)) ?site ''Request received'' ?extra None = Inr line"
    by (auto simp: log_call_def)
  have "wf_json (JObj ?extra)" "dict_get ?extra ''input_length'' = Some (JInt 5)" "\<not> prefix ''_'' ''input_length''"
    by (simp_all add: request_extra_def)
  with log_line_reads_back [OF l] l show ?thesis by (fastforce simp: log_request_def)
qed

text \<open>
  No warning of the circuit breaker about its Redis store is ever written: its extra field name is
  an attribute of every record, so the call raises KeyError inside the handler that is to make the
  breaker fail open.
\<close>

theorem breaker_warnings_raise:
  "log_call timestamp cur site message [(''error'', JStr e), (''name'', JStr (cb_name b))] exc =
     Inl ''KeyError: Attempt to overwrite name in LogRecord''"
  by (simp add: log_call_def make_record_def STANDARD_ATTRS_def)

end
