(* ===== verification/Clients.thy ===== *)
theory Clients
  imports EndToEnd Logger
begin

text \<open>
  Two clients of the public surface: the accuracy harness of src/scripts/eval_squad.py, which reads the
  streamed chat completions, and the bridge of src/mcp-server/mcp-server.py, which asks the query route.
  The connection is a parameter: what a request gets back, or how it fails.  So is pydantic's rendering of
  a chunk, of which the streamed lines are made.
\<close>


section \<open>The stream on the wire\<close>

definition choice_json :: "chunk_choice \<Rightarrow> json" where
  "choice_json ch =
     JObj [(''index'', JInt (ck_index ch)),
           (''delta'', JObj [(''role'', json_opt (dc_role (ck_delta ch))), (''content'', json_opt (dc_content (ck_delta ch)))]),
           (''finish_reason'', json_opt (ck_finish_reason ch))]"

definition chunk_json :: "chat_completion_chunk \<Rightarrow> json" where
  "chunk_json c =
     JObj [(''id'', JStr (cc_id c)), (''object'', JStr (cc_object c)), (''created'', JInt (cc_created c)),
           (''model'', JStr (cc_model c)), (''choices'', JList (map choice_json (cc_choices c)))]"

text \<open>What pydantic documents of its rendering: JSON on one line.\<close>

definition renders_chunks :: "(json \<Rightarrow> string) \<Rightarrow> bool" where
  "renders_chunks dump \<longleftrightarrow>
     (\<forall>c. json_loads (dump (chunk_json c)) = Some (chunk_json c) \<and> char_nl \<notin> set (dump (chunk_json c)) \<and>
        dump (chunk_json c) \<noteq> [] \<and> \<not> is_space (last (dump (chunk_json c))))"

definition frame_line :: "(json \<Rightarrow> string) \<Rightarrow> frame \<Rightarrow> string" where
  "frame_line dump f = ''data: '' @ (case f of Data c \<Rightarrow> dump (chunk_json c) | Done_Sentinel \<Rightarrow> ''[DONE]'')"

definition wire :: "(json \<Rightarrow> string) \<Rightarrow> frame list \<Rightarrow> string" where
  "wire dump frames = concat (map (\<lambda>f. frame_line dump f @ nl @ nl) frames)"

section \<open>The harness\<close>

record golden_query =
  gq_name :: string
  gq_model :: string
  gq_query :: string
  gq_expect_status :: "int option"
  gq_must_match :: "string list"
  gq_must_not_contain :: "string list"

text \<open>
  The connection answers with the body of a successful response or the status of a refusal; any other
  failure ends the run.  A pattern that does not compile does too.
\<close>

record 's harness_env =
  he_post :: "json \<Rightarrow> 's \<Rightarrow> (exn + int + string) \<times> 's"
  he_search_ci :: "string \<Rightarrow> string \<Rightarrow> exn + bool"

definition eval_payload :: "golden_query \<Rightarrow> json" where
  "eval_payload c =
     JObj [(''model'', JStr (gq_model c)), (''stream'', JBool True), (''user'', JStr (''eval-'' @ gq_name c)),
           (''messages'', JList [JObj [(''role'', JStr ''user''), (''content'', JStr (gq_query c))]])]"

text \<open>
  \<open>json.loads(line[5:])["choices"][0]["delta"].get("content") or ""\<close>; None where that raises, which is
  passed over.
\<close>

definition line_content :: "json \<Rightarrow> json option" where
  "line_content v =
     (case v of
        JObj d \<Rightarrow>
          (case dict_get d ''choices'' of
             Some (JList (JObj ch # chs)) \<Rightarrow>
               (case dict_get ch ''delta'' of
                  Some (JObj delta) \<Rightarrow> Some (or_else (dict_get delta ''content'') (JStr []))
                | _ \<Rightarrow> None)
           | _ \<Rightarrow> None)
      | _ \<Rightarrow> None)"

definition read_line :: "string \<Rightarrow> json list" where
  "read_line raw =
     (let line = py_strip raw
      in if prefix ''data:'' line \<and> line \<noteq> ''data: [DONE]'' then
           (case Option.bind (json_loads (drop 5 line)) line_content of None \<Rightarrow> [] | Some t \<Rightarrow> [t])
         else [])"

text \<open>Joining the parts needs texts.\<close>

definition join_parts :: "json list \<Rightarrow> exn + string" where
  "join_parts parts =
     (if list_all (\<lambda>p. case p of JStr t \<Rightarrow> True | _ \<Rightarrow> False) parts then Inr (concat (map py_str parts)) else Inl ''TypeError'')"

definition streamed_text :: "string \<Rightarrow> exn + string" where
  "streamed_text body = join_parts (concat (map read_line (split_char char_nl body)))"

fun missing_patterns :: "(string \<Rightarrow> string \<Rightarrow> exn + bool) \<Rightarrow> string list \<Rightarrow> string \<Rightarrow> exn + string list" where
  "missing_patterns look [] t = Inr []"
| "missing_patterns look (p # ps) t =
     (case look p t of
        Inl e \<Rightarrow> Inl e
      | Inr hit \<Rightarrow> map_sum id (\<lambda>fs. if hit then fs else (''missing /'' @ p @ ''/'') # fs) (missing_patterns look ps t))"

definition status_failures :: "golden_query \<Rightarrow> int \<Rightarrow> string list" where
  "status_failures c status =
     (case gq_expect_status c of
        None \<Rightarrow> []
      | Some n \<Rightarrow> if status \<noteq> n then [''status '' @ show_int status @ '' != '' @ show_int n] else [])"

definition present_failures :: "golden_query \<Rightarrow> string \<Rightarrow> string list" where
  "present_failures c t =
     map (\<lambda>s. ''present '' @ [CHR 0x27] @ s @ [CHR 0x27]) (filter (\<lambda>s. contains (py_lower s) (py_lower t)) (gq_must_not_contain c))"

text \<open>The failures, the status and the length of the text.\<close>

definition run_query :: "'s harness_env \<Rightarrow> golden_query \<Rightarrow> 's \<Rightarrow> (exn + string list \<times> int \<times> nat) \<times> 's" where
  "run_query env c s =
     (case he_post env (eval_payload c) s of
        (Inl e, s') \<Rightarrow> (Inl e, s')
      | (Inr r, s') \<Rightarrow>
          ((case (case r of Inl code \<Rightarrow> Inr (code, []) | Inr body \<Rightarrow> map_sum id (Pair 200) (streamed_text body)) of
              Inl e \<Rightarrow> Inl e
            | Inr (status, t) \<Rightarrow>
                map_sum id (\<lambda>missing. (status_failures c status @ missing @ present_failures c t, status, length t))
                  (missing_patterns (he_search_ci env) (gq_must_match c) t)), s'))"

fun run_queries :: "'s harness_env \<Rightarrow> golden_query list \<Rightarrow> 's \<Rightarrow> (exn + string list list) \<times> 's" where
  "run_queries env [] s = (Inr [], s)"
| "run_queries env (c # cs) s =
     (case run_query env c s of
        (Inl e, s1) \<Rightarrow> (Inl e, s1)
      | (Inr (fails, status, n), s1) \<Rightarrow>
          (case run_queries env cs s1 of (rs, s2) \<Rightarrow> (map_sum id ((#) fails) rs, s2)))"

text \<open>The exit code.\<close>

definition harness_main :: "'s harness_env \<Rightarrow> golden_query list \<Rightarrow> 's \<Rightarrow> (exn + nat) \<times> 's" where
  "harness_main env cases s =
     (case run_queries env cases s of
        (rs, s') \<Rightarrow>
          (map_sum id (\<lambda>rs. if length (filter (\<lambda>fails. fails = []) rs) = length cases then 0 else 1) rs, s'))"

section \<open>The bridge for the MCP client\<close>

datatype post_outcome = PostTimeout | PostFailed exn | Posted int "json option"

record 's mcp_env =
  mc_post :: "string \<Rightarrow> json \<Rightarrow> 's \<Rightarrow> post_outcome \<times> 's"
  mc_get_health :: "'s \<Rightarrow> (exn + int) \<times> 's"
  mc_token :: string

record mcp_response =
  mr_agent :: string
  mr_response :: string
  mr_confidence :: number
  mr_reasoning :: string

definition mcp_payload :: "string \<Rightarrow> string \<Rightarrow> json" where
  "mcp_payload question user_id =
     JObj [(''user_input'', JStr question), (''user_id'', JStr user_id), (''session_id'', JStr (''kiro-'' @ user_id))]"

text \<open>The response model: three texts and a number, as pydantic reads them; None is its validation error.\<close>

definition response_of :: "json \<Rightarrow> mcp_response option" where
  "response_of v =
     (case (dict_field v ''agent'' (JStr ''unknown''), dict_field v ''response'' (JStr ''No response''),
            py_float (dict_field v ''confidence'' (JReal ''0.0'')), dict_field v ''reasoning'' (JStr [])) of
        (JStr agent, JStr response, Some conf, JStr why) \<Rightarrow>
          Some \<lparr>mr_agent = agent, mr_response = response, mr_confidence = conf, mr_reasoning = why\<rparr>
      | _ \<Rightarrow> None)"

definition mcp_query :: "'s mcp_env \<Rightarrow> string \<Rightarrow> string \<Rightarrow> 's \<Rightarrow> (int + mcp_response) \<times> 's" where
  "mcp_query env question user_id s =
     (case mc_post env (mc_token env) (mcp_payload question user_id) s of
        (PostTimeout, s') \<Rightarrow> (Inl 504, s')
      | (PostFailed e, s') \<Rightarrow> (Inl 502, s')
      | (Posted code body, s') \<Rightarrow>
          (if \<not> (200 \<le> code \<and> code < 300) then Inl 502
           else (case body of
                   Some v \<Rightarrow> if is_dict v then (case response_of v of None \<Rightarrow> Inl 500 | Some r \<Rightarrow> Inr r) else Inl 500
                 | None \<Rightarrow> Inl 500), s'))"

definition mcp_healthz :: json where
  "mcp_healthz = JObj [(''status'', JStr ''ok''), (''service'', JStr ''mcp-server'')]"

definition mcp_health :: json where
  "mcp_health = JObj [(''status'', JStr ''healthy'')]"

definition mcp_ready :: "'s mcp_env \<Rightarrow> 's \<Rightarrow> (int \<times> json) \<times> 's" where
  "mcp_ready env s =
     (case mc_get_health env s of
        (r, s') \<Rightarrow>
          (let ok = (case r of Inl e \<Rightarrow> False | Inr code \<Rightarrow> code < 500);
               detail = ''supervisor: '' @ (case r of Inl e \<Rightarrow> e | Inr code \<Rightarrow> show_int code)
           in ((if ok then 200 else 503,
                JObj [(''status'', JStr (if ok then ''ready'' else ''not_ready'')),
                      (''checks'', JObj [(''supervisor'', check_json ok detail)])]), s')))"

section \<open>Lemmas\<close>

definition one_choice :: "frame \<Rightarrow> bool" where
  "one_choice f \<longleftrightarrow> (case f of Data c \<Rightarrow> length (cc_choices c) = 1 | Done_Sentinel \<Rightarrow> True)"

lemma one_choice_make_chunk [simp]: "one_choice (make_chunk cid created model rl ct fin)" "one_choice Done_Sentinel"
  by (simp_all add: one_choice_def make_chunk_def)

lemma one_choice_sse_stream: "list_all one_choice (fst (sse_stream cid created r model))"
  by (simp add: sse_stream_def Let_def split: sum.split)

lemma one_choice_sse_loop:
  "list_all one_choice (fst (sse_loop style (make_chunk cid created model) opened shut evs fin))"
  by (induction style "make_chunk cid created model" opened shut evs fin rule: sse_loop.induct)
    (auto simp: Let_def split: prod.splits option.splits step_event.splits)

lemma one_choice_agentic: "list_all one_choice (fst (sse_stream_agentic style cid created evs fin model))"
  using one_choice_sse_loop [of style cid created model False False evs fin]
  by (cases "sse_loop style (make_chunk cid created model) False False evs fin") (simp add: sse_stream_agentic_def Let_def)

lemma line_content_chunk:
  assumes "cc_choices c = [ch]"
  shows "line_content (chunk_json c) = Some (JStr (case dc_content (ck_delta ch) of Some t \<Rightarrow> t | None \<Rightarrow> []))"
  by (auto simp: line_content_def chunk_json_def choice_json_def json_opt_def or_else_def assms split: option.splits)

lemma strip_frame_line:
  assumes "u \<noteq> []" "\<not> is_space (last u)"
  shows "py_strip (''data: '' @ u) = ''data: '' @ u"
proof -
  have "dropWhile is_space (''data: '' @ u) = ''data: '' @ u" by (simp add: is_space_def)
  moreover have "dropWhile is_space (rev (''data: '' @ u)) = rev (''data: '' @ u)"
    using assms by (simp add: dropWhile_eq_self_iff hd_append hd_rev)
  ultimately show ?thesis by (simp add: py_strip_def)
qed

lemma loads_after_blank: "json_loads (CHR '' '' # s) = json_loads s"
proof -
  have w: "skip_ws (CHR '' '' # s) = skip_ws s" by (simp add: skip_ws_def is_json_ws_def)
  have n: "2 * length (skip_ws s) + 1 \<le> 2 * length s + 1" using length_skip_ws [of s] by simp
  then have "parse_value (2 * length (CHR '' '' # s) + 1) (skip_ws s) = parse_value (2 * length s + 1) (skip_ws s)"
    using parse_value_enough [of "skip_ws s" "2 * length s + 1"] parse_value_enough [of "skip_ws s" "2 * length (CHR '' '' # s) + 1"] by simp
  then show ?thesis by (simp only: json_loads_def w)
qed

lemma read_frame_line:
  assumes "renders_chunks dump" "one_choice f"
  shows "concat (map py_str (read_line (frame_line dump f))) = frame_text f"
    and "list_all (\<lambda>p. case p of JStr t \<Rightarrow> True | _ \<Rightarrow> False) (read_line (frame_line dump f))"
    and "char_nl \<notin> set (frame_line dump f)"
proof -
  have "concat (map py_str (read_line (frame_line dump f))) = frame_text f \<and>
    list_all (\<lambda>p. case p of JStr t \<Rightarrow> True | _ \<Rightarrow> False) (read_line (frame_line dump f)) \<and> char_nl \<notin> set (frame_line dump f)"
  proof (cases f)
    case (Data c)
    then obtain ch where ch: "cc_choices c = [ch]" using assms(2) by (auto simp: one_choice_def length_Suc_conv)
    have r: "json_loads (dump (chunk_json c)) = Some (chunk_json c)" "char_nl \<notin> set (dump (chunk_json c))"
      "dump (chunk_json c) \<noteq> []" "\<not> is_space (last (dump (chunk_json c)))" using assms(1) by (simp_all add: renders_chunks_def)
    have l: "json_loads (CHR '' '' # dump (chunk_json c)) = Some (chunk_json c)"
      using r(1) by (simp only: loads_after_blank)
    have "dump (chunk_json c) \<noteq> ''[DONE]''"
    proof
      assume "dump (chunk_json c) = ''[DONE]''"
      moreover have "json_loads ''[DONE]'' = None" by code_simp
      ultimately show False using r(1) by simp
    qed
    then have "read_line (frame_line dump f) = [JStr (case dc_content (ck_delta ch) of Some t \<Rightarrow> t | None \<Rightarrow> [])]"
      using r strip_frame_line [of "dump (chunk_json c)"] l
      by (simp add: read_line_def frame_line_def Data Let_def line_content_chunk [OF ch])
    with r(2) show ?thesis by (simp add: Data ch py_str_def frame_line_def char_nl_def)
  next
    case Done_Sentinel
    have "py_strip ''data: [DONE]'' = ''data: [DONE]''" by code_simp
    then show ?thesis by (simp add: Done_Sentinel frame_line_def read_line_def Let_def char_nl_def)
  qed
  then show "concat (map py_str (read_line (frame_line dump f))) = frame_text f"
    "list_all (\<lambda>p. case p of JStr t \<Rightarrow> True | _ \<Rightarrow> False) (read_line (frame_line dump f))"
    "char_nl \<notin> set (frame_line dump f)" by blast+
qed

lemma split_char_line: "d \<notin> set l \<Longrightarrow> split_char d (l @ d # r) = l # split_char d r"
  by (induction l) auto

lemma read_wire:
  assumes "renders_chunks dump" "list_all one_choice frames"
  shows "concat (map py_str (concat (map read_line (split_char char_nl (wire dump frames))))) = concat (map frame_text frames) \<and>
    list_all (\<lambda>p. case p of JStr t \<Rightarrow> True | _ \<Rightarrow> False) (concat (map read_line (split_char char_nl (wire dump frames))))"
  using assms(2)
proof (induction frames)
  case Nil
  have "read_line [] = []" by (simp add: read_line_def py_strip_def)
  then show ?case by (simp add: wire_def)
next
  case (Cons f frames)
  have e: "read_line [] = []" by (simp add: read_line_def py_strip_def)
  note l = read_frame_line [OF assms(1), of f]
  have "wire dump (f # frames) = frame_line dump f @ char_nl # ([] @ char_nl # wire dump frames)"
    by (simp add: wire_def nl_def char_nl_def)
  then have "split_char char_nl (wire dump (f # frames)) = frame_line dump f # [] # split_char char_nl (wire dump frames)"
    using l(3) Cons.prems split_char_line [of char_nl "frame_line dump f"] by simp
  with Cons l e show ?case by simp
qed

section \<open>Properties\<close>

text \<open>
  C29: what the harness scores is what was streamed: from the lines of a stream, agentic or not, it reads
  exactly the texts of the frames, in order, and no line of the protocol.
\<close>

theorem harness_reads_the_stream:
  assumes "renders_chunks dump"
  shows "streamed_text (wire dump (fst (sse_stream cid created r model))) = Inr (concat (map frame_text (fst (sse_stream cid created r model)))) \<and>
    streamed_text (wire dump (fst (sse_stream_agentic style cid created evs fin model))) =
      Inr (concat (map frame_text (fst (sse_stream_agentic style cid created evs fin model))))"
  using read_wire [OF assms] one_choice_sse_stream one_choice_agentic by (simp add: streamed_text_def join_parts_def)

text \<open>Python's own rendering is one that pydantic's may be.\<close>

lemma json_dumps_renders: "renders_chunks json_dumps"
  unfolding renders_chunks_def
proof (intro allI conjI)
  fix c
  have o: "wf_json (json_opt x)" for x by (simp add: json_opt_def split: option.split)
  have "wf_json (choice_json ch)" for ch by (simp add: choice_json_def o)
  then have "wf_json (chunk_json c)" by (auto simp: chunk_json_def)
  then show "json_loads (json_dumps (chunk_json c)) = Some (chunk_json c)" "char_nl \<notin> set (json_dumps (chunk_json c))"
    by (rule loads_dumps, rule dumps_one_line)
  show "json_dumps (chunk_json c) \<noteq> []" "\<not> is_space (last (json_dumps (chunk_json c)))"
    by (simp_all add: chunk_json_def is_space_def)
qed

theorem harness_reads_the_stream_witness:
  "streamed_text (wire json_dumps (fst (sse_stream ''c1'' 0 [(''response'', VJson (JStr ''all pods run''))] ''aigent-squad''))) =
     Inr ''all pods run''"
proof -
  have "concat (map frame_text (fst (sse_stream ''c1'' 0 [(''response'', VJson (JStr ''all pods run''))] ''aigent-squad''))) = ''all pods run''"
    by code_simp
  with harness_reads_the_stream [OF json_dumps_renders] show ?thesis by simp
qed

text \<open>
  The bridge cannot relay an investigation: the confidence of its result is one of the words alta,
  media and baixa, which the bridge's response model does not take for a number, so the client gets a
  500 for every investigation that succeeded.
\<close>

theorem bridge_refuses_investigations:
  assumes "run_investigation env sy ags sid names ov st = (Inr rca, ags', st')"
    "mc_post menv (mc_token menv) (mcp_payload question user_id) s = (Posted 200 (Some (result_json (investigation_result rca))), s')"
  shows "mcp_query menv question user_id s = (Inl 500, s')"
proof -
  have "float_text ''baixa'' = None" by code_simp
  then have "response_of (result_json (investigation_result rca)) = None"
    by (simp add: response_of_def result_json_def investigation_result_def value_json_def dict_field_def py_float_def
        investigations_are_low [OF assms(1)] split: json.split)
  then show ?thesis by (simp add: mcp_query_def assms(2) result_json_def)
qed

definition relay_env :: "rca_result \<Rightarrow> unit mcp_env" where
  "relay_env rca =
     \<lparr>mc_post = (\<lambda>tok p s. (Posted 200 (Some (result_json (investigation_result rca))), s)), mc_get_health = (\<lambda>s. (Inr 200, s)),
      mc_token = ''t''\<rparr>"

theorem bridge_refuses_investigations_witness:
  "\<exists>rca ags st'. run_investigation (quiet_squad demo_answers) ''oom?'' [(''k8s'', quiet_agent ''k8s'')] ''kiro-u'' [] None
       \<lparr>as_client = new_bedrock_client quiet_settings, as_breakers = [], as_canary = [], as_world = ()\<rparr> = (Inr rca, ags, st') \<and>
     rca_hypothesis rca = JStr ''leak'' \<and> mcp_query (relay_env rca) ''oom?'' ''u'' () = (Inl 500, ())"
proof -
  let ?st = "\<lparr>as_client = new_bedrock_client quiet_settings, as_breakers = [], as_canary = [], as_world = ()\<rparr>"
  have q: "quiet_client (as_client ?st)" by (simp add: quiet_client_def new_bedrock_client_def)
  obtain rca st' where r: "run_investigation (quiet_squad demo_answers) ''oom?'' [(''k8s'', quiet_agent ''k8s'')] ''kiro-u'' [] None ?st =
      (Inr rca, [(''k8s'', quiet_agent ''k8s'')], st')" "rca_hypothesis rca = JStr ''leak''"
    using demo_investigation [OF q] by metis
  have "mc_post (relay_env rca) (mc_token (relay_env rca)) (mcp_payload ''oom?'' ''u'') () =
      (Posted 200 (Some (result_json (investigation_result rca))), ())" by (simp add: relay_env_def)
  from bridge_refuses_investigations [OF r(1) this] r show ?thesis by blast
qed

text \<open>An answer with texts and a number is relayed as it is.\<close>

lemma bridge_relays:
  assumes "mc_post menv (mc_token menv) (mcp_payload question user_id) s =
      (Posted 200 (Some (JObj [(''agent'', JStr a), (''response'', JStr t), (''confidence'', JReal x)])), s')"
  shows "mcp_query menv question user_id s =
    (Inr \<lparr>mr_agent = a, mr_response = t, mr_confidence = real_number x, mr_reasoning = []\<rparr>, s')"
  by (simp add: mcp_query_def assms response_of_def dict_field_def py_float_def)

end
