(* ===== verification/Metrics.thy ===== *)
theory Metrics
  imports Prelude
begin

text \<open>
  The instruments of src/src/core/metrics.py: the declarations, in their order, and the labels a
  confidence is counted under.  The meter itself is the OpenTelemetry helper's; what the components
  record is left out of their models.
\<close>

section \<open>Labels\<close>

definition bucketize_confidence :: "rat \<Rightarrow> string" where
  "bucketize_confidence value = (if 85/100 \<le> value then ''high'' else if 50/100 \<le> value then ''medium'' else ''low'')"

section \<open>Declarations\<close>

datatype instrument_kind = Counter | Histogram | UpDownCounter

record instrument =
  in_kind :: instrument_kind
  in_name :: string
  in_unit :: string
  in_description :: string

definition request_metrics :: "instrument list" where
  "request_metrics =
     [instrument.make Counter ''aigent.requests.total'' ''1''
         (''Total requests processed per agent''),
      instrument.make Counter ''aigent.errors.total'' ''1''
         (''Total errors per agent''),
      instrument.make Histogram ''aigent.request.duration'' ''ms''
         (''Request processing duration per agent''),
      instrument.make Counter ''aigent.tokens.total'' ''1''
         (''Total tokens consumed per agent (input + output)''),
      instrument.make Counter ''aigent.cost.estimated'' ''USD''
         (''Estimated cost in USD per agent''),
      instrument.make Counter ''aigent.tier.routing_decisions'' ''1''
         (''Model-tier routing decisions, labeled by resolved tier (fast/standard/deep)''),
      instrument.make Histogram ''aigent.collect.duration'' ''ms''
         (''Time spent collecting datasource context (adapter fan-out) per agent'')]"

definition gateway_metrics :: "instrument list" where
  "gateway_metrics =
     [instrument.make Histogram ''aigent.llm.duration'' ''ms''
         (''Bedrock round-trip latency per call (excludes retry backoff)''),
      instrument.make Histogram ''aigent.prompt.size_tokens'' ''1''
         (''Distribution of Bedrock-reported input tokens per call (detect prompt bloat)''),
      instrument.make Histogram ''aigent.investigation.rounds'' ''1''
         (''Rounds completed per RCA investigation (vs cost cap)''),
      instrument.make Counter ''aigent.cache.hits'' ''1''
         (''Cache hits (data cache only)''),
      instrument.make Counter ''aigent.cache.misses'' ''1''
         (''Cache misses''),
      instrument.make Counter ''aigent.circuit_breaker.transitions'' ''1''
         (''Circuit breaker state transitions''),
      instrument.make Counter ''aigent.gateway.pool_rejections'' ''1''
         (''Requests rejected with 503 because the worker pool was at capacity''),
      instrument.make UpDownCounter ''aigent.gateway.pool_depth'' ''1''
         (''In-flight jobs currently held by the gateway worker pool''),
      instrument.make Histogram ''aigent.gateway.queue_wait'' ''ms''
         (''Time a job waited to acquire a worker pool slot''),
      instrument.make Counter ''aigent.gateway.redis_fallback_active'' ''1''
         (''Times job lifecycle fell back to log-only because Redis was unavailable''),
      instrument.make Counter ''aigent.rate_limit.blocks'' ''1''
         (''Requests blocked by admission guards (rate or budget)''),
      instrument.make UpDownCounter ''aigent.bedrock.queue_depth'' ''1''
         (''Current number of requests waiting for a Bedrock semaphore slot'')]"

definition investigation_metrics :: "instrument list" where
  "investigation_metrics =
     [instrument.make Histogram ''aigent.bedrock.queue_wait_seconds'' ''s''
         (''Time spent waiting for a Bedrock semaphore slot''),
      instrument.make Counter ''aigent.fanout.calls'' ''1''
         (''Fan-out invocations (N>=2 agents)''),
      instrument.make Histogram ''aigent.fanout.agents_consulted'' ''1''
         (''Number of agents consulted per fan-out''),
      instrument.make Counter ''aigent.fanout.agents_failed'' ''1''
         (''Agents that failed during fan-out''),
      instrument.make Counter ''aigent.synthesizer.calls'' ''1''
         (''Synthesizer invocations (RCA + fan-out merge)''),
      instrument.make Counter ''aigent.investigation.started'' ''1''
         (''Investigations triggered (mode=investigate or auto-detected)''),
      instrument.make Counter ''aigent.investigation.completed'' ''1''
         (''Investigations completed, labeled by confidence level''),
      instrument.make Histogram ''aigent.investigation.duration'' ''ms''
         (''End-to-end investigation duration''),
      instrument.make Histogram ''aigent.investigation.evidence_count'' ''1''
         (''Total evidence items collected per investigation''),
      instrument.make Counter ''aigent.kb.distillation.cost'' ''USD''
         (''Estimated USD cost of distillation pipeline''),
      instrument.make Counter ''aigent.kb.items_created'' ''1''
         (''KB items created, labeled by type and status''),
      instrument.make Counter ''aigent.kb.rag.queries'' ''1''
         (''RAG injection lookups against KB'')]"

definition quality_metrics :: "instrument list" where
  "quality_metrics =
     [instrument.make Counter ''aigent.kb.rag.hits'' ''1''
         (''RAG queries that returned at least 1 similar case above threshold''),
      instrument.make Counter ''aigent.kb.budget.exhausted'' ''1''
         (''Times the monthly KB budget was exceeded (distillation skipped)''),
      instrument.make Counter ''aigent.alerts.received'' ''1''
         (''Alertmanager alerts received via webhook''),
      instrument.make Counter ''aigent.alerts.deduplicated'' ''1''
         (''Alerts skipped due to fingerprint match within dedup window''),
      instrument.make Counter ''aigent.alerts.investigation_triggered'' ''1''
         (''Investigations triggered from alerts''),
      instrument.make Counter ''aigent.alerts.postback'' ''1''
         (''Slack post-back attempts (RCA result returned to channel)''),
      instrument.make Counter ''aigent.quality.violations'' ''1''
         (''Structural quality defects detected in agent responses (tool-scaffolding leaks, raw adapter ''
          @ ''errors) '' @ [CHR 0xE2, CHR 0x80, CHR 0x94] @ '' labels: agent_id, category''),
      instrument.make Histogram ''aigent.eval.score'' ''1''
         (''Per-question eval score emitted by `make eval` (0-1, mechanical checks + judge rubric combined) ''
          @ [CHR 0xE2, CHR 0x80, CHR 0x94] @ '' labels: suite, agent_id''),
      instrument.make Counter ''aigent.quality.ungrounded_numeric_claims'' ''1''
         (''Numeric claims in a response with no matching source in collected infra_data ''
          @ [CHR 0xE2, CHR 0x80, CHR 0x94] @ '' signal only, NOT blocking (see response_quality.py) ''
          @ [CHR 0xE2, CHR 0x80, CHR 0x94] @ '' labels: agent_id''),
      instrument.make Counter ''aigent.quality.confidence'' ''1''
         (''Structured confidence level derived from groundedness scan (spec 41). Labels: level ''
          @ [CHR 0xE2, CHR 0x88, CHR 0x88] @ '' {high, medium, low}.'')]"

definition review_metrics :: "instrument list" where
  "review_metrics =
     [instrument.make Histogram ''aigent.quality.unverified_claims_per_response'' ''{claims}''
         (''Count of DISTINCT ungrounded numeric claims per response (deduped, capped at 20). Spec 41. ''
          @ ''Resource IDs never reach here '' @ [CHR 0xE2, CHR 0x80, CHR 0x94]
          @ '' they block in the earlier guardrail phase. Labels: agent_id.''),
      instrument.make Histogram ''aigent.tool.call_duration'' ''ms''
         (''Per-tool call latency. Labels: tool_name (bounded by MCP allowlist), status ''
          @ ''(success|error|timeout). Enables P99 per tool and identification of slow/unreliable MCP servers.''),
      instrument.make Counter ''aigent.guardrail.blocks'' ''1''
         (''Counter of guardrail block/redaction events. Labels: source (INPUT|OUTPUT), agent_id. Tracks ''
          @ ''security interventions without leaking payload details.''),
      instrument.make Counter ''aigent.bedrock.throttles'' ''1''
         (''Bedrock ThrottlingException/429 retries. Label: model (bounded by tier model table ''
          @ [CHR 0xE2, CHR 0x80, CHR 0x94]
          @ '' haiku/sonnet/opus). Signals capacity pressure before it becomes user-visible latency.''),
      instrument.make Counter ''aigent.context.trimmed_messages'' ''1''
         (''toolResult turns replaced with deterministic summaries by trim_message_history (spec 40). ''
          @ ''Label: agent_id. Indicates context pressure '' @ [CHR 0xE2, CHR 0x80, CHR 0x94]
          @ '' rising counts correlate with longer conversations.''),
      instrument.make Histogram ''aigent.tier.classifier_confidence'' ''1''
         (''Classifier confidence score distribution per resolved tier. Label: tier (fast|standard|deep). ''
          @ ''Enables drift detection '' @ [CHR 0xE2, CHR 0x80, CHR 0x94]
          @ '' if deep-tier confidence drops, the classifier may be degrading.''),
      instrument.make Counter ''aigent.investigation.fanout_errors'' ''1''
         (''Agents that raised exceptions during RCA evidence fan-out. Label: agent_id. Distinct from ''
          @ ''fanout_agents_failed (which counts the supervisor fan-out path) '' @ [CHR 0xE2, CHR 0x80, CHR 0x94]
          @ '' this is investigation-specific.''),
      instrument.make Counter ''aigent.token_budget.exceeded'' ''1''
         (''Requests refused because the session token budget was exhausted (or Redis was unavailable and ''
          @ ''the budget failed closed). Label: session_id. Observable signal for the cap that was previously ''
          @ ''silent.'')]"

definition instruments :: "instrument list" where
  "instruments = request_metrics @ gateway_metrics @ investigation_metrics @ quality_metrics @ review_metrics"

definition instrument_names :: "string list" where
  "instrument_names = map in_name instruments"

section \<open>Lemmas\<close>

lemmas metric_tables = instruments_def request_metrics_def gateway_metrics_def investigation_metrics_def quality_metrics_def review_metrics_def instrument.defs

lemma bucketize_labels: "bucketize_confidence x \<in> {''high'', ''medium'', ''low''}"
  by (simp add: bucketize_confidence_def)

text \<open>No two instruments share a name, and each name is in the namespace.\<close>

lemma instruments_are_named_apart: "distinct instrument_names \<and> list_all (prefix ''aigent.'') instrument_names"
  by (simp add: instrument_names_def metric_tables)

text \<open>Tokens saved by the cache, which docs/METRICS.md leaves undefined, are counted by no instrument.\<close>

lemma tokens_saved_is_not_counted: "''aigent.cache.tokens_saved'' \<notin> set instrument_names"
  by (simp add: instrument_names_def metric_tables)

text \<open>What is measured as a time is a histogram.\<close>

lemma times_are_histograms:
  "list_all (\<lambda>i. in_unit i \<in> {''ms'', ''s''} \<longrightarrow> in_kind i = Histogram) instruments"
  by (simp add: instrument_names_def metric_tables)

end
