(* ===== verification/Spec2Isabelle.thy ===== *)
theory Spec2Isabelle
  imports EndToEnd RbacAudit ModelTier Evals SpecsStatus Scrub Tooling Clients Metrics
begin

text \<open>
  Verification of the agent squad: a two-tier service that answers questions about AWS and Kubernetes
  with language models.  All paths below are under src/ of the repository; definitions carry the names
  of the functions they model.

  \<^bold>\<open>The program.\<close>  An edge gateway (src/gateway) authenticates a request, admits it (rate window, daily
  budget, worker pool) and forwards it to the supervisor (src/supervisor), which holds a lock on the
  session, scans the question, classifies it and hands it to one specialist, to several whose answers a
  synthesizer merges, or to an investigation that collects evidence from several and scores its
  confidence.  A specialist (src/core/generic_agent.py) collects data and asks the model once, or runs
  the agentic loop, in which the model calls allowlisted tools of MCP servers; its answer passes the
  canary check, the output filter and the quality guard.  Around these stand the session's token budget,
  circuit breakers, a cache, conversation storage, a knowledge base fed by investigations, an
  Alertmanager webhook, a Slack entry point, and the repository's own gates and evaluation runners.

  \<^bold>\<open>How it is modelled.\<close>  A class is a record, an operation a function that returns its result and the
  new state; an exception is \<open>Inl\<close> of what is raised (\<open>exn\<close>, \<open>guard_error\<close>, \<open>http_error\<close>, and an
  error datatype where callers tell errors apart).  Python integers are \<open>int\<close>, floats are rationals, a
  dict whose order shows is an association list, JSON is the datatype of Json with parser and printer.
  Text is a list of characters read as bytes; InputScanner, where Unicode matters, works on code points
  (the text it hands on is taken modulo 256 again), and \<open>json.dumps\<close> writes every other byte than printable
  ASCII as an escape of its code.  The amounts of the budget script are exact rationals where Lua has
  doubles printed with fourteen digits.
  Code outside the repository (Redis, DynamoDB, PostgreSQL, Bedrock, MCP servers, HTTP, YAML, kubectl,
  clocks, random identifiers) is a parameter that acts on a world \<open>'s\<close>; the laws the code relies on
  are named predicates (\<open>redis_laws\<close>, \<open>cache_laws\<close> and the like), each shown to hold for a concrete
  store.  Spans, metrics and log records are left out of the operations; what they are is in Metrics
  and Logger.

  \<^bold>\<open>The theories\<close>, in the order of the layers:
  \<^item> shared: Prelude (Python's string, list and dict operations, Redis); Json, JsonRoundtrip, Decimal
    (values, \<open>json.loads\<close>, \<open>json.dumps\<close>, numbers); Regex (the part of \<open>re\<close> the scanners use, with its
    languages); CallGate (the locale between callers of unreliable services and the breaker); StepEvents.
  \<^item> guards of the edge: Admission (core/rate_limiter.py), EdgeAuth (gateway/auth.py, core/auth.py,
    core/internal_auth.py), WorkerPool and SupervisorClient (gateway/worker_pool.py,
    supervisor_client.py), Gateway (gateway/main.py).
  \<^item> resources: Config, ModelTier, TokenBudget, SessionLock, Breaker, Cache, StateStore, Health (the
    core files of those names).
  \<^item> guards of texts: Guardrail, InputScanner, OutputFilter, ResponseQuality, Canary.
  \<^item> data and tools: Datasources and McpTools (core/adapters.py), ToolSchema, Truncation, SessionPool and
    AgenticLoop (core/agentic_loop.py and its streaming twin), Bedrock, Capability (agent_config.py,
    capability_gate.py, registry.py), Skills (skills.py, triage.py), GenericAgent.
  \<^item> orchestration: Classifier, Rca (core/investigation.py), Investigate (supervisor/investigation.py), Kb
    (core/kb, distillation.py), Supervisor (agent.py, synthesizer.py, agent_tools.py), Alerts
    (alert_handler.py, slack_notifier.py), Server (supervisor/server.py, api/server.py), OpenAICompat,
    EndToEnd (the gateway's client connected to the service's routes).
  \<^item> repository tools: RbacAudit, Evals, SpecsStatus, Scrub, Tooling (scripts and evals), Clients
    (scripts/eval_squad.py, mcp-server).

  \<^bold>\<open>What is shown.\<close>  The loop answers every tool use it was given and ends within its bounds, the model
  only sees such conversations, and streaming gives the same answer, which this theory carries through
  the event encoder to the client's text.  A question is admitted by the scanner and the guardrail before
  it is answered or streamed, and the answer of one agent to a plain request has passed the output filter
  and the quality guard, at the specialist, in the supervisor's result and at the gateway.  This does not
  extend to streams, whose events skip these filters (\<open>streaming_skips_the_filters\<close>), nor to the merged
  answer of a fan-out, a new text of the model that only its guardrail sees.  Every text to or from a tool
  passed the guardrail, and a guardrail that clears nothing stops the squad before any agent, model or
  table is asked.  The tokens of every model reply are booked exactly once, and an outage of the model
  service opens the client's breaker on both call paths.  The gateway in front of the supervisor answers exactly as the supervisor's locked
  processing (a refinement), strangers change nothing, and one session runs one request.  Budget, rate
  window, worker pool, lock and breaker keep their invariants in every sequence of operations.  An
  investigation's confidence is capped by independent evidence, counted with a union-find proved against
  the classes of the linked signals.  Alerts are investigated once; health probes are spaced; log lines and
  kubectl tables read back; the gates of the repository pass exactly what they are meant to.  Theorems
  about faults state what the code does: \<open>transport_failures_never_open\<close>,
  \<open>investigations_never_feed_the_knowledge_base\<close> and \<open>breaker_warnings_raise\<close> are examples.

  \<^bold>\<open>Interfaces.\<close>  Locales state contracts: \<open>call_gate\<close> (interpreted on the breaker, used by the model
  client and the session pool), \<open>model_engine\<close> (both call paths of Bedrock), \<open>agent_directory\<close> (the
  registry read from its directory, used by the capability gate), \<open>text_guard\<close> (the input scanner) and its extension
  \<open>pattern_guard\<close> (the output filter and the quality guard, used by the agent).

  \<^bold>\<open>Bounds and fuel.\<close>  The JSON parser has twice the length of the text plus one as fuel
  (\<open>parse_value_enough\<close>: every printed value is read); a repetition in a pattern has the copies it must
  match plus the length of the rest plus one (\<open>rep_match_enough\<close>); the search for a free tool name has
  the number of registered names plus one, so one of its candidates is free; the chunks of an answer
  have its length.  Retries (\<open>max_retries\<close>, 3) and polls of a query (\<open>MAX_POLLS\<close>, 15) are the code's own
  bounds; the agentic loop recurses on its remaining steps.  Loops that shorten a text or a schema
  have a measure; \<open>find\<close> of the union-find is a partial function, proved to return.

  \<^bold>\<open>Not modelled.\<close>  Connections are opened and closed outside the model (the Redis client of the token
  budget, \<open>aclose\<close>, the pool of PostgreSQL), as are semaphores, metrics, spans, log handlers and audit
  records.  Tasks the code gathers concurrently run in the order of their list; interleavings are
  modelled where the code guards against them (SessionLock, WorkerPool, Breaker's replicas).  FastAPI's
  routing, pydantic's parsing beyond the declared fields, YAML, regular expressions that come from data
  files, file systems and kubectl are parameters or values.  Printing of progress and the command lines
  of the scripts are left out, as is \<open>main\<close> where it only prints or writes what a modelled function
  returns.
\<close>

section \<open>From the agentic loop to the client's stream\<close>

lemma concat_answer_texts:
  "list_all not_done pre \<Longrightarrow> concat (answer_texts (pre @ [StepDone r])) = streamed_answer (pre @ [StepDone r])"
  by (induction pre rule: answer_texts.induct) auto

lemma frame_text_make_chunk [simp]:
  "frame_text (make_chunk cid created model rl ct fin) = (case ct of Some t \<Rightarrow> t | None \<Rightarrow> [])"
  by (simp add: make_chunk_def)

text \<open>
  C10: what a streaming client reads is the answer: when the streamed run ends normally and the
  trace is off, the texts of the frames concatenate to the answer that the non-streaming run
  of the same request returns (or to nothing where that one returns its placeholder).
\<close>

theorem stream_carries_the_answer:
  assumes "run_agentic_loop_streaming env query history as tools = (evs, None, st)" "last evs = StepDone ''stop''"
    and "trace_off style"
  shows "\<exists>ans. run_agentic_loop env query history as tools = (Inr (ans, lp_messages st), st) \<and>
    (let got = concat (map frame_text (fst (sse_stream_agentic style cid created evs None model)))
     in got = ans \<or> got = [] \<and> ans = ''(no response)'')"
proof -
  obtain ans pre where a: "run_agentic_loop env query history as tools = (Inr (ans, lp_messages st), st)"
    "ans = streamed_answer evs \<or> streamed_answer evs = [] \<and> ans = ''(no response)''"
    "evs = pre @ [StepDone ''stop'']" "list_all not_done pre"
    using streaming_run_agrees [OF assms(1,2)] by blast
  have "concat (map frame_text (fst (sse_stream_agentic style cid created evs None model))) = streamed_answer evs"
    using sse_loop_off [OF assms(3), of "make_chunk cid created model" evs] concat_answer_texts [OF a(4), of "''stop''"]
    by (simp add: sse_defs o_def a(3))
  with a(1,2) show ?thesis by (auto simp: Let_def)
qed

theorem stream_carries_the_answer_witness:
  "\<exists>ans. fst (run_agentic_loop demo_loop ''q'' [] [] demo_tools) = Inr (ans, lp_messages (demo_end (user_content [] ''q''))) \<and>
     ans = ''done''"
  using stream_carries_the_answer [OF demo_streaming_run, of "''off''" "''c''" 0 "''m''"]
  by (auto simp: trace_off_def sse_stream_agentic_def make_chunk_def Let_def)

end
